(* ===== verification/Prelude.thy ===== *)
theory Prelude
  imports Complex_Main "HOL-Library.AList" "HOL-Library.Sublist" "HOL-Library.Multiset" "HOL-Library.Product_Lexorder"
begin

text \<open>
  The vocabulary every component of the development shares.

  \<^item> Python exceptions as values: \<open>py_error\<close> and \<open>'a result\<close>.
  \<^item> Insertion-ordered dictionaries: an association list, with \<open>map_of\<close> for \<open>d.get\<close>,
    \<open>AList.update\<close> for \<open>d[k] = v\<close> and \<open>dict_update\<close> for \<open>d.update(e)\<close>.
  \<^item> \<open>dedup\<close> for the idiom \<open>tuple(dict.fromkeys(xs))\<close>.
  \<^item> String operations of the standard library on ASCII text.
  \<^item> Identifiers: \<open>uuid4()\<close> values are numbered atoms, \<open>uuid5(NAMESPACE_URL, f"...")\<close>
    values are named by the literal prefix and the interpolated parts of the f-string.
  \<^item> JSON values, as stored in snapshots and payloads.
  \<^item> Binary floats are modelled by rationals, with \<open>round(x, n)\<close> rounding half to even;
    time stamps are integers counting microseconds, passed in as \<open>now\<close>.
\<close>

named_theorems result_simps \<open>evaluation of results and guards\<close>
named_theorems dict_simps \<open>lookup in updated dictionaries\<close>

section \<open>Errors as values\<close>

datatype py_error =
    ValueError string
  | TypeError string
  | VersionConflict int int
  | LookupErr string
  | CredentialNotFound string
  | InvalidTransition string
  | TraceError string
  | IntegrityError string
  | LeaseLost string

type_synonym 'a result = "py_error + 'a"

type_synonym timestamp = int

definition is_ok :: "'a result \<Rightarrow> bool" where
  "is_ok r \<longleftrightarrow> (case r of Inl _ \<Rightarrow> False | Inr _ \<Rightarrow> True)"

lemma is_ok_simps [simp, result_simps]: "\<not> is_ok (Inl e)" "is_ok (Inr x)"
  by (simp_all add: is_ok_def)

lemma is_ok_iff: "is_ok r \<longleftrightarrow> (\<exists>x. r = Inr x)"
  by (cases r) auto

lemma if_Inr_iff [result_simps]:
  "(if b then Inl e else r) = Inr x \<longleftrightarrow> \<not> b \<and> r = Inr x"
  by simp

text \<open>A comprehension whose element expression may raise: the first error wins.\<close>

fun traverse :: "('a \<Rightarrow> 'b result) \<Rightarrow> 'a list \<Rightarrow> 'b list result" where
  "traverse f [] = Inr []"
| "traverse f (x # xs) =
     (case f x of Inl e \<Rightarrow> Inl e
      | Inr y \<Rightarrow> (case traverse f xs of Inl e \<Rightarrow> Inl e | Inr ys \<Rightarrow> Inr (y # ys)))"

lemma traverse_Inr_length: "traverse f xs = Inr ys \<Longrightarrow> length ys = length xs"
  by (induction xs arbitrary: ys) (auto split: sum.splits)

lemma traverse_total:
  "(\<And>x. x \<in> set xs \<Longrightarrow> f x = Inr (g x)) \<Longrightarrow> traverse f xs = Inr (map g xs)"
  by (induction xs) auto

text \<open>A loop over a list whose body may raise, with the loop state passed along.\<close>

fun foldM :: "('s \<Rightarrow> 'a \<Rightarrow> 's result) \<Rightarrow> 's \<Rightarrow> 'a list \<Rightarrow> 's result" where
  "foldM f s [] = Inr s"
| "foldM f s (x # xs) = (case f s x of Inl e \<Rightarrow> Inl e | Inr s' \<Rightarrow> foldM f s' xs)"

text \<open>
  Loops that append to an output list: if every iteration appends what \<open>emit\<close> says (or raises with
  it), the loop appends the concatenation of the emitted lists, in order.
\<close>

locale append_loop =
  fixes step :: "'s \<Rightarrow> 'a \<Rightarrow> 's result"
    and out :: "'s \<Rightarrow> 'v list"
    and emit :: "'a \<Rightarrow> 'v list result"
  assumes step_emits: "emit x = Inr vs \<Longrightarrow> \<exists>s'. step s x = Inr s' \<and> out s' = out s @ vs"
    and step_raises: "emit x = Inl e \<Longrightarrow> step s x = Inl e"
begin

lemma loop_out:
  "foldM step s xs = Inr s' \<Longrightarrow> \<exists>vss. traverse emit xs = Inr vss \<and> out s' = out s @ concat vss"
proof (induction xs arbitrary: s)
  case (Cons x xs)
  show ?case
  proof (cases "emit x")
    case (Inl e)
    with Cons.prems step_raises [OF Inl, of s] show ?thesis by simp
  next
    case (Inr vs)
    from step_emits [OF Inr, of s] obtain s1 where "step s x = Inr s1" "out s1 = out s @ vs" by blast
    with Cons.prems Cons.IH [of s1] Inr show ?thesis by auto
  qed
qed simp

lemma loop_result:
  assumes "foldM step s xs = Inr s'" and "\<And>x. x \<in> set xs \<Longrightarrow> emit x = Inr (g x)"
  shows "out s' = out s @ concat (map g xs)"
  using loop_out [OF assms(1)] traverse_total [of xs emit g] assms(2) by auto

lemma loop_total:
  "(\<And>x. x \<in> set xs \<Longrightarrow> \<exists>vs. emit x = Inr vs) \<Longrightarrow> \<exists>s'. foldM step s xs = Inr s'"
proof (induction xs arbitrary: s)
  case (Cons x xs)
  then obtain vs where vs: "emit x = Inr vs" by auto
  from step_emits [OF vs, of s] obtain s1 where "step s x = Inr s1" by blast
  with Cons show ?case by auto
qed simp

end

section \<open>Insertion-ordered dictionaries\<close>

type_synonym ('k, 'v) dict = "('k \<times> 'v) list"

definition dict_wf :: "('k, 'v) dict \<Rightarrow> bool" where
  "dict_wf d \<longleftrightarrow> distinct (map fst d)"

fun dict_update :: "('k, 'v) dict \<Rightarrow> ('k, 'v) dict \<Rightarrow> ('k, 'v) dict" where
  "dict_update d [] = d"
| "dict_update d ((k, v) # e) = dict_update (AList.update k v d) e"

definition dict_of :: "('a \<Rightarrow> 'k) \<Rightarrow> 'a list \<Rightarrow> ('k, 'a) dict" where
  "dict_of key xs = dict_update [] (map (\<lambda>x. (key x, x)) xs)"

definition dict_pop :: "'k \<Rightarrow> ('k, 'v) dict \<Rightarrow> ('k, 'v) dict" where
  "dict_pop k d = filter (\<lambda>p. fst p \<noteq> k) d"

lemma map_of_update [dict_simps]:
  "map_of (AList.update k v d) = (map_of d)(k \<mapsto> v)"
  by (rule update_conv')

lemma update_Cons_simps [dict_simps]:
  "AList.update k v [] = [(k, v)]"
  "AList.update k v ((k', v') # d) =
     (if k' = k then (k, v) # d else (k', v') # AList.update k v d)"
  by simp_all

lemma dict_wf_update [simp]: "dict_wf d \<Longrightarrow> dict_wf (AList.update k v d)"
  by (simp add: dict_wf_def distinct_update)

lemma dict_wf_Nil [simp]: "dict_wf []"
  by (simp add: dict_wf_def)

lemma dict_wf_dict_update [simp]: "dict_wf d \<Longrightarrow> dict_wf (dict_update d e)"
  by (induction d e rule: dict_update.induct) simp_all

lemma map_of_dict_update [dict_simps]:
  "dict_wf e \<Longrightarrow> map_of (dict_update d e) = map_of d ++ map_of e"
proof (induction d e rule: dict_update.induct)
  case (2 d k v e)
  then have k: "map_of e k = None" and e: "dict_wf e"
    by (auto simp: dict_wf_def map_of_eq_None_iff)
  have "map_of (dict_update (AList.update k v d) e) = (map_of d)(k \<mapsto> v) ++ map_of e"
    using "2.IH" [OF e] by (simp only: map_of_update)
  also have "\<dots> = map_of d ++ (map_of e)(k \<mapsto> v)"
    using k by (auto simp: map_add_def fun_eq_iff split: option.splits)
  also have "(map_of e)(k \<mapsto> v) = map_of ((k, v) # e)"
    by (simp add: fun_eq_iff)
  finally show ?case by (simp only: dict_update.simps)
qed simp

lemma keys_update: "fst ` set (AList.update k v d) = insert k (fst ` set d)"
  by (induction d) (auto split: if_splits)

lemma keys_dict_update: "fst ` set (dict_update d e) = fst ` set d \<union> fst ` set e"
  by (induction d e rule: dict_update.induct) (auto simp: keys_update)

lemma entries_update: "set (AList.update k v d) \<subseteq> insert (k, v) (set d)"
  by (induction d) auto

lemma entries_dict_update: "set (dict_update d e) \<subseteq> set d \<union> set e"
proof (induction d e rule: dict_update.induct)
  case (2 d k v e)
  then show ?case using entries_update [of k v d] by auto
qed simp

lemma dict_wf_dict_of [simp]: "dict_wf (dict_of key xs)"
  by (simp add: dict_of_def)

lemma entries_dict_of: "set (dict_of key xs) \<subseteq> (\<lambda>x. (key x, x)) ` set xs"
  using entries_dict_update [of "[]" "map (\<lambda>x. (key x, x)) xs"] by (auto simp: dict_of_def)

lemma keys_dict_of: "fst ` set (dict_of key xs) = key ` set xs"
  using keys_dict_update [of "[]" "map (\<lambda>x. (key x, x)) xs"] by (simp add: dict_of_def image_image)

text \<open>Updating with an association list whose keys are new appends it.\<close>

lemma update_new: "k \<notin> fst ` set d \<Longrightarrow> AList.update k v d = d @ [(k, v)]"
  by (induction d) auto

lemma dict_update_fresh:
  "distinct (map fst e) \<Longrightarrow> fst ` set d \<inter> fst ` set e = {} \<Longrightarrow> dict_update d e = d @ e"
proof (induction d e rule: dict_update.induct)
  case (2 d k v e)
  then have "AList.update k v d = d @ [(k, v)]" by (intro update_new) auto
  with 2 show ?case by auto
qed simp

lemma dict_of_distinct: "distinct (map key xs) \<Longrightarrow> dict_of key xs = map (\<lambda>x. (key x, x)) xs"
  by (simp add: dict_of_def dict_update_fresh comp_def)

lemma map_of_dict_pop [dict_simps]: "map_of (dict_pop k d) = (map_of d)(k := None)"
  by (induction d) (auto simp: dict_pop_def fun_eq_iff)

section \<open>Order-preserving deduplication\<close>

fun dedup :: "'a list \<Rightarrow> 'a list" where
  "dedup [] = []"
| "dedup (x # xs) = x # filter (\<lambda>y. y \<noteq> x) (dedup xs)"

lemma set_dedup [simp]: "set (dedup xs) = set xs"
  by (induction xs) auto

lemma distinct_dedup [simp]: "distinct (dedup xs)"
  by (induction xs) auto

lemma dedup_distinct: "distinct xs \<Longrightarrow> dedup xs = xs"
proof (induction xs)
  case (Cons x xs)
  then have "filter (\<lambda>y. y \<noteq> x) xs = xs" by (auto simp: filter_id_conv)
  with Cons show ?case by simp
qed simp

lemma dedup_idem [simp]: "dedup (dedup xs) = dedup xs"
  by (simp add: dedup_distinct)

lemma dedup_Nil_iff [simp]: "dedup xs = [] \<longleftrightarrow> xs = []"
  by (cases xs) simp_all

lemma hd_dedup: "xs \<noteq> [] \<Longrightarrow> hd (dedup xs) = hd xs"
  by (cases xs) simp_all

lemma subseq_dedup: "subseq (dedup xs) xs"
proof (induction xs)
  case (Cons x xs)
  then have "subseq (filter (\<lambda>y. y \<noteq> x) (dedup xs)) xs"
    using subseq_filter_left [of "\<lambda>y. y \<noteq> x" "dedup xs"] Cons.IH by (blast intro: subseq_order.order_trans)
  then show ?case by simp
qed simp

section \<open>Sorting by a key\<close>

text \<open>The head of a list sorted by a key has the least key.\<close>

lemma hd_sort_key_in: "xs \<noteq> [] \<Longrightarrow> hd (sort_key f xs) \<in> set xs"
  by (metis hd_in_set set_sort length_0_conv length_sort)

lemma hd_sort_key_least: "y \<in> set xs \<Longrightarrow> f (hd (sort_key f xs)) \<le> f y"
proof -
  assume y: "y \<in> set xs"
  obtain z zs where z: "sort_key f xs = z # zs"
    using y by (metis length_pos_if_in_set length_sort neq_Nil_conv length_0_conv nat_less_le)
  have "sorted (map f (z # zs))" by (metis z sorted_sort_key)
  moreover have "y \<in> set (z # zs)" using y by (metis z set_sort)
  ultimately show ?thesis using z by auto
qed

section \<open>Strings\<close>

text \<open>
  Text is a list of bytes. The case operations act on ASCII letters and leave every other
  byte alone; \<open>strip\<close> and \<open>split\<close> use the ASCII white space characters.
\<close>

definition lower_char :: "char \<Rightarrow> char" where
  "lower_char c = (let n = of_char c :: nat in if 65 \<le> n \<and> n \<le> 90 then char_of (n + 32) else c)"

definition casefold :: "string \<Rightarrow> string" where
  "casefold = map lower_char"

definition is_space :: "char \<Rightarrow> bool" where
  "is_space c = (let n = of_char c :: nat in n = 32 \<or> (9 \<le> n \<and> n \<le> 13) \<or> (28 \<le> n \<and> n \<le> 31))"

definition lstrip :: "string \<Rightarrow> string" where
  "lstrip = dropWhile is_space"

definition strip :: "string \<Rightarrow> string" where
  "strip s = rev (lstrip (rev (lstrip s)))"

definition blank :: "string \<Rightarrow> bool" where
  "blank s \<longleftrightarrow> strip s = []"

text \<open>\<open>s.split()\<close> and \<open>" ".join(xs)\<close>.\<close>

fun split_words :: "string \<Rightarrow> string \<Rightarrow> string list" where
  "split_words cur [] = (if cur = [] then [] else [cur])"
| "split_words cur (c # cs) =
     (if is_space c then (if cur = [] then split_words [] cs else cur # split_words [] cs)
      else split_words (cur @ [c]) cs)"

definition split_ws :: "string \<Rightarrow> string list" where
  "split_ws s = split_words [] s"

fun join_sp :: "string list \<Rightarrow> string" where
  "join_sp [] = []"
| "join_sp [w] = w"
| "join_sp (w # ws) = w @ CHR '' '' # join_sp ws"

definition word :: "string \<Rightarrow> bool" where
  "word w \<longleftrightarrow> w \<noteq> [] \<and> (\<forall>c \<in> set w. \<not> is_space c)"

lemma is_space_blank [simp]: "is_space (CHR '' '')"
  by (simp add: is_space_def)

lemma split_words_words: "\<forall>c \<in> set cur. \<not> is_space c \<Longrightarrow> \<forall>w \<in> set (split_words cur s). word w"
proof (induction cur s rule: split_words.induct)
  case (1 cur)
  then show ?case by (simp add: word_def)
next
  case (2 cur c cs)
  show ?case
  proof (cases "is_space c")
    case True
    with 2 show ?thesis by (cases "cur = []") (simp_all add: word_def)
  next
    case False
    with 2 show ?thesis by simp
  qed
qed

lemma split_ws_words: "\<forall>w \<in> set (split_ws s). word w"
  unfolding split_ws_def by (rule split_words_words) simp

lemma split_words_append_word:
  "\<forall>c \<in> set w. \<not> is_space c \<Longrightarrow> split_words cur (w @ s) = split_words (cur @ w) s"
  by (induction w arbitrary: cur) auto

lemma split_join_words: "\<forall>w \<in> set ws. word w \<Longrightarrow> split_ws (join_sp ws) = ws"
proof (induction ws rule: join_sp.induct)
  case (2 w)
  then show ?case using split_words_append_word [of w "[]" "[]"] by (simp add: split_ws_def word_def)
next
  case (3 w v ws)
  then show ?case
    using split_words_append_word [of w "[]" "CHR '' '' # join_sp (v # ws)"]
    by (simp add: split_ws_def word_def)
qed (simp add: split_ws_def)

lemma join_sp_append:
  "xs \<noteq> [] \<Longrightarrow> ys \<noteq> [] \<Longrightarrow> join_sp (xs @ ys) = join_sp xs @ CHR '' '' # join_sp ys"
proof (induction xs rule: join_sp.induct)
  case (2 w)
  then show ?case by (cases ys) auto
qed auto

text \<open>\<open>needle in haystack\<close>, \<open>str.startswith\<close> and \<open>str.endswith\<close>.\<close>

definition contains :: "string \<Rightarrow> string \<Rightarrow> bool" where
  "contains hay needle \<longleftrightarrow> sublist needle hay"

definition starts_with :: "string \<Rightarrow> string \<Rightarrow> bool" where
  "starts_with s p \<longleftrightarrow> take (length p) s = p"

definition ends_with :: "string \<Rightarrow> string \<Rightarrow> bool" where
  "ends_with s p \<longleftrightarrow> length p \<le> length s \<and> drop (length s - length p) s = p"

fun find_sub :: "string \<Rightarrow> string \<Rightarrow> bool" where
  "find_sub [] needle = (needle = [])"
| "find_sub (c # cs) needle = (take (length needle) (c # cs) = needle \<or> find_sub cs needle)"

lemma find_sub_iff: "find_sub hay needle \<longleftrightarrow> sublist needle hay"
proof (induction hay)
  case (Cons c cs)
  have "take (length needle) (c # cs) = needle \<longleftrightarrow> prefix needle (c # cs)"
    by (metis append_eq_conv_conj prefix_def append_take_drop_id)
  with Cons show ?case by (simp add: sublist_Cons_right)
qed auto

lemma contains_code [code]: "contains hay needle = find_sub hay needle"
  by (simp add: contains_def find_sub_iff)

lemma contains_append_left [simp]: "contains a n \<Longrightarrow> contains (a @ b) n"
  by (simp add: contains_def sublist_appendI sublist_append)

lemma contains_append_right: "contains b n \<Longrightarrow> contains (a @ b) n"
  by (simp add: contains_def sublist_append)

lemma contains_refl [simp]: "contains n n"
  by (simp add: contains_def)

lemma casefold_append [simp]: "casefold (a @ b) = casefold a @ casefold b"
  by (simp add: casefold_def)

lemma dropWhile_all_iff: "dropWhile P xs = [] \<longleftrightarrow> (\<forall>x \<in> set xs. P x)"
  by (induction xs) auto

lemma blank_iff: "blank s \<longleftrightarrow> (\<forall>c \<in> set s. is_space c)"
proof -
  have "blank s \<longleftrightarrow> (\<forall>c \<in> set (dropWhile is_space s). is_space c)"
    by (simp add: blank_def strip_def lstrip_def dropWhile_all_iff)
  also have "\<dots> \<longleftrightarrow> (\<forall>c \<in> set s. is_space c)"
    by (induction s) auto
  finally show ?thesis .
qed

lemma blank_append [simp]: "blank (a @ b) \<longleftrightarrow> blank a \<and> blank b"
  by (auto simp: blank_iff)

lemma split_words_append_space:
  "is_space c \<Longrightarrow> split_words cur (a @ c # b) = split_words cur a @ split_words [] b"
  by (induction cur a rule: split_words.induct) auto

lemma split_ws_append: "split_ws (a @ '' '' @ b) = split_ws a @ split_ws b"
  by (simp add: split_ws_def split_words_append_space)

lemma contains_trans: "contains a b \<Longrightarrow> contains b c \<Longrightarrow> contains a c"
  unfolding contains_def by (rule sublist_order.order_trans)

lemma contains_join: "w \<in> set ws \<Longrightarrow> contains (join_sp ws) w"
proof (induction ws rule: join_sp.induct)
  case (3 w' v ws)
  show ?case
  proof (cases "w = w'")
    case False
    then have "contains (join_sp (v # ws)) w" using 3 by simp
    then show ?thesis using contains_append_right [of "join_sp (v # ws)" w "w' @ '' ''"] by simp
  qed simp
qed simp_all

lemma contains_casefold: "contains a b \<Longrightarrow> contains (casefold a) (casefold b)"
  unfolding contains_def sublist_def by (elim exE, simp only: casefold_append) blast

lemma split_words_sub: "w \<in> set (split_words cur s) \<Longrightarrow> contains (cur @ s) w"
proof (induction cur s rule: split_words.induct)
  case (2 cur c cs)
  show ?case
  proof (cases "is_space c")
    case True
    then consider "w = cur" | "w \<in> set (split_words [] cs)"
      using 2 by (auto split: if_splits)
    then show ?thesis
    proof cases
      case 2
      then have "contains cs w" using \<open>is_space c\<close> "2.IH" by (cases "cur = []") simp_all
      then show ?thesis using contains_append_right [of cs w "cur @ [c]"] by simp
    qed simp
  next
    case False
    then show ?thesis using 2 by simp
  qed
qed (auto split: if_splits)

section \<open>Identifiers\<close>

datatype uuid = UUID nat | UUID5 string "uuid_part list"
  and uuid_part = PId uuid | PInt int | PStr string

section \<open>JSON values\<close>

datatype json =
    JNull | JBool bool | JInt int | JNum rat | JStr string
  | JTime timestamp
  | JList "json list" | JObj "(string \<times> json) list"

text \<open>
  \<open>JTime t\<close> is the ISO string that \<open>datetime.isoformat()\<close> prints for the instant \<open>t\<close>, and
  that \<open>datetime.fromisoformat\<close> reads back.
\<close>

definition jget :: "string \<Rightarrow> (string \<times> json) list \<Rightarrow> json" where
  "jget k obj = (case map_of obj k of None \<Rightarrow> JNull | Some v \<Rightarrow> v)"

lemma jget_simps [simp, dict_simps]:
  "jget k [] = JNull"
  "jget k ((k', v) # obj) = (if k' = k then v else jget k obj)"
  by (simp_all add: jget_def)

definition truthy :: "json \<Rightarrow> bool" where
  "truthy j = (case j of JNull \<Rightarrow> False | JBool b \<Rightarrow> b | JInt n \<Rightarrow> n \<noteq> 0 | JNum q \<Rightarrow> q \<noteq> 0
     | JStr s \<Rightarrow> s \<noteq> [] | JTime _ \<Rightarrow> True | JList xs \<Rightarrow> xs \<noteq> [] | JObj o' \<Rightarrow> o' \<noteq> [])"

text \<open>
  \<open>int(s)\<close> for text: white space is stripped, a sign is allowed, and single underscores may
  separate digits. \<open>py_int\<close> is \<open>int(x)\<close> for any JSON value.
\<close>

fun parse_digits :: "int \<Rightarrow> bool \<Rightarrow> string \<Rightarrow> int option" where
  "parse_digits acc prev [] = (if prev then Some acc else None)"
| "parse_digits acc prev (c # cs) =
     (let n = of_char c :: int
      in if 48 \<le> n \<and> n \<le> 57 then parse_digits (acc * 10 + (n - 48)) True cs
         else if n = 95 \<and> prev then parse_digits acc False cs else None)"

definition parse_int :: "string \<Rightarrow> int option" where
  "parse_int s = (case strip s of
       [] \<Rightarrow> None
     | c # cs \<Rightarrow> if c = CHR ''-'' then map_option uminus (parse_digits 0 False cs)
                 else if c = CHR ''+'' then parse_digits 0 False cs
                 else parse_digits 0 False (c # cs))"

definition py_int :: "json \<Rightarrow> int result" where
  "py_int j = (case j of
       JBool b \<Rightarrow> Inr (if b then 1 else 0)
     | JInt n \<Rightarrow> Inr n
     | JNum q \<Rightarrow> Inr (if q < 0 then \<lceil>q\<rceil> else \<lfloor>q\<rfloor>)
     | JStr s \<Rightarrow> (case parse_int s of None \<Rightarrow> Inl (ValueError ''int'') | Some n \<Rightarrow> Inr n)
     | JTime _ \<Rightarrow> Inl (ValueError ''int'')
     | _ \<Rightarrow> Inl (TypeError ''int''))"

text \<open>
  \<open>d.get(k, default)\<close>, \<open>str(x)\<close> and \<open>float(s)\<close>. The rendering of floats, lists and dictionaries
  by \<open>str\<close> is left to the argument \<open>other\<close>.
\<close>

definition jget_or :: "json \<Rightarrow> string \<Rightarrow> (string \<times> json) list \<Rightarrow> json" where
  "jget_or d k obj = (case map_of obj k of None \<Rightarrow> d | Some v \<Rightarrow> v)"

lemma jget_or_simps [simp, dict_simps]:
  "jget_or d k [] = d"
  "jget_or d k ((k', v) # obj) = (if k' = k then v else jget_or d k obj)"
  by (simp_all add: jget_or_def)

fun show_nat :: "nat \<Rightarrow> string" where
  "show_nat n = (if n < 10 then [char_of (48 + n)]
                 else show_nat (n div 10) @ [char_of (48 + n mod 10)])"

declare show_nat.simps [simp del]

definition show_int :: "int \<Rightarrow> string" where
  "show_int n = (if n < 0 then CHR ''-'' # show_nat (nat (- n)) else show_nat (nat n))"

definition py_str :: "(json \<Rightarrow> string) \<Rightarrow> json \<Rightarrow> string" where
  "py_str other j = (case j of JStr s \<Rightarrow> s | JNull \<Rightarrow> ''None''
     | JBool b \<Rightarrow> if b then ''True'' else ''False'' | JInt n \<Rightarrow> show_int n | _ \<Rightarrow> other j)"

lemma py_str_JStr [simp]: "py_str other (JStr s) = s"
  by (simp add: py_str_def)

datatype pyfloat = Fin rat | PosInf | NegInf | NaN

fun split_at :: "char \<Rightarrow> string \<Rightarrow> string \<times> string option" where
  "split_at c [] = ([], None)"
| "split_at c (x # xs) =
     (if x = c then ([], Some xs) else let (a, b) = split_at c xs in (x # a, b))"

definition opt_digits :: "string \<Rightarrow> int option" where
  "opt_digits s = (if s = [] then Some 0 else parse_digits 0 False s)"

definition digit_count :: "string \<Rightarrow> nat" where
  "digit_count s = length (filter (\<lambda>c. c \<noteq> CHR ''_'') s)"

definition parse_exponent :: "string option \<Rightarrow> int option" where
  "parse_exponent e = (case e of None \<Rightarrow> Some 0
     | Some s \<Rightarrow> (case s of [] \<Rightarrow> None
         | c # cs \<Rightarrow> if c = CHR ''-'' then map_option uminus (parse_digits 0 False cs)
                     else if c = CHR ''+'' then parse_digits 0 False cs
                     else parse_digits 0 False (c # cs)))"

definition pow10 :: "int \<Rightarrow> rat" where
  "pow10 e = (if e < 0 then 1 / 10 ^ nat (- e) else 10 ^ nat e)"

definition parse_decimal :: "string \<Rightarrow> rat option" where
  "parse_decimal s =
     (let (mant, e) = split_at CHR ''e'' s;
          (whole, frac) = split_at CHR ''.'' mant;
          f = (case frac of None \<Rightarrow> [] | Some x \<Rightarrow> x)
      in if whole = [] \<and> f = [] then None
         else case (opt_digits whole, opt_digits f, parse_exponent e) of
                (Some w, Some d, Some x) \<Rightarrow>
                  Some ((of_int w + of_int d / 10 ^ digit_count f) * pow10 x)
              | _ \<Rightarrow> None)"

definition parse_float :: "string \<Rightarrow> pyfloat option" where
  "parse_float s =
     (let t = casefold (strip s);
          neg = (t \<noteq> [] \<and> hd t = CHR ''-'');
          body = (if t \<noteq> [] \<and> hd t \<in> {CHR ''-'', CHR ''+''} then tl t else t)
      in if body = ''inf'' \<or> body = ''infinity'' then Some (if neg then NegInf else PosInf)
         else if body = ''nan'' then Some NaN
         else map_option (\<lambda>q. Fin (if neg then - q else q)) (parse_decimal body))"

section \<open>Rounding\<close>

definition round_half_even :: "rat \<Rightarrow> int" where
  "round_half_even x =
     (let f = \<lfloor>x\<rfloor>; d = x - of_int f
      in if d < 1 / 2 then f else if d > 1 / 2 then f + 1 else if even f then f else f + 1)"

definition py_round :: "rat \<Rightarrow> nat \<Rightarrow> rat" where
  "py_round x n = of_int (round_half_even (x * 10 ^ n)) / 10 ^ n"

definition clamp01 :: "rat \<Rightarrow> rat" where
  "clamp01 x = min 1 (max 0 x)"

lemma clamp01_range [simp]: "0 \<le> clamp01 x" "clamp01 x \<le> 1"
  by (simp_all add: clamp01_def)

lemma clamp01_id: "0 \<le> x \<Longrightarrow> x \<le> 1 \<Longrightarrow> clamp01 x = x"
  by (simp add: clamp01_def)

lemma round_half_even_of_int [simp]: "round_half_even (of_int k) = k"
  by (simp add: round_half_even_def)

lemma round_half_even_mono: "x \<le> y \<Longrightarrow> round_half_even x \<le> round_half_even y"
proof -
  assume le: "x \<le> y"
  then have fl: "\<lfloor>x\<rfloor> \<le> \<lfloor>y\<rfloor>" by (rule floor_mono)
  have x1: "round_half_even x \<le> \<lfloor>x\<rfloor> + 1" and y0: "\<lfloor>y\<rfloor> \<le> round_half_even y"
    by (auto simp: round_half_even_def Let_def)
  show ?thesis
  proof (cases "\<lfloor>x\<rfloor> = \<lfloor>y\<rfloor>")
    case True
    then show ?thesis using le by (auto simp: round_half_even_def Let_def)
  next
    case False
    with fl x1 y0 show ?thesis by linarith
  qed
qed

lemma py_round_mono: "x \<le> y \<Longrightarrow> py_round x n \<le> py_round y n"
  by (simp add: py_round_def divide_right_mono round_half_even_mono mult_right_mono)

lemma py_round_int [simp]: "py_round (of_int k) n = of_int k"
proof -
  have "(of_int k :: rat) * 10 ^ n = of_int (k * 10 ^ n)" by simp
  then show ?thesis unfolding py_round_def by (simp only: round_half_even_of_int) simp
qed

lemma py_round_0 [simp]: "py_round 0 n = 0"
  using py_round_int [of 0 n] by simp

lemma py_round_1 [simp]: "py_round 1 n = 1"
  using py_round_int [of 1 n] by simp

lemma py_round_unit: "0 \<le> x \<Longrightarrow> x \<le> 1 \<Longrightarrow> 0 \<le> py_round x n \<and> py_round x n \<le> 1"
  using py_round_mono [of 0 x n] py_round_mono [of x 1 n] by simp

end
