(* ===== verification/Research_State.thy ===== *)
theory Research_State
  imports Prelude
begin

text \<open>
  The research state and its reducer: \<open>app/domain/state.py\<close> and
  \<open>app/agent/reducers/state_reducer.py\<close>.

  Each Pydantic model is a record together with a predicate for its field constraints and
  model validator; \<open>model_validate\<close> is the constructor of \<open>ResearchState\<close> (field constraints,
  then \<open>validate_state_invariants\<close> in the order of its checks). \<open>apply_patch\<close> is the reducer:
  compare-and-swap on the version, dictionary merge of claims and gaps, field replacement, and
  revalidation. The lemmas show that every accepted patch yields a state satisfying the declared
  invariant, that a version is consumed by exactly one patch, and that the two merges refine
  updates of finite maps while keeping the order of known entries.
\<close>

section \<open>Enumerations\<close>

datatype run_status =
    SCreated | SQueued | SInterrupted | SResearching | SWriting | SVerifying | SCompleted
  | SCompletedWithLimitations | SFailed | SCancelled | SCredentialsRequired

datatype research_phase =
    PhInit | PhAnalyzeQuery | PhPlan | PhResearch | PhEvaluate | PhWrite | PhVerify | PhFinalize

datatype knowledge_status = KSupported | KPartial | KDisputed | KStale

datatype gap_type = GTMissing | GTWeak | GTStale | GTConflict | GTInsufficientDiversity

datatype gap_status = GSOpen | GSResolving | GSResolved | GSAbandoned

datatype action_type =
    ARetrieveMemory | ASearchDatabase | ASearchWeb | AReadSource | AExtract | ASaveEvidence
  | AAnalyzeData | AReplan | AEvaluate | AWrite | AStop

definition EXTERNAL_ACTIONS :: "action_type set" where
  "EXTERNAL_ACTIONS = {ASearchWeb, AReadSource, ASaveEvidence, AAnalyzeData}"

datatype action_status = ASProposed | ASSelected | ASRunning | ASCompleted | ASBlocked | ASFailed

datatype stop_reason =
    SRQualityMet | SRCompletedWithLimitations | SRBudgetExhausted | SRStagnation
  | SRSourcesExhausted | SRCancelled | SRFatalError | SRCredentialsRequired
  | SRProviderCapabilityInsufficient

section \<open>Models\<close>

definition score_ok :: "rat \<Rightarrow> bool" where
  "score_ok x \<longleftrightarrow> 0 \<le> x \<and> x \<le> 1"

definition text_ok :: "nat \<Rightarrow> string \<Rightarrow> bool" where
  "text_ok hi s \<longleftrightarrow> 1 \<le> length s \<and> length s \<le> hi"

record known_claim =
  kc_claim_id :: uuid
  kc_question_id :: uuid
  kc_dimension_key :: string
  kc_status :: knowledge_status
  kc_confidence :: rat
  kc_evidence_ids :: "uuid list"
  kc_owner_keys :: "string list"

definition validate_known_claim :: "known_claim \<Rightarrow> known_claim result" where
  "validate_known_claim c =
     (if \<not> text_ok 100 (kc_dimension_key c) then Inl (ValueError ''dimension_key'')
      else if \<not> score_ok (kc_confidence c) then Inl (ValueError ''confidence'')
      else if kc_status c = KSupported \<and> kc_evidence_ids c = []
        then Inl (ValueError ''a supported claim must reference accepted evidence'')
      else Inr c)"

record research_gap =
  rg_gap_id :: uuid
  rg_question_id :: uuid
  rg_dimension_key :: string
  rg_gap_type :: gap_type
  rg_description :: string
  rg_acceptance_criteria :: string
  rg_severity :: rat
  rg_expected_gain :: rat
  rg_resolution_attempts :: int
  rg_status :: gap_status
  rg_resolved_by :: "uuid list"

definition validate_research_gap :: "research_gap \<Rightarrow> research_gap result" where
  "validate_research_gap g =
     (if \<not> text_ok 100 (rg_dimension_key g) then Inl (ValueError ''dimension_key'')
      else if \<not> text_ok 1000 (rg_description g) then Inl (ValueError ''description'')
      else if \<not> text_ok 1000 (rg_acceptance_criteria g)
        then Inl (ValueError ''acceptance_criteria'')
      else if \<not> score_ok (rg_severity g) then Inl (ValueError ''severity'')
      else if \<not> score_ok (rg_expected_gain g) then Inl (ValueError ''expected_information_gain'')
      else if rg_resolution_attempts g < 0 then Inl (ValueError ''resolution_attempts'')
      else if rg_status g = GSResolved \<and> rg_resolved_by g = []
        then Inl (ValueError ''a resolved gap must identify the claims that resolved it'')
      else Inr g)"

record next_action =
  na_action_id :: uuid
  na_action_type :: action_type
  na_target_gap_ids :: "uuid list"
  na_tool_name :: "string option"
  na_expected_output :: string
  na_expected_gain :: rat
  na_estimated_cost :: rat
  na_duplicate_key :: "string option"
  na_public_summary :: string
  na_status :: action_status

definition opt_text_ok :: "nat \<Rightarrow> string option \<Rightarrow> bool" where
  "opt_text_ok hi t \<longleftrightarrow> (case t of None \<Rightarrow> True | Some s \<Rightarrow> length s \<le> hi)"

definition validate_next_action :: "next_action \<Rightarrow> next_action result" where
  "validate_next_action a =
     (if \<not> opt_text_ok 100 (na_tool_name a) then Inl (ValueError ''tool_name'')
      else if \<not> text_ok 1000 (na_expected_output a) then Inl (ValueError ''expected_output'')
      else if \<not> score_ok (na_expected_gain a) then Inl (ValueError ''expected_information_gain'')
      else if na_estimated_cost a < 0 then Inl (ValueError ''estimated_cost'')
      else if \<not> opt_text_ok 256 (na_duplicate_key a) then Inl (ValueError ''duplicate_key'')
      else if \<not> text_ok 1000 (na_public_summary a)
        then Inl (ValueError ''public_decision_summary'')
      else if na_action_type a \<in> EXTERNAL_ACTIONS \<and> na_target_gap_ids a = []
        then Inl (ValueError ''an external action must target at least one research gap'')
      else if na_action_type a \<in> EXTERNAL_ACTIONS
           \<and> (case na_tool_name a of None \<Rightarrow> True | Some t \<Rightarrow> t = [])
        then Inl (ValueError ''an external action must name its tool'')
      else Inr a)"

record budget_limits =
  bl_max_iterations :: int
  bl_max_searches :: int
  bl_max_logical_queries :: int
  bl_max_provider_requests :: int
  bl_max_pages :: int
  bl_max_pages_fetched :: int
  bl_max_pages_extracted :: int
  bl_max_extraction_calls :: int
  bl_max_verification_calls :: int
  bl_max_scheduler_actions :: int
  bl_max_model_tokens :: int
  bl_max_wall_clock_seconds :: int

definition default_budget_limits :: budget_limits where
  "default_budget_limits =
     \<lparr>bl_max_iterations = 8, bl_max_searches = 15, bl_max_logical_queries = 15,
      bl_max_provider_requests = 30, bl_max_pages = 30, bl_max_pages_fetched = 30,
      bl_max_pages_extracted = 15, bl_max_extraction_calls = 15, bl_max_verification_calls = 5,
      bl_max_scheduler_actions = 60, bl_max_model_tokens = 100000,
      bl_max_wall_clock_seconds = 720\<rparr>"

definition budget_limits_ok :: "budget_limits \<Rightarrow> bool" where
  "budget_limits_ok b \<longleftrightarrow>
     1 \<le> bl_max_iterations b \<and> 0 \<le> bl_max_searches b \<and> 0 \<le> bl_max_logical_queries b
     \<and> 0 \<le> bl_max_provider_requests b \<and> 0 \<le> bl_max_pages b \<and> 0 \<le> bl_max_pages_fetched b
     \<and> 0 \<le> bl_max_pages_extracted b \<and> 0 \<le> bl_max_extraction_calls b
     \<and> 0 \<le> bl_max_verification_calls b \<and> 0 \<le> bl_max_scheduler_actions b
     \<and> 1 \<le> bl_max_model_tokens b \<and> 1 \<le> bl_max_wall_clock_seconds b"

record budget_usage =
  bu_iterations :: int
  bu_searches :: int
  bu_logical_queries :: int
  bu_search_provider_requests :: int
  bu_pages :: int
  bu_pages_fetched :: int
  bu_pages_extracted :: int
  bu_extraction_calls :: int
  bu_verification_calls :: int
  bu_scheduler_actions :: int
  bu_productive_iterations :: int
  bu_technical_retries :: int
  bu_model_tokens :: int
  bu_model_budget_guarded :: bool

definition default_budget_usage :: budget_usage where
  "default_budget_usage =
     \<lparr>bu_iterations = 0, bu_searches = 0, bu_logical_queries = 0,
      bu_search_provider_requests = 0, bu_pages = 0, bu_pages_fetched = 0,
      bu_pages_extracted = 0, bu_extraction_calls = 0, bu_verification_calls = 0,
      bu_scheduler_actions = 0, bu_productive_iterations = 0, bu_technical_retries = 0,
      bu_model_tokens = 0, bu_model_budget_guarded = False\<rparr>"

definition budget_usage_ok :: "budget_usage \<Rightarrow> bool" where
  "budget_usage_ok u \<longleftrightarrow>
     0 \<le> bu_iterations u \<and> 0 \<le> bu_searches u \<and> 0 \<le> bu_logical_queries u
     \<and> 0 \<le> bu_search_provider_requests u \<and> 0 \<le> bu_pages u \<and> 0 \<le> bu_pages_fetched u
     \<and> 0 \<le> bu_pages_extracted u \<and> 0 \<le> bu_extraction_calls u \<and> 0 \<le> bu_verification_calls u
     \<and> 0 \<le> bu_scheduler_actions u \<and> 0 \<le> bu_productive_iterations u
     \<and> 0 \<le> bu_technical_retries u \<and> 0 \<le> bu_model_tokens u"

record quality_snapshot =
  qs_coverage :: rat
  qs_information_gain :: rat
  qs_low_gain_streak :: int
  qs_source_quality :: rat
  qs_source_independence :: rat
  qs_cross_validation :: rat
  qs_freshness :: rat
  qs_citation_support :: rat

definition quality_ok :: "quality_snapshot \<Rightarrow> bool" where
  "quality_ok q \<longleftrightarrow>
     score_ok (qs_coverage q) \<and> score_ok (qs_information_gain q) \<and> 0 \<le> qs_low_gain_streak q
     \<and> score_ok (qs_source_quality q) \<and> score_ok (qs_source_independence q)
     \<and> score_ok (qs_cross_validation q) \<and> score_ok (qs_freshness q)
     \<and> score_ok (qs_citation_support q)"

record requirement_coverage =
  rc_dimension_key :: string
  rc_criterion :: string
  rc_coverage :: rat
  rc_accepted_evidence :: int
  rc_independent_sources :: int
  rc_required_sources :: int

definition requirement_coverage_ok :: "requirement_coverage \<Rightarrow> bool" where
  "requirement_coverage_ok r \<longleftrightarrow>
     text_ok 100 (rc_dimension_key r) \<and> text_ok 1000 (rc_criterion r) \<and> score_ok (rc_coverage r)
     \<and> 0 \<le> rc_accepted_evidence r \<and> 0 \<le> rc_independent_sources r \<and> 1 \<le> rc_required_sources r"

record coverage_dimension =
  cd_dimension_key :: string
  cd_question :: string
  cd_priority :: int
  cd_coverage :: rat
  cd_accepted_evidence :: int
  cd_independent_sources :: int
  cd_acceptance_criteria :: "string list"
  cd_requirement_statuses :: "requirement_coverage list"
  cd_missing_reasons :: "string list"

definition coverage_dimension_ok :: "coverage_dimension \<Rightarrow> bool" where
  "coverage_dimension_ok d \<longleftrightarrow>
     text_ok 100 (cd_dimension_key d) \<and> text_ok 500 (cd_question d)
     \<and> 1 \<le> cd_priority d \<and> cd_priority d \<le> 3 \<and> score_ok (cd_coverage d)
     \<and> 0 \<le> cd_accepted_evidence d \<and> 0 \<le> cd_independent_sources d
     \<and> list_all requirement_coverage_ok (cd_requirement_statuses d)"

record research_state =
  st_schema_version :: string
  st_graph_schema_revision :: string
  st_run_id :: uuid
  st_version :: int
  st_status :: run_status
  st_phase :: research_phase
  st_iteration :: int
  st_current_question_id :: "uuid option"
  st_known :: "known_claim list"
  st_gaps :: "research_gap list"
  st_next_action :: "next_action option"
  st_budget_limits :: budget_limits
  st_budget_usage :: budget_usage
  st_quality :: quality_snapshot
  st_coverage_map :: "coverage_dimension list"
  st_no_progress :: int
  st_cancel_requested :: bool
  st_stop_reason :: "stop_reason option"

record state_patch =
  sp_patch_id :: uuid
  sp_base_version :: int
  sp_known_upserts :: "known_claim list"
  sp_gap_upserts :: "research_gap list"
  sp_next_action :: "next_action option"
  sp_budget_usage :: "budget_usage option"
  sp_quality :: "quality_snapshot option"
  sp_coverage_map :: "coverage_dimension list option"
  sp_phase :: "research_phase option"
  sp_status :: "run_status option"
  sp_stop_reason :: "stop_reason option"
  sp_clear_stop_reason :: bool

section \<open>State validation\<close>

definition state_fields_ok :: "research_state \<Rightarrow> bool" where
  "state_fields_ok s \<longleftrightarrow>
     0 \<le> st_version s \<and> 0 \<le> st_iteration s \<and> 0 \<le> st_no_progress s
     \<and> list_all (\<lambda>c. is_ok (validate_known_claim c)) (st_known s)
     \<and> list_all (\<lambda>g. is_ok (validate_research_gap g)) (st_gaps s)
     \<and> (case st_next_action s of None \<Rightarrow> True | Some a \<Rightarrow> is_ok (validate_next_action a))
     \<and> budget_limits_ok (st_budget_limits s) \<and> budget_usage_ok (st_budget_usage s)
     \<and> quality_ok (st_quality s) \<and> list_all coverage_dimension_ok (st_coverage_map s)"

definition open_gap_ids :: "research_gap list \<Rightarrow> uuid set" where
  "open_gap_ids gs = set (map rg_gap_id (filter (\<lambda>g. rg_status g \<in> {GSOpen, GSResolving}) gs))"

definition page_limit :: "research_state \<Rightarrow> int" where
  "page_limit s = (if bu_pages_fetched (st_budget_usage s) > 0
     then bl_max_pages_fetched (st_budget_limits s) else bl_max_pages (st_budget_limits s))"

definition page_usage :: "research_state \<Rightarrow> int" where
  "page_usage s = max (bu_pages (st_budget_usage s)) (bu_pages_fetched (st_budget_usage s))"

definition page_overrun_is_terminal :: "research_state \<Rightarrow> bool" where
  "page_overrun_is_terminal s \<longleftrightarrow>
     st_status s = SFailed \<and> st_stop_reason s = Some SRBudgetExhausted"

definition model_overrun_is_terminal :: "research_state \<Rightarrow> bool" where
  "model_overrun_is_terminal s \<longleftrightarrow> st_phase s \<in> {PhWrite, PhVerify, PhFinalize}"

definition has_unknown_targets :: "research_state \<Rightarrow> bool" where
  "has_unknown_targets s \<longleftrightarrow>
     (case st_next_action s of None \<Rightarrow> False
      | Some a \<Rightarrow> na_action_type a \<in> EXTERNAL_ACTIONS
          \<and> \<not> set (na_target_gap_ids a) \<subseteq> open_gap_ids (st_gaps s))"

definition validate_state_invariants :: "research_state \<Rightarrow> research_state result" where
  "validate_state_invariants s =
     (if \<not> distinct (map kc_claim_id (st_known s))
        then Inl (ValueError ''known claims must be unique by claim_id'')
      else if \<not> distinct (map rg_gap_id (st_gaps s))
        then Inl (ValueError ''research gaps must be unique by gap_id'')
      else if has_unknown_targets s
        then Inl (ValueError ''external actions may only target open or resolving gaps'')
      else if bu_iterations (st_budget_usage s) > bl_max_iterations (st_budget_limits s)
        then Inl (ValueError ''iteration budget exceeded'')
      else if bu_searches (st_budget_usage s) > bl_max_searches (st_budget_limits s)
        then Inl (ValueError ''search budget exceeded'')
      else if page_usage s > page_limit s \<and> \<not> page_overrun_is_terminal s
        then Inl (ValueError ''page budget exceeded'')
      else if bu_model_tokens (st_budget_usage s) > bl_max_model_tokens (st_budget_limits s)
           \<and> \<not> model_overrun_is_terminal s
           \<and> \<not> bu_model_budget_guarded (st_budget_usage s)
        then Inl (ValueError ''model token budget exceeded'')
      else Inr s)"

definition model_validate :: "research_state \<Rightarrow> research_state result" where
  "model_validate s =
     (if \<not> state_fields_ok s then Inl (ValueError ''field constraint violated'')
      else validate_state_invariants s)"

section \<open>The reducer\<close>

definition merge_by :: "('a \<Rightarrow> uuid) \<Rightarrow> 'a list \<Rightarrow> 'a list \<Rightarrow> 'a list" where
  "merge_by key old upserts = map snd (dict_update (dict_of key old) (dict_of key upserts))"

definition patched :: "research_state \<Rightarrow> state_patch \<Rightarrow> research_state" where
  "patched s p = s\<lparr>
     st_version := st_version s + 1,
     st_known := merge_by kc_claim_id (st_known s) (sp_known_upserts p),
     st_gaps := merge_by rg_gap_id (st_gaps s) (sp_gap_upserts p),
     st_next_action := (case sp_next_action p of None \<Rightarrow> st_next_action s | Some a \<Rightarrow> Some a),
     st_budget_usage := (case sp_budget_usage p of None \<Rightarrow> st_budget_usage s | Some u \<Rightarrow> u),
     st_quality := (case sp_quality p of None \<Rightarrow> st_quality s | Some q \<Rightarrow> q),
     st_coverage_map := (case sp_coverage_map p of None \<Rightarrow> st_coverage_map s | Some m \<Rightarrow> m),
     st_phase := (case sp_phase p of None \<Rightarrow> st_phase s | Some ph \<Rightarrow> ph),
     st_status := (case sp_status p of None \<Rightarrow> st_status s | Some x \<Rightarrow> x),
     st_stop_reason := (if sp_clear_stop_reason p then None
                        else case sp_stop_reason p of None \<Rightarrow> st_stop_reason s
                             | Some r \<Rightarrow> Some r)\<rparr>"

definition apply_patch :: "research_state \<Rightarrow> state_patch \<Rightarrow> research_state result" where
  "apply_patch s p =
     (if sp_base_version p \<noteq> st_version s
        then Inl (VersionConflict (sp_base_version p) (st_version s))
      else model_validate (patched s p))"

text \<open>A sequence of patches, as the graph applies them; the first failure stops the run.\<close>

fun apply_patches :: "research_state \<Rightarrow> state_patch list \<Rightarrow> research_state result" where
  "apply_patches s [] = Inr s"
| "apply_patches s (p # ps) =
     (case apply_patch s p of Inl e \<Rightarrow> Inl e | Inr s' \<Rightarrow> apply_patches s' ps)"

section \<open>The declared invariant\<close>

text \<open>
  What every consumer of a state relies on, stated without reference to the order of the checks.
\<close>

definition state_inv :: "research_state \<Rightarrow> bool" where
  "state_inv s \<longleftrightarrow>
     state_fields_ok s
     \<and> distinct (map kc_claim_id (st_known s))
     \<and> distinct (map rg_gap_id (st_gaps s))
     \<and> (\<forall>a. st_next_action s = Some a \<longrightarrow> na_action_type a \<in> EXTERNAL_ACTIONS \<longrightarrow>
          (\<forall>t \<in> set (na_target_gap_ids a).
             \<exists>g \<in> set (st_gaps s). rg_gap_id g = t \<and> rg_status g \<in> {GSOpen, GSResolving}))
     \<and> bu_iterations (st_budget_usage s) \<le> bl_max_iterations (st_budget_limits s)
     \<and> bu_searches (st_budget_usage s) \<le> bl_max_searches (st_budget_limits s)
     \<and> (page_overrun_is_terminal s \<or> page_usage s \<le> page_limit s)
     \<and> (model_overrun_is_terminal s \<or> bu_model_budget_guarded (st_budget_usage s)
          \<or> bu_model_tokens (st_budget_usage s) \<le> bl_max_model_tokens (st_budget_limits s))"

lemma open_gap_ids_iff:
  "t \<in> open_gap_ids gs \<longleftrightarrow> (\<exists>g \<in> set gs. rg_gap_id g = t \<and> rg_status g \<in> {GSOpen, GSResolving})"
  by (auto simp: open_gap_ids_def)

lemma model_validate_Inr_iff: "model_validate s = Inr s' \<longleftrightarrow> s' = s \<and> state_inv s"
proof -
  have "\<not> has_unknown_targets s \<longleftrightarrow>
      (\<forall>a. st_next_action s = Some a \<longrightarrow> na_action_type a \<in> EXTERNAL_ACTIONS \<longrightarrow>
        (\<forall>t \<in> set (na_target_gap_ids a). t \<in> open_gap_ids (st_gaps s)))"
    by (auto simp: has_unknown_targets_def subset_iff split: option.splits)
  then show ?thesis
    by (auto simp: model_validate_def validate_state_invariants_def state_inv_def
        open_gap_ids_iff not_le)
qed

lemma apply_patch_Inr:
  "apply_patch s p = Inr s' \<longleftrightarrow> sp_base_version p = st_version s \<and> s' = patched s p \<and> state_inv s'"
  by (auto simp: apply_patch_def model_validate_Inr_iff)

lemma patched_version [simp]: "st_version (patched s p) = st_version s + 1"
  by (simp add: patched_def)

lemma apply_patches_inv:
  "state_inv s \<Longrightarrow> apply_patches s ps = Inr s' \<Longrightarrow>
   state_inv s' \<and> st_version s' = st_version s + int (length ps)
   \<and> map sp_base_version ps = map (\<lambda>i. st_version s + int i) [0..<length ps]"
proof (induction ps arbitrary: s)
  case Nil
  then show ?case by simp
next
  case (Cons p ps)
  from Cons.prems(2) obtain s1 where s1: "apply_patch s p = Inr s1" "apply_patches s1 ps = Inr s'"
    by (auto split: sum.splits)
  then have v: "sp_base_version p = st_version s" "s1 = patched s p" "state_inv s1"
    using apply_patch_Inr by blast+
  have up: "[0..<length (p # ps)] = 0 # map Suc [0..<length ps]"
    by (simp add: upt_conv_Cons map_Suc_upt del: upt_Suc)
  from Cons.IH [OF v(3) s1(2)] v(1,2) show ?case
    unfolding up by (simp add: comp_def algebra_simps)
qed

section \<open>Merging refines updates of finite maps\<close>

definition abs_entries :: "('a \<Rightarrow> uuid) \<Rightarrow> 'a list \<Rightarrow> (uuid \<rightharpoonup> 'a)" where
  "abs_entries key xs = map_of (map (\<lambda>x. (key x, x)) xs)"

definition spec_upserts :: "('a \<Rightarrow> uuid) \<Rightarrow> (uuid \<rightharpoonup> 'a) \<Rightarrow> 'a list \<Rightarrow> (uuid \<rightharpoonup> 'a)" where
  "spec_upserts key m xs = foldl (\<lambda>m x. m(key x \<mapsto> x)) m xs"

lemma foldl_upserts_add: "foldl (\<lambda>m x. m(key x \<mapsto> x)) m xs = m ++ foldl (\<lambda>m x. m(key x \<mapsto> x)) Map.empty xs"
  by (induction xs rule: rev_induct)
    (simp_all only: foldl_append foldl_Cons foldl_Nil map_add_upd map_add_empty)

lemma map_of_dict_update_pairs:
  "map_of (dict_update d (map (\<lambda>x. (key x, x)) xs)) = foldl (\<lambda>m x. m(key x \<mapsto> x)) (map_of d) xs"
  by (induction xs arbitrary: d) (simp_all add: update_conv')

lemma keyed_entries:
  "(k, x) \<in> set (dict_update (dict_of key xs) (dict_of key ys)) \<Longrightarrow> key x = k \<and> x \<in> set xs \<union> set ys"
  using entries_dict_update [of "dict_of key xs" "dict_of key ys"]
    entries_dict_of [of key xs] entries_dict_of [of key ys] by auto

lemma merge_by_pairs:
  "map (\<lambda>x. (key x, x)) (merge_by key xs ys) = dict_update (dict_of key xs) (dict_of key ys)"
proof -
  have "map (\<lambda>p. (key (snd p), snd p)) (dict_update (dict_of key xs) (dict_of key ys))
      = dict_update (dict_of key xs) (dict_of key ys)"
    by (rule map_idI) (auto dest: keyed_entries)
  then show ?thesis by (simp add: merge_by_def comp_def)
qed

lemma abs_merge_by:
  "distinct (map key xs) \<Longrightarrow>
   abs_entries key (merge_by key xs ys) = spec_upserts key (abs_entries key xs) ys"
  by (simp add: abs_entries_def merge_by_pairs map_of_dict_update dict_of_distinct spec_upserts_def
      foldl_upserts_add [of key "map_of (map (\<lambda>x. (key x, x)) xs)"])
     (simp add: dict_of_def map_of_dict_update_pairs)

lemma keys_merge_by: "map key (merge_by key xs ys) =
    map fst (dict_update (dict_of key xs) (dict_of key ys))"
proof -
  have "map fst (map (\<lambda>x. (key x, x)) (merge_by key xs ys)) = map key (merge_by key xs ys)"
    by (simp add: comp_def)
  then show ?thesis by (simp add: merge_by_pairs)
qed

lemma distinct_merge_by: "distinct (map key (merge_by key xs ys))"
  using dict_wf_dict_update [OF dict_wf_dict_of, of key xs "dict_of key ys"]
  unfolding keys_merge_by dict_wf_def .

lemma update_prefix_keys: "\<exists>zs. map fst (AList.update k v d) = map fst d @ zs"
  by (induction d) auto

lemma dict_update_prefix_keys: "\<exists>zs. map fst (dict_update d e) = map fst d @ zs"
proof (induction d e rule: dict_update.induct)
  case (2 d k v e)
  from "2.IH" update_prefix_keys [of k v d] show ?case by (metis append.assoc dict_update.simps(2))
qed simp

lemma merge_by_keeps_order:
  "distinct (map key xs) \<Longrightarrow> take (length xs) (map key (merge_by key xs ys)) = map key xs"
  using dict_update_prefix_keys [of "dict_of key xs" "dict_of key ys"]
  by (auto simp: keys_merge_by dict_of_distinct comp_def)

lemma set_merge_by: "set (merge_by key xs ys) \<subseteq> set xs \<union> set ys"
  using keyed_entries [of _ _ key xs ys] by (fastforce simp: merge_by_def)

lemma merge_by_mem: "distinct (map key xs) \<Longrightarrow> distinct (map key ys) \<Longrightarrow> y \<in> set ys \<Longrightarrow>
   z \<in> set (merge_by key xs ys) \<Longrightarrow> key z = key y \<Longrightarrow> z = y"
proof -
  assume d: "distinct (map key xs)" "distinct (map key ys)" and y: "y \<in> set ys"
    and z: "z \<in> set (merge_by key xs ys)" and k: "key z = key y"
  have "map_of (map (\<lambda>x. (key x, x)) (merge_by key xs ys)) (key z) = Some z"
    using z distinct_merge_by [of key xs ys] by (intro map_of_is_SomeI) (auto simp: comp_def)
  moreover have "map_of (map (\<lambda>x. (key x, x)) ys) (key y) = Some y"
    using y d(2) by (intro map_of_is_SomeI) (auto simp: comp_def)
  moreover have "map_of (map (\<lambda>x. (key x, x)) (merge_by key xs ys))
      = map_of (dict_of key xs) ++ map_of (dict_of key ys)"
    unfolding merge_by_pairs by (rule map_of_dict_update) simp
  ultimately show "z = y"
    by (metis k dict_of_distinct [OF d(2)] map_add_find_right option.inject)
qed

section \<open>A concrete run\<close>

definition demo_gap :: "nat \<Rightarrow> gap_status \<Rightarrow> uuid list \<Rightarrow> research_gap" where
  "demo_gap n st by_claims = \<lparr>rg_gap_id = UUID n, rg_question_id = UUID 1, rg_dimension_key = ''market'',
     rg_gap_type = GTMissing, rg_description = ''no accepted evidence'',
     rg_acceptance_criteria = ''two sources'', rg_severity = 1, rg_expected_gain = 1 / 2,
     rg_resolution_attempts = 0, rg_status = st, rg_resolved_by = by_claims\<rparr>"

definition demo_action :: next_action where
  "demo_action = \<lparr>na_action_id = UUID 7, na_action_type = ASearchWeb, na_target_gap_ids = [UUID 10],
     na_tool_name = Some ''web_search'', na_expected_output = ''sources'', na_expected_gain = 1 / 2,
     na_estimated_cost = 0, na_duplicate_key = None, na_public_summary = ''search'',
     na_status = ASSelected\<rparr>"

definition demo_quality :: quality_snapshot where
  "demo_quality = \<lparr>qs_coverage = 0, qs_information_gain = 0, qs_low_gain_streak = 0,
     qs_source_quality = 0, qs_source_independence = 0, qs_cross_validation = 0,
     qs_freshness = 0, qs_citation_support = 0\<rparr>"

definition demo_state :: research_state where
  "demo_state = \<lparr>st_schema_version = ''1'', st_graph_schema_revision = ''2026-08-v1'',
     st_run_id = UUID 0, st_version = 3, st_status = SResearching, st_phase = PhResearch,
     st_iteration = 1, st_current_question_id = None, st_known = [],
     st_gaps = [demo_gap 10 GSOpen [], demo_gap 11 GSOpen []], st_next_action = Some demo_action,
     st_budget_limits = default_budget_limits, st_budget_usage = default_budget_usage,
     st_quality = demo_quality, st_coverage_map = [], st_no_progress = 0,
     st_cancel_requested = False, st_stop_reason = None\<rparr>"

definition empty_patch :: "int \<Rightarrow> state_patch" where
  "empty_patch v = \<lparr>sp_patch_id = UUID 50, sp_base_version = v, sp_known_upserts = [],
     sp_gap_upserts = [], sp_next_action = None, sp_budget_usage = None, sp_quality = None,
     sp_coverage_map = None, sp_phase = None, sp_status = None, sp_stop_reason = None,
     sp_clear_stop_reason = False\<rparr>"

definition demo_patch :: "int \<Rightarrow> state_patch" where
  "demo_patch v = (empty_patch v)\<lparr>
     sp_gap_upserts := [demo_gap 12 GSOpen [], demo_gap 11 GSResolving []]\<rparr>"

lemmas demo_defs = demo_gap_def demo_action_def demo_quality_def demo_state_def empty_patch_def
  demo_patch_def default_budget_limits_def default_budget_usage_def

lemmas validation_defs = state_fields_ok_def validate_known_claim_def validate_research_gap_def
  validate_next_action_def budget_limits_ok_def budget_usage_ok_def quality_ok_def
  text_ok_def opt_text_ok_def score_ok_def page_usage_def page_limit_def
  page_overrun_is_terminal_def model_overrun_is_terminal_def EXTERNAL_ACTIONS_def

lemma demo_state_inv: "state_inv demo_state"
  by (simp add: state_inv_def demo_defs validation_defs)

lemma demo_step: "apply_patch demo_state (demo_patch 3) = Inr (patched demo_state (demo_patch 3))"
  unfolding apply_patch_Inr
  by (simp add: state_inv_def patched_def merge_by_def dict_of_def demo_defs validation_defs)

lemma demo_step2: "apply_patch (patched demo_state (demo_patch 3)) (empty_patch 4)
    = Inr (patched (patched demo_state (demo_patch 3)) (empty_patch 4))"
  unfolding apply_patch_Inr
  by (simp add: state_inv_def patched_def merge_by_def dict_of_def demo_defs validation_defs)

lemma demo_run: "apply_patches demo_state [demo_patch 3, empty_patch 4]
    = Inr (patched (patched demo_state (demo_patch 3)) (empty_patch 4))"
  by (simp add: demo_step demo_step2)

section \<open>Properties\<close>

text \<open>
  C1. A sequence of accepted patches keeps the declared invariant of \<open>ResearchState\<close> (field
  constraints, unique claim and gap ids, external actions aimed at open gaps, budgets), advances
  the version by exactly the number of patches, and the patches carried exactly the consecutive
  versions in between: no version is skipped or applied twice.
\<close>

theorem accepted_patches_keep_state_invariant:
  assumes "state_inv s" and "apply_patches s ps = Inr s'"
  shows "state_inv s' \<and> st_version s' = st_version s + int (length ps)
    \<and> map sp_base_version ps = map (\<lambda>i. st_version s + int i) [0..<length ps]"
  using assms by (rule apply_patches_inv)

theorem accepted_patches_keep_state_invariant_witness:
  "state_inv (patched (patched demo_state (demo_patch 3)) (empty_patch 4))"
  using accepted_patches_keep_state_invariant [OF demo_state_inv demo_run] by simp

text \<open>
  C2. Compare-and-swap: once a patch has been accepted, every later patch built on the same or
  an older version is refused with a version conflict that names both versions, however many
  further patches were applied in between.
\<close>

theorem stale_patch_is_refused:
  assumes "state_inv s" and "apply_patches s (p # ps) = Inr s'"
    and "sp_base_version q \<le> sp_base_version p"
  shows "apply_patch s' q = Inl (VersionConflict (sp_base_version q) (st_version s'))"
proof -
  from apply_patches_inv [OF assms(1,2)]
  have "st_version s' = st_version s + int (length (p # ps))" and "sp_base_version p = st_version s"
    by (auto simp: upt_conv_Cons simp del: upt_Suc)
  with assms(3) show ?thesis by (simp add: apply_patch_def)
qed

theorem stale_patch_is_refused_witness:
  "apply_patch (patched (patched demo_state (demo_patch 3)) (empty_patch 4)) (demo_patch 3)
     = Inl (VersionConflict 3 5)"
  using stale_patch_is_refused [OF demo_state_inv demo_run, of "demo_patch 3"]
  by (simp add: demo_defs)

text \<open>
  C3. The merge of claims and gaps refines pointwise update of finite maps: after an accepted
  patch the state maps each id to the last upsert of that id and keeps every other entry, and
  the ids already present keep their positions (new ids are appended behind them).
\<close>

theorem apply_patch_refines_map_update:
  assumes "state_inv s" and "apply_patch s p = Inr s'"
  shows "abs_entries kc_claim_id (st_known s')
           = spec_upserts kc_claim_id (abs_entries kc_claim_id (st_known s)) (sp_known_upserts p)
    \<and> abs_entries rg_gap_id (st_gaps s')
           = spec_upserts rg_gap_id (abs_entries rg_gap_id (st_gaps s)) (sp_gap_upserts p)
    \<and> take (length (st_known s)) (map kc_claim_id (st_known s')) = map kc_claim_id (st_known s)
    \<and> take (length (st_gaps s)) (map rg_gap_id (st_gaps s')) = map rg_gap_id (st_gaps s)"
proof -
  have d: "distinct (map kc_claim_id (st_known s))" "distinct (map rg_gap_id (st_gaps s))"
    using assms(1) by (simp_all add: state_inv_def)
  have "s' = patched s p" using assms(2) apply_patch_Inr by blast
  then have "st_known s' = merge_by kc_claim_id (st_known s) (sp_known_upserts p)"
    and "st_gaps s' = merge_by rg_gap_id (st_gaps s) (sp_gap_upserts p)"
    by (simp_all add: patched_def)
  then show ?thesis
    using abs_merge_by [OF d(1)] abs_merge_by [OF d(2)] merge_by_keeps_order [OF d(1)]
      merge_by_keeps_order [OF d(2)] by simp
qed

theorem apply_patch_refines_map_update_witness:
  "abs_entries rg_gap_id (st_gaps (patched demo_state (demo_patch 3))) (UUID 11)
     = Some (demo_gap 11 GSResolving [])"
  using apply_patch_refines_map_update [OF demo_state_inv demo_step]
  by (simp add: spec_upserts_def demo_patch_def demo_gap_def)

text \<open>
  A gap cannot be closed under a pending external action: if the pending action targets a
  gap, a patch that marks the gap resolved or abandoned without replacing the action is refused,
  whatever else it changes.
\<close>

theorem closing_a_targeted_gap_is_refused:
  assumes "state_inv s" and "st_next_action s = Some a" and "na_action_type a \<in> EXTERNAL_ACTIONS"
    and "rg_gap_id g \<in> set (na_target_gap_ids a)" and "g \<in> set (sp_gap_upserts p)"
    and "rg_status g \<in> {GSResolved, GSAbandoned}"
    and "distinct (map rg_gap_id (sp_gap_upserts p))" and "sp_next_action p = None"
  shows "\<exists>e. apply_patch s p = Inl e"
proof (rule ccontr)
  assume "\<nexists>e. apply_patch s p = Inl e"
  then have ok: "s' = patched s p \<and> state_inv s'" if "s' = patched s p" for s'
    using that apply_patch_Inr by (metis sum.exhaust)
  have n: "st_next_action (patched s p) = Some a"
    and gaps: "st_gaps (patched s p) = merge_by rg_gap_id (st_gaps s) (sp_gap_upserts p)"
    using assms(2,8) by (simp_all add: patched_def)
  from ok [OF refl] n assms(3,4) obtain h where h: "h \<in> set (st_gaps (patched s p))"
      "rg_gap_id h = rg_gap_id g" "rg_status h \<in> {GSOpen, GSResolving}"
    by (auto simp: state_inv_def)
  moreover have "distinct (map rg_gap_id (st_gaps s))" using assms(1) by (simp add: state_inv_def)
  ultimately have "h = g" using merge_by_mem assms(5,7) gaps by metis
  with h(3) assms(6) show False by auto
qed

theorem closing_a_targeted_gap_is_refused_witness:
  "\<exists>e. apply_patch demo_state
     ((empty_patch 3)\<lparr>sp_gap_upserts := [demo_gap 10 GSResolved [UUID 99]]\<rparr>) = Inl e"
  by (rule closing_a_targeted_gap_is_refused [OF demo_state_inv, of demo_action "demo_gap 10 GSResolved [UUID 99]"])
     (simp_all add: demo_defs EXTERNAL_ACTIONS_def)

text \<open>
  Every valid state can be ended truthfully: the patch that reports the final usage and
  fails the run on its budget is accepted even when pages and model tokens overran their limits,
  provided iterations and searches stayed within theirs.
\<close>

theorem truthful_terminal_patch_is_accepted:
  assumes "state_inv s" and "budget_usage_ok u"
    and "bu_iterations u \<le> bl_max_iterations (st_budget_limits s)"
    and "bu_searches u \<le> bl_max_searches (st_budget_limits s)"
  shows "apply_patch s ((empty_patch (st_version s))\<lparr>sp_budget_usage := Some u,
      sp_phase := Some PhFinalize, sp_status := Some SFailed,
      sp_stop_reason := Some SRBudgetExhausted\<rparr>)
    = Inr (s\<lparr>st_version := st_version s + 1, st_budget_usage := u, st_phase := PhFinalize,
        st_status := SFailed, st_stop_reason := Some SRBudgetExhausted\<rparr>)"
proof -
  have d: "distinct (map kc_claim_id (st_known s))" "distinct (map rg_gap_id (st_gaps s))"
    using assms(1) by (simp_all add: state_inv_def)
  have id: "merge_by key xs [] = xs" if "distinct (map key xs)" for key :: "'x \<Rightarrow> uuid" and xs
    using that by (simp add: merge_by_def dict_of_distinct comp_def dict_of_def [of key "[]"])
  show ?thesis
    using assms id [OF d(1)] id [OF d(2)]
    by (auto simp: apply_patch_Inr patched_def empty_patch_def state_inv_def state_fields_ok_def
        page_overrun_is_terminal_def model_overrun_is_terminal_def split: option.splits)
qed

theorem truthful_terminal_patch_is_accepted_witness:
  "is_ok (apply_patch demo_state ((empty_patch 3)\<lparr>
      sp_budget_usage := Some (default_budget_usage\<lparr>bu_pages := 31, bu_model_tokens := 200000\<rparr>),
      sp_phase := Some PhFinalize, sp_status := Some SFailed,
      sp_stop_reason := Some SRBudgetExhausted\<rparr>))"
  using truthful_terminal_patch_is_accepted [OF demo_state_inv,
      of "default_budget_usage\<lparr>bu_pages := 31, bu_model_tokens := 200000\<rparr>"]
  by (simp add: demo_defs budget_usage_ok_def)

end
