(* ===== verification/Provider_Health.thy ===== *)
theory Provider_Health
  imports Prelude
begin

text \<open>
  Provider failures and provider health: \<open>app/domain/provider_failure_classification.py\<close> and
  \<open>app/domain/provider_health.py\<close>.

  \<open>tracker\<close> is \<open>ProviderHealthTracker\<close>: its constructor arguments and the dictionary of
  \<open>_ProviderRecord\<close>s. The operations return the new tracker and the \<open>ProviderHealthUpdate\<close>
  they report; the clock (\<open>when or datetime.now(UTC)\<close>) is the argument \<open>now\<close>. The invariant
  \<open>tracker_inv\<close> collects the facts the routing layer and the persisted payload rely on.
  The locale \<open>health_tracking\<close> is the interface the routing layer uses.
\<close>

section \<open>Failure taxonomy\<close>

datatype provider_failure_type =
    Timeout | Unresponsive | RateLimit | NetworkError | ServerError | EmptyResponse
  | CircuitOpen | UnknownFailure

datatype retry_choice = Retry | Fallback | StopRetrying

definition failure_values :: "(string \<times> provider_failure_type) list" where
  "failure_values =
     [(''timeout'', Timeout), (''unresponsive'', Unresponsive), (''rate_limit'', RateLimit),
      (''network_error'', NetworkError), (''server_error'', ServerError),
      (''empty_response'', EmptyResponse), (''circuit_open'', CircuitOpen),
      (''unknown'', UnknownFailure)]"

definition classify_error_code :: "string \<Rightarrow> provider_failure_type" where
  "classify_error_code code =
     (let n = casefold code
      in if contains n ''timeout'' then Timeout
         else if contains n ''rate'' \<or> contains n ''429'' then RateLimit
         else if contains n ''network'' \<or> contains n ''connect'' then NetworkError
         else if contains n ''empty'' then EmptyResponse
         else if contains n ''circuit'' then CircuitOpen
         else if contains n ''server'' \<or> contains n ''http'' \<or> contains n ''5'' then ServerError
         else UnknownFailure)"

definition classify_provider_failure ::
  "string \<Rightarrow> (string \<times> json) list \<Rightarrow> provider_failure_type result" where
  "classify_provider_failure code payload =
     (case jget ''failure_type'' payload of
        JStr ft \<Rightarrow>
          if ft = ''fallback_failure'' then
            (case jget ''metrics'' payload of
               JObj metrics \<Rightarrow>
                 (let raw = jget ''empty_response_count'' metrics
                  in case (if truthy raw then py_int raw else Inr 0) of
                       Inl e \<Rightarrow> Inl e
                     | Inr n \<Rightarrow> Inr (if n > 0 then EmptyResponse else CircuitOpen))
             | _ \<Rightarrow> Inr CircuitOpen)
          else (case map_of failure_values ft of
                  Some t \<Rightarrow> Inr t
                | None \<Rightarrow> Inr (classify_error_code code))
      | _ \<Rightarrow> Inr (classify_error_code code))"

definition retry_decision :: "provider_failure_type \<Rightarrow> retry_choice" where
  "retry_decision t =
     (if t \<in> {Timeout, Unresponsive, RateLimit, NetworkError, ServerError} then Retry
      else if t \<in> {CircuitOpen, EmptyResponse} then Fallback
      else StopRetrying)"

section \<open>Health records\<close>

datatype health_state =
    Healthy | Degraded | Unavailable | Cooldown | UnknownHealth | DisabledForRun

fun health_value :: "health_state \<Rightarrow> string" where
  "health_value Healthy = ''healthy''"
| "health_value Degraded = ''degraded''"
| "health_value Unavailable = ''unavailable''"
| "health_value Cooldown = ''cooldown''"
| "health_value UnknownHealth = ''unknown''"
| "health_value DisabledForRun = ''disabled_for_run''"

definition CONSECUTIVE_SUCCESS_TO_HEALTHY :: int where "CONSECUTIVE_SUCCESS_TO_HEALTHY = 1"
definition FAILURE_STREAK_TO_DEGRADED :: int where "FAILURE_STREAK_TO_DEGRADED = 1"
definition FAILURE_STREAK_TO_UNAVAILABLE :: int where "FAILURE_STREAK_TO_UNAVAILABLE = 3"
definition PROVIDER_COOLDOWN_SECONDS :: rat where "PROVIDER_COOLDOWN_SECONDS = 15"
definition MAX_PROBE_FAILURES :: int where "MAX_PROBE_FAILURES = 3"
definition RECENT_WINDOW :: nat where "RECENT_WINDOW = 10"

definition UNRESPONSIVE_TYPES :: "provider_failure_type set" where
  "UNRESPONSIVE_TYPES = {Unresponsive, EmptyResponse}"

record health_snapshot =
  hs_provider_name :: string
  hs_state :: health_state
  hs_success_count :: int
  hs_failure_count :: int
  hs_timeout_count :: int
  hs_unresponsive_count :: int
  hs_recent_failure_rate :: rat
  hs_average_latency :: rat
  hs_last_success_at :: "timestamp option"
  hs_last_failure_at :: "timestamp option"
  hs_updated_at :: timestamp

definition json_time :: "timestamp option \<Rightarrow> json" where
  "json_time t = (case t of None \<Rightarrow> JNull | Some x \<Rightarrow> JTime x)"

definition snapshot_as_dict :: "health_snapshot \<Rightarrow> (string \<times> json) list" where
  "snapshot_as_dict s =
     [(''provider_name'', JStr (hs_provider_name s)),
      (''state'', JStr (health_value (hs_state s))),
      (''success_count'', JInt (hs_success_count s)),
      (''failure_count'', JInt (hs_failure_count s)),
      (''timeout_count'', JInt (hs_timeout_count s)),
      (''unresponsive_count'', JInt (hs_unresponsive_count s)),
      (''recent_failure_rate'', JNum (py_round (hs_recent_failure_rate s) 4)),
      (''average_latency'', JNum (py_round (hs_average_latency s) 2)),
      (''last_success_at'', json_time (hs_last_success_at s)),
      (''last_failure_at'', json_time (hs_last_failure_at s)),
      (''updated_at'', JTime (hs_updated_at s))]"

record health_update =
  hu_provider_name :: string
  hu_previous_state :: health_state
  hu_state :: health_state
  hu_changed :: bool
  hu_reason :: string
  hu_snapshot :: health_snapshot

definition update_as_dict :: "health_update \<Rightarrow> (string \<times> json) list" where
  "update_as_dict u =
     [(''provider_name'', JStr (hu_provider_name u)),
      (''previous_state'', JStr (health_value (hu_previous_state u))),
      (''new_state'', JStr (health_value (hu_state u))),
      (''changed'', JBool (hu_changed u)),
      (''reason'', JStr (hu_reason u)),
      (''snapshot'', JObj (snapshot_as_dict (hu_snapshot u)))]"

record provider_record =
  pr_provider_name :: string
  pr_state :: health_state
  pr_success_count :: int
  pr_failure_count :: int
  pr_timeout_count :: int
  pr_unresponsive_count :: int
  pr_success_streak :: int
  pr_failure_streak :: int
  pr_probe_failure_streak :: int
  pr_recent :: "bool list"
  pr_latency_sum :: rat
  pr_latency_count :: int
  pr_last_success_at :: "timestamp option"
  pr_last_failure_at :: "timestamp option"
  pr_cooldown_until :: "timestamp option"
  pr_updated_at :: timestamp

definition new_record :: "timestamp \<Rightarrow> string \<Rightarrow> provider_record" where
  "new_record now name =
     \<lparr>pr_provider_name = name, pr_state = UnknownHealth, pr_success_count = 0,
      pr_failure_count = 0, pr_timeout_count = 0, pr_unresponsive_count = 0,
      pr_success_streak = 0, pr_failure_streak = 0, pr_probe_failure_streak = 0,
      pr_recent = [], pr_latency_sum = 0, pr_latency_count = 0, pr_last_success_at = None,
      pr_last_failure_at = None, pr_cooldown_until = None, pr_updated_at = now\<rparr>"

text \<open>\<open>deque(maxlen=_RECENT_WINDOW)\<close>: appending drops the oldest entries.\<close>

definition last_window :: "'a list \<Rightarrow> 'a list" where
  "last_window xs = drop (length xs - RECENT_WINDOW) xs"

definition push_recent :: "bool list \<Rightarrow> bool \<Rightarrow> bool list" where
  "push_recent xs b = last_window (xs @ [b])"

definition record_snapshot :: "provider_record \<Rightarrow> health_snapshot" where
  "record_snapshot r =
     (let window = length (pr_recent r);
          failures = length (filter (\<lambda>b. b) (pr_recent r))
      in \<lparr>hs_provider_name = pr_provider_name r, hs_state = pr_state r,
          hs_success_count = pr_success_count r, hs_failure_count = pr_failure_count r,
          hs_timeout_count = pr_timeout_count r,
          hs_unresponsive_count = pr_unresponsive_count r,
          hs_recent_failure_rate =
            (if window \<noteq> 0 then of_nat failures / of_nat window else 0),
          hs_average_latency =
            (if pr_latency_count r \<noteq> 0 then pr_latency_sum r / of_int (pr_latency_count r)
             else 0),
          hs_last_success_at = pr_last_success_at r, hs_last_failure_at = pr_last_failure_at r,
          hs_updated_at = pr_updated_at r\<rparr>)"

definition record_to_payload :: "provider_record \<Rightarrow> (string \<times> json) list" where
  "record_to_payload r =
     [(''state'', JStr (health_value (pr_state r))),
      (''success_count'', JInt (pr_success_count r)),
      (''failure_count'', JInt (pr_failure_count r)),
      (''timeout_count'', JInt (pr_timeout_count r)),
      (''unresponsive_count'', JInt (pr_unresponsive_count r)),
      (''success_streak'', JInt (pr_success_streak r)),
      (''failure_streak'', JInt (pr_failure_streak r)),
      (''probe_failure_streak'', JInt (pr_probe_failure_streak r)),
      (''recent'', JList (map JBool (pr_recent r))),
      (''latency_sum'', JNum (pr_latency_sum r)),
      (''latency_count'', JInt (pr_latency_count r)),
      (''last_success_at'', json_time (pr_last_success_at r)),
      (''last_failure_at'', json_time (pr_last_failure_at r)),
      (''cooldown_until'', json_time (pr_cooldown_until r)),
      (''updated_at'', JTime (pr_updated_at r))]"

definition state_from_value :: "json \<Rightarrow> health_state" where
  "state_from_value v =
     (case v of
        JStr s \<Rightarrow>
          (case List.find (\<lambda>h. health_value h = s)
                  [Healthy, Degraded, Unavailable, Cooldown, UnknownHealth, DisabledForRun] of
             Some h \<Rightarrow> h | None \<Rightarrow> UnknownHealth)
      | _ \<Rightarrow> UnknownHealth)"

definition payload_int :: "json \<Rightarrow> int" where
  "payload_int v = (case v of JInt n \<Rightarrow> n | _ \<Rightarrow> 0)"

definition payload_float :: "json \<Rightarrow> rat" where
  "payload_float v = (case v of JInt n \<Rightarrow> of_int n | JNum q \<Rightarrow> q | _ \<Rightarrow> 0)"

definition payload_datetime :: "json \<Rightarrow> timestamp option" where
  "payload_datetime v = (case v of JTime t \<Rightarrow> Some t | _ \<Rightarrow> None)"

definition record_from_payload ::
  "timestamp \<Rightarrow> string \<Rightarrow> (string \<times> json) list \<Rightarrow> provider_record" where
  "record_from_payload now name p =
     \<lparr>pr_provider_name = name,
      pr_state = state_from_value (jget ''state'' p),
      pr_success_count = payload_int (jget ''success_count'' p),
      pr_failure_count = payload_int (jget ''failure_count'' p),
      pr_timeout_count = payload_int (jget ''timeout_count'' p),
      pr_unresponsive_count = payload_int (jget ''unresponsive_count'' p),
      pr_success_streak = payload_int (jget ''success_streak'' p),
      pr_failure_streak = payload_int (jget ''failure_streak'' p),
      pr_probe_failure_streak = payload_int (jget ''probe_failure_streak'' p),
      pr_recent = (case jget ''recent'' p of JList vs \<Rightarrow> map truthy (last_window vs) | _ \<Rightarrow> []),
      pr_latency_sum = payload_float (jget ''latency_sum'' p),
      pr_latency_count = payload_int (jget ''latency_count'' p),
      pr_last_success_at = payload_datetime (jget ''last_success_at'' p),
      pr_last_failure_at = payload_datetime (jget ''last_failure_at'' p),
      pr_cooldown_until = payload_datetime (jget ''cooldown_until'' p),
      pr_updated_at = (case payload_datetime (jget ''updated_at'' p) of
                         Some t \<Rightarrow> t | None \<Rightarrow> now)\<rparr>"

section \<open>The tracker\<close>

record tracker =
  tk_records :: "(string, provider_record) dict"
  tk_cooldown_seconds :: rat
  tk_unavailable_streak :: int
  tk_max_probe_failures :: int

definition new_tracker :: "rat \<Rightarrow> int \<Rightarrow> int \<Rightarrow> tracker" where
  "new_tracker cooldown streak probes =
     \<lparr>tk_records = [], tk_cooldown_seconds = cooldown,
      tk_unavailable_streak = max 1 streak, tk_max_probe_failures = max 1 probes\<rparr>"

definition default_tracker :: tracker where
  "default_tracker =
     new_tracker PROVIDER_COOLDOWN_SECONDS FAILURE_STREAK_TO_UNAVAILABLE MAX_PROBE_FAILURES"

definition state_of :: "tracker \<Rightarrow> string \<Rightarrow> health_state" where
  "state_of t name =
     (case map_of (tk_records t) name of None \<Rightarrow> UnknownHealth | Some r \<Rightarrow> pr_state r)"

definition tracker_snapshot :: "timestamp \<Rightarrow> tracker \<Rightarrow> string \<Rightarrow> health_snapshot" where
  "tracker_snapshot now t name =
     (case map_of (tk_records t) name of
        None \<Rightarrow> \<lparr>hs_provider_name = name, hs_state = UnknownHealth, hs_success_count = 0,
                 hs_failure_count = 0, hs_timeout_count = 0, hs_unresponsive_count = 0,
                 hs_recent_failure_rate = 0, hs_average_latency = 0, hs_last_success_at = None,
                 hs_last_failure_at = None, hs_updated_at = now\<rparr>
      | Some r \<Rightarrow> record_snapshot r)"

definition tracker_snapshots :: "tracker \<Rightarrow> health_snapshot list" where
  "tracker_snapshots t = map (record_snapshot \<circ> snd) (tk_records t)"

definition mk_update :: "provider_record \<Rightarrow> health_state \<Rightarrow> string \<Rightarrow> health_update" where
  "mk_update r previous reason =
     \<lparr>hu_provider_name = pr_provider_name r, hu_previous_state = previous,
      hu_state = pr_state r, hu_changed = (previous \<noteq> pr_state r), hu_reason = reason,
      hu_snapshot = record_snapshot r\<rparr>"

definition get_record :: "timestamp \<Rightarrow> tracker \<Rightarrow> string \<Rightarrow> provider_record" where
  "get_record now t name =
     (case map_of (tk_records t) name of None \<Rightarrow> new_record now name | Some r \<Rightarrow> r)"

definition put_record :: "tracker \<Rightarrow> string \<Rightarrow> provider_record \<Rightarrow> tracker" where
  "put_record t name r = t\<lparr>tk_records := AList.update name r (tk_records t)\<rparr>"

definition add_latency :: "rat \<Rightarrow> provider_record \<Rightarrow> provider_record" where
  "add_latency ms r =
     (if ms > 0 then r\<lparr>pr_latency_sum := pr_latency_sum r + ms,
                       pr_latency_count := pr_latency_count r + 1\<rparr>
      else r)"

definition success_record :: "timestamp \<Rightarrow> rat \<Rightarrow> provider_record \<Rightarrow> provider_record" where
  "success_record now ms r =
     (let r1 = add_latency ms (r\<lparr>
            pr_success_count := pr_success_count r + 1,
            pr_success_streak := pr_success_streak r + 1,
            pr_failure_streak := 0,
            pr_probe_failure_streak := 0,
            pr_recent := push_recent (pr_recent r) False,
            pr_last_success_at := Some now,
            pr_cooldown_until := None,
            pr_updated_at := now\<rparr>)
      in if pr_success_streak r1 \<ge> CONSECUTIVE_SUCCESS_TO_HEALTHY
         then r1\<lparr>pr_state := Healthy\<rparr> else r1)"

definition record_success ::
  "timestamp \<Rightarrow> rat \<Rightarrow> string \<Rightarrow> tracker \<Rightarrow> tracker \<times> health_update" where
  "record_success now ms name t =
     (let r = get_record now t name;
          r' = success_record now ms r;
          reason = (if pr_state r \<noteq> Healthy then ''recovered_healthy'' else ''healthy'')
      in (put_record t name r', mk_update r' (pr_state r) reason))"

definition cooldown_end :: "tracker \<Rightarrow> timestamp \<Rightarrow> timestamp" where
  "cooldown_end t now = now + round_half_even (tk_cooldown_seconds t * 1000000)"

definition count_failure ::
  "timestamp \<Rightarrow> provider_failure_type \<Rightarrow> rat \<Rightarrow> provider_record \<Rightarrow> provider_record" where
  "count_failure now ft ms r =
     (let r1 = r\<lparr>
            pr_failure_count := pr_failure_count r + 1,
            pr_failure_streak := pr_failure_streak r + 1,
            pr_success_streak := 0,
            pr_recent := push_recent (pr_recent r) True,
            pr_last_failure_at := Some now,
            pr_updated_at := now\<rparr>;
          r2 = (if ft = Timeout then r1\<lparr>pr_timeout_count := pr_timeout_count r1 + 1\<rparr> else r1);
          r3 = (if ft \<in> UNRESPONSIVE_TYPES
                then r2\<lparr>pr_unresponsive_count := pr_unresponsive_count r2 + 1\<rparr> else r2)
      in add_latency ms r3)"

definition fail_transition ::
  "tracker \<Rightarrow> timestamp \<Rightarrow> provider_failure_type \<Rightarrow> provider_record
    \<Rightarrow> provider_record \<times> string" where
  "fail_transition t now ft r =
     (if pr_state r = Cooldown then
        (let r1 = r\<lparr>pr_probe_failure_streak := pr_probe_failure_streak r + 1\<rparr>
         in if pr_probe_failure_streak r1 \<ge> tk_max_probe_failures t
            then (r1\<lparr>pr_state := DisabledForRun, pr_cooldown_until := None\<rparr>,
                  ''probe_failures_exceeded_disabled_for_run'')
            else (r1\<lparr>pr_state := Unavailable, pr_cooldown_until := Some (cooldown_end t now)\<rparr>,
                  ''cooldown_probe_failed''))
      else if ft = CircuitOpen \<or> pr_failure_streak r \<ge> tk_unavailable_streak t then
        (r\<lparr>pr_state := Unavailable, pr_cooldown_until := Some (cooldown_end t now)\<rparr>,
         if ft = CircuitOpen then ''circuit_open_unavailable'' else ''failure_streak_unavailable'')
      else if pr_failure_streak r \<ge> FAILURE_STREAK_TO_DEGRADED then
        (r\<lparr>pr_state := Degraded\<rparr>, ''failure_streak_degraded'')
      else (r, ''failure_recorded''))"

definition record_failure ::
  "timestamp \<Rightarrow> provider_failure_type \<Rightarrow> rat \<Rightarrow> string \<Rightarrow> tracker
    \<Rightarrow> tracker \<times> health_update" where
  "record_failure now ft ms name t =
     (let r = get_record now t name;
          (r', reason) = fail_transition t now ft (count_failure now ft ms r)
      in (put_record t name r', mk_update r' (pr_state r) reason))"

definition cooldown_over :: "timestamp \<Rightarrow> provider_record \<Rightarrow> bool" where
  "cooldown_over now r \<longleftrightarrow>
     pr_state r = Unavailable
     \<and> (case pr_cooldown_until r of None \<Rightarrow> False | Some u \<Rightarrow> now \<ge> u)"

definition expire_record :: "timestamp \<Rightarrow> provider_record \<Rightarrow> provider_record" where
  "expire_record now r =
     (if cooldown_over now r then r\<lparr>pr_state := Cooldown, pr_updated_at := now\<rparr> else r)"

definition expire_cooldowns :: "timestamp \<Rightarrow> tracker \<Rightarrow> tracker \<times> health_update list" where
  "expire_cooldowns now t =
     (t\<lparr>tk_records := map (\<lambda>(k, r). (k, expire_record now r)) (tk_records t)\<rparr>,
      map (\<lambda>(k, r). mk_update (expire_record now r) (pr_state r)
                      ''cooldown_expired_ready_to_probe'')
        (filter (\<lambda>(k, r). cooldown_over now r) (tk_records t)))"

definition tracker_to_payload :: "tracker \<Rightarrow> (string \<times> json) list" where
  "tracker_to_payload t = map (\<lambda>(k, r). (k, JObj (record_to_payload r))) (tk_records t)"

fun load_records ::
  "timestamp \<Rightarrow> (string \<times> json) list \<Rightarrow> (string, provider_record) dict
    \<Rightarrow> (string, provider_record) dict" where
  "load_records now [] d = d"
| "load_records now ((name, v) # items) d =
     load_records now items
       (case v of JObj p \<Rightarrow> AList.update name (record_from_payload now name p) d | _ \<Rightarrow> d)"

definition tracker_from_payload ::
  "timestamp \<Rightarrow> (string \<times> json) list \<Rightarrow> rat \<Rightarrow> int \<Rightarrow> int \<Rightarrow> tracker" where
  "tracker_from_payload now payload cooldown streak probes =
     (new_tracker cooldown streak probes)\<lparr>tk_records := load_records now payload []\<rparr>"

section \<open>Events and the interface of the routing layer\<close>

text \<open>The calls the research runtime makes on one tracker, in the order it makes them.\<close>

datatype health_event =
    HSuccess timestamp rat string
  | HFailure timestamp provider_failure_type rat string
  | HExpire timestamp

fun apply_event :: "tracker \<Rightarrow> health_event \<Rightarrow> tracker" where
  "apply_event t (HSuccess now ms p) = fst (record_success now ms p t)"
| "apply_event t (HFailure now ft ms p) = fst (record_failure now ft ms p t)"
| "apply_event t (HExpire now) = fst (expire_cooldowns now t)"

definition run_events :: "tracker \<Rightarrow> health_event list \<Rightarrow> tracker" where
  "run_events = foldl apply_event"

lemma run_events_simps [simp]:
  "run_events t [] = t" "run_events t (e # es) = run_events (apply_event t e) es"
  by (simp_all add: run_events_def)

fun succeeds :: "string \<Rightarrow> health_event \<Rightarrow> bool" where
  "succeeds p (HSuccess _ _ q) = (q = p)"
| "succeeds p _ = False"

locale health_tracking =
  fixes state :: "'t \<Rightarrow> string \<Rightarrow> health_state"
    and step :: "'t \<Rightarrow> health_event \<Rightarrow> 't"
    and inv :: "'t \<Rightarrow> bool"
  assumes inv_step: "inv t \<Longrightarrow> inv (step t e)"
    and success_same: "inv t \<Longrightarrow> state (step t (HSuccess now ms p)) p = Healthy"
    and success_other: "q \<noteq> p \<Longrightarrow> state (step t (HSuccess now ms p)) q = state t q"
    and failure_same:
      "inv t \<Longrightarrow> state (step t (HFailure now ft ms p)) p \<in> {Degraded, Unavailable, DisabledForRun}"
    and failure_other: "q \<noteq> p \<Longrightarrow> state (step t (HFailure now ft ms p)) q = state t q"
    and expire_state: "state (step t (HExpire now)) q = state t q
      \<or> (state t q = Unavailable \<and> state (step t (HExpire now)) q = Cooldown)"
begin

lemma inv_run: "inv t \<Longrightarrow> inv (foldl step t es)"
  by (induction es arbitrary: t) (simp_all add: inv_step)

lemma healthy_step:
  "inv t \<Longrightarrow> state (step t e) p = Healthy \<Longrightarrow> state t p = Healthy \<or> succeeds p e"
proof (cases e)
  case (HSuccess now ms q)
  then show "inv t \<Longrightarrow> state (step t e) p = Healthy \<Longrightarrow> ?thesis"
    using success_other [of p q] by (cases "q = p") auto
next
  case (HFailure now ft ms q)
  then show "inv t \<Longrightarrow> state (step t e) p = Healthy \<Longrightarrow> ?thesis"
    using failure_other [of p q] failure_same [of t now ft ms p] by (cases "q = p") auto
next
  case (HExpire now)
  then show "inv t \<Longrightarrow> state (step t e) p = Healthy \<Longrightarrow> ?thesis"
    using expire_state [of t now p] by auto
qed

lemma healthy_needs_success:
  "inv t \<Longrightarrow> state (foldl step t es) p = Healthy \<Longrightarrow>
   state t p = Healthy \<or> (\<exists>e \<in> set es. succeeds p e)"
proof (induction es arbitrary: t)
  case (Cons e es)
  from Cons.IH [OF inv_step [OF Cons.prems(1)]] Cons.prems(2)
  have "state (step t e) p = Healthy \<or> (\<exists>e \<in> set es. succeeds p e)" by simp
  then show ?case using healthy_step [OF Cons.prems(1)] by auto
qed simp

end

section \<open>Invariant of the tracker\<close>

definition state_facts :: "tracker \<Rightarrow> provider_record \<Rightarrow> bool" where
  "state_facts t r \<longleftrightarrow>
     (case pr_state r of
        Healthy \<Rightarrow> 1 \<le> pr_success_streak r \<and> pr_cooldown_until r = None
      | Degraded \<Rightarrow> 1 \<le> pr_failure_streak r \<and> pr_failure_streak r < tk_unavailable_streak t
      | Unavailable \<Rightarrow> 1 \<le> pr_failure_streak r
          \<and> pr_cooldown_until r = map_option (cooldown_end t) (pr_last_failure_at r)
          \<and> pr_last_failure_at r \<noteq> None
      | Cooldown \<Rightarrow> 1 \<le> pr_failure_streak r
          \<and> (\<exists>u. pr_cooldown_until r = Some u \<and> u \<le> pr_updated_at r)
      | UnknownHealth \<Rightarrow> pr_success_count r = 0 \<and> pr_failure_count r = 0
      | DisabledForRun \<Rightarrow> pr_cooldown_until r = None
          \<and> tk_max_probe_failures t \<le> pr_probe_failure_streak r)"

definition record_inv :: "tracker \<Rightarrow> string \<Rightarrow> provider_record \<Rightarrow> bool" where
  "record_inv t name r \<longleftrightarrow>
     pr_provider_name r = name
     \<and> length (pr_recent r) \<le> RECENT_WINDOW
     \<and> 0 \<le> pr_timeout_count r \<and> 0 \<le> pr_unresponsive_count r
     \<and> pr_timeout_count r + pr_unresponsive_count r \<le> pr_failure_count r
     \<and> 0 \<le> pr_success_streak r \<and> pr_success_streak r \<le> pr_success_count r
     \<and> 0 \<le> pr_probe_failure_streak r
     \<and> pr_probe_failure_streak r \<le> pr_failure_streak r
     \<and> pr_failure_streak r \<le> pr_failure_count r
     \<and> (pr_success_streak r = 0 \<or> pr_failure_streak r = 0)
     \<and> 0 \<le> pr_latency_sum r \<and> 0 \<le> pr_latency_count r
     \<and> pr_latency_count r \<le> pr_success_count r + pr_failure_count r
     \<and> state_facts t r"

definition tracker_inv :: "tracker \<Rightarrow> bool" where
  "tracker_inv t \<longleftrightarrow>
     dict_wf (tk_records t) \<and> 1 \<le> tk_unavailable_streak t \<and> 1 \<le> tk_max_probe_failures t
     \<and> (\<forall>(name, r) \<in> set (tk_records t). record_inv t name r)"

definition same_config :: "tracker \<Rightarrow> tracker \<Rightarrow> bool" where
  "same_config t u \<longleftrightarrow> tk_cooldown_seconds u = tk_cooldown_seconds t
     \<and> tk_unavailable_streak u = tk_unavailable_streak t
     \<and> tk_max_probe_failures u = tk_max_probe_failures t"

lemmas tracker_threshold_defs = CONSECUTIVE_SUCCESS_TO_HEALTHY_def FAILURE_STREAK_TO_DEGRADED_def

lemma length_last_window [simp]: "length (last_window xs) \<le> RECENT_WINDOW"
  by (simp add: last_window_def)

lemma last_window_id: "length xs \<le> RECENT_WINDOW \<Longrightarrow> last_window xs = xs"
  by (simp add: last_window_def)

lemma length_push_recent [simp]: "length (push_recent xs b) \<le> RECENT_WINDOW"
  by (simp add: push_recent_def)

lemma record_inv_config: "same_config t u \<Longrightarrow> record_inv u n r = record_inv t n r"
  by (auto simp: same_config_def record_inv_def state_facts_def cooldown_end_def
      split: health_state.splits)

lemma add_latency_fields [simp]:
  "pr_provider_name (add_latency ms r) = pr_provider_name r"
  "pr_state (add_latency ms r) = pr_state r"
  "pr_success_count (add_latency ms r) = pr_success_count r"
  "pr_failure_count (add_latency ms r) = pr_failure_count r"
  "pr_timeout_count (add_latency ms r) = pr_timeout_count r"
  "pr_unresponsive_count (add_latency ms r) = pr_unresponsive_count r"
  "pr_success_streak (add_latency ms r) = pr_success_streak r"
  "pr_failure_streak (add_latency ms r) = pr_failure_streak r"
  "pr_probe_failure_streak (add_latency ms r) = pr_probe_failure_streak r"
  "pr_recent (add_latency ms r) = pr_recent r"
  "pr_last_success_at (add_latency ms r) = pr_last_success_at r"
  "pr_last_failure_at (add_latency ms r) = pr_last_failure_at r"
  "pr_cooldown_until (add_latency ms r) = pr_cooldown_until r"
  "pr_updated_at (add_latency ms r) = pr_updated_at r"
  by (simp_all add: add_latency_def)

lemma add_latency_bounds:
  "0 \<le> pr_latency_sum r \<Longrightarrow> 0 \<le> pr_latency_sum (add_latency ms r)"
  "0 \<le> pr_latency_count r \<Longrightarrow> 0 \<le> pr_latency_count (add_latency ms r)"
  "pr_latency_count (add_latency ms r) \<le> pr_latency_count r + 1"
  by (simp_all add: add_latency_def)

lemma new_record_inv: "record_inv t name (new_record now name)"
  by (simp add: record_inv_def new_record_def state_facts_def)

lemma map_of_put [dict_simps]:
  "map_of (tk_records (put_record t name r)) = (map_of (tk_records t))(name \<mapsto> r)"
  by (simp add: put_record_def map_of_update)

lemma put_config [simp]:
  "tk_cooldown_seconds (put_record t name r) = tk_cooldown_seconds t"
  "tk_unavailable_streak (put_record t name r) = tk_unavailable_streak t"
  "tk_max_probe_failures (put_record t name r) = tk_max_probe_failures t"
  by (simp_all add: put_record_def)

lemma put_record_same_config: "same_config t (put_record t name r)"
  by (simp add: same_config_def)

lemma tracker_inv_get: "tracker_inv t \<Longrightarrow> record_inv t name (get_record now t name)"
  by (auto simp: tracker_inv_def get_record_def new_record_inv split: option.splits
      dest!: map_of_SomeD)

lemma tracker_inv_put:
  assumes "tracker_inv t" and "record_inv t name r"
  shows "tracker_inv (put_record t name r)"
proof -
  have "\<forall>(n, r') \<in> set (tk_records (put_record t name r)). record_inv t n r'"
    using assms entries_update [of name r "tk_records t"]
    by (fastforce simp: tracker_inv_def put_record_def)
  then show ?thesis
    using assms(1) record_inv_config [OF put_record_same_config [of t name r]]
    by (simp add: tracker_inv_def) (simp add: put_record_def)
qed

lemma success_record_inv:
  assumes "record_inv t name r"
  shows "record_inv t name (success_record now ms r)"
  using assms add_latency_bounds
  by (auto simp: success_record_def record_inv_def state_facts_def Let_def add_latency_def
      tracker_threshold_defs)

lemma count_failure_fields [simp]:
  "pr_provider_name (count_failure now ft ms r) = pr_provider_name r"
  "pr_state (count_failure now ft ms r) = pr_state r"
  "pr_success_count (count_failure now ft ms r) = pr_success_count r"
  "pr_failure_count (count_failure now ft ms r) = pr_failure_count r + 1"
  "pr_success_streak (count_failure now ft ms r) = 0"
  "pr_failure_streak (count_failure now ft ms r) = pr_failure_streak r + 1"
  "pr_probe_failure_streak (count_failure now ft ms r) = pr_probe_failure_streak r"
  "pr_recent (count_failure now ft ms r) = push_recent (pr_recent r) True"
  "pr_last_failure_at (count_failure now ft ms r) = Some now"
  "pr_cooldown_until (count_failure now ft ms r) = pr_cooldown_until r"
  "pr_updated_at (count_failure now ft ms r) = now"
  "pr_timeout_count (count_failure now ft ms r)
     = pr_timeout_count r + (if ft = Timeout then 1 else 0)"
  "pr_unresponsive_count (count_failure now ft ms r)
     = pr_unresponsive_count r + (if ft \<in> UNRESPONSIVE_TYPES then 1 else 0)"
  by (simp_all add: count_failure_def Let_def)

lemma count_failure_latency:
  "0 \<le> pr_latency_sum r \<Longrightarrow> 0 \<le> pr_latency_sum (count_failure now ft ms r)"
  "0 \<le> pr_latency_count r \<Longrightarrow> 0 \<le> pr_latency_count (count_failure now ft ms r)"
  "pr_latency_count (count_failure now ft ms r) \<le> pr_latency_count r + 1"
  by (simp_all add: count_failure_def Let_def add_latency_def)

lemma fail_transition_inv:
  assumes "record_inv t name r"
  shows "record_inv t name (fst (fail_transition t now ft (count_failure now ft ms r)))"
proof -
  have "ft = Timeout \<Longrightarrow> ft \<notin> UNRESPONSIVE_TYPES" by (simp add: UNRESPONSIVE_TYPES_def)
  then show ?thesis
    using assms count_failure_latency(1,2) [of r now ft ms] count_failure_latency(3) [of now ft ms r]
    by (auto simp: fail_transition_def Let_def record_inv_def state_facts_def
        tracker_threshold_defs)
qed

lemma expire_record_inv:
  assumes "record_inv t name r"
  shows "record_inv t name (expire_record now r)"
  using assms
  by (auto simp: expire_record_def cooldown_over_def record_inv_def state_facts_def
      split: option.splits)

lemma expire_config [simp]:
  "tk_cooldown_seconds (fst (expire_cooldowns now t)) = tk_cooldown_seconds t"
  "tk_unavailable_streak (fst (expire_cooldowns now t)) = tk_unavailable_streak t"
  "tk_max_probe_failures (fst (expire_cooldowns now t)) = tk_max_probe_failures t"
  by (simp_all add: expire_cooldowns_def)

lemma map_of_expire [dict_simps]:
  "map_of (tk_records (fst (expire_cooldowns now t))) name
     = map_option (expire_record now) (map_of (tk_records t) name)"
  by (simp add: expire_cooldowns_def map_of_map)

lemma tracker_inv_step: "tracker_inv t \<Longrightarrow> tracker_inv (apply_event t e)"
proof (cases e)
  case (HSuccess now ms p)
  then show "tracker_inv t \<Longrightarrow> ?thesis"
    by (simp add: record_success_def Let_def tracker_inv_put success_record_inv tracker_inv_get)
next
  case (HFailure now ft ms p)
  then show "tracker_inv t \<Longrightarrow> ?thesis"
    by (simp add: record_failure_def Let_def split_beta tracker_inv_put fail_transition_inv
        tracker_inv_get)
next
  case (HExpire now)
  have "same_config t (fst (expire_cooldowns now t))" by (simp add: same_config_def)
  note cfg = record_inv_config [OF this]
  assume inv: "tracker_inv t"
  then have "dict_wf (tk_records (fst (expire_cooldowns now t)))"
    by (simp add: tracker_inv_def expire_cooldowns_def dict_wf_def comp_def split_beta)
  moreover have "\<forall>(name, r) \<in> set (tk_records (fst (expire_cooldowns now t))). record_inv t name r"
    using inv by (auto simp: tracker_inv_def expire_cooldowns_def expire_record_inv)
  ultimately show ?thesis using inv HExpire by (simp add: tracker_inv_def cfg)
qed

lemma new_tracker_inv: "tracker_inv (new_tracker c s p)"
  by (simp add: tracker_inv_def new_tracker_def)

lemma state_of_put [simp]:
  "state_of (put_record t name r) q = (if q = name then pr_state r else state_of t q)"
  by (simp add: state_of_def dict_simps)

lemma fail_transition_state:
  "record_inv t name r \<Longrightarrow>
   pr_state (fst (fail_transition t now ft (count_failure now ft ms r)))
     \<in> {Degraded, Unavailable, DisabledForRun}"
  by (auto simp: fail_transition_def Let_def record_inv_def tracker_threshold_defs)

lemma success_record_state: "record_inv t name r \<Longrightarrow> pr_state (success_record now ms r) = Healthy"
  by (simp add: success_record_def Let_def record_inv_def tracker_threshold_defs)

lemma expire_state_of:
  "state_of (fst (expire_cooldowns now t)) q
     = (case map_of (tk_records t) q of None \<Rightarrow> UnknownHealth
        | Some r \<Rightarrow> if cooldown_over now r then Cooldown else pr_state r)"
  by (simp add: state_of_def map_of_expire expire_record_def split: option.splits)

interpretation tracker: health_tracking state_of apply_event tracker_inv
proof unfold_locales
  fix t q now
  show "state_of (apply_event t (HExpire now)) q = state_of t q
      \<or> (state_of t q = Unavailable \<and> state_of (apply_event t (HExpire now)) q = Cooldown)"
    unfolding apply_event.simps expire_state_of
    by (auto simp: state_of_def cooldown_over_def split: option.splits)
qed (simp_all add: tracker_inv_step record_success_def record_failure_def Let_def split_beta
    success_record_state [OF tracker_inv_get] fail_transition_state [OF tracker_inv_get, simplified])

section \<open>Streaks along a run\<close>

fun fails :: "string \<Rightarrow> health_event \<Rightarrow> bool" where
  "fails p (HFailure _ _ _ q) = (q = p)"
| "fails p _ = False"

definition failure_streak :: "tracker \<Rightarrow> string \<Rightarrow> int" where
  "failure_streak t p =
     (case map_of (tk_records t) p of None \<Rightarrow> 0 | Some r \<Rightarrow> pr_failure_streak r)"

definition probe_streak :: "tracker \<Rightarrow> string \<Rightarrow> int" where
  "probe_streak t p =
     (case map_of (tk_records t) p of None \<Rightarrow> 0 | Some r \<Rightarrow> pr_probe_failure_streak r)"

lemma fail_transition_streaks [simp]:
  "pr_failure_streak (fst (fail_transition t now ft r)) = pr_failure_streak r"
  "pr_probe_failure_streak (fst (fail_transition t now ft r))
     = pr_probe_failure_streak r + (if pr_state r = Cooldown then 1 else 0)"
  by (simp_all add: fail_transition_def Let_def)

lemma expire_record_streaks [simp]:
  "pr_failure_streak (expire_record now r) = pr_failure_streak r"
  "pr_probe_failure_streak (expire_record now r) = pr_probe_failure_streak r"
  by (simp_all add: expire_record_def)

lemma get_record_streaks:
  "pr_failure_streak (get_record now t p) = failure_streak t p"
  "pr_probe_failure_streak (get_record now t p) = probe_streak t p"
  "pr_state (get_record now t p) = state_of t p"
  by (simp_all add: get_record_def failure_streak_def probe_streak_def state_of_def new_record_def
      split: option.splits)

lemma failure_streak_step:
  "\<not> succeeds p e \<Longrightarrow> failure_streak (apply_event t e) p
     = failure_streak t p + (if fails p e then 1 else 0)"
  by (cases e)
     (auto simp: record_failure_def record_success_def Let_def split_beta failure_streak_def dict_simps
       get_record_streaks(1) [unfolded failure_streak_def] split: option.splits)

lemma probe_streak_step:
  "\<not> succeeds p e \<Longrightarrow> probe_streak (apply_event t e) p
     = probe_streak t p + (if fails p e \<and> state_of t p = Cooldown then 1 else 0)"
  by (cases e)
     (auto simp: record_failure_def record_success_def Let_def split_beta probe_streak_def dict_simps
       get_record_streaks(2) [unfolded probe_streak_def] get_record_streaks(3) split: option.splits)

lemma step_config [simp]:
  "tk_unavailable_streak (apply_event t e) = tk_unavailable_streak t"
  "tk_max_probe_failures (apply_event t e) = tk_max_probe_failures t"
  by (cases e; simp add: record_failure_def record_success_def Let_def split_beta)+

lemma run_config [simp]:
  "tk_unavailable_streak (run_events t es) = tk_unavailable_streak t"
  "tk_max_probe_failures (run_events t es) = tk_max_probe_failures t"
  by (induction es arbitrary: t) simp_all

lemma run_inv: "tracker_inv t \<Longrightarrow> tracker_inv (run_events t es)"
  unfolding run_events_def by (rule tracker.inv_run)

lemma failure_streak_run:
  "\<forall>e \<in> set es. \<not> succeeds p e \<Longrightarrow>
   failure_streak (run_events t es) p = failure_streak t p + int (length (filter (fails p) es))"
  by (induction es arbitrary: t) (auto simp: failure_streak_step)

lemma failure_streak_nonneg: "tracker_inv t \<Longrightarrow> 0 \<le> failure_streak t p"
  using tracker_inv_get [of t p 0] by (auto simp: record_inv_def get_record_streaks(1))

lemma state_after_failure:
  "state_of (apply_event t (HFailure now ft ms p)) p =
     (if state_of t p = Cooldown
      then if probe_streak t p + 1 \<ge> tk_max_probe_failures t then DisabledForRun else Unavailable
      else if ft = CircuitOpen \<or> failure_streak t p + 1 \<ge> tk_unavailable_streak t then Unavailable
      else if failure_streak t p + 1 \<ge> 1 then Degraded else state_of t p)"
  by (simp add: record_failure_def Let_def split_beta fail_transition_def get_record_streaks
      tracker_threshold_defs)

text \<open>
  The discipline of the routing layer: a blocked provider is not called, so no outcome of it is
  reported while it is blocked.
\<close>

fun probing_without_success :: "string \<Rightarrow> tracker \<Rightarrow> health_event list \<Rightarrow> bool" where
  "probing_without_success p t [] = True"
| "probing_without_success p t (e # es) =
     (\<not> succeeds p e \<and> (fails p e \<longrightarrow> state_of t p \<notin> {Unavailable, DisabledForRun})
      \<and> probing_without_success p (apply_event t e) es)"

fun probes :: "string \<Rightarrow> tracker \<Rightarrow> health_event list \<Rightarrow> nat" where
  "probes p t [] = 0"
| "probes p t (e # es) =
     (if fails p e \<and> state_of t p = Cooldown then 1 else 0) + probes p (apply_event t e) es"

definition probe_ok :: "tracker \<Rightarrow> string \<Rightarrow> bool" where
  "probe_ok t p \<longleftrightarrow> (if state_of t p = DisabledForRun
     then probe_streak t p = tk_max_probe_failures t else probe_streak t p < tk_max_probe_failures t)"

lemma expire_keeps:
  "state_of (apply_event t (HExpire now)) p \<in> {state_of t p, Cooldown}"
  "state_of (apply_event t (HExpire now)) p \<noteq> state_of t p \<Longrightarrow> state_of t p = Unavailable"
  using tracker.expire_state [of t now p] by auto

lemma state_untouched:
  "\<not> succeeds p e \<Longrightarrow> \<not> fails p e \<Longrightarrow>
   (state_of (apply_event t e) p = DisabledForRun) = (state_of t p = DisabledForRun)"
proof (cases e)
  case (HExpire now)
  then show ?thesis using expire_keeps [of t now p] by auto
next
  case (HSuccess now ms q)
  then show "\<not> succeeds p e \<Longrightarrow> ?thesis" using tracker.success_other [of p q t now ms] by auto
next
  case (HFailure now ft ms q)
  then show "\<not> fails p e \<Longrightarrow> ?thesis" using tracker.failure_other [of p q t now ft ms] by auto
qed

lemma failure_leads_to_disabled:
  assumes "fails p e" and "state_of t p \<notin> {Unavailable, DisabledForRun}"
  shows "state_of (apply_event t e) p = DisabledForRun \<longleftrightarrow>
    state_of t p = Cooldown \<and> probe_streak t p + 1 \<ge> tk_max_probe_failures t"
proof -
  obtain now ft ms where "e = HFailure now ft ms p" using assms(1) by (cases e) auto
  then show ?thesis using assms(2) state_after_failure [of t now ft ms p] by auto
qed

lemma probe_ok_step:
  assumes "probe_ok t p" and "\<not> succeeds p e"
    and "fails p e \<longrightarrow> state_of t p \<notin> {Unavailable, DisabledForRun}"
  shows "probe_ok (apply_event t e) p"
proof (cases "fails p e")
  case True
  with failure_leads_to_disabled [of p e t] assms probe_streak_step [OF assms(2)] show ?thesis
    by (auto simp: probe_ok_def)
next
  case False
  with state_untouched [OF assms(2)] assms probe_streak_step [OF assms(2)] show ?thesis
    by (auto simp: probe_ok_def)
qed

lemma probing_run:
  "probe_ok t p \<Longrightarrow> probing_without_success p t es \<Longrightarrow>
   probe_ok (run_events t es) p
   \<and> probe_streak (run_events t es) p = probe_streak t p + int (probes p t es)"
proof (induction es arbitrary: t)
  case (Cons e es)
  then have "probe_ok (apply_event t e) p" by (intro probe_ok_step) auto
  with Cons.IH [of "apply_event t e"] Cons.prems(2) show ?case
    using probe_streak_step [of p e t] by simp
qed simp

section \<open>Payloads\<close>

lemma state_from_health_value [simp]: "state_from_value (JStr (health_value h)) = h"
  by (cases h) (simp_all add: state_from_value_def)

lemma payload_readers [simp]:
  "payload_int (JInt n) = n" "payload_float (JNum q) = q" "payload_datetime (JTime x) = Some x"
  "payload_datetime (json_time o') = o'"
  by (simp_all add: payload_int_def payload_float_def payload_datetime_def json_time_def
      split: option.splits)

lemma record_payload_roundtrip:
  "length (pr_recent r) \<le> RECENT_WINDOW \<Longrightarrow>
   record_from_payload now (pr_provider_name r) (record_to_payload r) = r"
  by (cases r) (simp add: record_from_payload_def record_to_payload_def last_window_id comp_def truthy_def)

lemma load_records_fresh:
  "distinct (map fst rs) \<Longrightarrow> fst ` set d \<inter> fst ` set rs = {} \<Longrightarrow>
   \<forall>(k, r) \<in> set rs. pr_provider_name r = k \<and> length (pr_recent r) \<le> RECENT_WINDOW \<Longrightarrow>
   load_records now (map (\<lambda>(k, r). (k, JObj (record_to_payload r))) rs) d = d @ rs"
proof (induction rs arbitrary: d)
  case (Cons x rs)
  obtain k r where x: "x = (k, r)" by (cases x)
  with Cons.prems have "record_from_payload now k (record_to_payload r) = r"
    using record_payload_roundtrip [of r now] by auto
  moreover have "AList.update k r d = d @ [(k, r)]"
    using Cons.prems x by (intro update_new) auto
  ultimately show ?case using Cons.IH [of "d @ [(k, r)]"] Cons.prems x by auto
qed simp

section \<open>Properties\<close>

text \<open>
  C6. Whatever outcomes are reported and whenever cooldowns are expired, the tracker keeps its
  invariant: counters and streaks are consistent and non-negative, the failure window holds at
  most ten outcomes, an unavailable provider always carries the end of its cooldown, a degraded
  one has a streak below the threshold, and a provider is healthy only if a success of it was
  reported.
\<close>

theorem tracker_runs_keep_invariant:
  "tracker_inv (run_events (new_tracker c s m) es)
   \<and> {p. state_of (run_events (new_tracker c s m) es) p = Healthy} \<subseteq> {p. list_ex (succeeds p) es}"
proof -
  have "list_ex (succeeds p) es" if "state_of (run_events (new_tracker c s m) es) p = Healthy" for p
    using tracker.healthy_needs_success [OF new_tracker_inv] that
    by (force simp: list_ex_iff run_events_def state_of_def new_tracker_def)
  then show ?thesis using run_inv [OF new_tracker_inv] by auto
qed

text \<open>
  C7. A provider that keeps failing is blocked: after a failure report that brings the failures
  since its last success to the threshold, the provider is unavailable or disabled, whatever
  happened to other providers and however often cooldowns were expired in between.
\<close>

theorem persistent_failure_blocks_provider:
  assumes "tracker_inv t" and "\<forall>e \<in> set es. \<not> succeeds p e"
    and "int (length (filter (fails p) es)) + 1 \<ge> tk_unavailable_streak t"
  shows "state_of (run_events t (es @ [HFailure now ft ms p])) p \<in> {Unavailable, DisabledForRun}"
proof -
  let ?u = "run_events t es"
  have "failure_streak ?u p + 1 \<ge> tk_unavailable_streak ?u"
    using failure_streak_run [OF assms(2), of t] failure_streak_nonneg [OF assms(1), of p] assms(3)
    by simp
  moreover have "run_events t (es @ [HFailure now ft ms p]) = apply_event ?u (HFailure now ft ms p)"
    by (simp add: run_events_def)
  ultimately show ?thesis using state_after_failure [of ?u now ft ms p] by auto
qed

theorem persistent_failure_blocks_provider_witness:
  "state_of (run_events default_tracker
     ([HFailure 0 Timeout 5 ''Bing'', HSuccess 1 5 ''SearXNG'', HFailure 2 Timeout 5 ''Bing'',
       HExpire 3] @ [HFailure 4 NetworkError 0 ''Bing''])) ''Bing'' \<in> {Unavailable, DisabledForRun}"
  by (rule persistent_failure_blocks_provider)
     (simp_all add: default_tracker_def new_tracker_inv,
      simp add: new_tracker_def FAILURE_STREAK_TO_UNAVAILABLE_def)

text \<open>
  C8. Probing is bounded: as long as no success is reported and a blocked provider is not called,
  the number of cooldown probes a provider receives never exceeds what is left of
  \<open>max_probe_failures\<close>, and it is disabled for the run as soon as it has used them all.
\<close>

theorem cooldown_probes_are_bounded:
  assumes "probe_ok t p" and "probing_without_success p t es"
  shows "int (probes p t es) \<le> tk_max_probe_failures t - probe_streak t p
    \<and> (int (probes p t es) = tk_max_probe_failures t - probe_streak t p
        \<longleftrightarrow> state_of (run_events t es) p = DisabledForRun)"
  using probing_run [OF assms] by (auto simp: probe_ok_def split: if_splits)

definition probe_loop :: "health_event list" where
  "probe_loop = [HFailure 0 CircuitOpen 0 ''Bing'', HExpire 20000000, HFailure 20000001 Timeout 0 ''Bing'',
     HExpire 40000000, HFailure 40000001 Timeout 0 ''Bing'',
     HExpire 60000000, HFailure 60000001 Timeout 0 ''Bing'', HExpire 90000000]"

lemmas tracker_eval = default_tracker_def new_tracker_def tracker_threshold_defs
  FAILURE_STREAK_TO_UNAVAILABLE_def PROVIDER_COOLDOWN_SECONDS_def MAX_PROBE_FAILURES_def
  record_failure_def record_success_def expire_cooldowns_def get_record_def put_record_def
  new_record_def fail_transition_def count_failure_def add_latency_def push_recent_def
  last_window_def RECENT_WINDOW_def cooldown_over_def expire_record_def cooldown_end_def
  round_half_even_def state_of_def UNRESPONSIVE_TYPES_def Let_def split_beta

theorem cooldown_probes_are_bounded_witness:
  "int (probes ''Bing'' default_tracker probe_loop) \<le> 3
   \<and> state_of (run_events default_tracker probe_loop) ''Bing'' = DisabledForRun"
proof -
  have ok: "probe_ok default_tracker ''Bing''"
    by (simp add: probe_ok_def probe_streak_def tracker_eval)
  have run: "probing_without_success ''Bing'' default_tracker probe_loop"
    and n: "probes ''Bing'' default_tracker probe_loop = 3"
    by (simp_all add: probe_loop_def tracker_eval)
  show ?thesis
    using cooldown_probes_are_bounded [OF ok run] n
    by (simp add: probe_streak_def default_tracker_def new_tracker_def MAX_PROBE_FAILURES_def)
qed

text \<open>
  C9. Saving a tracker and loading it again gives the same tracker: every record, the order of
  the providers and the thresholds survive \<open>to_payload\<close> and \<open>from_payload\<close>.
\<close>

theorem tracker_payload_roundtrip:
  assumes "tracker_inv t"
  shows "tracker_from_payload now (tracker_to_payload t) (tk_cooldown_seconds t)
           (tk_unavailable_streak t) (tk_max_probe_failures t) = t"
proof -
  have "load_records now (tracker_to_payload t) [] = [] @ tk_records t"
    unfolding tracker_to_payload_def
    by (rule load_records_fresh)
       (use assms in \<open>auto simp: tracker_inv_def dict_wf_def record_inv_def\<close>)
  with assms show ?thesis
    by (cases t) (simp add: tracker_from_payload_def new_tracker_def tracker_inv_def)
qed

theorem tracker_payload_roundtrip_witness:
  "tracker_from_payload 7 (tracker_to_payload (run_events default_tracker probe_loop)) 15 3 3
     = run_events default_tracker probe_loop"
proof -
  have "tracker_inv (run_events default_tracker probe_loop)"
    unfolding default_tracker_def by (rule run_inv [OF new_tracker_inv])
  moreover have "tk_cooldown_seconds (run_events default_tracker probe_loop) = 15"
    by (simp add: probe_loop_def tracker_eval)
  ultimately show ?thesis
    using tracker_payload_roundtrip [of "run_events default_tracker probe_loop" 7]
    by (simp add: default_tracker_def new_tracker_def MAX_PROBE_FAILURES_def
        FAILURE_STREAK_TO_UNAVAILABLE_def)
qed

text \<open>
  C10. What a late failure report does to a blocked provider. A provider that is disabled for the
  run leaves that state on any further failure: it becomes unavailable with a fresh cooldown (or
  degraded, hence selectable, if its streak is below the threshold), and the next expiry makes it
  probeable again. A provider blocked by an open circuit whose streak is still short becomes
  degraded, hence selectable, by a further ordinary failure.
\<close>

theorem late_failure_reopens_blocked_provider:
  assumes "tracker_inv t" and "state_of t p \<in> {DisabledForRun, Unavailable}"
  shows "state_of (apply_event t (HFailure now ft ms p)) p =
      (if ft = CircuitOpen \<or> failure_streak t p + 1 \<ge> tk_unavailable_streak t
       then Unavailable else Degraded)"
  using assms(2) failure_streak_nonneg [OF assms(1), of p] state_after_failure [of t now ft ms p]
  by auto

theorem late_failure_reopens_blocked_provider_witness:
  "state_of (apply_event (run_events default_tracker probe_loop) (HFailure 90000001 Timeout 0 ''Bing'')) ''Bing''
     = Unavailable
   \<and> state_of (apply_event (run_events default_tracker [HFailure 0 CircuitOpen 0 ''Bing''])
        (HFailure 1 Timeout 0 ''Bing'')) ''Bing'' = Degraded"
proof -
  have inv: "tracker_inv (run_events default_tracker es)" for es
    unfolding default_tracker_def by (rule run_inv [OF new_tracker_inv])
  have a: "state_of (run_events default_tracker probe_loop) ''Bing'' = DisabledForRun"
    "failure_streak (run_events default_tracker probe_loop) ''Bing'' = 4"
    "tk_unavailable_streak default_tracker = 3"
    by (simp_all add: probe_loop_def failure_streak_def tracker_eval)
  have b: "state_of (run_events default_tracker [HFailure 0 CircuitOpen 0 ''Bing'']) ''Bing'' = Unavailable"
    "failure_streak (run_events default_tracker [HFailure 0 CircuitOpen 0 ''Bing'']) ''Bing'' = 1"
    by (simp_all add: failure_streak_def tracker_eval)
  show ?thesis
    using late_failure_reopens_blocked_provider [OF inv, of probe_loop "''Bing''" 90000001 Timeout 0]
      late_failure_reopens_blocked_provider
        [OF inv, of "[HFailure 0 CircuitOpen 0 ''Bing'']" "''Bing''" 1 Timeout 0] a b
    by (simp del: run_events_simps apply_event.simps)
qed

end
