(* ===== verification/Provider_Routing.thy ===== *)
theory Provider_Routing
  imports Provider_Health
begin

text \<open>
  The provider pool, the routing decision and the execution of one attempt:
  \<open>app/domain/provider_registry.py\<close>, \<open>provider_router.py\<close> and \<open>provider_executor.py\<close>.

  The router reads health through \<open>state_of\<close> only, so its model takes the lookup function; the
  lemmas that combine it with reported outcomes are proved in the locale \<open>health_tracking\<close> and
  reach the properties through its interpretation on the tracker. Provider calls are code outside
  this layer and are an argument of the executor: a function from the query, the limit and the
  options to what the call raised or returned.
\<close>

section \<open>Registry\<close>

datatype cost_class = CostFree | CostLow | CostStandard

record capability =
  cap_provider_name :: string
  cap_supports_web_search :: bool
  cap_supports_language :: "string list"
  cap_rate_limit :: "int option"
  cap_cost_class :: cost_class
  cap_priority :: int
  cap_enabled :: bool

record registry =
  rg_capabilities :: "capability list"
  rg_by_name :: "(string, capability) dict"

definition mk_registry :: "capability list \<Rightarrow> registry result" where
  "mk_registry caps =
     (if caps = [] then Inl (ValueError ''provider registry requires at least one capability'')
      else let sorted_caps = map snd (sort_key (\<lambda>(i, c). (cap_priority c, i)) (enumerate 0 caps));
               by_name = dict_of cap_provider_name sorted_caps
           in if length by_name \<noteq> length sorted_caps
              then Inl (ValueError ''provider registry capability names must be unique'')
              else Inr \<lparr>rg_capabilities = sorted_caps, rg_by_name = by_name\<rparr>)"

definition registry_contains :: "registry \<Rightarrow> string \<Rightarrow> bool" where
  "registry_contains r name \<longleftrightarrow> map_of (rg_by_name r) name \<noteq> None"

definition registry_len :: "registry \<Rightarrow> nat" where
  "registry_len r = length (rg_capabilities r)"

definition registry_capability :: "registry \<Rightarrow> string \<Rightarrow> capability option" where
  "registry_capability r name = map_of (rg_by_name r) name"

definition is_registered :: "registry \<Rightarrow> string \<Rightarrow> bool" where
  "is_registered r name \<longleftrightarrow>
     (case map_of (rg_by_name r) name of None \<Rightarrow> False | Some c \<Rightarrow> cap_enabled c)"

definition active_providers :: "registry \<Rightarrow> string list" where
  "active_providers r = map cap_provider_name (filter cap_enabled (rg_capabilities r))"

definition pool_size :: "registry \<Rightarrow> nat" where
  "pool_size r = length (filter cap_enabled (rg_capabilities r))"

definition mk_capability :: "string \<Rightarrow> int option \<Rightarrow> cost_class \<Rightarrow> int \<Rightarrow> capability" where
  "mk_capability name rate cost prio =
     \<lparr>cap_provider_name = name, cap_supports_web_search = True,
      cap_supports_language = [''en'', ''zh''], cap_rate_limit = rate, cap_cost_class = cost,
      cap_priority = prio, cap_enabled = True\<rparr>"

definition default_capabilities :: "bool \<Rightarrow> bool \<Rightarrow> capability list" where
  "default_capabilities brave_key duckduckgo =
     [mk_capability ''SearXNG'' None CostFree 1, mk_capability ''Bing'' None CostFree 2]
     @ (if brave_key then [mk_capability ''Brave'' (Some 2000) CostLow 3] else [])
     @ (if duckduckgo then [mk_capability ''DuckDuckGo'' None CostFree 4] else [])"

definition default_registry :: "bool \<Rightarrow> bool \<Rightarrow> registry result" where
  "default_registry brave_key duckduckgo = mk_registry (default_capabilities brave_key duckduckgo)"

section \<open>Router\<close>

fun state_priority :: "health_state \<Rightarrow> int" where
  "state_priority Healthy = 0"
| "state_priority Degraded = 1"
| "state_priority UnknownHealth = 2"
| "state_priority Cooldown = 3"
| "state_priority Unavailable = 99"
| "state_priority DisabledForRun = 100"

definition BLOCKED_STATES :: "health_state set" where
  "BLOCKED_STATES = {Unavailable, DisabledForRun}"

definition FEEDBACK_NON_HEALTHY_PENALTY :: int where "FEEDBACK_NON_HEALTHY_PENALTY = 50"

definition DEFAULT_MAX_PROVIDER_SWITCHES :: int where "DEFAULT_MAX_PROVIDER_SWITCHES = 1"

record selection =
  sel_provider :: "string option"
  sel_excluded :: "string list"
  sel_reason :: string
  sel_health_state :: "health_state option"
  sel_fallback_used :: bool
  sel_feedback_execution_id :: "uuid option"
  sel_pool_size :: nat
  sel_available_count :: nat
  sel_rank :: nat

record router =
  rt_candidates :: "string list"
  rt_max_switches :: int

definition mk_router ::
  "string list option \<Rightarrow> registry option \<Rightarrow> int \<Rightarrow> router result" where
  "mk_router candidates reg max_switches =
     (let cands = (case candidates of
                     Some cs \<Rightarrow> cs
                   | None \<Rightarrow> (case reg of None \<Rightarrow> [] | Some r \<Rightarrow> active_providers r))
      in if cands = []
         then Inl (ValueError ''provider router requires at least one candidate provider'')
         else Inr \<lparr>rt_candidates = dedup cands, rt_max_switches = max 0 max_switches\<rparr>)"

definition routing_priority :: "bool \<Rightarrow> health_state \<Rightarrow> int" where
  "routing_priority is_feedback st =
     state_priority st
     + (if is_feedback \<and> st \<noteq> Healthy then FEEDBACK_NON_HEALTHY_PENALTY else 0)"

definition ineligible :: "(string \<Rightarrow> health_state) \<Rightarrow> string list \<Rightarrow> string \<Rightarrow> bool" where
  "ineligible health excluded p \<longleftrightarrow> p \<in> set excluded \<or> health p \<in> BLOCKED_STATES"

definition ranked_candidates ::
  "(string \<Rightarrow> health_state) \<Rightarrow> bool \<Rightarrow> string list \<Rightarrow> string list
    \<Rightarrow> (int \<times> nat \<times> string \<times> health_state) list" where
  "ranked_candidates health is_feedback excluded cands =
     map (\<lambda>(order, p). (routing_priority is_feedback (health p), order, p, health p))
       (filter (\<lambda>(order, p). \<not> ineligible health excluded p) (enumerate 0 cands))"

fun selection_reason :: "bool \<Rightarrow> health_state \<Rightarrow> string" where
  "selection_reason True st =
     (if st = Healthy then ''feedback_query_healthy_provider_selected''
      else ''feedback_query_no_healthy_provider_fallback'')"
| "selection_reason False st =
     (if st = Healthy then ''healthy_provider_selected''
      else if st = Degraded then ''healthy_provider_unavailable_degraded_fallback''
      else if st = Cooldown then ''healthy_provider_unavailable_cooldown_probe''
      else ''healthy_provider_unavailable_unknown_fallback'')"

definition select_for ::
  "router \<Rightarrow> (string \<Rightarrow> health_state) \<Rightarrow> bool \<Rightarrow> uuid option \<Rightarrow> string list \<Rightarrow> int \<Rightarrow> selection" where
  "select_for rt health is_feedback fb_id already_excluded switches_used =
     (let cands = rt_candidates rt;
          excluded = dedup already_excluded;
          primary = hd cands;
          ranked = ranked_candidates health is_feedback excluded cands;
          unavailable = filter (ineligible health excluded) cands
      in case sort_key (\<lambda>(prio, order, _, _). (prio, order)) ranked of
           [] \<Rightarrow> \<lparr>sel_provider = None, sel_excluded = unavailable,
                  sel_reason = ''all_providers_unavailable'', sel_health_state = None,
                  sel_fallback_used = False, sel_feedback_execution_id = fb_id,
                  sel_pool_size = length cands, sel_available_count = 0, sel_rank = 0\<rparr>
         | (_, order, selected, st) # _ \<Rightarrow>
             (let fallback = (selected \<noteq> primary)
              in if fallback \<and> switches_used \<ge> rt_max_switches rt
                 then \<lparr>sel_provider = None,
                       sel_excluded =
                         dedup (unavailable @ filter (\<lambda>p. p \<noteq> selected) cands),
                       sel_reason = ''provider_switch_budget_exhausted'',
                       sel_health_state = Some st, sel_fallback_used = False,
                       sel_feedback_execution_id = fb_id, sel_pool_size = length cands,
                       sel_available_count = length ranked, sel_rank = 0\<rparr>
                 else \<lparr>sel_provider = Some selected, sel_excluded = unavailable,
                       sel_reason = selection_reason is_feedback st,
                       sel_health_state = Some st, sel_fallback_used = fallback,
                       sel_feedback_execution_id = fb_id, sel_pool_size = length cands,
                       sel_available_count = length ranked, sel_rank = order + 1\<rparr>))"

section \<open>Executor\<close>

datatype execution_status = ExSuccess | ExFailed | ExEmpty

record execution_result =
  er_provider_name :: string
  er_status :: execution_status
  er_results :: "string list"
  er_error_type :: "provider_failure_type option"
  er_latency_ms :: rat
  er_execution_id :: uuid
  er_feedback_execution_id :: "uuid option"
  er_reason :: string

text \<open>
  What a provider call hands back. An exception carries the texts of its \<open>code\<close> attribute
  (empty when absent or false), its class name and its \<open>details\<close> when they are a mapping. A row
  of the result carries the texts of its \<open>url\<close> attribute and of its \<open>"url"\<close> entry, if any.
\<close>

record py_exception =
  ex_code :: string
  ex_class_name :: string
  ex_details :: "(string \<times> json) list option"

datatype raw_item = ItemStr string | ItemRow "string option" "string option"

datatype raw_value = RawNone | RawStr string | RawOther | RawItems "raw_item list"

datatype call_outcome = Raised py_exception | Returned raw_value

type_synonym provider_call = "string \<Rightarrow> int \<Rightarrow> (string \<times> json) list \<Rightarrow> call_outcome"

record executor =
  xe_calls :: "(string, provider_call) dict"
  xe_candidates :: "string list"

definition mk_executor :: "(string, provider_call) dict \<Rightarrow> string list \<Rightarrow> executor result" where
  "mk_executor calls cands =
     (if cands = [] then Inl (ValueError ''provider executor requires at least one candidate'')
      else Inr \<lparr>xe_calls = calls, xe_candidates = dedup cands\<rparr>)"

definition classify_exception :: "py_exception \<Rightarrow> provider_failure_type result" where
  "classify_exception e =
     classify_provider_failure (if ex_code e \<noteq> [] then ex_code e else ex_class_name e)
       (case ex_details e of None \<Rightarrow> [] | Some d \<Rightarrow> d)"

definition item_url :: "raw_item \<Rightarrow> string" where
  "item_url i = (case i of
       ItemStr s \<Rightarrow> s
     | ItemRow attr entry \<Rightarrow>
         (case (case attr of None \<Rightarrow> entry | Some u \<Rightarrow> Some u) of None \<Rightarrow> [] | Some u \<Rightarrow> u))"

fun collect_urls :: "raw_item list \<Rightarrow> string list \<Rightarrow> string list" where
  "collect_urls [] urls = urls"
| "collect_urls (i # is) urls =
     (let url = item_url i
      in collect_urls is (if url = [] \<or> url \<in> set urls then urls else urls @ [url]))"

definition extract_urls :: "raw_value \<Rightarrow> string list" where
  "extract_urls raw = (case raw of
       RawNone \<Rightarrow> [] | RawStr s \<Rightarrow> (if s = [] then [] else [s]) | RawOther \<Rightarrow> []
     | RawItems is \<Rightarrow> collect_urls is [])"

fun failure_value :: "provider_failure_type \<Rightarrow> string" where
  "failure_value Timeout = ''timeout''"
| "failure_value Unresponsive = ''unresponsive''"
| "failure_value RateLimit = ''rate_limit''"
| "failure_value NetworkError = ''network_error''"
| "failure_value ServerError = ''server_error''"
| "failure_value EmptyResponse = ''empty_response''"
| "failure_value CircuitOpen = ''circuit_open''"
| "failure_value UnknownFailure = ''unknown''"

definition mk_execution ::
  "string \<Rightarrow> execution_status \<Rightarrow> string list \<Rightarrow> provider_failure_type option \<Rightarrow> rat \<Rightarrow> uuid
    \<Rightarrow> selection \<Rightarrow> string \<Rightarrow> execution_result" where
  "mk_execution p st urls ft ms eid d reason =
     \<lparr>er_provider_name = p, er_status = st, er_results = urls, er_error_type = ft,
      er_latency_ms = ms, er_execution_id = eid,
      er_feedback_execution_id = sel_feedback_execution_id d, er_reason = reason\<rparr>"

text \<open>\<open>eid\<close> is the fresh execution id and \<open>elapsed\<close> the measured duration of the call.\<close>

definition execute ::
  "executor \<Rightarrow> uuid \<Rightarrow> rat \<Rightarrow> selection \<Rightarrow> string \<Rightarrow> int \<Rightarrow> (string \<times> json) list
    \<Rightarrow> execution_result result" where
  "execute x eid elapsed d query limit options =
     (case sel_provider d of
        None \<Rightarrow> Inr (mk_execution [] ExFailed [] None 0 eid d (sel_reason d))
      | Some p \<Rightarrow>
          if p \<notin> set (xe_candidates x)
          then Inr (mk_execution p ExFailed [] (Some UnknownFailure) 0 eid d
                      ''provider_not_registered'')
          else (case map_of (xe_calls x) p of
                  None \<Rightarrow> Inr (mk_execution p ExFailed [] (Some UnknownFailure) 0 eid d
                                ''provider_call_missing'')
                | Some call \<Rightarrow>
                    (case call query limit options of
                       Raised exc \<Rightarrow>
                         (case classify_exception exc of
                            Inl e \<Rightarrow> Inl e
                          | Inr ft \<Rightarrow> Inr (mk_execution p ExFailed [] (Some ft) elapsed eid d
                                            (''provider_failure:'' @ failure_value ft)))
                     | Returned raw \<Rightarrow>
                         (let urls = extract_urls raw
                          in if urls = []
                             then Inr (mk_execution p ExEmpty [] (Some EmptyResponse) elapsed eid d
                                         ''empty_result'')
                             else Inr (mk_execution p ExSuccess urls None elapsed eid d
                                         ''provider_success'')))))"

section \<open>Sorting by priority and declaration order\<close>

lemma insort_enumerated:
  "\<forall>(i, c) \<in> set ys. n < i \<Longrightarrow>
   map snd (insort_key (\<lambda>(i, c). (f c :: int, i :: nat)) (n, x) ys) = insort_key f x (map snd ys)"
  by (induction ys) auto

lemma sort_enumerated:
  "map snd (sort_key (\<lambda>(i, c). (f c :: int, i)) (enumerate n xs)) = sort_key f xs"
proof (induction xs arbitrary: n)
  case (Cons x xs)
  have "\<forall>(i, c) \<in> set (sort_key (\<lambda>(i, c). (f c, i)) (enumerate (Suc n) xs)). n < i"
    by (auto simp: in_set_enumerate_eq)
  from insort_enumerated [OF this, of f x] Cons show ?case by simp
qed simp

lemma length_dict_of: "length (dict_of key xs) = length xs \<longleftrightarrow> distinct (map key xs)"
proof -
  have "length (dict_of key xs) = card (key ` set xs)"
    using dict_wf_dict_of [of key xs] keys_dict_of [of key xs]
    by (metis dict_wf_def distinct_card length_map list.set_map)
  then show ?thesis
    by (metis card_distinct distinct_card length_map list.set_map)
qed

lemma mk_registry_Inr:
  "mk_registry caps = Inr r \<longleftrightarrow>
   caps \<noteq> [] \<and> distinct (map cap_provider_name caps)
   \<and> r = \<lparr>rg_capabilities = sort_key cap_priority caps,
         rg_by_name = dict_of cap_provider_name (sort_key cap_priority caps)\<rparr>"
proof -
  have "distinct (map cap_provider_name (sort_key cap_priority caps))
      \<longleftrightarrow> distinct (map cap_provider_name caps)"
    by (metis mset_map mset_sort mset_eq_imp_distinct_iff)
  then show ?thesis
    by (auto simp: mk_registry_def sort_enumerated length_dict_of Let_def)
qed

section \<open>The ranking\<close>

lemma in_ranked:
  "x \<in> set (ranked_candidates health fb excluded cands) \<longleftrightarrow>
   (\<exists>i < length cands. \<not> ineligible health excluded (cands ! i)
      \<and> x = (routing_priority fb (health (cands ! i)), i, cands ! i, health (cands ! i)))"
  by (force simp: ranked_candidates_def in_set_enumerate_eq)

lemma ranked_Nil_iff:
  "ranked_candidates health fb excluded cands = [] \<longleftrightarrow>
   (\<forall>p \<in> set cands. ineligible health excluded p)"
proof -
  have "ranked_candidates health fb excluded cands = [] \<longleftrightarrow>
      (\<forall>x \<in> set (enumerate 0 cands). ineligible health excluded (snd x))"
    by (auto simp: ranked_candidates_def filter_empty_conv)
  also have "\<dots> \<longleftrightarrow> (\<forall>p \<in> snd ` set (enumerate 0 cands). ineligible health excluded p)"
    by simp
  also have "snd ` set (enumerate 0 cands) = set cands"
    by (metis map_snd_enumerate list.set_map)
  finally show ?thesis .
qed

definition best_index ::
  "(string \<Rightarrow> health_state) \<Rightarrow> bool \<Rightarrow> string list \<Rightarrow> string list \<Rightarrow> nat \<Rightarrow> bool" where
  "best_index health fb excluded cands i \<longleftrightarrow>
     i < length cands \<and> \<not> ineligible health excluded (cands ! i)
     \<and> (\<forall>j < length cands. \<not> ineligible health excluded (cands ! j) \<longrightarrow>
          (routing_priority fb (health (cands ! i)), i)
            \<le> (routing_priority fb (health (cands ! j)), j))"

lemma best_eligible:
  "best_index health fb excluded cands i \<Longrightarrow>
   \<exists>p \<in> set cands. \<not> ineligible health excluded p"
  by (auto simp: best_index_def)

lemma best_index_le:
  "best_index health fb excluded cands i \<Longrightarrow> q \<in> set cands \<Longrightarrow> \<not> ineligible health excluded q \<Longrightarrow>
   routing_priority fb (health (cands ! i)) \<le> routing_priority fb (health q)"
  by (fastforce simp: best_index_def in_set_conv_nth)

lemma best_index_unique:
  "best_index health fb excluded cands i \<Longrightarrow> best_index health fb excluded cands j \<Longrightarrow> i = j"
proof -
  assume "best_index health fb excluded cands i" "best_index health fb excluded cands j"
  then have "(routing_priority fb (health (cands ! i)), i) = (routing_priority fb (health (cands ! j)), j)"
    by (intro order_antisym) (auto simp only: best_index_def)
  then show "i = j" by simp
qed

lemma sort_ranked_cases:
  obtains (none) "\<forall>p \<in> set cands. ineligible health excluded p"
      "sort_key (\<lambda>(prio, order, _, _). (prio, order)) (ranked_candidates health fb excluded cands) = []"
  | (best) i rest where "best_index health fb excluded cands i"
      "sort_key (\<lambda>(prio, order, _, _). (prio, order)) (ranked_candidates health fb excluded cands)
        = (routing_priority fb (health (cands ! i)), i, cands ! i, health (cands ! i)) # rest"
proof (cases "ranked_candidates health fb excluded cands = []")
  case True
  show ?thesis
    by (rule none) (use True ranked_Nil_iff [of health fb excluded cands] in auto)
next
  case False
  let ?f = "\<lambda>(prio, order, _ :: string, _ :: health_state). (prio :: int, order :: nat)"
  let ?r = "ranked_candidates health fb excluded cands"
  have "length (sort_key ?f ?r) \<noteq> 0" using False by (simp only: length_sort length_0_conv not_False_eq_True)
  then obtain x rest where s: "sort_key ?f ?r = x # rest" by (cases "sort_key ?f ?r") simp_all
  have "x \<in> set ?r" using hd_sort_key_in [OF False, of ?f] unfolding s by (simp only: list.sel)
  then obtain i where i: "i < length cands" "\<not> ineligible health excluded (cands ! i)"
    and x: "x = (routing_priority fb (health (cands ! i)), i, cands ! i, health (cands ! i))"
    unfolding in_ranked by blast
  have le: "?f x \<le> ?f y" if "y \<in> set ?r" for y
    using hd_sort_key_least [OF that, of ?f] unfolding s by (simp only: list.sel)
  have "(routing_priority fb (health (cands ! i)), i) \<le> (routing_priority fb (health (cands ! j)), j)"
    if "j < length cands" "\<not> ineligible health excluded (cands ! j)" for j
  proof -
    have "(routing_priority fb (health (cands ! j)), j, cands ! j, health (cands ! j)) \<in> set ?r"
      using that unfolding in_ranked by blast
    from le [OF this] show ?thesis by (simp only: x prod.case)
  qed
  with i have b: "best_index health fb excluded cands i" unfolding best_index_def by blast
  show ?thesis by (rule best [OF b]) (simp only: s x)
qed

lemma ineligible_dedup [simp]: "ineligible health (dedup excluded) = ineligible health excluded"
  by (simp add: ineligible_def fun_eq_iff)

lemma select_for_outcome:
  obtains (none) "\<forall>p \<in> set (rt_candidates rt). ineligible health excluded p"
      "sel_provider (select_for rt health fb fid excluded used) = None"
      "sel_reason (select_for rt health fb fid excluded used) = ''all_providers_unavailable''"
  | (budget) i where "best_index health fb excluded (rt_candidates rt) i"
      "rt_candidates rt ! i \<noteq> hd (rt_candidates rt)" "rt_max_switches rt \<le> used"
      "sel_provider (select_for rt health fb fid excluded used) = None"
      "sel_reason (select_for rt health fb fid excluded used) = ''provider_switch_budget_exhausted''"
  | (chosen) i where "best_index health fb excluded (rt_candidates rt) i"
      "rt_candidates rt ! i = hd (rt_candidates rt) \<or> used < rt_max_switches rt"
      "sel_provider (select_for rt health fb fid excluded used) = Some (rt_candidates rt ! i)"
      "sel_health_state (select_for rt health fb fid excluded used)
         = Some (health (rt_candidates rt ! i))"
      "sel_fallback_used (select_for rt health fb fid excluded used)
         \<longleftrightarrow> rt_candidates rt ! i \<noteq> hd (rt_candidates rt)"
      "sel_rank (select_for rt health fb fid excluded used) = i + 1"
proof -
  let ?c = "rt_candidates rt"
  have be: "best_index health fb (dedup excluded) ?c i = best_index health fb excluded ?c i" for i
    by (simp add: best_index_def)
  from sort_ranked_cases [of ?c health "dedup excluded" fb]
  show thesis
  proof cases
    case none
    then show thesis by (intro that(1)) (simp_all add: select_for_def Let_def)
  next
    case (best i rest)
    show thesis
    proof (cases "?c ! i \<noteq> hd ?c \<and> rt_max_switches rt \<le> used")
      case True
      show thesis
        by (rule that(2) [OF best(1) [unfolded be]])
           (use True in \<open>simp_all (no_asm_simp) add: select_for_def Let_def best(2)\<close>)
    next
      case False
      then have f: "(?c ! i \<noteq> hd ?c \<and> rt_max_switches rt \<le> used) = False" by simp
      show thesis
        by (rule that(3) [OF best(1) [unfolded be]])
           (use f in \<open>auto simp add: select_for_def Let_def best(2)\<close>)
    qed
  qed
qed

lemma routing_priority_le:
  "routing_priority fb st \<le> routing_priority fb st' \<longleftrightarrow> state_priority st \<le> state_priority st'
     \<or> st \<in> BLOCKED_STATES \<and> st' \<in> BLOCKED_STATES \<and> state_priority st \<le> state_priority st'"
  by (cases st; cases st') (auto simp: routing_priority_def FEEDBACK_NON_HEALTHY_PENALTY_def)

lemma best_index_feedback:
  "best_index health True excluded cands i \<longleftrightarrow> best_index health False excluded cands i"
proof -
  have "(routing_priority True a, i) \<le> (routing_priority True b, j)
      \<longleftrightarrow> (routing_priority False a, i) \<le> (routing_priority False b, j)" for a b and i j :: nat
    by (cases a; cases b) (auto simp: routing_priority_def FEEDBACK_NON_HEALTHY_PENALTY_def)
  then show ?thesis by (simp add: best_index_def)
qed

lemma healthy_is_best:
  "best_index health fb excluded cands i \<Longrightarrow> q \<in> set cands \<Longrightarrow> \<not> ineligible health excluded q \<Longrightarrow>
   health q = Healthy \<Longrightarrow> health (cands ! i) = Healthy"
proof -
  assume b: "best_index health fb excluded cands i" and q: "q \<in> set cands"
    "\<not> ineligible health excluded q" "health q = Healthy"
  then obtain j where "j < length cands" "cands ! j = q" by (auto simp: in_set_conv_nth)
  then have "routing_priority fb (health (cands ! i)) \<le> routing_priority fb Healthy"
    using b q by (auto simp: best_index_def)
  then show ?thesis
    by (cases "health (cands ! i)")
       (auto simp: routing_priority_def FEEDBACK_NON_HEALTHY_PENALTY_def split: if_splits)
qed

context health_tracking
begin

lemma failed_provider_avoided:
  assumes "inv t" and "q \<in> set (rt_candidates rt)" and "q \<noteq> p" and "q \<notin> set excluded"
    and "state t q = Healthy"
  shows "sel_provider (select_for rt (state (step t (HFailure now ft ms p))) fb fid excluded used)
    \<noteq> Some p"
proof -
  let ?h = "state (step t (HFailure now ft ms p))"
  have q: "?h q = Healthy" using failure_other [OF assms(3)] assms(5) by simp
  have p: "?h p \<noteq> Healthy" using failure_same [OF assms(1), of now ft ms p] by auto
  have e: "\<not> ineligible ?h excluded q" using assms(4) q by (simp add: ineligible_def BLOCKED_STATES_def)
  show ?thesis
    by (cases rule: select_for_outcome [of rt ?h excluded fb fid used])
       (use healthy_is_best [OF _ assms(2) e q] p in auto)
qed

end

section \<open>The executor\<close>

lemma collect_urls_spec:
  "distinct urls \<Longrightarrow> [] \<notin> set urls \<Longrightarrow>
   distinct (collect_urls is urls) \<and> [] \<notin> set (collect_urls is urls)
   \<and> set (collect_urls is urls) = set urls \<union> (item_url ` set is - {[]})"
  by (induction "is" arbitrary: urls) (auto simp: Let_def)

lemma extract_urls_clean: "distinct (extract_urls raw) \<and> [] \<notin> set (extract_urls raw)"
  using collect_urls_spec [of "[]"] by (auto simp: extract_urls_def split: raw_value.splits)

lemma failure_values_of_value [simp]: "map_of failure_values (failure_value t) = Some t"
  by (cases t) (simp_all add: failure_values_def)

section \<open>Properties\<close>

text \<open>
  C11. The chosen provider is a candidate that is neither excluded nor blocked, and no other
  eligible candidate has a better health tier, nor the same tier with an earlier position; rank,
  reported health and the fallback flag describe it; a fallback is chosen only while the switch
  budget lasts.
\<close>

theorem selected_provider_is_optimal:
  assumes "sel_provider (select_for rt health fb fid excluded used) = Some p"
  shows "\<exists>i < length (rt_candidates rt).
      rt_candidates rt ! i = p \<and> p \<notin> set excluded \<and> health p \<notin> {Unavailable, DisabledForRun}
      \<and> (\<forall>j < length (rt_candidates rt). \<not> ineligible health excluded (rt_candidates rt ! j) \<longrightarrow>
            routing_priority fb (health p) < routing_priority fb (health (rt_candidates rt ! j))
            \<or> routing_priority fb (health p) = routing_priority fb (health (rt_candidates rt ! j))
              \<and> i \<le> j)
      \<and> sel_rank (select_for rt health fb fid excluded used) = i + 1
      \<and> sel_health_state (select_for rt health fb fid excluded used) = Some (health p)
      \<and> sel_fallback_used (select_for rt health fb fid excluded used) = (p \<noteq> hd (rt_candidates rt))
      \<and> (p \<noteq> hd (rt_candidates rt) \<longrightarrow> used < rt_max_switches rt)"
proof (cases rule: select_for_outcome [of rt health excluded fb fid used])
  case none
  then show ?thesis using assms by simp
next
  case (budget i)
  then show ?thesis using assms by simp
next
  case (chosen i)
  moreover have "rt_candidates rt ! i = p" using chosen(3) assms by simp
  ultimately show ?thesis
    by (intro exI [of _ i]) (auto simp: best_index_def ineligible_def BLOCKED_STATES_def)
qed

definition demo_router :: router where
  "demo_router = \<lparr>rt_candidates = [''SearXNG'', ''Bing'', ''Brave''], rt_max_switches = 1\<rparr>"

definition demo_health :: "string \<Rightarrow> health_state" where
  "demo_health p = (if p = ''SearXNG'' then Unavailable else if p = ''Bing'' then Degraded
     else if p = ''Brave'' then Healthy else UnknownHealth)"

lemma demo_selection:
  "sel_provider (select_for demo_router demo_health True None [] 0) = Some ''Brave''"
  by (simp add: select_for_def demo_router_def demo_health_def ranked_candidates_def ineligible_def
      BLOCKED_STATES_def routing_priority_def FEEDBACK_NON_HEALTHY_PENALTY_def Let_def
      less_eq_prod_def)

theorem selected_provider_is_optimal_witness:
  "\<exists>i < 3. rt_candidates demo_router ! i = ''Brave''
     \<and> sel_rank (select_for demo_router demo_health True None [] 0) = i + 1"
proof -
  obtain i where "i < length (rt_candidates demo_router)" "rt_candidates demo_router ! i = ''Brave''"
    "sel_rank (select_for demo_router demo_health True None [] 0) = i + 1"
    using selected_provider_is_optimal [OF demo_selection] by blast
  moreover have "length (rt_candidates demo_router) = 3" by (simp add: demo_router_def)
  ultimately show ?thesis by (intro exI [of _ i]) simp
qed

text \<open>
  No provider is chosen exactly when no candidate is eligible, or when the switch budget is
  used up and the primary is not among the best: a primary that is eligible and of the best
  tier is served whatever the number of switches.
\<close>

theorem no_selection_iff_pool_or_switch_budget_exhausted:
  assumes "mk_router cs reg m = Inr rt"
  shows "sel_provider (select_for rt health fb fid excluded used) = None \<longleftrightarrow>
      (\<forall>p \<in> set (rt_candidates rt). ineligible health excluded p)
      \<or> (rt_max_switches rt \<le> used
         \<and> (ineligible health excluded (hd (rt_candidates rt))
            \<or> (\<exists>q \<in> set (rt_candidates rt). \<not> ineligible health excluded q
                 \<and> routing_priority fb (health q)
                     < routing_priority fb (health (hd (rt_candidates rt))))))"
proof -
  let ?c = "rt_candidates rt"
  have ne: "?c \<noteq> []" and dist: "distinct ?c"
    using assms by (auto simp: mk_router_def Let_def split: if_splits)
  have h0: "hd ?c = ?c ! 0" using ne by (simp add: hd_conv_nth)
  have best0: "?c ! i = hd ?c \<longleftrightarrow> \<not> ineligible health excluded (hd ?c)
      \<and> (\<forall>q \<in> set ?c. \<not> ineligible health excluded q \<longrightarrow>
           routing_priority fb (health (hd ?c)) \<le> routing_priority fb (health q))"
    if b: "best_index health fb excluded ?c i" for i
  proof
    assume i: "?c ! i = hd ?c"
    have "routing_priority fb (health (?c ! i)) \<le> routing_priority fb (health q)"
      if "q \<in> set ?c" "\<not> ineligible health excluded q" for q
      using best_index_le [OF b that] .
    then show "\<not> ineligible health excluded (hd ?c)
      \<and> (\<forall>q \<in> set ?c. \<not> ineligible health excluded q \<longrightarrow>
           routing_priority fb (health (hd ?c)) \<le> routing_priority fb (health q))"
      using b i by (simp add: best_index_def)
  next
    assume "\<not> ineligible health excluded (hd ?c)
      \<and> (\<forall>q \<in> set ?c. \<not> ineligible health excluded q \<longrightarrow>
           routing_priority fb (health (hd ?c)) \<le> routing_priority fb (health q))"
    then have "best_index health fb excluded ?c 0"
      using ne by (fastforce simp: best_index_def h0)
    then show "?c ! i = hd ?c" using best_index_unique [OF b] h0 by simp
  qed
  show ?thesis
  proof (cases rule: select_for_outcome [of rt health excluded fb fid used])
    case none
    then show ?thesis by simp
  next
    case (budget i)
    then show ?thesis using best0 [OF budget(1)] by (auto simp: not_le)
  next
    case (chosen i)
    have "\<exists>p \<in> set ?c. \<not> ineligible health excluded p"
      using chosen(1) by (auto simp: best_index_def)
    then show ?thesis using best0 [OF chosen(1)] chosen(2,3) by (auto simp: not_le not_less)
  qed
qed

theorem no_selection_iff_pool_or_switch_budget_exhausted_witness:
  "sel_provider (select_for demo_router demo_health False None [] 1) = None"
proof -
  have r: "mk_router (Some [''SearXNG'', ''Bing'', ''SearXNG'', ''Brave'']) None 1 = Inr demo_router"
    by (simp add: mk_router_def demo_router_def)
  show ?thesis
    unfolding no_selection_iff_pool_or_switch_budget_exhausted [OF r]
    by (simp add: demo_router_def demo_health_def ineligible_def BLOCKED_STATES_def)
qed

text \<open>
  The penalty for feedback queries never changes the decision: for the same pool, health,
  exclusions and switch budget, a feedback query is sent to the provider an ordinary query is
  sent to (a healthy provider is preferred in both cases).
\<close>

theorem feedback_penalty_does_not_change_selection:
  "sel_provider (select_for rt health True fid excluded used)
     = sel_provider (select_for rt health False fid' excluded used)"
  by (cases rule: select_for_outcome [of rt health excluded True fid used];
      cases rule: select_for_outcome [of rt health excluded False fid' used])
     (use best_eligible best_index_unique in \<open>fastforce simp: best_index_feedback\<close>)+

text \<open>
  Reported failures steer the next decision: right after a failure of \<open>p\<close> was reported to
  the tracker, \<open>p\<close> is not chosen as long as another candidate that is not excluded is healthy.
\<close>

theorem failed_provider_is_not_chosen_over_healthy_one:
  assumes "tracker_inv t" and "q \<in> set (rt_candidates rt)" and "q \<noteq> p" and "q \<notin> set excluded"
    and "state_of t q = Healthy"
  shows "sel_provider (select_for rt (state_of (fst (record_failure now ft ms p t)))
           fb fid excluded used) \<noteq> Some p"
  using tracker.failed_provider_avoided [OF assms, of now ft ms fb fid used] by simp

theorem failed_provider_is_not_chosen_over_healthy_one_witness:
  "sel_provider (select_for demo_router
       (state_of (fst (record_failure 9 RateLimit 0 ''SearXNG''
          (run_events default_tracker [HSuccess 1 5 ''SearXNG'', HSuccess 2 5 ''Bing''])))) False None [] 0)
     \<noteq> Some ''SearXNG''"
proof (rule failed_provider_is_not_chosen_over_healthy_one [where q = "''Bing''"])
  show "tracker_inv (run_events default_tracker [HSuccess 1 5 ''SearXNG'', HSuccess 2 5 ''Bing''])"
    unfolding default_tracker_def by (rule run_inv [OF new_tracker_inv])
  show "state_of (run_events default_tracker [HSuccess 1 5 ''SearXNG'', HSuccess 2 5 ''Bing'']) ''Bing'' = Healthy"
    by (simp add: success_record_def tracker_eval)
qed (simp_all add: demo_router_def)

text \<open>
  The registry is built exactly when there is a capability and all names differ; it then
  lists the capabilities by priority, equal priorities in declaration order, lookup by name finds
  exactly the registered capabilities, and the active providers are the distinct names of the
  enabled ones.
\<close>

theorem registry_orders_capabilities:
  "((\<exists>r. mk_registry caps = Inr r) \<longleftrightarrow> caps \<noteq> [] \<and> distinct (map cap_provider_name caps))
   \<and> (\<forall>r. mk_registry caps = Inr r \<longrightarrow>
       mset (rg_capabilities r) = mset caps
       \<and> sorted (map cap_priority (rg_capabilities r))
       \<and> (\<forall>k. filter (\<lambda>c. cap_priority c = k) (rg_capabilities r)
                = filter (\<lambda>c. cap_priority c = k) caps)
       \<and> (\<forall>n c. registry_capability r n = Some c \<longleftrightarrow> c \<in> set caps \<and> cap_provider_name c = n)
       \<and> distinct (active_providers r)
       \<and> set (active_providers r) = {n. is_registered r n}
       \<and> pool_size r = length (active_providers r))"
proof -
  have "(\<exists>r. mk_registry caps = Inr r) \<longleftrightarrow> caps \<noteq> [] \<and> distinct (map cap_provider_name caps)"
    by (simp add: mk_registry_Inr)
  moreover have "mset (rg_capabilities r) = mset caps
       \<and> sorted (map cap_priority (rg_capabilities r))
       \<and> (\<forall>k. filter (\<lambda>c. cap_priority c = k) (rg_capabilities r)
                = filter (\<lambda>c. cap_priority c = k) caps)
       \<and> (\<forall>n c. registry_capability r n = Some c \<longleftrightarrow> c \<in> set caps \<and> cap_provider_name c = n)
       \<and> distinct (active_providers r)
       \<and> set (active_providers r) = {n. is_registered r n}
       \<and> pool_size r = length (active_providers r)" if "mk_registry caps = Inr r" for r
  proof -
    from that have r: "r = \<lparr>rg_capabilities = sort_key cap_priority caps,
         rg_by_name = dict_of cap_provider_name (sort_key cap_priority caps)\<rparr>"
      and d: "distinct (map cap_provider_name caps)" by (simp_all add: mk_registry_Inr)
    let ?s = "sort_key cap_priority caps"
    have ds: "distinct (map cap_provider_name ?s)"
      using d by (metis mset_map mset_sort mset_eq_imp_distinct_iff)
    have look: "map_of (dict_of cap_provider_name ?s) n = Some c
        \<longleftrightarrow> c \<in> set caps \<and> cap_provider_name c = n" for n c
      using ds by (auto simp: dict_of_distinct map_of_eq_Some_iff comp_def)
    have "filter (\<lambda>c. cap_priority c = k) ?s = filter (\<lambda>c. cap_priority c = k) caps" for k
      by (metis (mono_tags, lifting) filter_cong sort_key_stable)
    moreover have "distinct (active_providers r)"
      using ds by (simp add: active_providers_def r distinct_map_filter)
    moreover have "set (active_providers r) = {n. is_registered r n}"
      using look inj_onD [OF d [unfolded distinct_map, THEN conjunct2]]
      by (auto simp: active_providers_def is_registered_def r split: option.splits)
    ultimately show ?thesis
      using look by (simp add: r registry_capability_def pool_size_def active_providers_def)
  qed
  ultimately show ?thesis by blast
qed

theorem registry_orders_capabilities_witness:
  "\<exists>r. default_registry True True = Inr r \<and> sorted (map cap_priority (rg_capabilities r))
     \<and> set (active_providers r) = {n. is_registered r n}"
proof -
  have "default_capabilities True True \<noteq> [] \<and> distinct (map cap_provider_name (default_capabilities True True))"
    by (simp add: default_capabilities_def mk_capability_def)
  then obtain r where "default_registry True True = Inr r"
    using registry_orders_capabilities [of "default_capabilities True True"]
    by (auto simp: default_registry_def)
  then show ?thesis
    using registry_orders_capabilities [of "default_capabilities True True"]
    by (auto simp: default_registry_def)
qed

text \<open>
  The executor calls only the provider the router named: the result depends on no other
  call; the routing decision's feedback id and the provider's name are kept; the attempt is a
  success exactly when there are results, and the results are distinct, non-empty URLs; every
  other outcome of an attempted call carries a failure type.
\<close>

theorem execute_respects_decision:
  assumes "execute x eid elapsed d query limit options = Inr r"
  shows "er_feedback_execution_id r = sel_feedback_execution_id d
    \<and> (case sel_provider d of None \<Rightarrow> er_provider_name r = [] | Some p \<Rightarrow> er_provider_name r = p)
    \<and> (er_status r = ExSuccess \<longleftrightarrow> er_results r \<noteq> [])
    \<and> distinct (er_results r) \<and> [] \<notin> set (er_results r)
    \<and> (er_error_type r = None \<longleftrightarrow> er_status r = ExSuccess \<or> sel_provider d = None)
    \<and> (\<forall>calls. (\<forall>p. sel_provider d = Some p \<longrightarrow> map_of calls p = map_of (xe_calls x) p) \<longrightarrow>
          execute (x\<lparr>xe_calls := calls\<rparr>) eid elapsed d query limit options = Inr r)"
proof -
  have "er_feedback_execution_id r = sel_feedback_execution_id d
    \<and> (case sel_provider d of None \<Rightarrow> er_provider_name r = [] | Some p \<Rightarrow> er_provider_name r = p)
    \<and> (er_status r = ExSuccess \<longleftrightarrow> er_results r \<noteq> [])
    \<and> distinct (er_results r) \<and> [] \<notin> set (er_results r)
    \<and> (er_error_type r = None \<longleftrightarrow> er_status r = ExSuccess \<or> sel_provider d = None)"
    using assms extract_urls_clean
    by (auto simp: execute_def mk_execution_def Let_def
        split: option.splits if_splits call_outcome.splits sum.splits)
  moreover have "\<forall>calls. (\<forall>p. sel_provider d = Some p \<longrightarrow> map_of calls p = map_of (xe_calls x) p) \<longrightarrow>
          execute (x\<lparr>xe_calls := calls\<rparr>) eid elapsed d query limit options = Inr r"
    using assms by (auto simp: execute_def split: option.splits)
  ultimately show ?thesis by (elim conjE, intro conjI)
qed

definition demo_call :: provider_call where
  "demo_call q l os =
     Returned (RawItems [ItemRow (Some ''u1'') None, ItemStr ''u1'', ItemRow None (Some ''u2'')])"

definition demo_executor :: executor where
  "demo_executor = \<lparr>xe_calls = [(''Brave'', demo_call)], xe_candidates = [''Brave'']\<rparr>"

definition demo_decision :: selection where
  "demo_decision = \<lparr>sel_provider = Some ''Brave'', sel_excluded = [''SearXNG''],
     sel_reason = ''feedback_query_healthy_provider_selected'', sel_health_state = Some Healthy,
     sel_fallback_used = True, sel_feedback_execution_id = Some (UUID 3), sel_pool_size = 3,
     sel_available_count = 2, sel_rank = 3\<rparr>"

lemma demo_execution: "execute demo_executor (UUID 1) 12 demo_decision ''q'' 8 []
    = Inr (mk_execution ''Brave'' ExSuccess [''u1'', ''u2''] None 12 (UUID 1) demo_decision
             ''provider_success'')"
  by (simp add: execute_def demo_executor_def demo_decision_def demo_call_def extract_urls_def
      item_url_def Let_def)

theorem execute_respects_decision_witness:
  "er_feedback_execution_id (mk_execution ''Brave'' ExSuccess [''u1'', ''u2''] None 12 (UUID 1)
     demo_decision ''provider_success'') = Some (UUID 3)"
  unfolding conjunct1 [OF execute_respects_decision [OF demo_execution]]
  by (simp add: demo_decision_def)

end
