(* ===== verification/Gap_Closure.thy ===== *)
theory Gap_Closure
  imports Prelude
begin

text \<open>
  Gap requirements and their closure: \<open>app/domain/gap_closure.py\<close>, \<open>evidence_alignment.py\<close>,
  \<open>closure_evaluation_context.py\<close>, \<open>closure_evaluator.py\<close> and \<open>gap_projection.py\<close>.

  A \<open>gap_requirement\<close> carries facts and a closure status OPEN < PARTIAL < CLOSED. Every
  constructor and \<open>replace\<close> revalidates the record, so these are results. The three operations
  that move the status (\<open>apply_closure_transition\<close>, \<open>ClosureEvaluator.evaluate\<close> and
  \<open>apply_closure_evaluation\<close>) are instances of the locale \<open>monotone_closure\<close>.
\<close>

section \<open>Requirements and snapshots\<close>

datatype requirement_type = DimensionCoverage | IndependentSource | ClaimVerification | EvidenceQuality

datatype verification_status = NotEvaluated | Required | Verified | VerificationFailed

datatype closure_status = GOpen | GPartial | GClosed

fun closure_rank :: "closure_status \<Rightarrow> nat" where
  "closure_rank GOpen = 0"
| "closure_rank GPartial = 1"
| "closure_rank GClosed = 2"

lemma closure_rank_inject: "closure_rank a = closure_rank b \<longleftrightarrow> a = b"
  by (cases a; cases b) simp_all

instantiation closure_status :: linorder
begin

definition less_eq_closure_status :: "closure_status \<Rightarrow> closure_status \<Rightarrow> bool" where
  "less_eq_closure_status a b \<longleftrightarrow> closure_rank a \<le> closure_rank b"

definition less_closure_status :: "closure_status \<Rightarrow> closure_status \<Rightarrow> bool" where
  "less_closure_status a b \<longleftrightarrow> closure_rank a < closure_rank b"

instance
  by standard (auto simp: less_eq_closure_status_def less_closure_status_def closure_rank_inject)

end

lemmas closure_order = less_eq_closure_status_def less_closure_status_def

lemma closed_greatest [simp]: "GClosed \<le> s \<longleftrightarrow> s = GClosed" "s \<le> GClosed"
  by (cases s; simp add: closure_order)+

lemma open_least [simp]: "GOpen \<le> s" "s \<le> GOpen \<longleftrightarrow> s = GOpen"
  by (cases s; simp add: closure_order)+

record closure_snapshot =
  cs_coverage :: rat
  cs_evidence_count :: int
  cs_independent_sources :: int
  cs_verification_status :: verification_status

definition mk_snapshot ::
  "rat \<Rightarrow> int \<Rightarrow> int \<Rightarrow> verification_status \<Rightarrow> closure_snapshot result" where
  "mk_snapshot cov ev src ver =
     (if \<not> (0 \<le> cov \<and> cov \<le> 1) then Inl (ValueError ''coverage must be between 0 and 1'')
      else if ev < 0 then Inl (ValueError ''evidence_count must be non-negative'')
      else if src < 0 then Inl (ValueError ''independent_sources must be non-negative'')
      else Inr \<lparr>cs_coverage = cov, cs_evidence_count = ev, cs_independent_sources = src,
                cs_verification_status = ver\<rparr>)"

definition default_snapshot :: closure_snapshot where
  "default_snapshot = \<lparr>cs_coverage = 0, cs_evidence_count = 0, cs_independent_sources = 0,
     cs_verification_status = NotEvaluated\<rparr>"

record gap_requirement =
  gr_gap_id :: uuid
  gr_run_id :: uuid
  gr_question_id :: string
  gr_dimension_key :: string
  gr_type :: requirement_type
  gr_criterion :: string
  gr_required_evidence :: int
  gr_required_sources :: int
  gr_current_evidence :: int
  gr_current_sources :: int
  gr_verification_status :: verification_status
  gr_closure_status :: closure_status
  gr_created_at :: timestamp
  gr_updated_at :: timestamp
  gr_state_version :: int
  gr_current_coverage :: rat
  gr_required_coverage :: "rat option"
  gr_transition_reason :: string
  gr_plan_version :: int
  gr_migration_source :: string

definition validate_requirement :: "gap_requirement \<Rightarrow> gap_requirement result" where
  "validate_requirement r =
     (if gr_required_evidence r < 0 \<or> gr_current_evidence r < 0
        then Inl (ValueError ''evidence counts must be non-negative'')
      else if gr_required_sources r < 0 \<or> gr_current_sources r < 0
        then Inl (ValueError ''independent source counts must be non-negative'')
      else if gr_state_version r < 1 then Inl (ValueError ''state_version must be positive'')
      else if gr_plan_version r < 1 then Inl (ValueError ''plan_version must be positive'')
      else if \<not> (0 \<le> gr_current_coverage r \<and> gr_current_coverage r \<le> 1)
        then Inl (ValueError ''current_coverage must be between 0 and 1'')
      else if (case gr_required_coverage r of None \<Rightarrow> False | Some c \<Rightarrow> \<not> (0 \<le> c \<and> c \<le> 1))
        then Inl (ValueError ''required_coverage must be between 0 and 1'')
      else Inr r)"

definition apply_closure_transition ::
  "gap_requirement \<Rightarrow> closure_status \<Rightarrow> string \<Rightarrow> timestamp \<Rightarrow> gap_requirement result" where
  "apply_closure_transition r new_status reason now =
     (if blank reason then Inl (ValueError ''transition_reason must not be empty'')
      else if closure_rank new_status < closure_rank (gr_closure_status r)
        then Inl (ValueError ''GapRequirement closure state cannot move backwards'')
      else if new_status = gr_closure_status r then Inr r
      else validate_requirement (r\<lparr>gr_closure_status := new_status,
             gr_state_version := gr_state_version r + 1,
             gr_transition_reason := reason, gr_updated_at := now\<rparr>))"

record closure_evaluation =
  ce_evaluation_id :: uuid
  ce_gap_id :: uuid
  ce_before :: closure_snapshot
  ce_after :: closure_snapshot
  ce_evidence_delta :: int
  ce_source_delta :: int
  ce_satisfied :: bool
  ce_closure_status :: closure_status
  ce_reason :: string

fun satisfied_by :: "requirement_type \<Rightarrow> gap_requirement \<Rightarrow> closure_snapshot \<Rightarrow> bool" where
  "satisfied_by DimensionCoverage r s =
     (cs_coverage s \<ge> (case gr_required_coverage r of Some c \<Rightarrow> c | None \<Rightarrow> 1))"
| "satisfied_by IndependentSource r s = (cs_independent_sources s \<ge> gr_required_sources r)"
| "satisfied_by ClaimVerification r s = (cs_independent_sources s \<ge> gr_required_sources r)"
| "satisfied_by EvidenceQuality r s =
     (cs_evidence_count s \<ge> gr_required_evidence r \<and> cs_verification_status s = Verified)"

definition requirement_is_satisfied :: "gap_requirement \<Rightarrow> closure_snapshot \<Rightarrow> bool" where
  "requirement_is_satisfied r s = satisfied_by (gr_type r) r s"

definition has_progress :: "closure_snapshot \<Rightarrow> closure_snapshot \<Rightarrow> bool" where
  "has_progress before after \<longleftrightarrow>
     cs_coverage after > cs_coverage before
     \<or> cs_evidence_count after > cs_evidence_count before
     \<or> cs_independent_sources after > cs_independent_sources before
     \<or> cs_verification_status after \<noteq> cs_verification_status before"

definition evaluate_closure ::
  "uuid \<Rightarrow> gap_requirement \<Rightarrow> closure_snapshot \<Rightarrow> closure_snapshot \<Rightarrow> closure_evaluation" where
  "evaluate_closure eid r before after =
     (let satisfied = requirement_is_satisfied r after;
          (status, reason) =
            (if satisfied then (GClosed, ''requirement_satisfied'')
             else if has_progress before after
               then (GPartial, ''evidence_or_verification_progress_without_closure'')
             else (GOpen, ''requirement_not_satisfied''))
      in \<lparr>ce_evaluation_id = eid, ce_gap_id = gr_gap_id r, ce_before = before, ce_after = after,
          ce_evidence_delta = cs_evidence_count after - cs_evidence_count before,
          ce_source_delta = cs_independent_sources after - cs_independent_sources before,
          ce_satisfied = satisfied, ce_closure_status = status, ce_reason = reason\<rparr>)"

section \<open>Projection from the coverage map\<close>

definition gap_requirement_id :: "uuid \<Rightarrow> int \<Rightarrow> string \<Rightarrow> uuid" where
  "gap_requirement_id run_id plan_version dimension_key =
     UUID5 ''gap-requirement:'' [PId run_id, PInt plan_version, PStr dimension_key]"

definition as_non_negative_int :: "json \<Rightarrow> int" where
  "as_non_negative_int v =
     (case v of
        JBool _ \<Rightarrow> (case py_int v of Inr n \<Rightarrow> max 0 n | Inl _ \<Rightarrow> 0)
      | JInt _ \<Rightarrow> (case py_int v of Inr n \<Rightarrow> max 0 n | Inl _ \<Rightarrow> 0)
      | JNum _ \<Rightarrow> (case py_int v of Inr n \<Rightarrow> max 0 n | Inl _ \<Rightarrow> 0)
      | JStr _ \<Rightarrow> (case py_int v of Inr n \<Rightarrow> max 0 n | Inl _ \<Rightarrow> 0)
      | _ \<Rightarrow> 0)"

text \<open>\<open>min(1.0, max(0.0, float(value)))\<close>: \<open>max(0.0, nan)\<close> is \<open>0.0\<close>.\<close>

definition as_coverage :: "json \<Rightarrow> rat" where
  "as_coverage v =
     (case v of
        JBool b \<Rightarrow> (if b then 1 else 0)
      | JInt n \<Rightarrow> clamp01 (of_int n)
      | JNum q \<Rightarrow> clamp01 q
      | JStr s \<Rightarrow> (case parse_float s of
                    Some (Fin q) \<Rightarrow> clamp01 q | Some PosInf \<Rightarrow> 1 | _ \<Rightarrow> 0)
      | _ \<Rightarrow> 0)"

definition unresolved_claim ::
  "(json \<Rightarrow> string) \<Rightarrow> (string \<times> (string \<times> json) list) list \<Rightarrow> string \<Rightarrow> bool" where
  "unresolved_claim other claim_states dkey \<longleftrightarrow>
     list_ex (\<lambda>(_, claim). py_str other (jget_or (JStr []) ''dimension_key'' claim) = dkey
                \<and> truthy (jget_or (JBool False) ''unresolved'' claim)) claim_states"

definition base_requirement ::
  "(json \<Rightarrow> string) \<Rightarrow> uuid \<Rightarrow> int \<Rightarrow> int \<Rightarrow> (string \<times> (string \<times> json) list) list \<Rightarrow> timestamp
    \<Rightarrow> string \<Rightarrow> (string \<times> json) list \<Rightarrow> gap_requirement" where
  "base_requirement other run_id plan_version state_version claim_states now question_id status =
     (let dkey = py_str other (jget_or (JStr []) ''dimension_key'' status);
          unresolved = unresolved_claim other claim_states dkey;
          required_sources = as_non_negative_int (jget_or (JInt 1) ''required_sources'' status);
          coverage = as_coverage (jget_or (JNum 0) ''coverage'' status)
      in \<lparr>gr_gap_id = gap_requirement_id run_id plan_version dkey, gr_run_id = run_id,
          gr_question_id = question_id, gr_dimension_key = dkey,
          gr_type = (if unresolved then ClaimVerification
                     else if required_sources > 1 then IndependentSource else EvidenceQuality),
          gr_criterion = py_str other (jget_or (JStr []) ''criterion'' status),
          gr_required_evidence = 1, gr_required_sources = required_sources,
          gr_current_evidence = as_non_negative_int (jget_or (JInt 0) ''accepted_evidence'' status),
          gr_current_sources = as_non_negative_int (jget_or (JInt 0) ''independent_sources'' status),
          gr_verification_status =
            (if unresolved then Required else if coverage \<ge> 1 then Verified else Required),
          gr_closure_status = GOpen, gr_created_at = now, gr_updated_at = now,
          gr_state_version = state_version, gr_current_coverage = coverage,
          gr_required_coverage = Some 1, gr_transition_reason = ''evaluator_projection'',
          gr_plan_version = plan_version, gr_migration_source = ''runtime''\<rparr>)"

text \<open>The construction of the record, its evaluation against the empty snapshot and the \<open>replace\<close>.\<close>

definition project_status :: "gap_requirement \<Rightarrow> gap_requirement result" where
  "project_status base =
     (case validate_requirement base of Inl e \<Rightarrow> Inl e
      | Inr r \<Rightarrow>
          (case mk_snapshot (gr_current_coverage r) (gr_current_evidence r)
                  (gr_current_sources r) (gr_verification_status r) of Inl e \<Rightarrow> Inl e
           | Inr after \<Rightarrow>
               validate_requirement (r\<lparr>gr_closure_status :=
                 ce_closure_status (evaluate_closure (UUID 0) r default_snapshot after)\<rparr>)))"

text \<open>The pairs (question id, requirement status) the two nested loops reach.\<close>

definition status_rows ::
  "(json \<Rightarrow> string) \<Rightarrow> (string \<times> json) list list \<Rightarrow> (string \<times> (string \<times> json) list) list" where
  "status_rows other coverage_map =
     concat (map (\<lambda>question.
       (case jget_or (JList []) ''requirement_statuses'' question of
          JList statuses \<Rightarrow>
            concat (map (\<lambda>raw. case raw of
                JObj status \<Rightarrow>
                  if py_str other (jget_or (JStr []) ''dimension_key'' status) = [] then []
                  else [(py_str other (jget_or (JStr []) ''dimension_key'' question), status)]
              | _ \<Rightarrow> []) statuses)
        | _ \<Rightarrow> [])) coverage_map)"

definition project_gap_requirements ::
  "(json \<Rightarrow> string) \<Rightarrow> uuid \<Rightarrow> int \<Rightarrow> int \<Rightarrow> (string \<times> json) list list
    \<Rightarrow> (string \<times> (string \<times> json) list) list \<Rightarrow> timestamp \<Rightarrow> gap_requirement list result" where
  "project_gap_requirements other run_id plan_version state_version coverage_map claim_states now =
     traverse (\<lambda>(qid, status). project_status
         (base_requirement other run_id plan_version state_version claim_states now qid status))
       (status_rows other coverage_map)"

section \<open>Alignment of evidence\<close>

datatype alignment_status = Aligned | PartiallyAligned | NotAligned | AlignmentUnknown

datatype alignment_reason =
    MissingIndependentSource | InsufficientQuality | ClaimNotVerified | DimensionMismatch
  | RequirementNotSatisfied

record alignment =
  al_alignment_id :: uuid
  al_evidence_id :: uuid
  al_gap_id :: uuid
  al_question_id :: string
  al_dimension_key :: string
  al_type :: requirement_type
  al_satisfies :: bool
  al_status :: alignment_status
  al_rejection_reason :: "alignment_reason option"
  al_created_at :: timestamp
  al_state_version :: int
  al_extraction_id :: "uuid option"
  al_reader_execution_id :: "uuid option"
  al_request_id :: "uuid option"

definition validate_alignment :: "alignment \<Rightarrow> alignment result" where
  "validate_alignment a =
     (if al_state_version a < 1 then Inl (ValueError ''state_version must be positive'')
      else if al_satisfies a \<and> al_status a \<noteq> Aligned
        then Inl (ValueError ''satisfied evidence must be aligned'')
      else if al_status a = Aligned \<and> al_rejection_reason a \<noteq> None
        then Inl (ValueError ''aligned evidence cannot have a rejection reason'')
      else Inr a)"

definition alignment_verdict ::
  "gap_requirement \<Rightarrow> string option \<Rightarrow> bool \<Rightarrow> int \<Rightarrow> bool
    \<Rightarrow> alignment_status \<times> alignment_reason option \<times> bool" where
  "alignment_verdict r evidence_dim quality_passed sources claim_verified =
     (if evidence_dim \<noteq> Some (gr_dimension_key r)
        then (NotAligned, Some DimensionMismatch, False)
      else if \<not> quality_passed then (NotAligned, Some InsufficientQuality, False)
      else if gr_type r \<in> {ClaimVerification, IndependentSource}
           \<and> sources < gr_required_sources r
        then (PartiallyAligned,
              Some (if gr_type r = ClaimVerification then ClaimNotVerified
                    else MissingIndependentSource), False)
      else if gr_type r = EvidenceQuality \<and> \<not> claim_verified
        then (PartiallyAligned, Some RequirementNotSatisfied, False)
      else (Aligned, None, True))"

definition evaluate_alignment ::
  "uuid \<Rightarrow> timestamp \<Rightarrow> gap_requirement \<Rightarrow> uuid \<Rightarrow> string option \<Rightarrow> bool \<Rightarrow> int \<Rightarrow> bool
    \<Rightarrow> int option \<Rightarrow> alignment result" where
  "evaluate_alignment aid now r evidence_id evidence_dim quality_passed sources claim_verified
       state_version =
     (let (status, reason, satisfies) =
            alignment_verdict r evidence_dim quality_passed sources claim_verified
      in validate_alignment
           \<lparr>al_alignment_id = aid, al_evidence_id = evidence_id, al_gap_id = gr_gap_id r,
            al_question_id = gr_question_id r, al_dimension_key = gr_dimension_key r,
            al_type = gr_type r, al_satisfies = satisfies, al_status = status,
            al_rejection_reason = reason, al_created_at = now,
            al_state_version =
              (case state_version of Some v \<Rightarrow> if v \<noteq> 0 then v else gr_state_version r
               | None \<Rightarrow> gr_state_version r),
            al_extraction_id = None, al_reader_execution_id = None, al_request_id = None\<rparr>)"

record alignment_summary =
  as_aligned :: nat
  as_partial :: nat
  as_not_aligned :: nat
  as_unknown :: nat
  as_remaining_reason :: "alignment_reason option"

definition count_status :: "alignment_status \<Rightarrow> alignment list \<Rightarrow> nat" where
  "count_status st xs = length (filter (\<lambda>a. al_status a = st) xs)"

definition summarize_alignments :: "gap_requirement \<Rightarrow> alignment list \<Rightarrow> alignment_summary" where
  "summarize_alignments r alignments =
     (let relevant = filter (\<lambda>a. al_gap_id a = gr_gap_id r) alignments;
          reason = (case filter (\<lambda>x. x \<noteq> None) (map al_rejection_reason relevant) of
                      [] \<Rightarrow> None | x # _ \<Rightarrow> x)
      in \<lparr>as_aligned = count_status Aligned relevant,
          as_partial = count_status PartiallyAligned relevant,
          as_not_aligned = count_status NotAligned relevant,
          as_unknown = count_status AlignmentUnknown relevant,
          as_remaining_reason =
            (if relevant = [] \<and> gr_closure_status r \<noteq> GClosed
             then Some RequirementNotSatisfied else reason)\<rparr>)"

section \<open>Closure evaluation\<close>

record closure_context =
  cc_gap_id :: uuid
  cc_before :: closure_snapshot
  cc_alignments :: "alignment list"
  cc_new_evidence :: nat
  cc_aligned :: nat
  cc_partial :: nat
  cc_sources :: int

definition context_from_alignments ::
  "uuid \<Rightarrow> closure_snapshot \<Rightarrow> alignment list \<Rightarrow> int \<Rightarrow> closure_context" where
  "context_from_alignments gap before alignments sources =
     (let relevant = filter (\<lambda>a. al_gap_id a = gap) alignments
      in \<lparr>cc_gap_id = gap, cc_before = before, cc_alignments = relevant,
          cc_new_evidence = length relevant,
          cc_aligned = count_status Aligned relevant,
          cc_partial = count_status PartiallyAligned relevant,
          cc_sources = sources\<rparr>)"

datatype closure_event_type = ClosureStarted | ClosureCompleted | ClosureTransition

record closure_event =
  ev_type :: closure_event_type
  ev_run_id :: uuid
  ev_question_id :: string
  ev_gap_id :: uuid
  ev_evaluation_id :: uuid
  ev_before :: closure_status
  ev_after :: closure_status
  ev_state_version :: int
  ev_reason :: string
  ev_timestamp :: timestamp

record closure_result =
  cr_evaluation_id :: uuid
  cr_gap_id :: uuid
  cr_question_id :: string
  cr_before_status :: closure_status
  cr_after_status :: closure_status
  cr_closure_status :: closure_status
  cr_reason :: string
  cr_aligned :: nat
  cr_partial :: nat
  cr_remaining :: "string list"
  cr_closed :: "string list"
  cr_state_version :: int

record closure_execution =
  cx_requirement :: gap_requirement
  cx_result :: closure_result
  cx_events :: "closure_event list"

definition mk_closure_event ::
  "closure_event_type \<Rightarrow> gap_requirement \<Rightarrow> uuid \<Rightarrow> closure_status \<Rightarrow> closure_status \<Rightarrow> int
    \<Rightarrow> string \<Rightarrow> timestamp \<Rightarrow> closure_event" where
  "mk_closure_event ty r eid before after version reason now =
     \<lparr>ev_type = ty, ev_run_id = gr_run_id r, ev_question_id = gr_question_id r,
      ev_gap_id = gr_gap_id r, ev_evaluation_id = eid, ev_before = before, ev_after = after,
      ev_state_version = version, ev_reason = reason, ev_timestamp = now\<rparr>"

definition after_snapshot :: "closure_context \<Rightarrow> gap_requirement \<Rightarrow> closure_snapshot result" where
  "after_snapshot c r =
     mk_snapshot (cs_coverage (cc_before c))
       (cs_evidence_count (cc_before c) + int (cc_aligned c) + int (cc_partial c))
       (cc_sources c)
       (if gr_type r = ClaimVerification
        then if cc_sources c \<ge> gr_required_sources r then Verified else Required
        else cs_verification_status (cc_before c))"

definition transition_reason :: "closure_context \<Rightarrow> string \<Rightarrow> string" where
  "transition_reason c fallback =
     (let reasons = map al_rejection_reason (cc_alignments c)
      in if Some MissingIndependentSource \<in> set reasons then ''missing_independent_source''
         else if Some ClaimNotVerified \<in> set reasons then ''claim_verification_required''
         else if Some DimensionMismatch \<in> set reasons then ''dimension_mismatch''
         else fallback)"

definition remaining_requirements ::
  "gap_requirement \<Rightarrow> closure_context \<Rightarrow> closure_status \<Rightarrow> string list" where
  "remaining_requirements r c status =
     (if status = GClosed then []
      else if gr_type r = IndependentSource \<and> cc_sources c < gr_required_sources r
        then [''independent_source'']
      else if gr_type r = ClaimVerification \<and> cc_sources c < gr_required_sources r
        then [''claim_verification'']
      else [gr_dimension_key r])"

definition closure_outcome ::
  "closure_context \<Rightarrow> uuid \<Rightarrow> timestamp \<Rightarrow> gap_requirement
    \<Rightarrow> (gap_requirement \<times> string \<times> closure_status) result" where
  "closure_outcome c eid now r =
     (if gr_closure_status r = GClosed then Inr (r, ''closed_state_immutable'', GClosed)
      else case after_snapshot c r of Inl e \<Rightarrow> Inl e
         | Inr after \<Rightarrow>
             (let raw = evaluate_closure eid r (cc_before c) after;
                  (status, reason) =
                    (if closure_rank (ce_closure_status raw) < closure_rank (gr_closure_status r)
                     then (gr_closure_status r, ''existing_closure_state_preserved'')
                     else (ce_closure_status raw, transition_reason c (ce_reason raw)))
              in case apply_closure_transition r status reason now of Inl e \<Rightarrow> Inl e
                 | Inr r' \<Rightarrow> Inr (r', reason, status)))"

definition run_closure_evaluator ::
  "uuid \<Rightarrow> timestamp \<Rightarrow> closure_context \<Rightarrow> gap_requirement \<Rightarrow> closure_execution result" where
  "run_closure_evaluator eid now c r =
     (if cc_gap_id c \<noteq> gr_gap_id r
        then Inl (ValueError ''closure context and requirement gaps do not match'')
      else case closure_outcome c eid now r of Inl e \<Rightarrow> Inl e
         | Inr (r', reason, status) \<Rightarrow>
             (let before = gr_closure_status r; after = gr_closure_status r';
                  started = mk_closure_event ClosureStarted r eid before before (gr_state_version r)
                              ''closure_evaluation_started'' now;
                  completed = mk_closure_event ClosureCompleted r' eid before after
                                (gr_state_version r') reason now;
                  moved = mk_closure_event ClosureTransition r' eid before after
                            (gr_state_version r') reason now
              in Inr \<lparr>cx_requirement = r',
                      cx_result =
                        \<lparr>cr_evaluation_id = eid, cr_gap_id = gr_gap_id r,
                         cr_question_id = gr_question_id r, cr_before_status = before,
                         cr_after_status = after, cr_closure_status = status,
                         cr_reason = reason, cr_aligned = cc_aligned c, cr_partial = cc_partial c,
                         cr_remaining = remaining_requirements r c after,
                         cr_closed = (if after = GClosed then [gr_dimension_key r] else []),
                         cr_state_version = gr_state_version r'\<rparr>,
                      cx_events = (if after \<noteq> before then [started, moved, completed]
                                   else [started, completed])\<rparr>))"

section \<open>Legacy projection and synchronisation\<close>

record gap_projection =
  gp_gap_id :: uuid
  gp_run_id :: uuid
  gp_plan_version :: int
  gp_question_id :: string
  gp_dimension_key :: string
  gp_status :: closure_status
  gp_state_version :: int
  gp_updated_at :: timestamp
  gp_transition_reason :: string
  gp_migration_source :: string
  gp_source :: string

definition projection_from_requirement :: "int \<Rightarrow> gap_requirement \<Rightarrow> gap_projection" where
  "projection_from_requirement plan_version r =
     \<lparr>gp_gap_id = gr_gap_id r, gp_run_id = gr_run_id r, gp_plan_version = plan_version,
      gp_question_id = gr_question_id r, gp_dimension_key = gr_dimension_key r,
      gp_status = gr_closure_status r, gp_state_version = gr_state_version r,
      gp_updated_at = gr_updated_at r, gp_transition_reason = gr_transition_reason r,
      gp_migration_source = gr_migration_source r, gp_source = ''gap_requirement''\<rparr>"

definition projection_from_legacy ::
  "uuid \<Rightarrow> uuid \<Rightarrow> int \<Rightarrow> string \<Rightarrow> string \<Rightarrow> string \<Rightarrow> int \<Rightarrow> timestamp \<Rightarrow> gap_projection" where
  "projection_from_legacy gap run plan question dkey status version updated =
     \<lparr>gp_gap_id = gap, gp_run_id = run, gp_plan_version = plan, gp_question_id = question,
      gp_dimension_key = dkey,
      gp_status = (if casefold status = ''resolved'' then GClosed else GOpen),
      gp_state_version = version, gp_updated_at = updated,
      gp_transition_reason = ''legacy_compatibility'',
      gp_migration_source = ''legacy_compatibility'', gp_source = ''legacy_compatibility''\<rparr>"

definition legacy_status :: "gap_projection \<Rightarrow> string" where
  "legacy_status g = (if gp_status g = GClosed then ''resolved'' else ''open'')"

definition projection_unresolved :: "gap_projection \<Rightarrow> bool" where
  "projection_unresolved g \<longleftrightarrow> gp_status g \<noteq> GClosed"

definition project_research_gaps :: "int \<Rightarrow> gap_requirement list \<Rightarrow> gap_projection list" where
  "project_research_gaps plan_version rs = map (projection_from_requirement plan_version) rs"

definition requirements_from_snapshot :: "json \<Rightarrow> (string \<times> json) list list" where
  "requirements_from_snapshot raw =
     (case raw of
        JList items \<Rightarrow>
          concat (map (\<lambda>i. case i of
              JObj d \<Rightarrow> if truthy (jget ''gap_id'' d) \<and> truthy (jget ''question_id'' d)
                         \<and> truthy (jget ''dimension_key'' d) then [d] else []
            | _ \<Rightarrow> []) items)
      | _ \<Rightarrow> [])"

definition apply_closure_evaluation ::
  "gap_requirement \<Rightarrow> closure_evaluation \<Rightarrow> timestamp \<Rightarrow> string option
    \<Rightarrow> gap_requirement result" where
  "apply_closure_evaluation r e now reason =
     (if ce_gap_id e \<noteq> gr_gap_id r
        then Inl (ValueError ''closure evaluation does not belong to requirement'')
      else if closure_rank (ce_closure_status e) < closure_rank (gr_closure_status r)
        then Inl (ValueError ''gap closure state cannot move backwards'')
      else validate_requirement (r\<lparr>
             gr_current_coverage := cs_coverage (ce_after e),
             gr_current_evidence := cs_evidence_count (ce_after e),
             gr_current_sources := cs_independent_sources (ce_after e),
             gr_verification_status := cs_verification_status (ce_after e),
             gr_closure_status := ce_closure_status e,
             gr_updated_at := now,
             gr_state_version := gr_state_version r + 1,
             gr_transition_reason :=
               (case reason of Some t \<Rightarrow> if t \<noteq> [] then t else ce_reason e
                | None \<Rightarrow> ce_reason e)\<rparr>))"

definition requirement_snapshot :: "gap_requirement \<Rightarrow> closure_snapshot result" where
  "requirement_snapshot r = mk_snapshot (gr_current_coverage r) (gr_current_evidence r)
     (gr_current_sources r) (gr_verification_status r)"

definition synchronize_one ::
  "(uuid, gap_requirement) dict \<Rightarrow> timestamp \<Rightarrow> gap_requirement \<Rightarrow> gap_requirement result" where
  "synchronize_one previous now candidate =
     (case map_of previous (gr_gap_id candidate) of
        None \<Rightarrow> Inr candidate
      | Some prior \<Rightarrow>
          (case requirement_snapshot prior of Inl e \<Rightarrow> Inl e
           | Inr before \<Rightarrow>
               (case requirement_snapshot candidate of Inl e \<Rightarrow> Inl e
                | Inr after \<Rightarrow>
                    apply_closure_evaluation prior
                      (evaluate_closure (UUID 0) prior before after) now None)))"

definition synchronize_gap_requirements ::
  "gap_requirement list \<Rightarrow> gap_requirement list \<Rightarrow> timestamp \<Rightarrow> gap_requirement list result" where
  "synchronize_gap_requirements previous current now =
     traverse (synchronize_one (dict_of gr_gap_id previous) now) current"

section \<open>The contract of closure steps\<close>

locale monotone_closure =
  fixes status :: "'r \<Rightarrow> closure_status"
    and version :: "'r \<Rightarrow> int"
    and step :: "'i \<Rightarrow> 'r \<Rightarrow> 'r result"
  assumes status_mono: "step i r = Inr r' \<Longrightarrow> status r \<le> status r'"
    and version_mono: "step i r = Inr r' \<Longrightarrow> version r \<le> version r'"
    and version_moves: "step i r = Inr r' \<Longrightarrow> status r \<noteq> status r' \<Longrightarrow> version r < version r'"
begin

fun steps :: "'i list \<Rightarrow> 'r \<Rightarrow> 'r list result" where
  "steps [] r = Inr [r]"
| "steps (i # is) r =
     (case step i r of Inl e \<Rightarrow> Inl e
      | Inr r' \<Rightarrow> (case steps is r' of Inl e \<Rightarrow> Inl e | Inr rs \<Rightarrow> Inr (r # rs)))"

lemma steps_hd: "steps is r = Inr rs \<Longrightarrow> rs \<noteq> [] \<and> hd rs = r"
  by (cases "is") (auto split: sum.splits)

lemma steps_sorted: "steps is r = Inr rs \<Longrightarrow> sorted (map status rs) \<and> sorted (map version rs)"
proof (induction "is" arbitrary: r rs)
  case (Cons i "is")
  from Cons.prems obtain r' rs' where s: "step i r = Inr r'" "steps is r' = Inr rs'" "rs = r # rs'"
    by (auto split: sum.splits)
  obtain ys where ys: "rs' = r' # ys" using steps_hd [OF s(2)] by (cases rs') auto
  show ?case
    using Cons.IH [OF s(2)] status_mono [OF s(1)] version_mono [OF s(1)]
    by (auto simp: s(3) ys intro: order_trans)
qed auto

lemma closed_stays: "steps is r = Inr rs \<Longrightarrow> status r = GClosed \<Longrightarrow> \<forall>x \<in> set rs. status x = GClosed"
  using steps_sorted [of "is" r rs] steps_hd [of "is" r rs] by (cases rs) auto

end

text \<open>A monotone sequence of closure statuses changes at most twice.\<close>

fun changes :: "closure_status list \<Rightarrow> nat" where
  "changes (a # b # xs) = (if a \<noteq> b then 1 else 0) + changes (b # xs)"
| "changes _ = 0"

lemma changes_rank: "sorted (a # xs) \<Longrightarrow> changes (a # xs) \<le> closure_rank (last (a # xs)) - closure_rank a"
proof (induction xs arbitrary: a)
  case (Cons b xs)
  have ab: "closure_rank a \<le> closure_rank b" "a \<noteq> b \<Longrightarrow> closure_rank a < closure_rank b"
    using Cons.prems closure_rank_inject [of a b] by (auto simp: less_eq_closure_status_def)
  have "b \<le> last (b # xs)" using Cons.prems by (cases xs rule: rev_cases) auto
  then have "closure_rank b \<le> closure_rank (last (b # xs))" by (simp only: less_eq_closure_status_def)
  moreover have "changes (b # xs) \<le> closure_rank (last (b # xs)) - closure_rank b"
    using Cons by simp
  ultimately show ?case using ab by (cases "a = b") auto
qed simp

lemma changes_at_most_two: "sorted xs \<Longrightarrow> changes xs \<le> 2"
proof (cases xs)
  case (Cons a ys)
  have "closure_rank s \<le> 2" for s by (cases s) simp_all
  then show "sorted xs \<Longrightarrow> ?thesis"
    using changes_rank [of a ys] Cons by (metis diff_le_self le_trans)
qed simp

section \<open>The three operations satisfy the contract\<close>

lemma validate_requirement_Inr [simp]:
  "validate_requirement r = Inr r' \<longleftrightarrow> r' = r \<and> is_ok (validate_requirement r)"
  by (auto simp: validate_requirement_def is_ok_def)

definition requirement_ok :: "gap_requirement \<Rightarrow> bool" where
  "requirement_ok r \<longleftrightarrow>
     0 \<le> gr_required_evidence r \<and> 0 \<le> gr_current_evidence r \<and> 0 \<le> gr_required_sources r
     \<and> 0 \<le> gr_current_sources r \<and> 1 \<le> gr_state_version r \<and> 1 \<le> gr_plan_version r
     \<and> 0 \<le> gr_current_coverage r \<and> gr_current_coverage r \<le> 1
     \<and> (\<forall>c. gr_required_coverage r = Some c \<longrightarrow> 0 \<le> c \<and> c \<le> 1)"

lemma validate_requirement_ok: "is_ok (validate_requirement r) \<longleftrightarrow> requirement_ok r"
  by (auto simp: validate_requirement_def requirement_ok_def not_less not_le split: option.splits)

lemma validate_requirement_id: "requirement_ok r \<Longrightarrow> validate_requirement r = Inr r"
  by (simp add: validate_requirement_ok)

definition snapshot_ok :: "closure_snapshot \<Rightarrow> bool" where
  "snapshot_ok s \<longleftrightarrow> 0 \<le> cs_coverage s \<and> cs_coverage s \<le> 1 \<and> 0 \<le> cs_evidence_count s
     \<and> 0 \<le> cs_independent_sources s"

lemma mk_snapshot_Inr: "mk_snapshot c e s v = Inr x \<longleftrightarrow>
    x = \<lparr>cs_coverage = c, cs_evidence_count = e, cs_independent_sources = s,
         cs_verification_status = v\<rparr> \<and> snapshot_ok x"
  by (auto simp: mk_snapshot_def snapshot_ok_def)

lemma apply_transition_Inr:
  "apply_closure_transition r st reason now = Inr r' \<Longrightarrow>
   gr_closure_status r \<le> st \<and> gr_closure_status r' = st
   \<and> gr_state_version r' = gr_state_version r + (if st = gr_closure_status r then 0 else 1)
   \<and> (st = gr_closure_status r \<longrightarrow> r' = r)"
  by (auto simp: apply_closure_transition_def less_eq_closure_status_def not_less split: if_splits)

lemma closure_outcome_Inr:
  "closure_outcome c eid now r = Inr (r', reason, st) \<Longrightarrow>
   gr_closure_status r \<le> st \<and> gr_closure_status r' = st
   \<and> gr_state_version r' = gr_state_version r + (if st = gr_closure_status r then 0 else 1)
   \<and> (st = gr_closure_status r \<longrightarrow> r' = r)"
  by (auto simp: closure_outcome_def Let_def split_beta split: if_splits sum.splits
      dest!: apply_transition_Inr)

definition evaluator_step ::
  "closure_context \<times> uuid \<times> timestamp \<Rightarrow> gap_requirement \<Rightarrow> gap_requirement result" where
  "evaluator_step i r = (case i of (c, eid, now) \<Rightarrow>
     map_sum id cx_requirement (run_closure_evaluator eid now c r))"

lemma evaluator_step_Inr:
  "evaluator_step (c, eid, now) r = Inr r' \<Longrightarrow>
   \<exists>reason st. closure_outcome c eid now r = Inr (r', reason, st)"
  by (auto simp: evaluator_step_def run_closure_evaluator_def Let_def split: if_splits sum.splits)

interpretation transition: monotone_closure gr_closure_status gr_state_version
  "\<lambda>(st, reason, now) r. apply_closure_transition r st reason now"
  by unfold_locales (auto dest!: apply_transition_Inr)

interpretation evaluator: monotone_closure gr_closure_status gr_state_version evaluator_step
proof unfold_locales
  fix i and r r' :: gap_requirement
  assume s: "evaluator_step i r = Inr r'"
  obtain c eid now where i: "i = (c, eid, now)" by (cases i)
  obtain reason st where "closure_outcome c eid now r = Inr (r', reason, st)"
    using evaluator_step_Inr s i by blast
  from closure_outcome_Inr [OF this]
  show "gr_closure_status r \<le> gr_closure_status r'" "gr_state_version r \<le> gr_state_version r'"
    "gr_closure_status r \<noteq> gr_closure_status r' \<Longrightarrow> gr_state_version r < gr_state_version r'"
    by auto
qed

interpretation applied: monotone_closure gr_closure_status gr_state_version
  "\<lambda>(e, now, reason) r. apply_closure_evaluation r e now reason"
  by unfold_locales
     (auto simp: apply_closure_evaluation_def less_eq_closure_status_def not_less split: if_splits)

section \<open>What one evaluation does\<close>

lemma evaluate_closure_status:
  "ce_closure_status (evaluate_closure eid r before after) =
     (if requirement_is_satisfied r after then GClosed
      else if has_progress before after then GPartial else GOpen)"
  by (simp add: evaluate_closure_def Let_def)

lemma evaluate_closure_gap [simp]:
  "ce_gap_id (evaluate_closure eid r before after) = gr_gap_id r"
  "ce_after (evaluate_closure eid r before after) = after"
  by (simp_all add: evaluate_closure_def Let_def split_beta)

lemma evaluate_closure_reason: "\<not> blank (ce_reason (evaluate_closure eid r before after))"
  by (auto simp: evaluate_closure_def Let_def blank_iff is_space_def)

lemma transition_reason_not_blank: "\<not> blank fallback \<Longrightarrow> \<not> blank (transition_reason c fallback)"
  by (auto simp: transition_reason_def Let_def blank_iff is_space_def)

lemma after_snapshot_sources:
  "after_snapshot c r = Inr s \<Longrightarrow> cs_independent_sources s = cc_sources c
   \<and> cs_coverage s = cs_coverage (cc_before c)
   \<and> cs_evidence_count s = cs_evidence_count (cc_before c) + int (cc_aligned c) + int (cc_partial c)
   \<and> (gr_type r \<noteq> ClaimVerification \<longrightarrow>
        cs_verification_status s = cs_verification_status (cc_before c))"
  by (simp add: after_snapshot_def mk_snapshot_Inr)

lemma after_snapshot_total:
  "snapshot_ok (cc_before c) \<Longrightarrow> 0 \<le> cc_sources c \<Longrightarrow> \<exists>s. after_snapshot c r = Inr s"
  by (simp add: after_snapshot_def mk_snapshot_Inr snapshot_ok_def)

lemma transition_total:
  "requirement_ok r \<Longrightarrow> \<not> blank reason \<Longrightarrow> gr_closure_status r \<le> st \<Longrightarrow>
   \<exists>r'. apply_closure_transition r st reason now = Inr r' \<and> requirement_ok r'"
  by (auto simp: apply_closure_transition_def less_eq_closure_status_def validate_requirement_ok
      requirement_ok_def)

lemma closure_outcome_spec:
  assumes "requirement_ok r" and "snapshot_ok (cc_before c)" and "0 \<le> cc_sources c"
    and "gr_closure_status r \<noteq> GClosed"
  shows "\<exists>r' reason s. after_snapshot c r = Inr s \<and> requirement_ok r'
    \<and> closure_outcome c eid now r = Inr (r', reason, gr_closure_status r')
    \<and> gr_closure_status r' = max (gr_closure_status r)
         (if requirement_is_satisfied r s then GClosed
          else if has_progress (cc_before c) s then GPartial else GOpen)"
proof -
  obtain s where s: "after_snapshot c r = Inr s" using after_snapshot_total [OF assms(2,3)] by blast
  let ?raw = "evaluate_closure eid r (cc_before c) s"
  let ?falls = "closure_rank (ce_closure_status ?raw) < closure_rank (gr_closure_status r)"
  let ?st = "if ?falls then gr_closure_status r else ce_closure_status ?raw"
  let ?reason = "if ?falls then ''existing_closure_state_preserved''
    else transition_reason c (ce_reason ?raw)"
  have "\<not> blank ?reason"
    using transition_reason_not_blank [OF evaluate_closure_reason] by (simp add: blank_iff is_space_def)
  moreover have "gr_closure_status r \<le> ?st" by (auto simp: less_eq_closure_status_def not_less)
  ultimately obtain r' where r': "apply_closure_transition r ?st ?reason now = Inr r'" "requirement_ok r'"
    using transition_total [OF assms(1)] by blast
  have st: "gr_closure_status r' = ?st" using apply_transition_Inr [OF r'(1)] by simp
  have "?st = max (gr_closure_status r) (ce_closure_status ?raw)"
    by (auto simp: max_def less_eq_closure_status_def closure_rank_inject not_less)
  then have "gr_closure_status r' = max (gr_closure_status r)
      (if requirement_is_satisfied r s then GClosed
       else if has_progress (cc_before c) s then GPartial else GOpen)"
    unfolding st evaluate_closure_status .
  moreover have "closure_outcome c eid now r = Inr (r', ?reason, gr_closure_status r')"
    unfolding st using assms(4) s r'(1) by (auto simp: closure_outcome_def Let_def)
  ultimately show ?thesis using s r'(2) by blast
qed

section \<open>Histories of evaluations\<close>

fun closure_history ::
  "(closure_context \<times> uuid \<times> timestamp) list \<Rightarrow> gap_requirement \<Rightarrow> gap_requirement list result" where
  "closure_history [] r = Inr [r]"
| "closure_history (i # is) r =
     (case evaluator_step i r of Inl e \<Rightarrow> Inl e
      | Inr r' \<Rightarrow> (case closure_history is r' of Inl e \<Rightarrow> Inl e | Inr rs \<Rightarrow> Inr (r # rs)))"

lemma closure_history_steps: "closure_history is r = evaluator.steps is r"
  by (induction "is" arbitrary: r) (auto split: sum.splits)

lemma evaluator_step_version:
  "evaluator_step i r = Inr r' \<Longrightarrow>
   gr_state_version r' = gr_state_version r
     + (if gr_closure_status r' = gr_closure_status r then 0 else 1)
   \<and> (gr_closure_status r' = gr_closure_status r \<longrightarrow> r' = r)"
  by (cases i) (auto dest!: evaluator_step_Inr closure_outcome_Inr)

lemma history_version:
  "closure_history is r = Inr rs \<Longrightarrow>
   gr_state_version (last rs) = gr_state_version r + int (changes (map gr_closure_status rs))"
proof (induction "is" arbitrary: r rs)
  case (Cons i "is")
  from Cons.prems obtain r' rs' where s: "evaluator_step i r = Inr r'"
      "closure_history is r' = Inr rs'" "rs = r # rs'"
    by (auto split: sum.splits)
  obtain ys where "rs' = r' # ys"
    using evaluator.steps_hd [OF s(2) [unfolded closure_history_steps]] by (cases rs') auto
  then show ?case using Cons.IH [OF s(2)] evaluator_step_version [OF s(1)] s(3) by auto
qed auto

section \<open>A concrete gap\<close>

definition demo_requirement :: "requirement_type \<Rightarrow> closure_status \<Rightarrow> gap_requirement" where
  "demo_requirement ty st =
     \<lparr>gr_gap_id = UUID 1, gr_run_id = UUID 2, gr_question_id = ''q1'', gr_dimension_key = ''market'',
      gr_type = ty, gr_criterion = ''two owners'', gr_required_evidence = 1, gr_required_sources = 2,
      gr_current_evidence = 1, gr_current_sources = 1, gr_verification_status = Required,
      gr_closure_status = st, gr_created_at = 0, gr_updated_at = 0, gr_state_version = 3,
      gr_current_coverage = 1 / 2, gr_required_coverage = Some 1,
      gr_transition_reason = ''evaluator_projection'', gr_plan_version = 1,
      gr_migration_source = ''runtime''\<rparr>"

definition demo_before :: closure_snapshot where
  "demo_before = \<lparr>cs_coverage = 1 / 2, cs_evidence_count = 1, cs_independent_sources = 1,
     cs_verification_status = Required\<rparr>"

definition demo_context :: "int \<Rightarrow> closure_context" where
  "demo_context sources = context_from_alignments (UUID 1) demo_before [] sources"

lemmas closure_demo_defs = demo_requirement_def demo_before_def demo_context_def
  context_from_alignments_def count_status_def requirement_ok_def snapshot_ok_def

lemmas closure_eval = evaluator_step_def run_closure_evaluator_def closure_outcome_def
  after_snapshot_def mk_snapshot_def evaluate_closure_def requirement_is_satisfied_def
  has_progress_def transition_reason_def apply_closure_transition_def blank_iff is_space_def
  validate_requirement_def remaining_requirements_def mk_closure_event_def Let_def

section \<open>Properties\<close>

text \<open>
  C17. Along any sequence of evaluations of one gap the closure status only moves forward, a
  closed gap stays closed, the status changes at most twice, and the state version grows by
  exactly the number of changes.
\<close>

theorem closure_history_is_monotone:
  assumes "closure_history is r = Inr rs"
  shows "sorted (map gr_closure_status rs) \<and> changes (map gr_closure_status rs) \<le> 2
    \<and> gr_state_version (last rs) = gr_state_version r + int (changes (map gr_closure_status rs))
    \<and> (gr_closure_status r = GClosed \<longrightarrow> (\<forall>x \<in> set rs. gr_closure_status x = GClosed))"
  using assms history_version [OF assms] evaluator.steps_sorted [of "is" r rs]
    evaluator.closed_stays [of "is" r rs] changes_at_most_two [of "map gr_closure_status rs"]
  by (simp add: closure_history_steps)

lemma demo_history:
  "\<exists>rs. closure_history [(demo_context 1, UUID 7, 5), (demo_context 2, UUID 8, 6), (demo_context 0, UUID 9, 7)]
     (demo_requirement IndependentSource GOpen) = Inr rs
   \<and> map gr_closure_status rs = [GOpen, GOpen, GClosed, GClosed] \<and> gr_state_version (last rs) = 4"
  by (simp add: closure_demo_defs closure_eval)

theorem closure_history_is_monotone_witness:
  "\<exists>rs. closure_history [(demo_context 1, UUID 7, 5), (demo_context 2, UUID 8, 6), (demo_context 0, UUID 9, 7)]
     (demo_requirement IndependentSource GOpen) = Inr rs \<and> sorted (map gr_closure_status rs)"
  using demo_history closure_history_is_monotone by blast

text \<open>
  One evaluation of a valid gap with valid facts never raises. An open or partial gap moves
  to the larger of its status and the verdict on the facts (closed when the criterion of its type
  holds, partial on progress), a closed one is returned unchanged; the version grows by one
  exactly when the status changes, and a transition event is emitted between the started and
  completed events exactly then.
\<close>

theorem closure_evaluation_outcome:
  assumes "requirement_ok r" and "snapshot_ok (cc_before c)" and "0 \<le> cc_sources c"
    and "cc_gap_id c = gr_gap_id r"
  shows "\<exists>x r' s. run_closure_evaluator eid now c r = Inr x \<and> cx_requirement x = r'
    \<and> requirement_ok r' \<and> after_snapshot c r = Inr s
    \<and> gr_closure_status r' = (if gr_closure_status r = GClosed then GClosed
         else max (gr_closure_status r)
           (if requirement_is_satisfied r s then GClosed
            else if has_progress (cc_before c) s then GPartial else GOpen))
    \<and> gr_state_version r' = gr_state_version r
         + (if gr_closure_status r' = gr_closure_status r then 0 else 1)
    \<and> map ev_type (cx_events x) =
        (if gr_closure_status r' = gr_closure_status r then [ClosureStarted, ClosureCompleted]
         else [ClosureStarted, ClosureTransition, ClosureCompleted])
    \<and> cr_closed (cx_result x) = (if gr_closure_status r' = GClosed then [gr_dimension_key r] else [])"
proof -
  obtain s where s: "after_snapshot c r = Inr s" using after_snapshot_total [OF assms(2,3)] by blast
  obtain r' reason where o': "closure_outcome c eid now r = Inr (r', reason, gr_closure_status r')"
    and ok: "requirement_ok r'"
    and st: "gr_closure_status r' = (if gr_closure_status r = GClosed then GClosed
         else max (gr_closure_status r)
           (if requirement_is_satisfied r s then GClosed
            else if has_progress (cc_before c) s then GPartial else GOpen))"
  proof (cases "gr_closure_status r = GClosed")
    case True
    then show ?thesis using that [of r "''closed_state_immutable''"] assms(1)
      by (simp add: closure_outcome_def)
  next
    case False
    then show ?thesis using closure_outcome_spec [OF assms(1-3) False, of eid now] s that by auto
  qed
  have v: "gr_state_version r' = gr_state_version r
         + (if gr_closure_status r' = gr_closure_status r then 0 else 1)"
    using closure_outcome_Inr [OF o'] by simp
  have "\<exists>x. run_closure_evaluator eid now c r = Inr x \<and> cx_requirement x = r'
    \<and> map ev_type (cx_events x) =
        (if gr_closure_status r' = gr_closure_status r then [ClosureStarted, ClosureCompleted]
         else [ClosureStarted, ClosureTransition, ClosureCompleted])
    \<and> cr_closed (cx_result x) = (if gr_closure_status r' = GClosed then [gr_dimension_key r] else [])"
    by (simp add: run_closure_evaluator_def assms(4) o' Let_def mk_closure_event_def)
  then show ?thesis using ok s st v by blast
qed

theorem closure_evaluation_outcome_witness:
  "\<exists>x. run_closure_evaluator (UUID 7) 5 (demo_context 2) (demo_requirement ClaimVerification GPartial) = Inr x
     \<and> requirement_ok (cx_requirement x)"
proof -
  have "requirement_ok (demo_requirement ClaimVerification GPartial)"
    "snapshot_ok (cc_before (demo_context 2))" "0 \<le> cc_sources (demo_context 2)"
    "cc_gap_id (demo_context 2) = gr_gap_id (demo_requirement ClaimVerification GPartial)"
    by (simp_all add: closure_demo_defs)
  from closure_evaluation_outcome [OF this, of "UUID 7" 5] show ?thesis by blast
qed

text \<open>
  C19. Alignment and closure apply one rule. For the source-counting requirement types, an evidence item
  satisfies the requirement exactly when it has the requirement's dimension, its quality passed, and there are
  as many sources as required; and evaluating the gap with that source count leaves it closed exactly when it
  was closed before or there are as many sources as required. So on an open or partial gap the two agree for
  evidence of the right dimension and of sufficient quality, and evidence that satisfies always closes.
\<close>

theorem alignment_agrees_with_closure:
  assumes "gr_type r \<in> {IndependentSource, ClaimVerification}"
    and "evaluate_alignment aid now r ev d q n verified v = Inr a"
    and "requirement_ok r" and "snapshot_ok before" and "0 \<le> n"
    and "run_closure_evaluator eid now' (context_from_alignments (gr_gap_id r) before as n) r = Inr x"
  shows "(al_satisfies a \<longleftrightarrow> d = Some (gr_dimension_key r) \<and> q \<and> gr_required_sources r \<le> n)
    \<and> (gr_closure_status (cx_requirement x) = GClosed
         \<longleftrightarrow> gr_closure_status r = GClosed \<or> gr_required_sources r \<le> n)"
proof
  let ?c = "context_from_alignments (gr_gap_id r) before as n"
  have c: "cc_before ?c = before" "cc_sources ?c = n" "cc_gap_id ?c = gr_gap_id r"
    by (simp_all add: context_from_alignments_def Let_def)
  show "al_satisfies a \<longleftrightarrow> d = Some (gr_dimension_key r) \<and> q \<and> gr_required_sources r \<le> n"
    using assms(1,2)
    by (auto simp: evaluate_alignment_def alignment_verdict_def validate_alignment_def Let_def
        split: if_splits)
  show "gr_closure_status (cx_requirement x) = GClosed \<longleftrightarrow> gr_closure_status r = GClosed \<or> gr_required_sources r \<le> n"
  proof (cases "gr_closure_status r = GClosed")
    case True
    then show ?thesis using assms(6) c(3) by (auto simp: run_closure_evaluator_def closure_outcome_def Let_def)
  next
    case False
    then obtain r' reason s where o': "after_snapshot ?c r = Inr s"
        "closure_outcome ?c eid now' r = Inr (r', reason, gr_closure_status r')"
        "gr_closure_status r' = max (gr_closure_status r)
           (if requirement_is_satisfied r s then GClosed
            else if has_progress (cc_before ?c) s then GPartial else GOpen)"
      using closure_outcome_spec [of r ?c eid now'] assms(3-5) c by auto
    have "requirement_is_satisfied r s \<longleftrightarrow> gr_required_sources r \<le> n"
      using assms(1) after_snapshot_sources [OF o'(1)] c(2) by (auto simp: requirement_is_satisfied_def)
    moreover have "cx_requirement x = r'"
      using assms(6) o'(2) c(3) by (simp add: run_closure_evaluator_def Let_def split: if_splits) auto
    ultimately show ?thesis using o'(3) False by (auto simp: max_def)
  qed
qed

theorem alignment_agrees_with_closure_witness:
  "\<exists>a x. evaluate_alignment (UUID 5) 0 (demo_requirement ClaimVerification GOpen) (UUID 6)
        (Some ''market'') True 2 False None = Inr a
     \<and> run_closure_evaluator (UUID 7) 1 (demo_context 2)
        (demo_requirement ClaimVerification GOpen) = Inr x
     \<and> al_satisfies a \<and> gr_closure_status (cx_requirement x) = GClosed"
proof -
  let ?r = "demo_requirement ClaimVerification GOpen"
  obtain a where a: "evaluate_alignment (UUID 5) 0 ?r (UUID 6) (Some ''market'') True 2 False None = Inr a"
    by (simp add: evaluate_alignment_def alignment_verdict_def validate_alignment_def Let_def
        closure_demo_defs)
  obtain x where x: "run_closure_evaluator (UUID 7) 1 (demo_context 2) ?r = Inr x"
    by (simp add: closure_demo_defs closure_eval)
  have "al_satisfies a \<and> gr_closure_status (cx_requirement x) = GClosed"
    using alignment_agrees_with_closure [OF _ a, where before = demo_before and as = "[]" and x = x and eid = "UUID 7"
        and now' = 1] x
    by (simp add: closure_demo_defs)
  with a x show ?thesis by blast
qed

lemma as_non_negative_int_nonneg [simp]: "0 \<le> as_non_negative_int v"
  by (cases v) (auto simp: as_non_negative_int_def split: sum.splits)

lemma as_coverage_range [simp]: "0 \<le> as_coverage v" "as_coverage v \<le> 1"
  by (cases v; auto simp: as_coverage_def split: option.splits pyfloat.splits)+

definition projected_fact :: "uuid \<Rightarrow> int \<Rightarrow> int \<Rightarrow> gap_requirement \<Rightarrow> bool" where
  "projected_fact run_id plan_version state_version r \<longleftrightarrow>
     requirement_ok r
     \<and> gr_gap_id r = gap_requirement_id run_id plan_version (gr_dimension_key r)
     \<and> gr_state_version r = state_version
     \<and> gr_closure_status r = (if requirement_is_satisfied r
           \<lparr>cs_coverage = gr_current_coverage r, cs_evidence_count = gr_current_evidence r,
            cs_independent_sources = gr_current_sources r,
            cs_verification_status = gr_verification_status r\<rparr> then GClosed else GPartial)"

lemma project_status_ok:
  assumes "requirement_ok r" and "gr_verification_status r \<noteq> NotEvaluated"
  shows "\<exists>r'. project_status r = Inr r' \<and> requirement_ok r'
    \<and> r' = r\<lparr>gr_closure_status := (if requirement_is_satisfied r
           \<lparr>cs_coverage = gr_current_coverage r, cs_evidence_count = gr_current_evidence r,
            cs_independent_sources = gr_current_sources r,
            cs_verification_status = gr_verification_status r\<rparr> then GClosed else GPartial)\<rparr>"
proof -
  let ?s = "\<lparr>cs_coverage = gr_current_coverage r, cs_evidence_count = gr_current_evidence r,
            cs_independent_sources = gr_current_sources r,
            cs_verification_status = gr_verification_status r\<rparr>"
  have "mk_snapshot (gr_current_coverage r) (gr_current_evidence r)
      (gr_current_sources r) (gr_verification_status r) = Inr ?s"
    using assms(1) by (simp add: mk_snapshot_Inr snapshot_ok_def requirement_ok_def)
  moreover have "has_progress default_snapshot ?s"
    using assms(2) by (simp add: has_progress_def default_snapshot_def)
  moreover have "requirement_ok (r\<lparr>gr_closure_status := st\<rparr>)" for st
    using assms(1) by (simp add: requirement_ok_def)
  ultimately show ?thesis
    using assms(1)
    by (simp add: project_status_def evaluate_closure_status validate_requirement_id
        del: validate_requirement_Inr)
qed

lemma project_status_fact:
  assumes "1 \<le> plan_version" and "1 \<le> state_version"
  shows "\<exists>r. project_status (base_requirement other run_id plan_version state_version claims now qid status)
      = Inr r \<and> projected_fact run_id plan_version state_version r"
proof -
  let ?b = "base_requirement other run_id plan_version state_version claims now qid status"
  have b: "requirement_ok ?b" "gr_verification_status ?b \<noteq> NotEvaluated"
    "gr_gap_id ?b = gap_requirement_id run_id plan_version (gr_dimension_key ?b)"
    "gr_state_version ?b = state_version"
    using assms by (simp_all add: base_requirement_def requirement_ok_def Let_def)
  have sat: "requirement_is_satisfied (r\<lparr>gr_closure_status := x\<rparr>) s = requirement_is_satisfied r s"
    for r x s
    unfolding requirement_is_satisfied_def by (cases "gr_type r") simp_all
  from project_status_ok [OF b(1,2)] b(3,4) show ?thesis
    by (auto simp: projected_fact_def sat)
qed

lemma traverse_spec:
  "(\<And>x. x \<in> set xs \<Longrightarrow> \<exists>y. f x = Inr y \<and> P y) \<Longrightarrow>
   \<exists>ys. traverse f xs = Inr ys \<and> length ys = length xs \<and> (\<forall>y \<in> set ys. P y)"
proof (induction xs)
  case (Cons x xs)
  obtain y where y: "f x = Inr y" "P y" using Cons.prems [of x] by auto
  obtain ys where "traverse f xs = Inr ys" "length ys = length xs" "\<forall>y \<in> set ys. P y"
    using Cons by auto
  with y show ?case by auto
qed simp

text \<open>
  Projecting a coverage map never fails for positive versions: every requirement status with
  a dimension key yields one valid requirement with the stable id of its dimension, closed when
  its criterion holds on the projected facts and partial otherwise. A projected requirement is
  never open, not even when no evidence exists at all.
\<close>

theorem projection_is_total_and_never_open:
  assumes "1 \<le> plan_version" and "1 \<le> state_version"
  shows "\<exists>rs. project_gap_requirements other run_id plan_version state_version coverage_map claims now
      = Inr rs
    \<and> length rs = length (status_rows other coverage_map)
    \<and> (\<forall>r \<in> set rs. projected_fact run_id plan_version state_version r
          \<and> gr_closure_status r \<noteq> GOpen)"
proof -
  have "\<exists>y. (case x of (qid, status) \<Rightarrow> project_status
        (base_requirement other run_id plan_version state_version claims now qid status)) = Inr y
      \<and> projected_fact run_id plan_version state_version y \<and> gr_closure_status y \<noteq> GOpen" for x
    using project_status_fact [OF assms, of other run_id claims now "fst x" "snd x"]
    by (auto simp: split_beta projected_fact_def)
  then show ?thesis unfolding project_gap_requirements_def by (intro traverse_spec) blast
qed

theorem projection_is_total_and_never_open_witness:
  "\<exists>rs. project_gap_requirements (\<lambda>_. []) (UUID 2) 1 1
      [[(''dimension_key'', JStr ''q1''), (''requirement_statuses'', JList
         [JObj [(''dimension_key'', JStr ''market''), (''coverage'', JNum 0)], JStr ''x''])]] [] 0 = Inr rs
    \<and> length rs = 1 \<and> (\<forall>r \<in> set rs. gr_closure_status r \<noteq> GOpen)"
  using projection_is_total_and_never_open
    [of 1 1 "\<lambda>_. []" "UUID 2" "[[(''dimension_key'', JStr ''q1''), (''requirement_statuses'', JList
         [JObj [(''dimension_key'', JStr ''market''), (''coverage'', JNum 0)], JStr ''x''])]]" "[]" 0]
  by (auto simp: status_rows_def)

lemma traverse_raises: "(\<exists>e. traverse f xs = Inl e) \<longleftrightarrow> (\<exists>x \<in> set xs. \<exists>e. f x = Inl e)"
  by (induction xs) (auto split: sum.splits)

lemma snapshot_of_ok: "requirement_ok r \<Longrightarrow> \<exists>s. requirement_snapshot r = Inr s \<and> snapshot_ok s"
  by (simp add: requirement_snapshot_def mk_snapshot_Inr requirement_ok_def snapshot_ok_def)

lemma map_of_dict_of: "map_of (dict_of key xs) k = Some x \<Longrightarrow> x \<in> set xs \<and> key x = k"
  using entries_dict_of [of key xs] by (auto dest!: map_of_SomeD)

text \<open>One valid candidate against its prior.\<close>

lemma synchronize_one_raises:
  assumes "requirement_ok prior" and "map_of previous (gr_gap_id candidate) = Some prior"
    and "gr_gap_id candidate = gr_gap_id prior"
    and "requirement_snapshot prior = Inr before" and "requirement_snapshot candidate = Inr after"
  shows "(\<exists>e. synchronize_one previous now candidate = Inl e) \<longleftrightarrow>
    \<not> requirement_is_satisfied prior after
    \<and> (gr_closure_status prior = GClosed
       \<or> gr_closure_status prior = GPartial \<and> \<not> has_progress before after)"
proof -
  let ?e = "evaluate_closure (UUID 0) prior before after"
  have one: "synchronize_one previous now candidate = apply_closure_evaluation prior ?e now None"
    using assms(2-5) by (simp add: synchronize_one_def)
  have "snapshot_ok after" using assms(5) unfolding requirement_snapshot_def mk_snapshot_Inr by blast
  then have "(\<exists>x. apply_closure_evaluation prior ?e now None = Inr x)
      \<longleftrightarrow> gr_closure_status prior \<le> ce_closure_status ?e"
    using assms(1)
    by (auto simp: apply_closure_evaluation_def validate_requirement_ok requirement_ok_def
        snapshot_ok_def less_eq_closure_status_def not_less)
  then have "(\<exists>e. synchronize_one previous now candidate = Inl e)
      \<longleftrightarrow> \<not> gr_closure_status prior \<le> ce_closure_status ?e"
    unfolding one by (cases "apply_closure_evaluation prior ?e now None") simp_all
  then show ?thesis
    unfolding evaluate_closure_status
    by (cases "gr_closure_status prior") (auto simp: less_eq_closure_status_def)
qed

text \<open>
  C21. Synchronising valid gaps with valid projections of new facts raises exactly when some gap cannot keep
  its status: it has a prior whose criterion the new facts do not satisfy, and the prior is closed, or it is
  partial and the facts show no progress against its own: no coverage, evidence or source count has grown and
  the verification status is the same. So one partial gap that is still not satisfied and whose facts did not
  grow, as when nothing happened to it, makes the synchronisation of all of them raise.
\<close>

theorem synchronize_raises_iff:
  assumes "\<forall>r \<in> set previous \<union> set current. requirement_ok r"
  shows "(\<exists>e. synchronize_gap_requirements previous current now = Inl e) \<longleftrightarrow>
    (\<exists>candidate \<in> set current. \<exists>prior before after.
       map_of (dict_of gr_gap_id previous) (gr_gap_id candidate) = Some prior
       \<and> requirement_snapshot prior = Inr before \<and> requirement_snapshot candidate = Inr after
       \<and> \<not> requirement_is_satisfied prior after
       \<and> (gr_closure_status prior = GClosed
          \<or> gr_closure_status prior = GPartial \<and> \<not> has_progress before after))"
proof -
  let ?prev = "dict_of gr_gap_id previous"
  have "(\<exists>e. synchronize_one ?prev now c = Inl e) \<longleftrightarrow>
      (\<exists>prior before after. map_of ?prev (gr_gap_id c) = Some prior
       \<and> requirement_snapshot prior = Inr before \<and> requirement_snapshot c = Inr after
       \<and> \<not> requirement_is_satisfied prior after
       \<and> (gr_closure_status prior = GClosed
          \<or> gr_closure_status prior = GPartial \<and> \<not> has_progress before after))" if c: "c \<in> set current" for c
  proof (cases "map_of ?prev (gr_gap_id c)")
    case None
    then show ?thesis by (simp add: synchronize_one_def)
  next
    case (Some prior)
    have p: "requirement_ok prior" "gr_gap_id c = gr_gap_id prior" using map_of_dict_of [OF Some] assms by auto
    obtain before after where s: "requirement_snapshot prior = Inr before" "requirement_snapshot c = Inr after"
      using snapshot_of_ok [OF p(1)] snapshot_of_ok [of c] assms c by blast
    show ?thesis using synchronize_one_raises [OF p(1) Some p(2) s, of now] Some s by simp
  qed
  then show ?thesis unfolding synchronize_gap_requirements_def traverse_raises by blast
qed

text \<open>Of two gaps one is new, the other is partial and its facts are the same.\<close>

theorem synchronize_raises_iff_witness:
  "\<exists>e. synchronize_gap_requirements [demo_requirement IndependentSource GPartial]
         [(demo_requirement DimensionCoverage GOpen)\<lparr>gr_gap_id := UUID 99\<rparr>, demo_requirement IndependentSource GPartial] 9 = Inl e"
proof -
  let ?r = "demo_requirement IndependentSource GPartial"
  let ?new = "(demo_requirement DimensionCoverage GOpen)\<lparr>gr_gap_id := UUID 99\<rparr>"
  have s: "requirement_snapshot ?r = Inr demo_before"
    by (simp add: requirement_snapshot_def mk_snapshot_def demo_requirement_def demo_before_def)
  have "requirement_ok ?r" and "requirement_ok ?new" by (simp_all add: closure_demo_defs)
  then have ok: "\<forall>r \<in> set [?r] \<union> set [?new, ?r]. requirement_ok r" by simp
  have "map_of (dict_of gr_gap_id [?r]) (gr_gap_id ?r) = Some ?r" by (simp add: dict_of_def)
  moreover have "\<not> requirement_is_satisfied ?r demo_before" and "\<not> has_progress demo_before demo_before"
    by (simp_all add: requirement_is_satisfied_def has_progress_def demo_requirement_def demo_before_def)
  moreover have "gr_closure_status ?r = GPartial" by (simp add: demo_requirement_def)
  ultimately show ?thesis unfolding synchronize_raises_iff [OF ok] using s by (auto intro!: bexI [of _ ?r])
qed

end
