(* ===== verification/Closure_Feedback.thy ===== *)
theory Closure_Feedback
  imports Gap_Closure
begin

text \<open>
  Feedback on unresolved gaps: \<open>app/domain/closure_feedback.py\<close>,
  \<open>closure_feedback_completeness.py\<close>, \<open>closure_feedback_completeness_pass.py\<close> and
  \<open>run_closure_feedback_finalizer.py\<close>.

  The pass and the finalizer are loops over the requirements with several output lists; they are
  modelled with their loop state, and the locale \<open>append_loop\<close> of the prelude is interpreted once
  per output list to read off what each loop produces. Dictionaries keyed by \<open>str(gap_id)\<close> are
  maps on the identifiers themselves.
\<close>

section \<open>Reasons and needs\<close>

datatype research_need_type =
    NeedAdditionalSource | NeedIndependentSource | NeedClaimVerification | NeedEvidenceQuality
  | NeedMissingData | NeedDimensionCoverage | NeedUnknown

datatype feedback_reason =
    FRMissingIndependentSource | FRClaimNotVerified | FRInsufficientEvidence
  | FREvidenceQualityLow | FRDimensionMismatch | FRNoValidPath | FRUnknown

fun reason_value :: "feedback_reason \<Rightarrow> string" where
  "reason_value FRMissingIndependentSource = ''missing_independent_source''"
| "reason_value FRClaimNotVerified = ''claim_not_verified''"
| "reason_value FRInsufficientEvidence = ''insufficient_evidence''"
| "reason_value FREvidenceQualityLow = ''evidence_quality_low''"
| "reason_value FRDimensionMismatch = ''dimension_mismatch''"
| "reason_value FRNoValidPath = ''no_valid_path''"
| "reason_value FRUnknown = ''unknown''"

fun need_type_for_reason :: "feedback_reason \<Rightarrow> research_need_type" where
  "need_type_for_reason FRMissingIndependentSource = NeedIndependentSource"
| "need_type_for_reason FRClaimNotVerified = NeedClaimVerification"
| "need_type_for_reason FRInsufficientEvidence = NeedEvidenceQuality"
| "need_type_for_reason FREvidenceQualityLow = NeedEvidenceQuality"
| "need_type_for_reason FRDimensionMismatch = NeedDimensionCoverage"
| "need_type_for_reason FRNoValidPath = NeedAdditionalSource"
| "need_type_for_reason FRUnknown = NeedUnknown"

record closure_feedback =
  cf_feedback_id :: uuid
  cf_run_id :: uuid
  cf_question_id :: string
  cf_gap_id :: uuid
  cf_dimension_key :: string
  cf_requirement_type :: requirement_type
  cf_previous_status :: closure_status
  cf_current_status :: closure_status
  cf_closure_result :: closure_status
  cf_failure_reason :: feedback_reason
  cf_missing_requirement :: string
  cf_need_type :: research_need_type
  cf_created_at :: timestamp
  cf_metadata :: "(string \<times> json) list"

definition validate_feedback :: "closure_feedback \<Rightarrow> closure_feedback result" where
  "validate_feedback f =
     (if blank (cf_missing_requirement f)
      then Inl (ValueError ''closure feedback missing requirement must not be empty'')
      else Inr f)"

section \<open>Feedback from a closure evaluation\<close>

definition classify_feedback_reason :: "string \<Rightarrow> closure_result \<Rightarrow> feedback_reason" where
  "classify_feedback_reason reason res =
     (if reason = ''missing_independent_source'' then FRMissingIndependentSource
      else if reason = ''claim_verification_required'' then FRClaimNotVerified
      else if reason = ''dimension_mismatch'' then FRDimensionMismatch
      else if reason = ''insufficient_evidence'' then FRInsufficientEvidence
      else if reason = ''requirement_not_satisfied'' then
        (if cr_aligned res = 0 \<and> cr_partial res = 0 then FRNoValidPath
         else FRInsufficientEvidence)
      else if reason = ''evidence_or_verification_progress_without_closure''
        then FRInsufficientEvidence
      else FRUnknown)"

definition missing_requirement ::
  "gap_requirement \<Rightarrow> closure_result \<Rightarrow> feedback_reason \<Rightarrow> string" where
  "missing_requirement r res reason =
     (if reason = FRMissingIndependentSource then ''independent_source''
      else if reason = FRClaimNotVerified then ''claim_verification''
      else (case cr_remaining res of x # _ \<Rightarrow> x | [] \<Rightarrow> gr_dimension_key r))"

definition generate_feedback ::
  "timestamp \<Rightarrow> closure_execution \<Rightarrow> closure_feedback list result" where
  "generate_feedback now x =
     (let res = cx_result x; r = cx_requirement x
      in if cr_after_status res = GClosed then Inr []
         else let reason = classify_feedback_reason (cr_reason res) res
              in map_sum id (\<lambda>f. [f]) (validate_feedback
                   \<lparr>cf_feedback_id = UUID5 ''closure-feedback:''
                      [PId (gr_gap_id r), PInt (cr_state_version res), PStr (reason_value reason)],
                    cf_run_id = gr_run_id r, cf_question_id = gr_question_id r,
                    cf_gap_id = gr_gap_id r, cf_dimension_key = gr_dimension_key r,
                    cf_requirement_type = gr_type r,
                    cf_previous_status = cr_before_status res,
                    cf_current_status = cr_after_status res,
                    cf_closure_result = cr_closure_status res,
                    cf_failure_reason = reason,
                    cf_missing_requirement = missing_requirement r res reason,
                    cf_need_type = need_type_for_reason reason,
                    cf_created_at = now, cf_metadata = []\<rparr>))"

section \<open>Completeness\<close>

definition derive_feedback_reason :: "gap_requirement \<Rightarrow> alignment_status \<Rightarrow> feedback_reason" where
  "derive_feedback_reason r al =
     (if gr_current_evidence r < gr_required_evidence r then FRInsufficientEvidence
      else if gr_current_sources r < gr_required_sources r then FRMissingIndependentSource
      else if gr_type r = ClaimVerification \<and> gr_verification_status r \<noteq> Verified
        then FRClaimNotVerified
      else if al = NotAligned then FRDimensionMismatch
      else if al = PartiallyAligned then FREvidenceQualityLow
      else if gr_type r = EvidenceQuality then FREvidenceQualityLow
      else FRNoValidPath)"

definition completeness_missing :: "gap_requirement \<Rightarrow> feedback_reason \<Rightarrow> string" where
  "completeness_missing r reason =
     (if reason = FRMissingIndependentSource then ''independent_source''
      else if reason = FRClaimNotVerified then ''claim_verification''
      else gr_dimension_key r)"

definition completeness_feedback ::
  "timestamp \<Rightarrow> alignment_status \<Rightarrow> gap_requirement \<Rightarrow> closure_feedback" where
  "completeness_feedback now al r =
     (let reason = derive_feedback_reason r al
      in \<lparr>cf_feedback_id = UUID5 ''closure-feedback-completeness:''
            [PId (gr_gap_id r), PInt (gr_state_version r), PStr (reason_value reason)],
          cf_run_id = gr_run_id r, cf_question_id = gr_question_id r, cf_gap_id = gr_gap_id r,
          cf_dimension_key = gr_dimension_key r, cf_requirement_type = gr_type r,
          cf_previous_status = gr_closure_status r, cf_current_status = gr_closure_status r,
          cf_closure_result = gr_closure_status r, cf_failure_reason = reason,
          cf_missing_requirement = completeness_missing r reason,
          cf_need_type = need_type_for_reason reason, cf_created_at = now, cf_metadata = []\<rparr>)"

definition generate_completeness_feedback ::
  "timestamp \<Rightarrow> alignment_status \<Rightarrow> gap_requirement \<Rightarrow> closure_feedback option result" where
  "generate_completeness_feedback now al r =
     (if gr_closure_status r = GClosed then Inr None
      else map_sum id Some (validate_feedback (completeness_feedback now al r)))"

fun feedback_id_by_gap :: "closure_feedback list \<Rightarrow> (uuid, uuid) dict \<Rightarrow> (uuid, uuid) dict" where
  "feedback_id_by_gap [] d = d"
| "feedback_id_by_gap (f # fs) d =
     feedback_id_by_gap fs
       (case map_of d (cf_gap_id f) of Some _ \<Rightarrow> d
        | None \<Rightarrow> d @ [(cf_gap_id f, cf_feedback_id f)])"

definition MISSING_FEEDBACK_REASON :: string where
  "MISSING_FEEDBACK_REASON = ''NO_CLOSURE_FEEDBACK''"

record gap_completeness =
  gc_gap_id :: uuid
  gc_has_feedback :: bool
  gc_feedback_id :: "uuid option"
  gc_missing_reason :: "string option"

definition check_feedback_completeness ::
  "gap_requirement list \<Rightarrow> closure_feedback list \<Rightarrow> gap_completeness list" where
  "check_feedback_completeness rs fs =
     (let ids = feedback_id_by_gap fs []
      in map (\<lambda>r. case map_of ids (gr_gap_id r) of
                 Some i \<Rightarrow> \<lparr>gc_gap_id = gr_gap_id r, gc_has_feedback = True,
                            gc_feedback_id = Some i, gc_missing_reason = None\<rparr>
               | None \<Rightarrow> \<lparr>gc_gap_id = gr_gap_id r, gc_has_feedback = False,
                          gc_feedback_id = None,
                          gc_missing_reason = Some MISSING_FEEDBACK_REASON\<rparr>)
           (filter (\<lambda>r. gr_closure_status r \<noteq> GClosed) rs))"

definition missing_feedback_requirements ::
  "gap_requirement list \<Rightarrow> closure_feedback list \<Rightarrow> gap_requirement list" where
  "missing_feedback_requirements rs fs =
     (let covered = set (map fst (feedback_id_by_gap fs []))
      in filter (\<lambda>r. gr_closure_status r \<noteq> GClosed \<and> gr_gap_id r \<notin> covered) rs)"

type_synonym alignment_lookup = "uuid \<rightharpoonup> alignment_status"

definition lookup_status :: "alignment_lookup \<Rightarrow> uuid \<Rightarrow> alignment_status" where
  "lookup_status m gap = (case m gap of Some s \<Rightarrow> s | None \<Rightarrow> AlignmentUnknown)"

definition complete_feedback_gaps ::
  "timestamp \<Rightarrow> alignment_lookup \<Rightarrow> gap_requirement list \<Rightarrow> closure_feedback list
    \<Rightarrow> closure_feedback list result" where
  "complete_feedback_gaps now status rs fs =
     map_sum id (\<lambda>xs. concat (map (\<lambda>x. case x of None \<Rightarrow> [] | Some f \<Rightarrow> [f]) xs))
       (traverse (\<lambda>r. generate_completeness_feedback now (lookup_status status (gr_gap_id r)) r)
          (missing_feedback_requirements rs fs))"

definition feedback_completeness_violations ::
  "gap_requirement list \<Rightarrow> closure_feedback list \<Rightarrow> uuid list" where
  "feedback_completeness_violations rs fs =
     (let covered = set (map fst (feedback_id_by_gap fs []))
      in map gr_gap_id
           (filter (\<lambda>r. gr_closure_status r \<noteq> GClosed \<and> gr_gap_id r \<notin> covered) rs))"

section \<open>The completeness pass\<close>

datatype pass_status = PassGenerated | PassSkipped | PassComplete

record completeness_verdict =
  cv_gap_id :: uuid
  cv_status :: pass_status
  cv_reason :: string
  cv_feedback_id :: "uuid option"

record pass_state =
  pa_generated :: "closure_feedback list"
  pa_existing :: "uuid list"
  pa_closed :: "uuid list"
  pa_violations :: "uuid list"
  pa_verdicts :: "completeness_verdict list"

record pass_result =
  px_status :: pass_status
  px_generated :: "closure_feedback list"
  px_existing :: "uuid list"
  px_closed :: "uuid list"
  px_violations :: "uuid list"
  px_verdicts :: "completeness_verdict list"

definition add_verdict ::
  "uuid \<Rightarrow> pass_status \<Rightarrow> string \<Rightarrow> uuid option \<Rightarrow> pass_state \<Rightarrow> pass_state" where
  "add_verdict gap st reason fid s =
     s\<lparr>pa_verdicts := pa_verdicts s
         @ [\<lparr>cv_gap_id = gap, cv_status = st, cv_reason = reason, cv_feedback_id = fid\<rparr>]\<rparr>"

definition pass_step ::
  "timestamp \<Rightarrow> alignment_lookup \<Rightarrow> (uuid \<rightharpoonup> uuid) \<Rightarrow> pass_state \<Rightarrow> gap_requirement
    \<Rightarrow> pass_state result" where
  "pass_step now status existing s r =
     (let gap = gr_gap_id r
      in if gr_closure_status r = GClosed
         then Inr (add_verdict gap PassSkipped ''closed_gap'' None
                     (s\<lparr>pa_closed := pa_closed s @ [gap]\<rparr>))
         else case existing gap of
                Some fid \<Rightarrow> Inr (add_verdict gap PassSkipped ''feedback_exists'' (Some fid)
                                  (s\<lparr>pa_existing := pa_existing s @ [gap]\<rparr>))
              | None \<Rightarrow>
                  (let s1 = s\<lparr>pa_violations := pa_violations s @ [gap]\<rparr>
                   in case generate_completeness_feedback now (lookup_status status gap) r of
                        Inl e \<Rightarrow> Inl e
                      | Inr None \<Rightarrow> Inr (add_verdict gap PassSkipped ''no_feedback_generated''
                                         None s1)
                      | Inr (Some f) \<Rightarrow>
                          Inr (add_verdict gap PassGenerated ''completeness_feedback_generated''
                                 (Some (cf_feedback_id f))
                                 (s1\<lparr>pa_generated := pa_generated s1 @ [f]\<rparr>))))"

definition run_completeness_pass ::
  "timestamp \<Rightarrow> alignment_lookup \<Rightarrow> gap_requirement list \<Rightarrow> (uuid \<rightharpoonup> uuid)
    \<Rightarrow> pass_result result" where
  "run_completeness_pass now status rs existing =
     (case foldM (pass_step now status existing)
             \<lparr>pa_generated = [], pa_existing = [], pa_closed = [], pa_violations = [],
              pa_verdicts = []\<rparr> rs of
        Inl e \<Rightarrow> Inl e
      | Inr s \<Rightarrow> Inr
          \<lparr>px_status = (if pa_generated s \<noteq> [] then PassGenerated
                        else if pa_violations s \<noteq> [] then PassSkipped else PassComplete),
           px_generated = pa_generated s, px_existing = pa_existing s, px_closed = pa_closed s,
           px_violations = pa_violations s, px_verdicts = pa_verdicts s\<rparr>)"

section \<open>The run-level finalizer\<close>

datatype finalization_status = FinCompleted | FinGenerated | FinBlocked

datatype finalization_action =
    ExistingComplete | ExistingFeedback | GeneratedFeedback | TerminalGap | BlockedGap

definition is_terminal_run_stop_reason :: "string option \<Rightarrow> bool" where
  "is_terminal_run_stop_reason reason =
     (case reason of None \<Rightarrow> False
      | Some t \<Rightarrow> t \<noteq> [] \<and> (t \<in> {''cancelled'', ''user_stopped''} \<or> ends_with t ''_exhausted''))"

record finalization_verdict =
  fv_gap_id :: uuid
  fv_closure_status :: closure_status
  fv_feedback_exists :: bool
  fv_terminal_reason :: "string option"
  fv_action :: finalization_action
  fv_feedback_id :: "uuid option"

record final_state =
  fs_generated :: "closure_feedback list"
  fs_existing :: "uuid list"
  fs_terminal :: "uuid list"
  fs_blocked :: "uuid list"
  fs_violations :: "uuid list"
  fs_verdicts :: "finalization_verdict list"

record finalization_result =
  fx_run_id :: uuid
  fx_status :: finalization_status
  fx_generated :: "closure_feedback list"
  fx_existing :: "uuid list"
  fx_terminal :: "uuid list"
  fx_blocked :: "uuid list"
  fx_violations :: "uuid list"
  fx_verdicts :: "finalization_verdict list"

definition mk_verdict ::
  "gap_requirement \<Rightarrow> bool \<Rightarrow> string option \<Rightarrow> finalization_action \<Rightarrow> uuid option
    \<Rightarrow> finalization_verdict" where
  "mk_verdict r exists terminal act fid =
     \<lparr>fv_gap_id = gr_gap_id r, fv_closure_status = gr_closure_status r,
      fv_feedback_exists = exists, fv_terminal_reason = terminal, fv_action = act,
      fv_feedback_id = fid\<rparr>"

definition finalize_step ::
  "timestamp \<Rightarrow> alignment_lookup \<Rightarrow> (uuid \<rightharpoonup> uuid) \<Rightarrow> (uuid \<rightharpoonup> string) \<Rightarrow> final_state
    \<Rightarrow> gap_requirement \<Rightarrow> final_state result" where
  "finalize_step now status existing terminal s r =
     (let gap = gr_gap_id r;
          say = (\<lambda>s' v. Inr (s'\<lparr>fs_verdicts := fs_verdicts s' @ [v]\<rparr>))
      in if gr_closure_status r = GClosed
         then say s (mk_verdict r False None ExistingComplete None)
         else case existing gap of
                Some fid \<Rightarrow> say (s\<lparr>fs_existing := fs_existing s @ [gap]\<rparr>)
                              (mk_verdict r True None ExistingFeedback (Some fid))
              | None \<Rightarrow>
                  (case terminal gap of
                     Some reason \<Rightarrow> say (s\<lparr>fs_terminal := fs_terminal s @ [gap]\<rparr>)
                                      (mk_verdict r False (Some reason) TerminalGap None)
                   | None \<Rightarrow>
                       (let s1 = s\<lparr>fs_violations := fs_violations s @ [gap]\<rparr>
                        in case generate_completeness_feedback now (lookup_status status gap) r of
                             Inl e \<Rightarrow> Inl e
                           | Inr None \<Rightarrow> say (s1\<lparr>fs_blocked := fs_blocked s1 @ [gap]\<rparr>)
                                           (mk_verdict r False None BlockedGap None)
                           | Inr (Some f) \<Rightarrow> say (s1\<lparr>fs_generated := fs_generated s1 @ [f]\<rparr>)
                               (mk_verdict r False None GeneratedFeedback
                                  (Some (cf_feedback_id f))))))"

definition finalize_run ::
  "uuid \<Rightarrow> timestamp \<Rightarrow> alignment_lookup \<Rightarrow> gap_requirement list \<Rightarrow> (uuid \<rightharpoonup> uuid)
    \<Rightarrow> (uuid \<rightharpoonup> string) \<Rightarrow> finalization_result result" where
  "finalize_run run_id now status rs existing terminal =
     (case foldM (finalize_step now status existing terminal)
             \<lparr>fs_generated = [], fs_existing = [], fs_terminal = [], fs_blocked = [],
              fs_violations = [], fs_verdicts = []\<rparr> rs of
        Inl e \<Rightarrow> Inl e
      | Inr s \<Rightarrow> Inr
          \<lparr>fx_run_id = run_id,
           fx_status = (if fs_blocked s \<noteq> [] then FinBlocked
                        else if fs_generated s \<noteq> [] then FinGenerated else FinCompleted),
           fx_generated = fs_generated s, fx_existing = fs_existing s,
           fx_terminal = fs_terminal s, fx_blocked = fs_blocked s,
           fx_violations = fs_violations s, fx_verdicts = fs_verdicts s\<rparr>)"

section \<open>What the loops produce\<close>

lemma need_type_for_reason_unknown: "need_type_for_reason reason = NeedUnknown \<longleftrightarrow> reason = FRUnknown"
  by (cases reason) simp_all

lemma completeness_missing_not_blank:
  "\<not> blank (gr_dimension_key r) \<Longrightarrow> \<not> blank (completeness_missing r reason)"
  by (simp add: completeness_missing_def blank_iff is_space_def)

lemma generate_completeness_Inr:
  "\<not> blank (gr_dimension_key r) \<Longrightarrow> generate_completeness_feedback now al r =
     Inr (if gr_closure_status r = GClosed then None else Some (completeness_feedback now al r))"
  by (simp add: generate_completeness_feedback_def validate_feedback_def completeness_feedback_def
      Let_def completeness_missing_not_blank)

lemma generate_completeness_not_None:
  "gr_closure_status r \<noteq> GClosed \<Longrightarrow> generate_completeness_feedback now al r \<noteq> Inr None"
  by (auto simp: generate_completeness_feedback_def validate_feedback_def)

lemma completeness_feedback_gap [simp]: "cf_gap_id (completeness_feedback now al r) = gr_gap_id r"
  by (simp add: completeness_feedback_def Let_def)

lemma evaluate_closure_open_reason:
  "ce_closure_status (evaluate_closure eid r before after) \<noteq> GClosed \<Longrightarrow>
   ce_reason (evaluate_closure eid r before after)
     \<in> {''evidence_or_verification_progress_without_closure'', ''requirement_not_satisfied''}"
  by (auto simp: evaluate_closure_def Let_def)

lemma known_reason:
  "fallback \<in> {''evidence_or_verification_progress_without_closure'', ''requirement_not_satisfied''} \<Longrightarrow>
   classify_feedback_reason (transition_reason c fallback) res \<noteq> FRUnknown"
  by (auto simp: transition_reason_def classify_feedback_reason_def Let_def)

lemma closure_outcome_reason:
  assumes o': "closure_outcome c eid now r = Inr (r', reason, st)" and nc: "gr_closure_status r' \<noteq> GClosed"
  shows "(\<exists>fallback \<in> {''evidence_or_verification_progress_without_closure'', ''requirement_not_satisfied''}.
            reason = transition_reason c fallback)
    \<or> (gr_closure_status r = GPartial \<and> r' = r)"
proof -
  have rn: "gr_closure_status r \<noteq> GClosed" and same: "st = gr_closure_status r \<longrightarrow> r' = r"
    and st: "gr_closure_status r' = st"
    using closure_outcome_Inr [OF o'] nc by auto
  from o' rn obtain after where after: "after_snapshot c r = Inr after"
    by (auto simp: closure_outcome_def split: sum.splits)
  let ?raw = "evaluate_closure eid r (cc_before c) after"
  show ?thesis
  proof (cases "closure_rank (ce_closure_status ?raw) < closure_rank (gr_closure_status r)")
    case True
    then have "st = gr_closure_status r"
      using o' rn after by (auto simp: closure_outcome_def Let_def split: sum.splits)
    moreover have "gr_closure_status r = GPartial"
      using True rn by (cases "gr_closure_status r") auto
    ultimately show ?thesis using same by blast
  next
    case False
    then have s: "st = ce_closure_status ?raw" "reason = transition_reason c (ce_reason ?raw)"
      using o' rn after by (auto simp: closure_outcome_def Let_def split: sum.splits)
    then have "ce_closure_status ?raw \<noteq> GClosed" using nc st by simp
    from evaluate_closure_open_reason [OF this] s(2) show ?thesis by blast
  qed
qed

definition uncovered :: "(uuid \<rightharpoonup> 'a) \<Rightarrow> gap_requirement \<Rightarrow> bool" where
  "uncovered existing r \<longleftrightarrow> gr_closure_status r \<noteq> GClosed \<and> existing (gr_gap_id r) = None"

definition backfill ::
  "timestamp \<Rightarrow> alignment_lookup \<Rightarrow> (gap_requirement \<Rightarrow> bool) \<Rightarrow> gap_requirement
    \<Rightarrow> closure_feedback list result" where
  "backfill now status missing r =
     (if missing r
      then map_sum id (\<lambda>x. case x of None \<Rightarrow> [] | Some f \<Rightarrow> [f])
             (generate_completeness_feedback now (lookup_status status (gr_gap_id r)) r)
      else Inr [])"

definition raise_or :: "'v list \<Rightarrow> 'b list result \<Rightarrow> 'v list result" where
  "raise_or vs r = (case r of Inl e \<Rightarrow> Inl e | Inr _ \<Rightarrow> Inr vs)"

lemmas pass_step_simps = pass_step_def add_verdict_def backfill_def raise_or_def uncovered_def Let_def
lemmas finalize_step_simps = finalize_step_def backfill_def raise_or_def uncovered_def Let_def

interpretation pass_feedback: append_loop "pass_step now status existing" pa_generated
  "backfill now status (uncovered existing)" for now status existing
  by unfold_locales (auto simp: pass_step_simps split: option.splits sum.splits if_splits)

interpretation pass_violations: append_loop "pass_step now status existing" pa_violations
  "\<lambda>r. raise_or (if uncovered existing r then [gr_gap_id r] else [])
     (backfill now status (uncovered existing) r)" for now status existing
  by unfold_locales (auto simp: pass_step_simps split: option.splits sum.splits if_splits)

interpretation pass_verdicts: append_loop "pass_step now status existing"
  "\<lambda>s. map cv_gap_id (pa_verdicts s)"
  "\<lambda>r. raise_or [gr_gap_id r] (backfill now status (uncovered existing) r)"
  for now status existing
  by unfold_locales (auto simp: pass_step_simps split: option.splits sum.splits if_splits)

definition unexplained :: "(uuid \<rightharpoonup> uuid) \<Rightarrow> (uuid \<rightharpoonup> string) \<Rightarrow> gap_requirement \<Rightarrow> bool" where
  "unexplained existing terminal r \<longleftrightarrow>
     uncovered existing r \<and> terminal (gr_gap_id r) = None"

interpretation final_feedback: append_loop "finalize_step now status existing terminal" fs_generated
  "backfill now status (unexplained existing terminal)" for now status existing terminal
  by unfold_locales
     (auto simp: finalize_step_simps unexplained_def split: option.splits sum.splits if_splits)

interpretation final_blocked: append_loop "finalize_step now status existing terminal" fs_blocked
  "\<lambda>r. raise_or [] (backfill now status (unexplained existing terminal) r)"
  for now status existing terminal
  by unfold_locales
     (auto simp: finalize_step_simps unexplained_def generate_completeness_not_None
       split: option.splits sum.splits if_splits)

definition explanation ::
  "timestamp \<Rightarrow> alignment_lookup \<Rightarrow> (uuid \<rightharpoonup> uuid) \<Rightarrow> (uuid \<rightharpoonup> string) \<Rightarrow> gap_requirement
    \<Rightarrow> finalization_verdict" where
  "explanation now status existing terminal r =
     (if gr_closure_status r = GClosed then mk_verdict r False None ExistingComplete None
      else case existing (gr_gap_id r) of
             Some fid \<Rightarrow> mk_verdict r True None ExistingFeedback (Some fid)
           | None \<Rightarrow>
               (case terminal (gr_gap_id r) of
                  Some reason \<Rightarrow> mk_verdict r False (Some reason) TerminalGap None
                | None \<Rightarrow> mk_verdict r False None GeneratedFeedback (Some (cf_feedback_id
                    (completeness_feedback now (lookup_status status (gr_gap_id r)) r)))))"

interpretation final_verdicts: append_loop "finalize_step now status existing terminal" fs_verdicts
  "\<lambda>r. raise_or [explanation now status existing terminal r]
         (backfill now status (unexplained existing terminal) r)"
  for now status existing terminal
  by unfold_locales
     (auto simp: finalize_step_simps unexplained_def explanation_def generate_completeness_feedback_def
       validate_feedback_def split: option.splits sum.splits if_splits)

lemma backfill_Inr:
  "\<not> blank (gr_dimension_key r) \<Longrightarrow> (missing r \<Longrightarrow> gr_closure_status r \<noteq> GClosed) \<Longrightarrow>
   backfill now status missing r = Inr (if missing r
     then [completeness_feedback now (lookup_status status (gr_gap_id r)) r] else [])"
  by (simp add: backfill_def generate_completeness_Inr)

lemma concat_map_if: "concat (map (\<lambda>x. if P x then [f x] else []) xs) = map f (filter P xs)"
  by (induction xs) auto

lemma concat_map_single: "concat (map (\<lambda>x. [f x]) xs) = map f xs"
  by (induction xs) auto

lemma concat_map_Nil: "concat (map (\<lambda>x. []) xs) = []"
  by (induction xs) auto

lemma pass_result_eq:
  assumes "\<forall>r \<in> set rs. \<not> blank (gr_dimension_key r)"
  shows "\<exists>x. run_completeness_pass now status rs existing = Inr x
    \<and> px_generated x = map (\<lambda>r. completeness_feedback now (lookup_status status (gr_gap_id r)) r)
        (filter (uncovered existing) rs)
    \<and> px_violations x = map gr_gap_id (filter (uncovered existing) rs)
    \<and> map cv_gap_id (px_verdicts x) = map gr_gap_id rs
    \<and> px_status x = (if filter (uncovered existing) rs \<noteq> [] then PassGenerated else PassComplete)"
proof -
  let ?s0 = "\<lparr>pa_generated = [], pa_existing = [], pa_closed = [], pa_violations = [],
    pa_verdicts = []\<rparr> :: pass_state"
  have b: "backfill now status (uncovered existing) r = Inr (if uncovered existing r
     then [completeness_feedback now (lookup_status status (gr_gap_id r)) r] else [])"
    if "r \<in> set rs" for r
    using assms that by (intro backfill_Inr) (auto simp: uncovered_def)
  obtain s where s: "foldM (pass_step now status existing) ?s0 rs = Inr s"
    using pass_feedback.loop_total [of rs now status existing ?s0] b by blast
  have g: "pa_generated s = map (\<lambda>r. completeness_feedback now (lookup_status status (gr_gap_id r)) r)
        (filter (uncovered existing) rs)"
    using pass_feedback.loop_result [OF s b] by (simp add: concat_map_if)
  have r: "raise_or vs (backfill now status (uncovered existing) r) = Inr vs" if "r \<in> set rs" for r vs
    using b [OF that] by (simp add: raise_or_def)
  have v: "pa_violations s = map gr_gap_id (filter (uncovered existing) rs)"
    using pass_violations.loop_result [OF s r] by (simp add: concat_map_if)
  have w: "map cv_gap_id (pa_verdicts s) = map gr_gap_id rs"
    using pass_verdicts.loop_result [OF s r] by (simp add: concat_map_single)
  show ?thesis using g v w by (auto simp: run_completeness_pass_def s)
qed

lemma finalize_result_eq:
  assumes "\<forall>r \<in> set rs. \<not> blank (gr_dimension_key r)"
  shows "\<exists>x. finalize_run run_id now status rs existing terminal = Inr x
    \<and> fx_blocked x = [] \<and> fx_status x \<noteq> FinBlocked
    \<and> fx_verdicts x = map (explanation now status existing terminal) rs
    \<and> fx_generated x = map (\<lambda>r. completeness_feedback now (lookup_status status (gr_gap_id r)) r)
        (filter (unexplained existing terminal) rs)"
proof -
  let ?s0 = "\<lparr>fs_generated = [], fs_existing = [], fs_terminal = [], fs_blocked = [],
    fs_violations = [], fs_verdicts = []\<rparr> :: final_state"
  let ?m = "unexplained existing terminal"
  have b: "backfill now status ?m r = Inr (if ?m r
     then [completeness_feedback now (lookup_status status (gr_gap_id r)) r] else [])"
    if "r \<in> set rs" for r
    using assms that by (intro backfill_Inr) (auto simp: uncovered_def unexplained_def)
  obtain s where s: "foldM (finalize_step now status existing terminal) ?s0 rs = Inr s"
    using final_feedback.loop_total [of rs now status existing terminal ?s0] b by blast
  have g: "fs_generated s = map (\<lambda>r. completeness_feedback now (lookup_status status (gr_gap_id r)) r)
        (filter ?m rs)"
    using final_feedback.loop_result [OF s b] by (simp add: concat_map_if)
  have r: "raise_or vs (backfill now status ?m r) = Inr vs" if "r \<in> set rs" for r and vs :: "'v list"
    using b [OF that] by (simp add: raise_or_def)
  have k: "fs_blocked s = []"
    using final_blocked.loop_result [OF s r] by (simp add: concat_map_Nil)
  have w: "fs_verdicts s = map (explanation now status existing terminal) rs"
    using final_verdicts.loop_result [OF s r] by (simp add: concat_map_single)
  show ?thesis
    using g k w by (auto simp: finalize_run_def s)
qed

section \<open>Properties\<close>

text \<open>
  An evaluated gap with a usable dimension key gets feedback exactly when it is not closed:
  exactly one item, about that gap and its current status, with the stable id of (gap, version,
  reason), a recommended need derived from the reason, and a need of unknown type only when an
  earlier partial status was preserved without new evidence.
\<close>

theorem evaluated_gap_gets_feedback_iff_unresolved:
  assumes "run_closure_evaluator eid now c r = Inr x" and "\<not> blank (gr_dimension_key r)"
  shows "(gr_closure_status (cx_requirement x) = GClosed \<and> generate_feedback now x = Inr [])
    \<or> (gr_closure_status (cx_requirement x) \<noteq> GClosed
       \<and> (\<exists>f. generate_feedback now x = Inr [f] \<and> cf_gap_id f = gr_gap_id r
            \<and> cf_current_status f = gr_closure_status (cx_requirement x)
            \<and> cf_feedback_id f = UUID5 ''closure-feedback:''
                [PId (gr_gap_id r), PInt (gr_state_version (cx_requirement x)),
                 PStr (reason_value (cf_failure_reason f))]
            \<and> cf_need_type f = need_type_for_reason (cf_failure_reason f)
            \<and> (cf_need_type f = NeedUnknown \<longrightarrow>
                 gr_closure_status r = GPartial \<and> cx_requirement x = r)))"
proof -
  from assms(1) obtain r' reason st where o': "closure_outcome c eid now r = Inr (r', reason, st)"
    by (auto simp: run_closure_evaluator_def Let_def split: if_splits sum.splits)
  from assms(1) o' have x: "cx_requirement x = r'" "cr_after_status (cx_result x) = gr_closure_status r'"
    "cr_reason (cx_result x) = reason" "cr_state_version (cx_result x) = gr_state_version r'"
    "cr_remaining (cx_result x) = remaining_requirements r c (gr_closure_status r')"
    by (auto simp: run_closure_evaluator_def Let_def split: if_splits)
  have same: "gr_gap_id r' = gr_gap_id r" "gr_dimension_key r' = gr_dimension_key r"
    using o' by (auto simp: closure_outcome_def apply_closure_transition_def Let_def split_beta
        split: if_splits sum.splits)
  have unknown: "gr_closure_status r = GPartial \<and> r' = r"
    if "classify_feedback_reason reason (cx_result x) = FRUnknown" "gr_closure_status r' \<noteq> GClosed"
    using closure_outcome_reason [OF o' that(2)] that(1) known_reason by auto
  have nb: "\<not> blank (missing_requirement r' (cx_result x) reason')" for reason'
    using assms(2) by (auto simp: missing_requirement_def x(5) remaining_requirements_def same
        blank_iff is_space_def split: list.splits)
  show ?thesis
    using nb unknown same
    by (auto simp: generate_feedback_def Let_def x validate_feedback_def need_type_for_reason_unknown)
qed

theorem evaluated_gap_gets_feedback_iff_unresolved_witness:
  "\<exists>x f. run_closure_evaluator (UUID 7) 1 (demo_context 1) (demo_requirement IndependentSource GOpen) = Inr x
     \<and> generate_feedback 1 x = Inr [f] \<and> cf_gap_id f = UUID 1"
proof -
  have "\<exists>x. run_closure_evaluator (UUID 7) 1 (demo_context 1) (demo_requirement IndependentSource GOpen)
      = Inr x \<and> gr_closure_status (cx_requirement x) = GOpen"
    by (simp add: closure_demo_defs closure_eval)
  then obtain x where x: "run_closure_evaluator (UUID 7) 1 (demo_context 1)
      (demo_requirement IndependentSource GOpen) = Inr x" "gr_closure_status (cx_requirement x) = GOpen"
    by blast
  from evaluated_gap_gets_feedback_iff_unresolved [OF x(1)] x show ?thesis
    by (auto simp: demo_requirement_def blank_iff is_space_def)
qed

text \<open>
  C23. The completeness pass never fails on requirements with usable dimension keys. It generates
  exactly one feedback for each gap that is neither closed nor covered, in order, with one verdict
  per gap; and it is idempotent: once its feedback is registered, another pass over the same
  requirements generates nothing and reports completion.
\<close>

theorem completeness_pass_backfills_once:
  assumes "\<forall>r \<in> set rs. \<not> blank (gr_dimension_key r)"
  shows "\<exists>x. run_completeness_pass now status rs existing = Inr x
    \<and> px_generated x = map (\<lambda>r. completeness_feedback now (lookup_status status (gr_gap_id r)) r)
        (filter (uncovered existing) rs)
    \<and> map cf_gap_id (px_generated x) = px_violations x
    \<and> map cv_gap_id (px_verdicts x) = map gr_gap_id rs
    \<and> (\<forall>now' status'. \<exists>y.
         run_completeness_pass now' status' rs
           (existing ++ map_of (map (\<lambda>f. (cf_gap_id f, cf_feedback_id f)) (px_generated x))) = Inr y
         \<and> px_generated y = [] \<and> px_status y = PassComplete)"
proof -
  obtain x where x: "run_completeness_pass now status rs existing = Inr x"
    "px_generated x = map (\<lambda>r. completeness_feedback now (lookup_status status (gr_gap_id r)) r)
        (filter (uncovered existing) rs)"
    "px_violations x = map gr_gap_id (filter (uncovered existing) rs)"
    "map cv_gap_id (px_verdicts x) = map gr_gap_id rs"
    using pass_result_eq [OF assms] by blast
  let ?e = "existing ++ map_of (map (\<lambda>f. (cf_gap_id f, cf_feedback_id f)) (px_generated x))"
  have "?e (gr_gap_id r) \<noteq> None" if "r \<in> set rs" "gr_closure_status r \<noteq> GClosed" for r
  proof (cases "existing (gr_gap_id r)")
    case None
    then have "gr_gap_id r \<in> fst ` set (map (\<lambda>f. (cf_gap_id f, cf_feedback_id f)) (px_generated x))"
      using that unfolding x(2) by (force simp: uncovered_def)
    then show ?thesis by (simp add: map_add_def map_of_eq_None_iff split: option.splits)
  next
    case (Some fid)
    then show ?thesis by (simp add: map_add_def split: option.splits)
  qed
  then have "filter (uncovered ?e) rs = []" by (auto simp: uncovered_def filter_empty_conv)
  then have "\<exists>y. run_completeness_pass now' status' rs ?e = Inr y
      \<and> px_generated y = [] \<and> px_status y = PassComplete" for now' status'
    using pass_result_eq [OF assms, of now' status' ?e] by auto
  then show ?thesis using x by (intro exI [of _ x]) (simp add: comp_def)
qed

theorem completeness_pass_backfills_once_witness:
  "\<exists>x. run_completeness_pass 4 (\<lambda>_. None)
      [demo_requirement IndependentSource GPartial, demo_requirement ClaimVerification GClosed] (\<lambda>_. None) = Inr x
    \<and> px_violations x = [UUID 1]"
proof -
  have "\<forall>r \<in> set [demo_requirement IndependentSource GPartial, demo_requirement ClaimVerification GClosed].
      \<not> blank (gr_dimension_key r)"
    by (simp add: demo_requirement_def blank_iff is_space_def)
  from completeness_pass_backfills_once [OF this, of 4 "\<lambda>_. None" "\<lambda>_. None"] obtain x where
    "run_completeness_pass 4 (\<lambda>_. None)
      [demo_requirement IndependentSource GPartial, demo_requirement ClaimVerification GClosed] (\<lambda>_. None) = Inr x"
    "px_generated x = map (\<lambda>r. completeness_feedback 4 (lookup_status (\<lambda>_. None) (gr_gap_id r)) r)
        (filter (uncovered (\<lambda>_. None :: uuid option)) [demo_requirement IndependentSource GPartial, demo_requirement ClaimVerification GClosed])"
    "map cf_gap_id (px_generated x) = px_violations x"
    by (elim exE conjE) (rule that, assumption+)
  then show ?thesis by (intro exI [of _ x]) (auto simp: uncovered_def demo_requirement_def)
qed

text \<open>
  Finalising a run explains every gap: it is never blocked, there is one verdict per
  requirement, in order, and each gap that is not closed ends with existing feedback, a terminal
  reason or a feedback generated for it now; a feedback is generated exactly for the gaps that had
  neither.
\<close>

theorem finalizer_explains_every_gap:
  assumes "\<forall>r \<in> set rs. \<not> blank (gr_dimension_key r)"
  shows "\<exists>x. finalize_run run_id now status rs existing terminal = Inr x
    \<and> fx_blocked x = [] \<and> fx_status x \<noteq> FinBlocked
    \<and> fx_verdicts x = map (explanation now status existing terminal) rs
    \<and> map cf_gap_id (fx_generated x) = map gr_gap_id (filter (unexplained existing terminal) rs)
    \<and> (\<forall>v \<in> set (fx_verdicts x). fv_closure_status v \<noteq> GClosed \<longrightarrow>
         fv_feedback_id v \<noteq> None \<or> fv_terminal_reason v \<noteq> None)"
proof -
  obtain x :: finalization_result where "finalize_run run_id now status rs existing terminal = Inr x"
    "fx_blocked x = []" "fx_status x \<noteq> FinBlocked"
    "fx_verdicts x = map (explanation now status existing terminal) rs"
    "fx_generated x = map (\<lambda>r. completeness_feedback now (lookup_status status (gr_gap_id r)) r)
        (filter (unexplained existing terminal) rs)"
    using finalize_result_eq [OF assms] by blast
  then show ?thesis
    by (auto simp: comp_def explanation_def mk_verdict_def split: option.splits)
qed

theorem finalizer_explains_every_gap_witness:
  "\<exists>x. finalize_run (UUID 2) 4 (\<lambda>_. None) [demo_requirement EvidenceQuality GOpen] (\<lambda>_. None) (\<lambda>_. None)
      = Inr x \<and> fx_status x \<noteq> FinBlocked"
  using finalizer_explains_every_gap
    [of "[demo_requirement EvidenceQuality GOpen]" "UUID 2" 4 "\<lambda>_. None" "\<lambda>_. None" "\<lambda>_. None"]
  by (auto simp: demo_requirement_def blank_iff is_space_def)

end
