(* ===== verification/Research_Context.thy ===== *)
theory Research_Context
  imports Prelude
begin

text \<open>
  The evidence-aware context a research need carries down the query pipeline:
  \<open>app/domain/research_context.py\<close>. Reading it from metadata drops malformed values; query
  hints are appended to a query text without rewriting it.
\<close>

section \<open>The context and its metadata\<close>

record research_context =
  rx_failure_reason :: "string option"
  rx_missing_evidence :: "string option"
  rx_refined_need :: "string option"
  rx_query_hints :: "string list"
  rx_existing_owners :: "string list"
  rx_existing_domains :: "string list"
  rx_required_sources :: "int option"
  rx_missing_sources :: "int option"
  rx_target_claim :: "string option"

definition EMPTY_RESEARCH_CONTEXT :: research_context where
  "EMPTY_RESEARCH_CONTEXT =
     \<lparr>rx_failure_reason = None, rx_missing_evidence = None, rx_refined_need = None,
      rx_query_hints = [], rx_existing_owners = [], rx_existing_domains = [],
      rx_required_sources = None, rx_missing_sources = None, rx_target_claim = None\<rparr>"

definition text_set :: "string option \<Rightarrow> bool" where
  "text_set t \<longleftrightarrow> (case t of None \<Rightarrow> False | Some s \<Rightarrow> s \<noteq> [])"

definition int_set :: "int option \<Rightarrow> bool" where
  "int_set n \<longleftrightarrow> (case n of None \<Rightarrow> False | Some k \<Rightarrow> k \<noteq> 0)"

definition context_is_empty :: "research_context \<Rightarrow> bool" where
  "context_is_empty c \<longleftrightarrow>
     \<not> (text_set (rx_failure_reason c) \<or> text_set (rx_missing_evidence c)
        \<or> text_set (rx_refined_need c) \<or> rx_query_hints c \<noteq> [] \<or> rx_existing_owners c \<noteq> []
        \<or> rx_existing_domains c \<noteq> [] \<or> int_set (rx_required_sources c)
        \<or> int_set (rx_missing_sources c) \<or> text_set (rx_target_claim c))"

definition independent_source_shortage :: "research_context \<Rightarrow> bool" where
  "independent_source_shortage c \<longleftrightarrow>
     (case rx_missing_sources c of None \<Rightarrow> False | Some n \<Rightarrow> n > 0)"

definition opt_json :: "('a \<Rightarrow> json) \<Rightarrow> 'a option \<Rightarrow> json" where
  "opt_json f x = (case x of None \<Rightarrow> JNull | Some y \<Rightarrow> f y)"

definition context_as_dict :: "research_context \<Rightarrow> (string \<times> json) list" where
  "context_as_dict c =
     [(''evidence_failure_reason'', opt_json JStr (rx_failure_reason c)),
      (''missing_evidence_type'', opt_json JStr (rx_missing_evidence c)),
      (''refined_need_type'', opt_json JStr (rx_refined_need c)),
      (''query_hints'', JList (map JStr (rx_query_hints c))),
      (''existing_source_owners'', JList (map JStr (rx_existing_owners c))),
      (''existing_domains'', JList (map JStr (rx_existing_domains c))),
      (''required_source_count'', opt_json JInt (rx_required_sources c)),
      (''missing_source_count'', opt_json JInt (rx_missing_sources c)),
      (''target_claim_id'', opt_json JStr (rx_target_claim c))]"

definition meta_text :: "(string \<times> json) list \<Rightarrow> string \<Rightarrow> string option" where
  "meta_text m k = (case jget k m of
       JStr s \<Rightarrow> (if strip s = [] then None else Some (strip s)) | _ \<Rightarrow> None)"

fun collect_texts :: "json list \<Rightarrow> string list \<Rightarrow> string list" where
  "collect_texts [] items = items"
| "collect_texts (JStr s # xs) items =
     (let t = strip s
      in collect_texts xs (if t \<noteq> [] \<and> t \<notin> set items then items @ [t] else items))"
| "collect_texts (_ # xs) items = collect_texts xs items"

definition meta_texts :: "(string \<times> json) list \<Rightarrow> string \<Rightarrow> string list" where
  "meta_texts m k = (case jget k m of JList xs \<Rightarrow> collect_texts xs [] | _ \<Rightarrow> [])"

definition meta_int :: "(string \<times> json) list \<Rightarrow> string \<Rightarrow> int option" where
  "meta_int m k = (case jget k m of JInt n \<Rightarrow> (if n > 0 then Some n else None) | _ \<Rightarrow> None)"

definition context_from_mapping :: "(string \<times> json) list \<Rightarrow> research_context" where
  "context_from_mapping m =
     (if m = [] then EMPTY_RESEARCH_CONTEXT
      else \<lparr>rx_failure_reason =
              (case meta_text m ''evidence_failure_reason'' of
                 Some t \<Rightarrow> Some t | None \<Rightarrow> meta_text m ''primary_failure_reason''),
            rx_missing_evidence = meta_text m ''missing_evidence_type'',
            rx_refined_need = meta_text m ''refined_need_type'',
            rx_query_hints = meta_texts m ''query_hints'',
            rx_existing_owners = meta_texts m ''existing_source_owners'',
            rx_existing_domains = meta_texts m ''existing_domains'',
            rx_required_sources = meta_int m ''required_source_count'',
            rx_missing_sources = meta_int m ''missing_source_count'',
            rx_target_claim = meta_text m ''target_claim_id''\<rparr>)"

definition meaningful_context :: "research_context option \<Rightarrow> research_context option" where
  "meaningful_context c = (case c of None \<Rightarrow> None
     | Some x \<Rightarrow> if context_is_empty x then None else Some x)"

section \<open>Query hints and eligibility\<close>

definition hint_token :: "string \<Rightarrow> string" where
  "hint_token hint = join_sp (split_ws hint)"

fun append_hints :: "string \<Rightarrow> string list \<Rightarrow> string list \<Rightarrow> string \<times> string list" where
  "append_hints qtext applied [] = (qtext, applied)"
| "append_hints qtext applied (hint # hints) =
     (let token = hint_token hint
      in if token = [] \<or> contains (casefold qtext) (casefold token)
         then append_hints qtext applied hints
         else append_hints (qtext @ '' '' @ token) (applied @ [token]) hints)"

definition query_hint_additions :: "string \<Rightarrow> string list \<Rightarrow> string \<times> string list" where
  "query_hint_additions qtext hints =
     (if hints = [] then (qtext, []) else append_hints (join_sp (split_ws qtext)) [] hints)"

definition apply_query_hints :: "string \<Rightarrow> string list \<Rightarrow> string" where
  "apply_query_hints qtext hints = fst (query_hint_additions qtext hints)"

definition independent_source_eligibility :: "string option \<Rightarrow> string list \<Rightarrow> bool" where
  "independent_source_eligibility owner existing =
     (let o' = casefold (strip (case owner of None \<Rightarrow> [] | Some s \<Rightarrow> s))
      in o' \<noteq> [] \<and> o' \<noteq> ''unknown''
         \<and> o' \<notin> set (map (casefold \<circ> strip) (filter (\<lambda>v. strip v \<noteq> []) existing)))"

section \<open>The context of a question in the usage snapshot\<close>

text \<open>
  \<open>app/domain/research_context_resolver.py\<close>: the run's usage snapshot holds at most one refinement
  per question under \<open>SNAPSHOT_KEY\<close>. References are the printed forms of identifiers.
\<close>

definition SNAPSHOT_KEY :: string where
  "SNAPSHOT_KEY = ''research_context_by_question''"

record resolved_context =
  rc_context :: research_context
  rc_need_id :: "string option"
  rc_plan_id :: "string option"
  rc_candidate_id :: "string option"

definition as_ref :: "string option \<Rightarrow> string option" where
  "as_ref v = (case v of None \<Rightarrow> None
     | Some s \<Rightarrow> if strip s = [] then None else Some (strip s))"

definition ref_of :: "(string \<times> json) list \<Rightarrow> string \<Rightarrow> string option" where
  "ref_of entry k = (case jget k entry of
       JStr s \<Rightarrow> (if strip s = [] then None else Some (strip s)) | _ \<Rightarrow> None)"

definition resolve_context :: "(string \<times> json) list \<Rightarrow> string \<Rightarrow> resolved_context option" where
  "resolve_context snapshot q =
     (case jget SNAPSHOT_KEY snapshot of
        JObj entries \<Rightarrow>
          (case jget q entries of
             JObj entry \<Rightarrow>
               (let context = context_from_mapping entry
                in if context_is_empty context then None
                   else Some \<lparr>rc_context = context, rc_need_id = ref_of entry ''research_need_id'',
                     rc_plan_id = ref_of entry ''query_plan_id'',
                     rc_candidate_id = ref_of entry ''query_candidate_id''\<rparr>)
           | _ \<Rightarrow> None)
      | _ \<Rightarrow> None)"

definition record_context ::
  "(string \<times> json) list \<Rightarrow> string \<Rightarrow> research_context \<Rightarrow> string option \<Rightarrow> string option
    \<Rightarrow> string option \<Rightarrow> (string \<times> json) list" where
  "record_context snapshot q context need plan candidate =
     (let entries = (case jget SNAPSHOT_KEY snapshot of JObj es \<Rightarrow> es | _ \<Rightarrow> []);
          payload = AList.update ''query_candidate_id'' (opt_json JStr (as_ref candidate))
            (AList.update ''query_plan_id'' (opt_json JStr (as_ref plan))
              (AList.update ''research_need_id'' (opt_json JStr (as_ref need))
                (context_as_dict context)))
      in AList.update SNAPSHOT_KEY (JObj (AList.update q (JObj payload) entries)) snapshot)"

section \<open>Lemmas\<close>

lemma append_hints_prefix: "\<exists>suffix. fst (append_hints qtext applied hints) = qtext @ suffix"
proof (induction qtext applied hints rule: append_hints.induct)
  case (2 qtext applied hint hints)
  then show ?case by (auto simp: Let_def)
qed simp

lemma append_hints_covers:
  "hint \<in> set hints \<Longrightarrow> hint_token hint \<noteq> [] \<Longrightarrow>
   contains (casefold (fst (append_hints qtext applied hints))) (casefold (hint_token hint))"
proof (induction qtext applied hints rule: append_hints.induct)
  case (2 qtext applied h hints)
  show ?case
  proof (cases "hint \<in> set hints")
    case True
    then show ?thesis using 2 by (auto simp: Let_def)
  next
    case False
    then have h: "h = hint" using 2 by simp
    show ?thesis
    proof (cases "contains (casefold qtext) (casefold (hint_token h))")
      case True
      obtain suffix where "fst (append_hints qtext applied hints) = qtext @ suffix"
        using append_hints_prefix by blast
      then show ?thesis using True h 2 by (simp add: Let_def)
    next
      case c: False
      obtain suffix where "fst (append_hints (qtext @ '' '' @ hint_token h) (applied @ [hint_token h]) hints)
          = (qtext @ '' '' @ hint_token h) @ suffix"
        using append_hints_prefix by blast
      moreover have "contains (casefold ((qtext @ '' '' @ hint_token h) @ suffix)) (casefold (hint_token h))"
        by (simp only: casefold_append) (intro contains_append_left contains_append_right contains_refl)
      ultimately show ?thesis using c h 2 by (simp add: Let_def)
    qed
  qed
qed simp

lemma append_hints_done:
  "\<forall>hint \<in> set hints. hint_token hint = [] \<or> contains (casefold qtext) (casefold (hint_token hint)) \<Longrightarrow>
   append_hints qtext applied hints = (qtext, applied)"
  by (induction hints) (auto simp: Let_def)

definition normalized :: "string \<Rightarrow> bool" where
  "normalized s \<longleftrightarrow> join_sp (split_ws s) = s"

lemma normalized_join: "\<forall>w \<in> set ws. word w \<Longrightarrow> normalized (join_sp ws)"
  by (simp add: normalized_def split_join_words)

lemma normalized_words: "normalized s \<longleftrightarrow> (\<exists>ws. s = join_sp ws \<and> (\<forall>w \<in> set ws. word w))"
  using split_ws_words normalized_join unfolding normalized_def by metis

lemma normalized_append:
  assumes "normalized s" and "normalized t" and "s \<noteq> []" and "t \<noteq> []"
  shows "normalized (s @ '' '' @ t)"
proof -
  obtain ws vs where "s = join_sp ws" "t = join_sp vs" "\<forall>w \<in> set ws. word w" "\<forall>w \<in> set vs. word w"
    using assms(1,2) by (auto simp: normalized_words)
  moreover from this assms(3,4) have "ws \<noteq> []" "vs \<noteq> []" by auto
  ultimately show ?thesis using join_sp_append [of ws vs] normalized_join [of "ws @ vs"] by auto
qed

lemma append_hints_normalized:
  "normalized qtext \<Longrightarrow> qtext \<noteq> [] \<Longrightarrow> normalized (fst (append_hints qtext applied hints))"
proof (induction qtext applied hints rule: append_hints.induct)
  case (2 qtext applied hint hints)
  have "normalized (hint_token hint)"
    unfolding hint_token_def by (rule normalized_join) (rule split_ws_words)
  then show ?case using 2 normalized_append [of qtext "hint_token hint"] by (auto simp: Let_def)
qed simp

lemma split_words_Nil: "split_words cur s = [] \<longleftrightarrow> cur = [] \<and> blank s"
  by (induction cur s rule: split_words.induct) (auto simp: blank_iff)

lemma split_ws_Nil: "split_ws s = [] \<longleftrightarrow> blank s"
  by (simp add: split_ws_def split_words_Nil)

lemma join_words_Nil: "\<forall>w \<in> set ws. word w \<Longrightarrow> join_sp ws = [] \<longleftrightarrow> ws = []"
  by (cases ws rule: join_sp.cases) (auto simp: word_def)

lemma meta_text_not_blank: "meta_text m k = Some s \<Longrightarrow> s \<noteq> []"
  by (auto simp: meta_text_def split: json.splits if_splits)

lemma collect_texts_clean:
  "distinct items \<Longrightarrow> [] \<notin> set items \<Longrightarrow>
   distinct (collect_texts xs items) \<and> [] \<notin> set (collect_texts xs items)"
  by (induction xs items rule: collect_texts.induct) (auto simp: Let_def)

lemma empty_context_empty [simp]: "context_is_empty EMPTY_RESEARCH_CONTEXT"
  by (simp add: context_is_empty_def EMPTY_RESEARCH_CONTEXT_def text_set_def int_set_def)

lemma lstrip_fixed: "s = [] \<or> \<not> is_space (hd s) \<Longrightarrow> lstrip s = s"
  by (cases s) (auto simp: lstrip_def)

lemma strip_fixed:
  assumes "s = [] \<or> \<not> is_space (hd s) \<and> \<not> is_space (last s)"
  shows "strip s = s"
proof -
  have "lstrip s = s" using assms by (intro lstrip_fixed) blast
  moreover have "lstrip (rev s) = rev s" using assms by (intro lstrip_fixed) (auto simp: hd_rev)
  ultimately show ?thesis by (simp add: strip_def)
qed

lemma strip_ends: "strip s = [] \<or> \<not> is_space (hd (strip s)) \<and> \<not> is_space (last (strip s))"
proof -
  let ?t = "lstrip s" and ?u = "lstrip (rev (lstrip s))"
  have "rev ?t = takeWhile is_space (rev ?t) @ ?u" by (simp add: lstrip_def)
  then have "?u \<noteq> [] \<Longrightarrow> last ?u = last (rev ?t)" by (metis last_appendR)
  moreover have "?u \<noteq> [] \<Longrightarrow> ?t \<noteq> []" using lstrip_fixed [of "[]"] by auto
  moreover have "?t \<noteq> [] \<Longrightarrow> \<not> is_space (hd ?t)" unfolding lstrip_def by (rule hd_dropWhile)
  moreover have "?u \<noteq> [] \<Longrightarrow> \<not> is_space (hd ?u)" unfolding lstrip_def by (rule hd_dropWhile)
  ultimately show ?thesis by (auto simp: strip_def hd_rev last_rev)
qed

lemma strip_strip [simp]: "strip (strip s) = strip s"
  by (rule strip_fixed) (rule strip_ends)

definition clean_text :: "string option \<Rightarrow> bool" where
  "clean_text t \<longleftrightarrow> (case t of None \<Rightarrow> True | Some s \<Rightarrow> s \<noteq> [] \<and> strip s = s)"

definition clean_texts :: "string list \<Rightarrow> bool" where
  "clean_texts xs \<longleftrightarrow> distinct xs \<and> (\<forall>x \<in> set xs. x \<noteq> [] \<and> strip x = x)"

definition positive :: "int option \<Rightarrow> bool" where
  "positive n \<longleftrightarrow> (case n of None \<Rightarrow> True | Some k \<Rightarrow> k > 0)"

definition clean_context :: "research_context \<Rightarrow> bool" where
  "clean_context c \<longleftrightarrow>
     clean_text (rx_failure_reason c) \<and> clean_text (rx_missing_evidence c)
     \<and> clean_text (rx_refined_need c) \<and> clean_text (rx_target_claim c)
     \<and> clean_texts (rx_query_hints c) \<and> clean_texts (rx_existing_owners c)
     \<and> clean_texts (rx_existing_domains c)
     \<and> positive (rx_required_sources c) \<and> positive (rx_missing_sources c)"

lemma clean_meta_text: "clean_text (meta_text m k)"
  by (auto simp: clean_text_def meta_text_def split: json.splits)

lemma clean_texts_snoc:
  "clean_texts items \<Longrightarrow> clean_texts (if strip s \<noteq> [] \<and> strip s \<notin> set items then items @ [strip s] else items)"
  by (auto simp: clean_texts_def)

lemma clean_collect_texts: "clean_texts items \<Longrightarrow> clean_texts (collect_texts xs items)"
proof (induction xs items rule: collect_texts.induct)
  case (2 s xs items)
  then show ?case using clean_texts_snoc [of items s] by (simp only: collect_texts.simps Let_def)
qed simp_all

lemma clean_meta_texts: "clean_texts (meta_texts m k)"
proof -
  have Nil: "clean_texts []" by (simp add: clean_texts_def)
  show ?thesis
    using clean_collect_texts [OF Nil] Nil by (cases "jget k m") (simp_all add: meta_texts_def)
qed

lemma positive_meta_int: "positive (meta_int m k)"
  by (cases "jget k m") (simp_all add: meta_int_def positive_def)

lemma clean_context_from_mapping: "clean_context (context_from_mapping m)"
proof (cases "m = []")
  case True
  then show ?thesis
    by (simp add: context_from_mapping_def EMPTY_RESEARCH_CONTEXT_def clean_context_def
        clean_text_def clean_texts_def positive_def)
next
  case False
  have "clean_text (case meta_text m k of Some t \<Rightarrow> Some t | None \<Rightarrow> meta_text m k')" for k k'
    using clean_meta_text [of m k] clean_meta_text [of m k'] by (cases "meta_text m k") simp_all
  then show ?thesis
    using False
    by (simp add: context_from_mapping_def clean_context_def clean_meta_text clean_meta_texts
        positive_meta_int)
qed

lemma collect_texts_strings:
  "clean_texts (items @ xs) \<Longrightarrow> collect_texts (map JStr xs) items = items @ xs"
proof (induction xs arbitrary: items)
  case (Cons x xs)
  then show ?case by (auto simp: clean_texts_def Let_def)
qed simp

lemma meta_text_opt:
  "jget k m = opt_json JStr t \<Longrightarrow> clean_text t \<Longrightarrow> meta_text m k = t"
  by (auto simp: meta_text_def opt_json_def clean_text_def split: option.splits)

lemma meta_texts_list:
  "jget k m = JList (map JStr xs) \<Longrightarrow> clean_texts xs \<Longrightarrow> meta_texts m k = xs"
  using collect_texts_strings [of "[]" xs] by (simp add: meta_texts_def)

lemma meta_int_opt: "jget k m = opt_json JInt n \<Longrightarrow> positive n \<Longrightarrow> meta_int m k = n"
  by (cases n) (simp_all add: meta_int_def opt_json_def positive_def)

lemma ref_of_opt: "jget k m = opt_json JStr (as_ref v) \<Longrightarrow> ref_of m k = as_ref v"
  by (auto simp: ref_of_def opt_json_def as_ref_def split: option.splits)

lemma jget_update: "jget k (AList.update k' v m) = (if k = k' then v else jget k m)"
  by (simp add: jget_def update_conv')

lemma context_round_trip:
  assumes "clean_context c"
    and "p = AList.update ''query_candidate_id'' x (AList.update ''query_plan_id'' y
           (AList.update ''research_need_id'' z (context_as_dict c)))"
  shows "context_from_mapping p = c"
proof -
  have get: "jget ''evidence_failure_reason'' p = opt_json JStr (rx_failure_reason c)"
    "jget ''missing_evidence_type'' p = opt_json JStr (rx_missing_evidence c)"
    "jget ''refined_need_type'' p = opt_json JStr (rx_refined_need c)"
    "jget ''query_hints'' p = JList (map JStr (rx_query_hints c))"
    "jget ''existing_source_owners'' p = JList (map JStr (rx_existing_owners c))"
    "jget ''existing_domains'' p = JList (map JStr (rx_existing_domains c))"
    "jget ''required_source_count'' p = opt_json JInt (rx_required_sources c)"
    "jget ''missing_source_count'' p = opt_json JInt (rx_missing_sources c)"
    "jget ''target_claim_id'' p = opt_json JStr (rx_target_claim c)"
    "jget ''primary_failure_reason'' p = JNull"
    unfolding assms(2) by (simp_all add: jget_update context_as_dict_def)
  have "p \<noteq> []" by (simp add: assms(2) context_as_dict_def)
  moreover have "meta_text p ''primary_failure_reason'' = None" by (simp add: meta_text_def get)
  ultimately show ?thesis
    using assms(1) unfolding clean_context_def
    by (elim conjE) (simp add: context_from_mapping_def meta_text_opt [OF get(1)] meta_text_opt [OF get(2)]
        meta_text_opt [OF get(3)] meta_text_opt [OF get(9)] meta_texts_list [OF get(4)]
        meta_texts_list [OF get(5)] meta_texts_list [OF get(6)] meta_int_opt [OF get(7)]
        meta_int_opt [OF get(8)] split: option.split)
qed

section \<open>Properties\<close>

text \<open>
  Hints only ever extend a query: the text with its white space normalised is a prefix of the
  result, every hint occurs in the result up to case, and applying the same hints again changes
  nothing and reports no addition.
\<close>

theorem query_hints_extend_and_are_idempotent:
  assumes "hints \<noteq> []" and "\<not> blank qtext"
  shows "(\<exists>suffix. apply_query_hints qtext hints = join_sp (split_ws qtext) @ suffix)
    \<and> (\<forall>h \<in> set hints. contains (casefold (apply_query_hints qtext hints)) (casefold (hint_token h)))
    \<and> query_hint_additions (apply_query_hints qtext hints) hints = (apply_query_hints qtext hints, [])"
proof -
  let ?base = "join_sp (split_ws qtext)"
  let ?out = "fst (append_hints ?base [] hints)"
  have eq: "apply_query_hints qtext hints = ?out"
    using assms(1) by (simp add: apply_query_hints_def query_hint_additions_def)
  have nb: "?base \<noteq> []" using assms(2) split_ws_words by (simp add: join_words_Nil split_ws_Nil)
  have "normalized ?base" by (rule normalized_join) (rule split_ws_words)
  then have n: "join_sp (split_ws ?out) = ?out"
    using append_hints_normalized nb by (simp add: normalized_def)
  have cover: "\<forall>h \<in> set hints. hint_token h = [] \<or> contains (casefold ?out) (casefold (hint_token h))"
    using append_hints_covers by blast
  then have "\<forall>h \<in> set hints. contains (casefold ?out) (casefold (hint_token h))"
    by (auto simp: casefold_def contains_def)
  moreover have "query_hint_additions ?out hints = (?out, [])"
    using assms(1) append_hints_done [OF cover] by (simp add: query_hint_additions_def n)
  moreover have "\<exists>suffix. ?out = ?base @ suffix" by (rule append_hints_prefix)
  ultimately show ?thesis unfolding eq by blast
qed

theorem query_hints_extend_and_are_idempotent_witness:
  "query_hint_additions (apply_query_hints ''gpu  Market report'' [''market'', '' primary  source'']) [''market'', '' primary  source'']
     = (apply_query_hints ''gpu  Market report'' [''market'', '' primary  source''], [])"
  using query_hints_extend_and_are_idempotent
    [of "[''market'', '' primary  source'']" "''gpu  Market report''"]
  by (simp add: blank_iff is_space_def)

text \<open>
  Recording a context and resolving it is the identity: for a context read from any metadata,
  unless it is empty, the question resolves to that context with the recorded references, whatever
  the snapshot held for it before; every other question resolves as before, and every other key of
  the snapshot is untouched.
\<close>

theorem recorded_context_resolves:
  assumes "c = context_from_mapping m" and "\<not> context_is_empty c"
  shows "resolve_context (record_context snapshot q c need plan candidate) q
      = Some \<lparr>rc_context = c, rc_need_id = as_ref need, rc_plan_id = as_ref plan,
          rc_candidate_id = as_ref candidate\<rparr>
    \<and> (\<forall>q'. q' \<noteq> q \<longrightarrow> resolve_context (record_context snapshot q c need plan candidate) q'
          = resolve_context snapshot q')
    \<and> (\<forall>k. k \<noteq> SNAPSHOT_KEY \<longrightarrow>
          jget k (record_context snapshot q c need plan candidate) = jget k snapshot)"
proof -
  let ?p = "AList.update ''query_candidate_id'' (opt_json JStr (as_ref candidate))
            (AList.update ''query_plan_id'' (opt_json JStr (as_ref plan))
              (AList.update ''research_need_id'' (opt_json JStr (as_ref need)) (context_as_dict c)))"
  have clean: "clean_context c" unfolding assms(1) by (rule clean_context_from_mapping)
  have ne: "?p \<noteq> []" by (simp add: context_as_dict_def)
  have ctx: "context_from_mapping ?p = c" using clean by (rule context_round_trip [OF _ refl])
  have refs: "ref_of ?p ''research_need_id'' = as_ref need" "ref_of ?p ''query_plan_id'' = as_ref plan"
    "ref_of ?p ''query_candidate_id'' = as_ref candidate"
    by (rule ref_of_opt, simp add: jget_update)+
  show ?thesis
    using assms(2) ctx refs
    by (auto simp: resolve_context_def record_context_def Let_def jget_update split: json.splits)
qed

theorem recorded_context_resolves_witness:
  "resolve_context (record_context [] ''q1'' (context_from_mapping [(''query_hints'', JList [JStr '' gpu '', JInt 3])])
     (Some ''need'') None (Some '' candidate '')) ''q1''
   = Some \<lparr>rc_context = context_from_mapping [(''query_hints'', JList [JStr ''gpu''])],
       rc_need_id = Some ''need'', rc_plan_id = None, rc_candidate_id = Some ''candidate''\<rparr>"
  using recorded_context_resolves [OF refl, of "[(''query_hints'', JList [JStr '' gpu '', JInt 3])]" "[]"
    "''q1''" "Some ''need''" None "Some '' candidate ''"]
  by (simp add: context_from_mapping_def context_is_empty_def meta_texts_def meta_text_def meta_int_def
      strip_def lstrip_def is_space_def as_ref_def text_set_def)

end
