(* ===== verification/Research_Pipeline.thy ===== *)
theory Research_Pipeline
  imports Closure_Feedback Research_Context
begin

text \<open>
  From an unresolved gap to a validated query candidate: \<open>app/domain/research_need.py\<close>,
  \<open>research_action.py\<close>, \<open>research_query_intent.py\<close>, \<open>research_query_plan.py\<close>,
  \<open>query_plan_validation.py\<close>, \<open>query_candidate.py\<close> and \<open>query_candidate_validation.py\<close>.

  Each stage is a function from the previous artifact and the gap requirement to at most one next
  artifact, raising when the identities do not match. Fixed sentences in Chinese are values
  \<open>Zh gloss parts\<close>: an English gloss naming the sentence and the texts interpolated into it; they
  are never blank and never matched against. Query texts and topics are plain strings. The
  requirement type is kept as its enumeration where the code stores its string value.
\<close>

datatype prose = Txt string | Zh string "string list"

fun prose_blank :: "prose \<Rightarrow> bool" where
  "prose_blank (Txt s) = blank s"
| "prose_blank (Zh _ _) = False"

section \<open>Research needs\<close>

datatype need_status = NeedOpen | NeedSatisfied | NeedCancelled

record research_need =
  rn_need_id :: uuid
  rn_gap_id :: uuid
  rn_question_id :: string
  rn_dimension_key :: string
  rn_requirement_type :: requirement_type
  rn_need_type :: research_need_type
  rn_description :: prose
  rn_priority :: int
  rn_status :: need_status
  rn_created_at :: timestamp
  rn_feedback_id :: "uuid option"
  rn_context :: research_context

fun need_value :: "research_need_type \<Rightarrow> string" where
  "need_value NeedAdditionalSource = ''additional_source''"
| "need_value NeedIndependentSource = ''independent_source''"
| "need_value NeedClaimVerification = ''claim_verification''"
| "need_value NeedEvidenceQuality = ''evidence_quality''"
| "need_value NeedMissingData = ''missing_data''"
| "need_value NeedDimensionCoverage = ''dimension_coverage''"
| "need_value NeedUnknown = ''unknown''"

definition validate_need :: "research_need \<Rightarrow> research_need result" where
  "validate_need n =
     (if prose_blank (rn_description n)
        then Inl (ValueError ''research need description must not be empty'')
      else if rn_priority n < 1
        then Inl (ValueError ''research need priority must be positive'')
      else Inr n)"

fun need_for_type :: "requirement_type \<Rightarrow> research_need_type \<times> prose" where
  "need_for_type IndependentSource =
     (NeedIndependentSource, Zh ''additional independent sources for source diversity'' [])"
| "need_for_type ClaimVerification =
     (NeedClaimVerification, Zh ''complete the verification of the claim'' [])"
| "need_for_type DimensionCoverage =
     (NeedDimensionCoverage, Zh ''fill in the coverage of the dimension'' [])"
| "need_for_type EvidenceQuality =
     (NeedEvidenceQuality, Zh ''add evidence that meets the quality requirement'' [])"

definition classify_need ::
  "gap_requirement \<Rightarrow> alignment list \<Rightarrow> closure_feedback option
    \<Rightarrow> research_need_type \<times> prose" where
  "classify_need r alignments feedback =
     (case feedback of
        Some f \<Rightarrow> (cf_need_type f, Zh ''requirement not satisfied''
                     [cf_missing_requirement f, reason_value (cf_failure_reason f)])
      | None \<Rightarrow>
          (let reasons = map al_rejection_reason
                 (filter (\<lambda>a. al_status a \<in> {PartiallyAligned, NotAligned}) alignments)
           in if Some MissingIndependentSource \<in> set reasons
                then (NeedIndependentSource, Zh ''additional independent sources to verify it'' [])
              else if Some ClaimNotVerified \<in> set reasons
                then (NeedClaimVerification, Zh ''verify how claim and evidence relate'' [])
              else if Some InsufficientQuality \<in> set reasons
                then (NeedEvidenceQuality, Zh ''better, locatable and verifiable evidence'' [])
              else if Some DimensionMismatch \<in> set reasons
                then (NeedDimensionCoverage, Zh ''material for the evidence dimension'' [])
              else need_for_type (gr_type r)))"

definition context_from_feedback :: "closure_feedback option \<Rightarrow> research_context" where
  "context_from_feedback feedback =
     context_from_mapping (case feedback of None \<Rightarrow> [] | Some f \<Rightarrow> cf_metadata f)"

definition generate_needs ::
  "timestamp \<Rightarrow> gap_requirement \<Rightarrow> alignment list \<Rightarrow> closure_evaluation option
    \<Rightarrow> closure_feedback option \<Rightarrow> int option \<Rightarrow> research_need list result" where
  "generate_needs now r alignments evaluation feedback priority =
     (if gr_closure_status r = GClosed then Inr []
      else if (case evaluation of None \<Rightarrow> False | Some e \<Rightarrow> ce_closure_status e = GClosed)
        then Inr []
      else let relevant = filter (\<lambda>a. al_gap_id a = gr_gap_id r) alignments;
               (need_type, description) = classify_need r relevant feedback
           in map_sum id (\<lambda>n. [n]) (validate_need
                \<lparr>rn_need_id = UUID5 ''research-need:''
                   [PId (gr_gap_id r), PStr (need_value need_type)],
                 rn_gap_id = gr_gap_id r, rn_question_id = gr_question_id r,
                 rn_dimension_key = gr_dimension_key r, rn_requirement_type = gr_type r,
                 rn_need_type = need_type, rn_description = description,
                 rn_priority =
                   max 1 (case priority of None \<Rightarrow> 3 | Some p \<Rightarrow> if p \<noteq> 0 then p else 3),
                 rn_status = NeedOpen, rn_created_at = now,
                 rn_feedback_id = map_option cf_feedback_id feedback,
                 rn_context = context_from_feedback feedback\<rparr>))"

section \<open>Suggested actions\<close>

datatype research_action_type =
    FindAdditionalSource | FindIndependentSource | VerifyClaim | ImproveEvidenceQuality
  | CollectMissingData | ExpandDimensionCoverage | UnknownAction

datatype suggestion_status = Suggested | Consumed | SuggestionCancelled

record research_action =
  ra_action_id :: uuid
  ra_need_id :: uuid
  ra_gap_id :: uuid
  ra_question_id :: string
  ra_dimension_key :: string
  ra_action_type :: research_action_type
  ra_objective :: prose
  ra_description :: prose
  ra_priority :: int
  ra_status :: suggestion_status
  ra_created_at :: timestamp
  ra_source_feedback_id :: "uuid option"

fun action_value :: "research_action_type \<Rightarrow> string" where
  "action_value FindAdditionalSource = ''find_additional_source''"
| "action_value FindIndependentSource = ''find_independent_source''"
| "action_value VerifyClaim = ''verify_claim''"
| "action_value ImproveEvidenceQuality = ''improve_evidence_quality''"
| "action_value CollectMissingData = ''collect_missing_data''"
| "action_value ExpandDimensionCoverage = ''expand_dimension_coverage''"
| "action_value UnknownAction = ''unknown''"

fun action_type_for_need :: "research_need_type \<Rightarrow> research_action_type" where
  "action_type_for_need NeedAdditionalSource = FindAdditionalSource"
| "action_type_for_need NeedIndependentSource = FindIndependentSource"
| "action_type_for_need NeedClaimVerification = VerifyClaim"
| "action_type_for_need NeedEvidenceQuality = ImproveEvidenceQuality"
| "action_type_for_need NeedMissingData = CollectMissingData"
| "action_type_for_need NeedDimensionCoverage = ExpandDimensionCoverage"
| "action_type_for_need NeedUnknown = UnknownAction"

fun action_text :: "research_action_type \<Rightarrow> string \<Rightarrow> prose \<times> prose" where
  "action_text FindIndependentSource d =
     (Zh ''find more independent sources'' [], Zh ''find independent sources for'' [d])"
| "action_text FindAdditionalSource d =
     (Zh ''find additional sources'' [], Zh ''find additional sources for'' [d])"
| "action_text VerifyClaim d = (Zh ''verify the target claim'' [], Zh ''verify the claim of'' [d])"
| "action_text ImproveEvidenceQuality d =
     (Zh ''improve evidence quality'' [], Zh ''find better evidence for'' [d])"
| "action_text CollectMissingData d =
     (Zh ''collect missing data'' [], Zh ''collect the missing data of'' [d])"
| "action_text ExpandDimensionCoverage d =
     (Zh ''expand dimension coverage'' [], Zh ''fill in the coverage of'' [d])"
| "action_text UnknownAction d =
     (Zh ''research the requirement further'' [], Zh ''further candidates for'' [d])"

definition validate_action :: "research_action \<Rightarrow> research_action result" where
  "validate_action a =
     (if prose_blank (ra_objective a) \<or> prose_blank (ra_description a)
        then Inl (ValueError ''research action text must not be empty'')
      else if ra_priority a < 1
        then Inl (ValueError ''research action priority must be positive'')
      else Inr a)"

definition generate_actions ::
  "timestamp \<Rightarrow> research_need \<Rightarrow> gap_requirement \<Rightarrow> closure_feedback option
    \<Rightarrow> research_action list result" where
  "generate_actions now n r feedback =
     (if rn_status n \<noteq> NeedOpen then Inr []
      else if gr_gap_id r \<noteq> rn_gap_id n
        then Inl (ValueError ''ResearchNeed and GapRequirement do not match'')
      else if gr_closure_status r = GClosed then Inr []
      else let ty = action_type_for_need (rn_need_type n);
               (objective, description) = action_text ty (rn_dimension_key n)
           in map_sum id (\<lambda>a. [a]) (validate_action
                \<lparr>ra_action_id = UUID5 ''research-action:'' [PId (rn_need_id n), PStr (action_value ty)],
                 ra_need_id = rn_need_id n, ra_gap_id = rn_gap_id n,
                 ra_question_id = rn_question_id n, ra_dimension_key = rn_dimension_key n,
                 ra_action_type = ty, ra_objective = objective, ra_description = description,
                 ra_priority = rn_priority n, ra_status = Suggested, ra_created_at = now,
                 ra_source_feedback_id =
                   (case feedback of Some f \<Rightarrow> Some (cf_feedback_id f)
                    | None \<Rightarrow> rn_feedback_id n)\<rparr>))"

section \<open>Query intents\<close>

datatype intent_type =
    IntentAdditionalSource | IntentIndependentSource | IntentVerifyClaim | IntentCollectData
  | IntentImproveQuality | IntentCoverDimension | IntentUnknown

record query_intent =
  qi_intent_id :: uuid
  qi_run_id :: uuid
  qi_question_id :: string
  qi_need_id :: uuid
  qi_action_id :: uuid
  qi_gap_id :: uuid
  qi_dimension_key :: string
  qi_requirement_type :: requirement_type
  qi_intent_type :: intent_type
  qi_objective :: prose
  qi_targets :: "prose list"
  qi_source_types :: "string list"
  qi_constraints :: "prose list"
  qi_status :: suggestion_status
  qi_created_at :: timestamp
  qi_context :: "research_context option"

fun intent_value :: "intent_type \<Rightarrow> string" where
  "intent_value IntentAdditionalSource = ''find_additional_source''"
| "intent_value IntentIndependentSource = ''find_independent_source''"
| "intent_value IntentVerifyClaim = ''verify_claim''"
| "intent_value IntentCollectData = ''collect_missing_data''"
| "intent_value IntentImproveQuality = ''improve_evidence_quality''"
| "intent_value IntentCoverDimension = ''cover_dimension''"
| "intent_value IntentUnknown = ''unknown''"

fun intent_type_for_action :: "research_action_type \<Rightarrow> intent_type" where
  "intent_type_for_action FindAdditionalSource = IntentAdditionalSource"
| "intent_type_for_action FindIndependentSource = IntentIndependentSource"
| "intent_type_for_action VerifyClaim = IntentVerifyClaim"
| "intent_type_for_action ImproveEvidenceQuality = IntentImproveQuality"
| "intent_type_for_action CollectMissingData = IntentCollectData"
| "intent_type_for_action ExpandDimensionCoverage = IntentCoverDimension"
| "intent_type_for_action UnknownAction = IntentUnknown"

fun intent_text ::
  "intent_type \<Rightarrow> string \<Rightarrow> prose \<times> prose list \<times> string list \<times> prose list" where
  "intent_text IntentIndependentSource d =
     (Zh ''find new evidence from independent sources'' [],
      [Zh ''third-party data'' [], Zh ''industry reports'' [], Zh ''official statistics'' [],
       Zh ''independent research'' []],
      [''government'', ''industry_report'', ''research_institution'', ''independent_analysis''],
      [Zh ''exclude sources already used'' [], Zh ''keep the independence constraint'' []])"
| "intent_text IntentAdditionalSource d =
     (Zh ''find additional sources'' [],
      [Zh ''industry data'' [], Zh ''research reports'' [], Zh ''official material'' []],
      [''government'', ''industry_report'', ''research_institution''],
      [Zh ''prefer unused sources'' []])"
| "intent_text IntentVerifyClaim d =
     (Zh ''verify truth and reliability of the claim'' [],
      [Zh ''official statements'' [], Zh ''technical documents'' [], Zh ''experimental data'' [],
       Zh ''third-party verification'' []],
      [''official'', ''technical_document'', ''research_institution'', ''independent_analysis''],
      [Zh ''verify the claim of'' [d]])"
| "intent_text IntentImproveQuality d =
     (Zh ''find better and more authoritative evidence'' [],
      [Txt ''primary source'', Txt ''authoritative report'', Txt ''official documentation''],
      [''primary_source'', ''authoritative_report'', ''official_documentation''],
      [Zh ''prefer locatable and verifiable originals'' []])"
| "intent_text IntentCollectData d =
     (Zh ''collect the missing research data'' [],
      [Zh ''official data sets'' [], Zh ''industry statistics'' [], Zh ''institution data'' []],
      [''government'', ''dataset'', ''research_institution''],
      [Zh ''fill in the data needed for'' [d]])"
| "intent_text IntentCoverDimension d =
     (Zh ''fill in the coverage of the dimension'' [],
      [Zh ''official material on the dimension'' [], Zh ''industry reports'' [],
       Zh ''independent research'' []],
      [''government'', ''industry_report'', ''research_institution''],
      [Zh ''the query must cover'' [d]])"
| "intent_text IntentUnknown d =
     (Zh ''research the requirement further'' [],
      [Zh ''information directly related to the requirement'' []], [''unknown''],
      [Zh ''form verifiable information about'' [d]])"

definition validate_intent :: "query_intent \<Rightarrow> query_intent result" where
  "validate_intent i =
     (if prose_blank (qi_objective i)
        then Inl (ValueError ''query intent objective must not be empty'')
      else if qi_targets i = []
        then Inl (ValueError ''query intent must define target information'')
      else Inr i)"

definition generate_intents ::
  "timestamp \<Rightarrow> research_action \<Rightarrow> gap_requirement \<Rightarrow> research_context option
    \<Rightarrow> query_intent list result" where
  "generate_intents now a r context =
     (if ra_status a \<noteq> Suggested then Inr []
      else if gr_gap_id r \<noteq> ra_gap_id a
        then Inl (ValueError ''SuggestedResearchAction and GapRequirement do not match'')
      else if gr_question_id r \<noteq> ra_question_id a
        then Inl (ValueError ''action and requirement question do not match'')
      else if gr_dimension_key r \<noteq> ra_dimension_key a
        then Inl (ValueError ''action and requirement dimension do not match'')
      else if gr_closure_status r = GClosed then Inr []
      else let ty = intent_type_for_action (ra_action_type a);
               (objective, targets, sources, constraints) = intent_text ty (ra_dimension_key a)
           in map_sum id (\<lambda>i. [i]) (validate_intent
                \<lparr>qi_intent_id = UUID5 ''research-query-intent:''
                   [PId (ra_action_id a), PStr (intent_value ty)],
                 qi_run_id = gr_run_id r, qi_question_id = ra_question_id a,
                 qi_need_id = ra_need_id a, qi_action_id = ra_action_id a,
                 qi_gap_id = ra_gap_id a, qi_dimension_key = ra_dimension_key a,
                 qi_requirement_type = gr_type r, qi_intent_type = ty,
                 qi_objective = objective, qi_targets = targets, qi_source_types = sources,
                 qi_constraints = constraints, qi_status = Suggested, qi_created_at = now,
                 qi_context = meaningful_context context\<rparr>))"

section \<open>Query plans\<close>

datatype plan_strategy =
    AdditionalSourceDiscovery | IndependentSourceDiscovery | ClaimValidation | DataCollection
  | EvidenceUpgrade | DimensionCompletion | UnknownStrategy

record query_plan =
  qp_plan_id :: uuid
  qp_run_id :: uuid
  qp_question_id :: string
  qp_gap_id :: uuid
  qp_dimension_key :: string
  qp_requirement_type :: requirement_type
  qp_intent_id :: uuid
  qp_objective :: prose
  qp_strategy :: plan_strategy
  qp_topics :: "string list"
  qp_source_types :: "string list"
  qp_constraints :: "string list"
  qp_priority :: int
  qp_status :: suggestion_status
  qp_created_at :: timestamp
  qp_context :: "research_context option"

fun strategy_value :: "plan_strategy \<Rightarrow> string" where
  "strategy_value AdditionalSourceDiscovery = ''additional_source_discovery''"
| "strategy_value IndependentSourceDiscovery = ''independent_source_discovery''"
| "strategy_value ClaimValidation = ''claim_validation''"
| "strategy_value DataCollection = ''data_collection''"
| "strategy_value EvidenceUpgrade = ''evidence_upgrade''"
| "strategy_value DimensionCompletion = ''dimension_completion''"
| "strategy_value UnknownStrategy = ''unknown''"

fun strategy_for_intent :: "intent_type \<Rightarrow> plan_strategy" where
  "strategy_for_intent IntentAdditionalSource = AdditionalSourceDiscovery"
| "strategy_for_intent IntentIndependentSource = IndependentSourceDiscovery"
| "strategy_for_intent IntentVerifyClaim = ClaimValidation"
| "strategy_for_intent IntentCollectData = DataCollection"
| "strategy_for_intent IntentImproveQuality = EvidenceUpgrade"
| "strategy_for_intent IntentCoverDimension = DimensionCompletion"
| "strategy_for_intent IntentUnknown = UnknownStrategy"

fun plan_text ::
  "plan_strategy \<Rightarrow> string \<Rightarrow> prose \<times> string list \<times> string list \<times> string list" where
  "plan_text IndependentSourceDiscovery d =
     (Zh ''find new evidence from independent sources'' [],
      [''industry report'', ''official statistics'', ''third party analysis''],
      [''government'', ''research_institution'', ''industry_report''],
      [''exclude_existing_sources=true'', ''require_independent_source=true''])"
| "plan_text AdditionalSourceDiscovery d =
     (Zh ''find additional sources'' [],
      [''industry data'', ''research report'', ''official material''],
      [''government'', ''research_institution'', ''industry_report''],
      [''exclude_existing_sources=true''])"
| "plan_text ClaimValidation d =
     (Zh ''find information that confirms or refutes the claim'' [],
      [''official documentation'', ''technical report'', ''experimental evidence''],
      [''official'', ''technical_document'', ''research_institution''],
      [''validate_claim_dimension='' @ d])"
| "plan_text EvidenceUpgrade d =
     (Zh ''replace evidence by more credible evidence'' [],
      [''primary source'', ''official document'', ''authoritative report''],
      [''primary_source'', ''official_documentation'', ''authoritative_report''],
      [''prefer_primary_or_authoritative_sources=true''])"
| "plan_text DataCollection d =
     (Zh ''collect the missing research data'' [],
      [''official dataset'', ''industry statistics'', ''research institution data''],
      [''government'', ''dataset'', ''research_institution''],
      [''collect_data_for_dimension='' @ d])"
| "plan_text DimensionCompletion d =
     (Zh ''fill in the coverage of the dimension'' [],
      [''dimension-specific official material'', ''industry report'', ''independent research''],
      [''government'', ''industry_report'', ''research_institution''],
      [''must_cover_dimension='' @ d])"
| "plan_text UnknownStrategy d =
     (Zh ''research the requirement further'' [],
      [''information directly related to the target Requirement''], [''unknown''],
      [''form_verifiable_information_for='' @ d])"

definition validate_plan :: "query_plan \<Rightarrow> query_plan result" where
  "validate_plan p =
     (if prose_blank (qp_objective p)
        then Inl (ValueError ''query plan objective must not be empty'')
      else if qp_topics p = [] then Inl (ValueError ''query plan must define target topics'')
      else if qp_priority p < 1 then Inl (ValueError ''query plan priority must be positive'')
      else Inr p)"

definition generate_plans ::
  "timestamp \<Rightarrow> query_intent \<Rightarrow> gap_requirement \<Rightarrow> int \<Rightarrow> query_plan list result" where
  "generate_plans now i r priority =
     (if qi_status i \<noteq> Suggested then Inr []
      else if gr_gap_id r \<noteq> qi_gap_id i
        then Inl (ValueError ''ResearchQueryIntent and GapRequirement do not match'')
      else if gr_question_id r \<noteq> qi_question_id i
        then Inl (ValueError ''intent and requirement question do not match'')
      else if gr_dimension_key r \<noteq> qi_dimension_key i
        then Inl (ValueError ''intent and requirement dimension do not match'')
      else if gr_closure_status r = GClosed then Inr []
      else let st = strategy_for_intent (qi_intent_type i);
               (objective, topics, sources, constraints) = plan_text st (qi_dimension_key i)
           in map_sum id (\<lambda>p. [p]) (validate_plan
                \<lparr>qp_plan_id = UUID5 ''research-query-plan:''
                   [PId (qi_intent_id i), PStr (strategy_value st)],
                 qp_run_id = qi_run_id i, qp_question_id = qi_question_id i,
                 qp_gap_id = qi_gap_id i, qp_dimension_key = qi_dimension_key i,
                 qp_requirement_type = qi_requirement_type i, qp_intent_id = qi_intent_id i,
                 qp_objective = objective, qp_strategy = st, qp_topics = topics,
                 qp_source_types = sources, qp_constraints = constraints,
                 qp_priority = priority, qp_status = Suggested, qp_created_at = now,
                 qp_context = meaningful_context (qi_context i)\<rparr>))"

section \<open>Validation of plans\<close>

datatype validation_status = Valid | PartiallyValid | Invalid | ValidityUnknown

datatype plan_alignment =
    DirectAlignment | PartialAlignment | MissingRequirementMatch | InsufficientSourceStrategy
  | ClaimMismatch | PlanAlignmentUnknown

record plan_validation =
  pv_validation_id :: uuid
  pv_plan_id :: uuid
  pv_gap_id :: uuid
  pv_question_id :: string
  pv_status :: validation_status
  pv_alignment :: plan_alignment
  pv_issues :: "string list"
  pv_explanation :: prose

fun expected_strategy :: "requirement_type \<Rightarrow> plan_strategy \<times> prose" where
  "expected_strategy IndependentSource =
     (IndependentSourceDiscovery, Zh ''independent source discovery matches directly'' [])"
| "expected_strategy ClaimVerification =
     (ClaimValidation, Zh ''claim validation matches directly'' [])"
| "expected_strategy EvidenceQuality =
     (EvidenceUpgrade, Zh ''evidence upgrade matches directly'' [])"
| "expected_strategy DimensionCoverage =
     (DimensionCompletion, Zh ''dimension completion matches directly'' [])"

definition evaluate_plan_alignment ::
  "requirement_type \<Rightarrow> plan_strategy
    \<Rightarrow> validation_status \<times> plan_alignment \<times> string list \<times> prose" where
  "evaluate_plan_alignment ty st =
     (let (expected, explanation) = expected_strategy ty
      in if st = expected then (Valid, DirectAlignment, [], explanation)
         else if ty = ClaimVerification
           then (Invalid, ClaimMismatch, [''query_strategy_cannot_directly_validate_claim''],
                 Zh ''the strategy cannot verify the claim directly'' [])
         else if st = UnknownStrategy
           then (PartiallyValid, MissingRequirementMatch, [''query_strategy_is_unknown''],
                 Zh ''the plan gives no strategy matching the requirement'' [])
         else (PartiallyValid, InsufficientSourceStrategy,
               [''query_strategy_does_not_target_requirement''],
               Zh ''the strategy does not cover the requirement'' []))"

definition validate_query_plan ::
  "query_plan \<Rightarrow> gap_requirement \<Rightarrow> plan_validation list result" where
  "validate_query_plan p r =
     (if gr_closure_status r = GClosed then Inr []
      else if qp_gap_id p \<noteq> gr_gap_id r
        then Inl (ValueError ''ResearchQueryPlan and GapRequirement do not match'')
      else if qp_question_id p \<noteq> gr_question_id r
        then Inl (ValueError ''query plan and requirement question do not match'')
      else if qp_dimension_key p \<noteq> gr_dimension_key r
        then Inl (ValueError ''query plan and requirement dimension do not match'')
      else let (status, alignment, issues, explanation) =
                 evaluate_plan_alignment (gr_type r) (qp_strategy p)
           in if prose_blank explanation
              then Inl (ValueError ''query plan validation explanation must not be empty'')
              else Inr [\<lparr>pv_validation_id = UUID5 ''query-plan-validation:''
                           [PId (qp_plan_id p), PInt (gr_state_version r)],
                         pv_plan_id = qp_plan_id p, pv_gap_id = gr_gap_id r,
                         pv_question_id = gr_question_id r, pv_status = status,
                         pv_alignment = alignment, pv_issues = issues,
                         pv_explanation = explanation\<rparr>])"

section \<open>Query candidates\<close>

datatype candidate_status = CandidateGenerated | CandidateRejected | CandidateUnknown

record query_candidate =
  qc_candidate_id :: uuid
  qc_run_id :: uuid
  qc_question_id :: string
  qc_gap_id :: uuid
  qc_dimension_key :: string
  qc_requirement_type :: requirement_type
  qc_plan_id :: uuid
  qc_query_text :: string
  qc_purpose :: prose
  qc_topics :: "string list"
  qc_source_types :: "string list"
  qc_constraints :: "string list"
  qc_generation_reason :: "(string \<times> uuid) list"
  qc_status :: candidate_status
  qc_feedback_id :: "uuid option"
  qc_avoid_reason :: "string option"
  qc_context :: "research_context option"

fun candidate_text :: "plan_strategy \<Rightarrow> string \<Rightarrow> string \<times> prose" where
  "candidate_text IndependentSourceDiscovery d =
     (d @ '' market report official statistics third party analysis'',
      Zh ''find industry data from independent sources'' [])"
| "candidate_text AdditionalSourceDiscovery d =
     (d @ '' industry data research report official material'', Zh ''find additional sources'' [])"
| "candidate_text ClaimValidation d =
     (d @ '' claim official documentation technical report verification'',
      Zh ''find official or third-party grounds for the claim'' [])"
| "candidate_text EvidenceUpgrade d =
     (d @ '' primary source official report authoritative evidence'',
      Zh ''find more credible evidence'' [])"
| "candidate_text DataCollection d =
     (d @ '' official dataset industry statistics research data'',
      Zh ''collect the missing research data'' [])"
| "candidate_text DimensionCompletion d =
     (d @ '' official material industry report independent research'',
      Zh ''fill in the coverage of the dimension'' [])"
| "candidate_text UnknownStrategy d =
     (d @ '' research evidence Requirement'', Zh ''candidate related to the requirement'' [])"

definition validate_candidate_fields :: "query_candidate \<Rightarrow> query_candidate result" where
  "validate_candidate_fields c =
     (if blank (qc_query_text c) then Inl (ValueError ''query candidate text must not be empty'')
      else if prose_blank (qc_purpose c)
        then Inl (ValueError ''query candidate purpose must not be empty'')
      else if qc_generation_reason c = []
        then Inl (ValueError ''query candidate generation reason must not be empty'')
      else Inr c)"

text \<open>The generation reason is the list of labelled ids that the code concatenates.\<close>

definition generate_candidates ::
  "query_plan \<Rightarrow> gap_requirement \<Rightarrow> plan_validation \<Rightarrow> closure_feedback option
    \<Rightarrow> query_candidate list result" where
  "generate_candidates p r v feedback =
     (if qp_status p \<noteq> Suggested then Inr []
      else if gr_closure_status r = GClosed then Inr []
      else if pv_status v \<noteq> Valid then Inr []
      else if pv_plan_id v \<noteq> qp_plan_id p
        then Inl (ValueError ''validation and query plan do not match'')
      else if pv_gap_id v \<noteq> qp_gap_id p
        then Inl (ValueError ''validation and query plan gap do not match'')
      else if gr_gap_id r \<noteq> qp_gap_id p
        then Inl (ValueError ''query plan and requirement do not match'')
      else if gr_question_id r \<noteq> qp_question_id p
        then Inl (ValueError ''query plan and requirement question do not match'')
      else if gr_dimension_key r \<noteq> qp_dimension_key p
        then Inl (ValueError ''query plan and requirement dimension do not match'')
      else let (base, purpose) = candidate_text (qp_strategy p) (qp_dimension_key p);
               context = meaningful_context (qp_context p);
               txt = (case context of None \<Rightarrow> base
                      | Some c \<Rightarrow> apply_query_hints base (rx_query_hints c))
           in map_sum id (\<lambda>c. [c]) (validate_candidate_fields
                \<lparr>qc_candidate_id = UUID5 ''query-candidate:'' [PId (qp_plan_id p), PStr txt],
                 qc_run_id = qp_run_id p, qc_question_id = qp_question_id p,
                 qc_gap_id = qp_gap_id p, qc_dimension_key = qp_dimension_key p,
                 qc_requirement_type = qp_requirement_type p, qc_plan_id = qp_plan_id p,
                 qc_query_text = txt, qc_purpose = purpose, qc_topics = qp_topics p,
                 qc_source_types = qp_source_types p, qc_constraints = qp_constraints p,
                 qc_generation_reason =
                   (''generated_from_valid_query_plan:'', pv_validation_id v)
                   # (case feedback of None \<Rightarrow> []
                      | Some f \<Rightarrow> [('';refined_from_feedback:'', cf_feedback_id f)]),
                 qc_status = CandidateGenerated,
                 qc_feedback_id = map_option cf_feedback_id feedback,
                 qc_avoid_reason = map_option (reason_value \<circ> cf_failure_reason) feedback,
                 qc_context = context\<rparr>))"

section \<open>Validation of candidates\<close>

datatype candidate_alignment =
    PlanAligned | GapAligned | SourceMismatch | TopicMismatch | InsufficientQueryIntent
  | CandidateAlignmentUnknown

record candidate_validation =
  qv_validation_id :: uuid
  qv_candidate_id :: uuid
  qv_plan_id :: uuid
  qv_gap_id :: uuid
  qv_question_id :: string
  qv_status :: validation_status
  qv_alignment :: candidate_alignment
  qv_issues :: "string list"
  qv_explanation :: prose

definition any_term :: "string \<Rightarrow> string list \<Rightarrow> bool" where
  "any_term txt terms \<longleftrightarrow> list_ex (contains txt) terms"

definition any_source :: "query_candidate \<Rightarrow> string list \<Rightarrow> bool" where
  "any_source c sources \<longleftrightarrow> list_ex (\<lambda>s. s \<in> set sources) (qc_source_types c)"

definition evaluate_candidate ::
  "requirement_type \<Rightarrow> query_candidate
    \<Rightarrow> validation_status \<times> candidate_alignment \<times> string list \<times> prose" where
  "evaluate_candidate ty c =
     (let txt = casefold (qc_query_text c)
      in case ty of
           IndependentSource \<Rightarrow>
             (if \<not> any_source c [''government'', ''research_institution'', ''industry_report'',
                                 ''independent_analysis'']
              then (Invalid, SourceMismatch,
                    [''candidate_sources_do_not_support_independent_source''],
                    Zh ''the sources do not support independence'' [])
              else if \<not> any_term txt [''industry'', ''report'', ''statistics'', ''third party'',
                                      ''analysis'']
              then (Invalid, TopicMismatch,
                    [''candidate_topics_do_not_target_independent_source''],
                    Zh ''the topic does not point to independent sources'' [])
              else (Valid, GapAligned, [], Zh ''topic and sources fit'' []))
         | ClaimVerification \<Rightarrow>
             (if \<not> any_source c [''official'', ''technical_document'', ''research_institution'']
              then (Invalid, SourceMismatch,
                    [''candidate_sources_do_not_support_claim_validation''],
                    Zh ''the sources do not support claim validation'' [])
              else if \<not> any_term txt [''claim'', ''verification'', ''official'',
                                      ''documentation'', ''technical'']
              then (Invalid, TopicMismatch, [''candidate_topics_do_not_target_claim''],
                    Zh ''the topic cannot verify the claim'' [])
              else (Valid, GapAligned, [], Zh ''official or technical material'' []))
         | _ \<Rightarrow>
             (let topics = (if ty = EvidenceQuality
                            then [''primary'', ''official'', ''authoritative'']
                            else [casefold (qc_dimension_key c)])
              in if any_term txt topics
                 then (Valid, PlanAligned, [], Zh ''consistent with the plan'' [])
                 else (ValidityUnknown, InsufficientQueryIntent,
                       [''candidate_intent_is_not_supported_by_validation_rule''],
                       Zh ''no rule for this requirement type'' [])))"

definition validate_candidate ::
  "query_candidate \<Rightarrow> query_plan \<Rightarrow> gap_requirement \<Rightarrow> candidate_validation list result" where
  "validate_candidate c p r =
     (if gr_closure_status r = GClosed then Inr []
      else if qc_status c \<noteq> CandidateGenerated then Inr []
      else if qc_plan_id c \<noteq> qp_plan_id p
        then Inl (ValueError ''query candidate and query plan do not match'')
      else if qc_gap_id c \<noteq> qp_gap_id p \<or> qp_gap_id p \<noteq> gr_gap_id r
        then Inl (ValueError ''query candidate, plan, and requirement gaps do not match'')
      else if qc_question_id c \<noteq> qp_question_id p
        then Inl (ValueError ''query candidate and query plan questions do not match'')
      else if qp_question_id p \<noteq> gr_question_id r
        then Inl (ValueError ''query plan and requirement questions do not match'')
      else if qc_dimension_key c \<noteq> qp_dimension_key p
        then Inl (ValueError ''query candidate and query plan dimensions do not match'')
      else if qp_dimension_key p \<noteq> gr_dimension_key r
        then Inl (ValueError ''query plan and requirement dimensions do not match'')
      else let (status, alignment, issues, explanation) = evaluate_candidate (gr_type r) c
           in if prose_blank explanation
              then Inl (ValueError ''query candidate validation explanation must not be empty'')
              else Inr [\<lparr>qv_validation_id = UUID5 ''query-candidate-validation:''
                           [PId (qc_candidate_id c)],
                         qv_candidate_id = qc_candidate_id c, qv_plan_id = qp_plan_id p,
                         qv_gap_id = gr_gap_id r, qv_question_id = gr_question_id r,
                         qv_status = status, qv_alignment = alignment, qv_issues = issues,
                         qv_explanation = explanation\<rparr>])"

section \<open>Lemmas: the query text\<close>

text \<open>The words of the strategy's phrase survive the white space normalisation of the hints.\<close>

lemma hinted_prefix:
  "hints \<noteq> [] \<Longrightarrow> \<exists>suffix. apply_query_hints qtext hints = join_sp (split_ws qtext) @ suffix"
  unfolding apply_query_hints_def query_hint_additions_def if_not_P by (simp add: append_hints_prefix)

lemma hinted_word:
  assumes "w \<in> set (split_ws phrase)"
  shows "contains (casefold (apply_query_hints (d @ '' '' @ phrase) hints)) (casefold w)"
proof -
  have "contains (apply_query_hints (d @ '' '' @ phrase) hints) w"
  proof (cases "hints = []")
    case True
    obtain a b where "phrase = a @ w @ b"
      using assms split_words_sub [of w "[]" phrase] by (auto simp: split_ws_def contains_def sublist_def)
    then show ?thesis
      using True by (simp add: apply_query_hints_def query_hint_additions_def contains_def)
        (metis append.assoc append_Cons sublist_def)
  next
    case False
    obtain suffix where "apply_query_hints (d @ '' '' @ phrase) hints
        = join_sp (split_ws (d @ '' '' @ phrase)) @ suffix"
      using hinted_prefix [OF False] by blast
    moreover have "contains (join_sp (split_ws (d @ '' '' @ phrase))) w"
      using assms by (intro contains_join) (simp add: split_ws_append del: append_Cons)
    ultimately show ?thesis by simp
  qed
  then show ?thesis by (rule contains_casefold)
qed

lemma hinted_dimension:
  assumes "normalized d" and "\<not> blank d"
  shows "contains (casefold (apply_query_hints (d @ '' '' @ phrase) hints)) (casefold d)"
proof -
  have "contains (apply_query_hints (d @ '' '' @ phrase) hints) d"
  proof (cases "hints = []")
    case False
    obtain suffix where s: "apply_query_hints (d @ '' '' @ phrase) hints
        = join_sp (split_ws d @ split_ws phrase) @ suffix"
      using hinted_prefix [OF False, of "d @ '' '' @ phrase"] unfolding split_ws_append by blast
    have d: "join_sp (split_ws d) = d" using assms by (simp add: normalized_def)
    have "contains (join_sp (split_ws d @ split_ws phrase)) d"
    proof (cases "split_ws phrase = []")
      case False
      then have "join_sp (split_ws d @ split_ws phrase) = d @ '' '' @ join_sp (split_ws phrase)"
        using assms(2) d by (simp add: join_sp_append split_ws_Nil)
      then show ?thesis by simp
    qed (simp add: d)
    then show ?thesis unfolding s by (rule contains_append_left)
  qed (simp add: apply_query_hints_def query_hint_additions_def)
  then show ?thesis by (rule contains_casefold)
qed

section \<open>Lemmas: the stages\<close>

definition strategy_for_need :: "research_need_type \<Rightarrow> plan_strategy" where
  "strategy_for_need n = strategy_for_intent (intent_type_for_action (action_type_for_need n))"

lemma strategy_for_need_expected:
  "strategy_for_need n = fst (expected_strategy ty) \<longleftrightarrow> n = fst (need_for_type ty)"
  by (cases n; cases ty) (simp_all add: strategy_for_need_def)

lemma fst_evaluate_plan_alignment:
  "fst (evaluate_plan_alignment ty st) = Valid \<longleftrightarrow> st = fst (expected_strategy ty)"
  by (cases ty) (auto simp: evaluate_plan_alignment_def)

definition strategy_sources :: "plan_strategy \<Rightarrow> string list" where
  "strategy_sources st = fst (snd (snd (plan_text st [])))"

lemma plan_text_sources: "fst (snd (snd (plan_text st d))) = strategy_sources st"
  by (cases st) (simp_all add: strategy_sources_def)

lemma matching_candidate_valid:
  assumes c: "qc_query_text c = apply_query_hints (fst (candidate_text st d)) hints"
    "qc_dimension_key c = d" "qc_source_types c = strategy_sources st"
    and st: "st = fst (expected_strategy ty)" and d: "normalized d" "\<not> blank d"
  shows "fst (evaluate_candidate ty c) = Valid"
proof (cases ty)
  case IndependentSource
  have "contains (casefold (qc_query_text c)) (casefold ''report'')"
    unfolding c st IndependentSource
    by (simp, rule hinted_word [of _ "''market report official statistics third party analysis''", simplified])
       (simp add: split_ws_def is_space_def)
  then show ?thesis
    using IndependentSource c st
    by (simp add: evaluate_candidate_def any_source_def any_term_def strategy_sources_def
        casefold_def lower_char_def)
next
  case ClaimVerification
  have "contains (casefold (qc_query_text c)) (casefold ''claim'')"
    unfolding c st ClaimVerification
    by (simp, rule hinted_word [of _ "''claim official documentation technical report verification''", simplified])
       (simp add: split_ws_def is_space_def)
  then show ?thesis
    using ClaimVerification c st
    by (simp add: evaluate_candidate_def any_source_def any_term_def strategy_sources_def
        casefold_def lower_char_def)
next
  case EvidenceQuality
  have "contains (casefold (qc_query_text c)) (casefold ''primary'')"
    unfolding c st EvidenceQuality
    by (simp, rule hinted_word [of _ "''primary source official report authoritative evidence''", simplified])
       (simp add: split_ws_def is_space_def)
  then show ?thesis
    using EvidenceQuality by (simp add: evaluate_candidate_def any_term_def casefold_def lower_char_def)
next
  case DimensionCoverage
  have "contains (casefold (qc_query_text c)) (casefold d)"
    unfolding c st DimensionCoverage
    using hinted_dimension [OF d, of "''official material industry report independent research''" hints]
    by simp
  then show ?thesis
    using DimensionCoverage c by (simp add: evaluate_candidate_def any_term_def)
qed

lemma stage_need:
  assumes "gr_closure_status r \<noteq> GClosed"
  shows "\<exists>n. generate_needs now r al None (Some f) None = Inr [n]
    \<and> rn_gap_id n = gr_gap_id r \<and> rn_question_id n = gr_question_id r
    \<and> rn_dimension_key n = gr_dimension_key r \<and> rn_need_type n = cf_need_type f
    \<and> rn_priority n = 3 \<and> rn_status n = NeedOpen
    \<and> rn_need_id n = UUID5 ''research-need:'' [PId (gr_gap_id r), PStr (need_value (cf_need_type f))]
    \<and> rn_feedback_id n = Some (cf_feedback_id f)
    \<and> rn_context n = context_from_mapping (cf_metadata f)"
  using assms
  by (simp add: generate_needs_def classify_need_def validate_need_def context_from_feedback_def)

lemma action_text_not_blank:
  "\<not> prose_blank (fst (action_text ty d)) \<and> \<not> prose_blank (snd (action_text ty d))"
  by (cases ty) simp_all

lemma stage_action:
  assumes "gr_closure_status r \<noteq> GClosed" "rn_status n = NeedOpen" "rn_gap_id n = gr_gap_id r"
    "rn_priority n \<ge> 1"
  shows "\<exists>a. generate_actions now n r (Some f) = Inr [a]
    \<and> ra_gap_id a = rn_gap_id n \<and> ra_question_id a = rn_question_id n
    \<and> ra_dimension_key a = rn_dimension_key n \<and> ra_need_id a = rn_need_id n
    \<and> ra_action_type a = action_type_for_need (rn_need_type n) \<and> ra_priority a = rn_priority n
    \<and> ra_status a = Suggested \<and> ra_source_feedback_id a = Some (cf_feedback_id f)"
  using assms action_text_not_blank
  by (simp add: generate_actions_def validate_action_def split_beta Let_def)

lemma intent_text_valid:
  "\<not> prose_blank (fst (intent_text ty d)) \<and> fst (snd (intent_text ty d)) \<noteq> []"
  by (cases ty) simp_all

lemma stage_intent:
  assumes "gr_closure_status r \<noteq> GClosed" "ra_status a = Suggested" "ra_gap_id a = gr_gap_id r"
    "ra_question_id a = gr_question_id r" "ra_dimension_key a = gr_dimension_key r"
  shows "\<exists>i. generate_intents now a r ctx = Inr [i]
    \<and> qi_run_id i = gr_run_id r \<and> qi_gap_id i = gr_gap_id r \<and> qi_question_id i = gr_question_id r
    \<and> qi_dimension_key i = gr_dimension_key r \<and> qi_requirement_type i = gr_type r
    \<and> qi_intent_type i = intent_type_for_action (ra_action_type a) \<and> qi_status i = Suggested
    \<and> qi_context i = meaningful_context ctx"
  using assms intent_text_valid
  by (simp add: generate_intents_def validate_intent_def split_beta Let_def)

lemma plan_text_valid:
  "\<not> prose_blank (fst (plan_text st d)) \<and> fst (snd (plan_text st d)) \<noteq> []"
  by (cases st) simp_all

lemma stage_plan:
  assumes "gr_closure_status r \<noteq> GClosed" "qi_status i = Suggested" "qi_gap_id i = gr_gap_id r"
    "qi_question_id i = gr_question_id r" "qi_dimension_key i = gr_dimension_key r" "priority \<ge> 1"
  shows "\<exists>p. generate_plans now i r priority = Inr [p]
    \<and> qp_run_id p = qi_run_id i \<and> qp_gap_id p = gr_gap_id r \<and> qp_question_id p = gr_question_id r
    \<and> qp_dimension_key p = gr_dimension_key r \<and> qp_requirement_type p = qi_requirement_type i
    \<and> qp_strategy p = strategy_for_intent (qi_intent_type i) \<and> qp_status p = Suggested
    \<and> qp_source_types p = strategy_sources (qp_strategy p)
    \<and> qp_context p = meaningful_context (qi_context i)"
  using assms plan_text_valid
  by (simp add: generate_plans_def validate_plan_def split_beta plan_text_sources Let_def)

lemma stage_plan_validation:
  assumes "gr_closure_status r \<noteq> GClosed" "qp_gap_id p = gr_gap_id r"
    "qp_question_id p = gr_question_id r" "qp_dimension_key p = gr_dimension_key r"
  shows "\<exists>v. validate_query_plan p r = Inr [v] \<and> pv_plan_id v = qp_plan_id p
    \<and> pv_gap_id v = gr_gap_id r
    \<and> pv_status v = fst (evaluate_plan_alignment (gr_type r) (qp_strategy p))"
proof -
  have "\<not> prose_blank (snd (snd (snd (evaluate_plan_alignment (gr_type r) (qp_strategy p)))))"
    by (cases "gr_type r") (simp_all add: evaluate_plan_alignment_def)
  then show ?thesis using assms by (simp add: validate_query_plan_def split_beta)
qed

lemma candidate_text_not_blank: "\<not> blank (fst (candidate_text st d))"
  by (cases st) (simp_all add: blank_iff is_space_def)

lemma hinted_not_blank: "\<not> blank qtext \<Longrightarrow> \<not> blank (apply_query_hints qtext hints)"
proof (cases "hints = []")
  case False
  assume nb: "\<not> blank qtext"
  obtain suffix where s: "apply_query_hints qtext hints = join_sp (split_ws qtext) @ suffix"
    using hinted_prefix [OF False] by blast
  obtain w where w: "w \<in> set (split_ws qtext)"
    using nb split_ws_Nil [of qtext] by (cases "split_ws qtext") auto
  then have "\<not> blank w" using split_ws_words by (fastforce simp: word_def blank_iff neq_Nil_conv)
  moreover have "contains (join_sp (split_ws qtext)) w" using w by (rule contains_join)
  ultimately show ?thesis by (auto simp: s contains_def sublist_def)
qed (simp add: apply_query_hints_def query_hint_additions_def)

definition context_hints :: "research_context option \<Rightarrow> string list" where
  "context_hints c = (case meaningful_context c of None \<Rightarrow> [] | Some x \<Rightarrow> rx_query_hints x)"

lemma stage_candidate:
  assumes "gr_closure_status r \<noteq> GClosed" "qp_status p = Suggested" "qp_gap_id p = gr_gap_id r"
    "qp_question_id p = gr_question_id r" "qp_dimension_key p = gr_dimension_key r"
    "pv_status v = Valid" "pv_plan_id v = qp_plan_id p" "pv_gap_id v = gr_gap_id r"
  shows "\<exists>c. generate_candidates p r v (Some f) = Inr [c]
    \<and> qc_run_id c = qp_run_id p \<and> qc_gap_id c = gr_gap_id r \<and> qc_question_id c = gr_question_id r
    \<and> qc_dimension_key c = gr_dimension_key r \<and> qc_plan_id c = qp_plan_id p
    \<and> qc_requirement_type c = qp_requirement_type p
    \<and> qc_query_text c = apply_query_hints (fst (candidate_text (qp_strategy p) (gr_dimension_key r)))
                          (context_hints (qp_context p))
    \<and> qc_source_types c = qp_source_types p \<and> qc_status c = CandidateGenerated
    \<and> qc_feedback_id c = Some (cf_feedback_id f)
    \<and> qc_avoid_reason c = Some (reason_value (cf_failure_reason f))"
proof -
  have "\<not> prose_blank (snd (candidate_text (qp_strategy p) (gr_dimension_key r)))"
    by (cases "qp_strategy p") simp_all
  moreover have "(case meaningful_context (qp_context p) of None \<Rightarrow> base
       | Some c \<Rightarrow> apply_query_hints base (rx_query_hints c))
     = apply_query_hints base (context_hints (qp_context p))" for base
    by (cases "meaningful_context (qp_context p)")
       (simp_all add: context_hints_def apply_query_hints_def query_hint_additions_def)
  ultimately show ?thesis
    using assms candidate_text_not_blank hinted_not_blank
    by (simp add: generate_candidates_def validate_candidate_fields_def split_beta Let_def)
qed

lemma stage_candidate_validation:
  assumes "gr_closure_status r \<noteq> GClosed" "qc_status c = CandidateGenerated"
    "qc_plan_id c = qp_plan_id p" "qc_gap_id c = gr_gap_id r" "qp_gap_id p = gr_gap_id r"
    "qc_question_id c = gr_question_id r" "qp_question_id p = gr_question_id r"
    "qc_dimension_key c = gr_dimension_key r" "qp_dimension_key p = gr_dimension_key r"
  shows "\<exists>v. validate_candidate c p r = Inr [v] \<and> qv_candidate_id v = qc_candidate_id c
    \<and> qv_status v = fst (evaluate_candidate (gr_type r) c)"
proof -
  have "\<not> prose_blank (snd (snd (snd (evaluate_candidate (gr_type r) c))))"
    by (cases "gr_type r") (simp_all add: evaluate_candidate_def Let_def)
  then show ?thesis using assms by (simp add: validate_candidate_def split_beta)
qed

end
