(* ===== verification/Query_Execution.thy ===== *)
theory Query_Execution
  imports Research_Pipeline "HOL-Library.List_Lexorder" "HOL-Library.Char_ord"
begin

text \<open>
  Ranking candidates and turning one into an execution request:
  \<open>app/domain/query_candidate_ranking.py\<close>, \<open>feedback_execution.py\<close>, \<open>query_execution.py\<close> and
  \<open>feedback_query_executor_adapter.py\<close>.

  Scores are exact rationals. The total is the geometric mean of five scores rounded to four
  places; \<open>fifth_root4\<close> computes it as the number of grid points \<open>k / 10000\<close> whose lower
  half-way point does not exceed the root. \<open>show_id\<close>, the printed form of an identifier, is an
  argument.
\<close>

section \<open>Scores\<close>

fun requirement_value :: "requirement_type \<Rightarrow> string" where
  "requirement_value IndependentSource = ''independent_source''"
| "requirement_value ClaimVerification = ''claim_verification''"
| "requirement_value EvidenceQuality = ''evidence_quality''"
| "requirement_value DimensionCoverage = ''dimension_coverage''"

record candidate_score =
  cs_candidate_id :: uuid
  cs_alignment :: rat
  cs_requirement_match :: rat
  cs_source_potential :: rat
  cs_evidence_gain :: rat
  cs_cost :: rat
  cs_total :: rat
  cs_reasons :: "string list"

definition validate_score :: "candidate_score \<Rightarrow> candidate_score result" where
  "validate_score s =
     (if list_ex (\<lambda>x. x < 0 \<or> x > 1) [cs_alignment s, cs_requirement_match s, cs_source_potential s,
           cs_evidence_gain s, cs_cost s, cs_total s]
        then Inl (ValueError ''query candidate scores must be between 0 and 1'')
      else if cs_reasons s = []
        then Inl (ValueError ''query candidate ranking reason must not be empty'')
      else Inr s)"

definition alignment_score :: "candidate_validation option \<Rightarrow> rat" where
  "alignment_score v =
     (case v of None \<Rightarrow> 0
      | Some x \<Rightarrow>
          (case qv_status x of
             Valid \<Rightarrow> (if qv_alignment x = GapAligned then 1
                       else if qv_alignment x = PlanAligned then 9 / 10 else 8 / 10)
           | PartiallyValid \<Rightarrow> 5 / 10
           | ValidityUnknown \<Rightarrow> 25 / 100
           | Invalid \<Rightarrow> 0))"

definition count_terms :: "string list \<Rightarrow> string \<Rightarrow> nat" where
  "count_terms terms txt = length (filter (contains txt) terms)"

definition share_score :: "string list \<Rightarrow> string \<Rightarrow> rat" where
  "share_score terms txt =
     min 1 (1 / 4 + rat_of_nat (count_terms terms txt) / rat_of_nat (max 1 (length terms)))"

fun match_terms :: "requirement_type \<Rightarrow> string \<Rightarrow> string list" where
  "match_terms IndependentSource d =
     [''industry'', ''report'', ''statistics'', ''third party'', ''analysis'']"
| "match_terms ClaimVerification d =
     [''claim'', ''verification'', ''official'', ''documentation'', ''technical'']"
| "match_terms EvidenceQuality d = [''primary'', ''official'', ''authoritative'']"
| "match_terms DimensionCoverage d = [casefold d]"

definition requirement_match_score :: "query_candidate \<Rightarrow> gap_requirement \<Rightarrow> rat" where
  "requirement_match_score c r =
     share_score (match_terms (gr_type r) (qc_dimension_key c)) (casefold (qc_query_text c))"

definition HIGH_VALUE_SOURCES :: "string list" where
  "HIGH_VALUE_SOURCES =
     [''government'', ''official'', ''official_documentation'', ''research_institution'',
      ''industry_report'', ''independent_analysis'', ''primary_source'', ''authoritative_report'']"

definition LOW_VALUE_SOURCES :: "string list" where
  "LOW_VALUE_SOURCES = [''blog'', ''forum'', ''aggregator'', ''marketing_page'']"

definition source_potential_score :: "query_candidate \<Rightarrow> rat" where
  "source_potential_score c =
     (let high = length (filter (\<lambda>s. s \<in> set (qc_source_types c)) HIGH_VALUE_SOURCES);
          low = length (filter (\<lambda>s. s \<in> set (qc_source_types c)) LOW_VALUE_SOURCES)
      in if low \<noteq> 0 \<and> high = 0 then 15 / 100
         else if high \<ge> 2 \<and> low = 0 then 1
         else if high \<noteq> 0 then 75 / 100
         else 35 / 100)"

fun gain_terms :: "requirement_type \<Rightarrow> string \<Rightarrow> string list" where
  "gain_terms IndependentSource d = [''report'', ''statistics'', ''analysis'']"
| "gain_terms ClaimVerification d = [''claim'', ''verification'', ''official'']"
| "gain_terms EvidenceQuality d = [''primary'', ''authoritative'', ''official'']"
| "gain_terms DimensionCoverage d = [casefold d]"

definition evidence_gain_score :: "query_candidate \<Rightarrow> gap_requirement \<Rightarrow> rat" where
  "evidence_gain_score c r =
     share_score (gain_terms (gr_type r) (qc_dimension_key c))
       (casefold (qc_query_text c) @ '' '' @ casefold (join_sp (qc_topics c)))"

definition cost_score :: "query_candidate \<Rightarrow> rat" where
  "cost_score c =
     (let txt = casefold (qc_query_text c);
          s1 = (if length (split_ws txt) > 10 then 1 - 15 / 100 else 1);
          s2 = (if contains txt ''pdf'' \<or> contains txt ''download'' then s1 - 2 / 10 else s1);
          s3 = (if contains txt ''report'' \<or> contains txt ''technical'' then s2 - 1 / 10 else s2);
          s4 = (if contains txt ''official'' \<or> contains txt ''documentation'' then s3 + 5 / 100
                else s3)
      in max (1 / 10) (min 1 s4))"

text \<open>\<open>round(x, 4)\<close> of a score has \<open>SCORE_GRID\<close> positive values.\<close>

definition SCORE_GRID :: nat where
  "SCORE_GRID = 10000"

definition fifth_root4 :: "rat \<Rightarrow> rat" where
  "fifth_root4 q =
     rat_of_nat (length (filter (\<lambda>k. (rat_of_nat (2 * k) - 1) ^ 5 \<le> (2 * rat_of_nat SCORE_GRID) ^ 5 * q)
       [1..<Suc SCORE_GRID])) / rat_of_nat SCORE_GRID"

definition ranking_reasons ::
  "query_candidate \<Rightarrow> candidate_validation option \<Rightarrow> gap_requirement \<Rightarrow> rat \<Rightarrow> rat \<Rightarrow> rat \<Rightarrow> rat
    \<Rightarrow> rat \<Rightarrow> string list" where
  "ranking_reasons c v r alignment match source gain cost =
     (case v of None \<Rightarrow> [''missing candidate validation'']
      | Some x \<Rightarrow>
          (if qv_status x = Valid then [''validated against the Gap and Query Plan'']
           else if qv_status x = Invalid then [''candidate validation failed'']
           else []))
     @ (if alignment \<ge> 9 / 10 \<and> match \<ge> 7 / 10
          then [''matches '' @ requirement_value (gr_type r) @ '' requirement'']
        else if match < 5 / 10 then [''weak requirement match''] else [])
     @ (if source \<ge> 9 / 10 then [''high-quality or independent source potential'']
        else if source < 4 / 10 then [''limited source potential''] else [])
     @ (if gain \<ge> 8 / 10 then [''high evidence gain potential for '' @ qc_dimension_key c]
        else if gain < 5 / 10 then [''low evidence gain potential''] else [])
     @ (if cost \<ge> 85 / 100 then [''relatively low acquisition cost'']
        else if cost < 6 / 10 then [''higher acquisition cost''] else [])"

definition score_candidate ::
  "query_candidate \<Rightarrow> candidate_validation option \<Rightarrow> gap_requirement \<Rightarrow> candidate_score result" where
  "score_candidate c v r =
     (let alignment = alignment_score v;
          match = requirement_match_score c r;
          source = source_potential_score c;
          gain = evidence_gain_score c r;
          cost = cost_score c
      in validate_score
           \<lparr>cs_candidate_id = qc_candidate_id c, cs_alignment = alignment,
            cs_requirement_match = match, cs_source_potential = source, cs_evidence_gain = gain,
            cs_cost = cost, cs_total = fifth_root4 (alignment * match * source * gain * cost),
            cs_reasons = ranking_reasons c v r alignment match source gain cost\<rparr>)"

section \<open>Ranking\<close>

datatype ranking_status = Ranked | RankUnknown

record candidate_ranking =
  rk_candidate_id :: uuid
  rk_rank :: nat
  rk_score :: rat
  rk_reasons :: "string list"
  rk_details :: candidate_score
  rk_status :: ranking_status

definition mk_ranking :: "nat \<Rightarrow> candidate_score \<Rightarrow> candidate_ranking" where
  "mk_ranking index s =
     \<lparr>rk_candidate_id = cs_candidate_id s, rk_rank = index, rk_score = cs_total s,
      rk_reasons = cs_reasons s, rk_details = s, rk_status = Ranked\<rparr>"

definition rank_candidates ::
  "(uuid \<Rightarrow> string) \<Rightarrow> query_candidate list \<Rightarrow> (uuid \<rightharpoonup> candidate_validation) \<Rightarrow> gap_requirement
    \<Rightarrow> candidate_ranking list result" where
  "rank_candidates show_id cs validations r =
     (if gr_closure_status r = GClosed then Inr []
      else case traverse (\<lambda>c. score_candidate c (validations (qc_candidate_id c)) r) cs of
             Inl e \<Rightarrow> Inl e
           | Inr scored \<Rightarrow>
               (let ordered = sort_key (\<lambda>s. (- cs_total s, show_id (cs_candidate_id s))) scored
                in Inr (map2 mk_ranking [1..<length ordered + 1] ordered)))"

section \<open>Feedback executions\<close>

record feedback_execution =
  fe_execution_id :: uuid
  fe_feedback_id :: uuid
  fe_run_id :: uuid
  fe_question_id :: string
  fe_gap_id :: uuid
  fe_dimension_key :: string
  fe_requirement_type :: requirement_type
  fe_need_id :: uuid
  fe_candidate_id :: uuid
  fe_created_at :: timestamp

definition create_feedback_execution ::
  "timestamp \<Rightarrow> uuid \<Rightarrow> uuid \<Rightarrow> string \<Rightarrow> uuid \<Rightarrow> string \<Rightarrow> requirement_type \<Rightarrow> uuid \<Rightarrow> uuid
    \<Rightarrow> feedback_execution" where
  "create_feedback_execution now fid rid q gid d ty need candidate =
     \<lparr>fe_execution_id = UUID5 ''feedback-execution:'' [PId fid, PId candidate],
      fe_feedback_id = fid, fe_run_id = rid, fe_question_id = q, fe_gap_id = gid,
      fe_dimension_key = d, fe_requirement_type = ty, fe_need_id = need,
      fe_candidate_id = candidate, fe_created_at = now\<rparr>"

definition feedback_execution_allowed :: "int \<Rightarrow> int \<Rightarrow> bool result" where
  "feedback_execution_allowed executions limit =
     (if executions < 0 \<or> limit < 1
      then Inl (ValueError ''execution count and limit must be non-negative/positive'')
      else Inr (executions < limit))"

section \<open>Execution requests\<close>

datatype eligibility = ExecReady | ExecBlocked | ExecRejected | ExecUnknown

record execution_decision =
  ed_candidate_id :: uuid
  ed_eligibility :: eligibility
  ed_reason :: string

record execution_request =
  er_execution_id :: uuid
  er_run_id :: uuid
  er_question_id :: string
  er_gap_id :: uuid
  er_dimension_key :: string
  er_candidate_id :: uuid
  er_ranking_score :: rat
  er_query_text :: string
  er_source_constraints :: "string list"
  er_requirement_type :: requirement_type
  er_execution_reason :: string
  er_feedback_id :: "uuid option"
  er_feedback_execution_id :: "uuid option"
  er_trigger_reason :: "string option"

definition validate_request :: "execution_request \<Rightarrow> execution_request result" where
  "validate_request q =
     (if blank (er_query_text q)
        then Inl (ValueError ''query execution request text must not be empty'')
      else if \<not> (0 \<le> er_ranking_score q \<and> er_ranking_score q \<le> 1)
        then Inl (ValueError ''ranking score must be between 0 and 1'')
      else if blank (er_execution_reason q)
        then Inl (ValueError ''query execution reason must not be empty'')
      else Inr q)"

definition evaluate_execution ::
  "query_candidate \<Rightarrow> candidate_validation option \<Rightarrow> candidate_ranking option \<Rightarrow> gap_requirement
    \<Rightarrow> execution_decision result" where
  "evaluate_execution c v k r =
     (let decide = (\<lambda>e reason. Inr \<lparr>ed_candidate_id = qc_candidate_id c, ed_eligibility = e,
                      ed_reason = reason\<rparr>)
      in if gr_closure_status r = GClosed then decide ExecBlocked ''gap_already_closed''
         else if qc_status c = CandidateRejected then decide ExecRejected ''invalid_query_candidate''
         else if qc_status c = CandidateUnknown then decide ExecUnknown ''candidate_status_unknown''
         else case v of
             None \<Rightarrow> decide ExecUnknown ''candidate_validation_missing''
           | Some x \<Rightarrow>
               (if qv_candidate_id x \<noteq> qc_candidate_id c
                  then Inl (ValueError ''validation and query candidate do not match'')
                else if qv_status x = Invalid
                  then decide ExecRejected ''invalid_query_candidate''
                else if qv_status x \<noteq> Valid
                  then decide ExecBlocked ''candidate_validation_not_ready''
                else case k of
                    None \<Rightarrow> decide ExecBlocked ''candidate_ranking_missing''
                  | Some y \<Rightarrow>
                      (if rk_candidate_id y \<noteq> qc_candidate_id c
                       then Inl (ValueError ''ranking and query candidate do not match'')
                       else decide ExecReady ''valid_candidate_with_ranking_and_open_gap'')))"

fun join_semi :: "string list \<Rightarrow> string" where
  "join_semi [] = []"
| "join_semi [x] = x"
| "join_semi (x # y # xs) = x @ ''; '' @ join_semi (y # xs)"

definition create_request ::
  "query_candidate \<Rightarrow> candidate_validation option \<Rightarrow> candidate_ranking option \<Rightarrow> gap_requirement
    \<Rightarrow> feedback_execution option \<Rightarrow> execution_request list result" where
  "create_request c v k r ctx =
     (case evaluate_execution c v k r of
        Inl e \<Rightarrow> Inl e
      | Inr d \<Rightarrow>
          (if ed_eligibility d \<noteq> ExecReady then Inr []
           else map_sum id (\<lambda>q. [q]) (validate_request
             \<lparr>er_execution_id = UUID5 ''query-execution:'' [PId (qc_candidate_id c)],
              er_run_id = qc_run_id c, er_question_id = qc_question_id c, er_gap_id = qc_gap_id c,
              er_dimension_key = qc_dimension_key c, er_candidate_id = qc_candidate_id c,
              er_ranking_score = rk_score (the k), er_query_text = qc_query_text c,
              er_source_constraints = qc_constraints c,
              er_requirement_type = qc_requirement_type c,
              er_execution_reason = join_semi (rk_reasons (the k)),
              er_feedback_id = (case ctx of Some x \<Rightarrow> Some (fe_feedback_id x)
                                | None \<Rightarrow> qc_feedback_id c),
              er_feedback_execution_id = map_option fe_execution_id ctx,
              er_trigger_reason = (case ctx of Some _ \<Rightarrow> qc_avoid_reason c | None \<Rightarrow> None)\<rparr>)))"

section \<open>Handing a request to the research loop\<close>

record feedback_query =
  fq_feedback_execution_id :: uuid
  fq_feedback_id :: uuid
  fq_run_id :: uuid
  fq_question_id :: string
  fq_gap_id :: uuid
  fq_dimension_key :: string
  fq_requirement_type :: requirement_type
  fq_candidate_id :: uuid
  fq_execution_id :: uuid
  fq_trigger_reason :: string

definition feedback_query_from ::
  "feedback_execution \<Rightarrow> execution_request \<Rightarrow> feedback_query result" where
  "feedback_query_from x q =
     (if er_feedback_id q \<noteq> Some (fe_feedback_id x)
        then Inl (ValueError ''feedback request does not match its context'')
      else if er_feedback_execution_id q \<noteq> Some (fe_execution_id x)
        then Inl (ValueError ''feedback execution request does not match its context'')
      else Inr \<lparr>fq_feedback_execution_id = fe_execution_id x, fq_feedback_id = fe_feedback_id x,
             fq_run_id = fe_run_id x, fq_question_id = fe_question_id x, fq_gap_id = fe_gap_id x,
             fq_dimension_key = fe_dimension_key x, fq_requirement_type = fe_requirement_type x,
             fq_candidate_id = fe_candidate_id x, fq_execution_id = er_execution_id q,
             fq_trigger_reason =
               (case er_trigger_reason q of None \<Rightarrow> ''feedback_recovery''
                | Some t \<Rightarrow> if t = [] then ''feedback_recovery'' else t)\<rparr>)"

section \<open>Lemmas: scores\<close>

lemma share_score_range: "1 / 4 \<le> share_score terms txt" "share_score terms txt \<le> 1"
  by (simp_all add: share_score_def)

lemma match_range:
  "1 / 4 \<le> requirement_match_score c r" "0 \<le> requirement_match_score c r"
  "requirement_match_score c r \<le> 1"
proof -
  show "1 / 4 \<le> requirement_match_score c r"
    unfolding requirement_match_score_def by (rule share_score_range)
  then show "0 \<le> requirement_match_score c r" by linarith
  show "requirement_match_score c r \<le> 1"
    unfolding requirement_match_score_def by (rule share_score_range)
qed

lemma gain_range:
  "1 / 4 \<le> evidence_gain_score c r" "0 \<le> evidence_gain_score c r" "evidence_gain_score c r \<le> 1"
proof -
  show "1 / 4 \<le> evidence_gain_score c r"
    unfolding evidence_gain_score_def by (rule share_score_range)
  then show "0 \<le> evidence_gain_score c r" by linarith
  show "evidence_gain_score c r \<le> 1"
    unfolding evidence_gain_score_def by (rule share_score_range)
qed

lemma share_score_none: "count_terms terms txt = 0 \<Longrightarrow> share_score terms txt = 1 / 4"
  by (simp add: share_score_def)

lemma alignment_score_range:
  "0 \<le> alignment_score v" "alignment_score v \<le> 1"
  "alignment_score v = 0 \<longleftrightarrow> (case v of None \<Rightarrow> True | Some x \<Rightarrow> qv_status x = Invalid)"
  by (auto simp: alignment_score_def split: option.splits validation_status.splits)

lemma source_potential_range: "0 < source_potential_score c" "source_potential_score c \<le> 1"
  by (simp_all add: source_potential_score_def Let_def)

lemma cost_score_range: "0 < cost_score c" "cost_score c \<le> 1"
  by (simp_all add: cost_score_def Let_def max_def min_def)

lemma fifth_root4_range: "0 \<le> fifth_root4 q" "fifth_root4 q \<le> 1"
proof -
  let ?n = "length (filter (\<lambda>k. (rat_of_nat (2 * k) - 1) ^ 5 \<le> (2 * rat_of_nat SCORE_GRID) ^ 5 * q)
       [1..<Suc SCORE_GRID])"
  have "?n \<le> length [1..<Suc SCORE_GRID]" by (rule length_filter_le)
  then have "?n \<le> SCORE_GRID" by (simp only: length_upt diff_Suc_1)
  then have "rat_of_nat ?n \<le> rat_of_nat SCORE_GRID" by (simp only: of_nat_le_iff)
  then show "0 \<le> fifth_root4 q" "fifth_root4 q \<le> 1"
    unfolding fifth_root4_def by (simp_all add: SCORE_GRID_def divide_le_eq_1 del: upt_Suc)
qed

lemma fifth_root4_zero: "fifth_root4 q = 0 \<longleftrightarrow> (2 * rat_of_nat SCORE_GRID) ^ 5 * q < 1"
proof
  assume z: "fifth_root4 q = 0"
  let ?P = "\<lambda>k. (rat_of_nat (2 * k) - 1) ^ 5 \<le> (2 * rat_of_nat SCORE_GRID) ^ 5 * q"
  have "SCORE_GRID \<noteq> 0" by (simp add: SCORE_GRID_def)
  then have e: "filter ?P [1..<Suc SCORE_GRID] = []"
    using z unfolding fifth_root4_def
    by (simp only: divide_eq_0_iff of_nat_eq_0_iff length_0_conv simp_thms)
  have "1 \<in> set [1..<Suc SCORE_GRID]" by (simp add: SCORE_GRID_def del: upt_Suc)
  then have "\<not> ?P 1" using e unfolding filter_empty_conv by blast
  then show "(2 * rat_of_nat SCORE_GRID) ^ 5 * q < 1" by simp
next
  assume l: "(2 * rat_of_nat SCORE_GRID) ^ 5 * q < 1"
  have "\<not> (rat_of_nat (2 * k) - 1) ^ 5 \<le> (2 * rat_of_nat SCORE_GRID) ^ 5 * q"
    if "k \<in> set [1..<Suc SCORE_GRID]" for k
  proof -
    have "1 \<le> k" using that by (simp del: upt_Suc)
    then have "(1 :: rat) \<le> rat_of_nat (2 * k) - 1" by (simp add: of_nat_mult [symmetric] del: of_nat_mult)
    then have "(1 :: rat) \<le> (rat_of_nat (2 * k) - 1) ^ 5" by (rule one_le_power)
    then show ?thesis using l by linarith
  qed
  then have "filter (\<lambda>k. (rat_of_nat (2 * k) - 1) ^ 5 \<le> (2 * rat_of_nat SCORE_GRID) ^ 5 * q)
      [1..<Suc SCORE_GRID] = []"
    unfolding filter_empty_conv by blast
  then show "fifth_root4 q = 0" by (simp only: fifth_root4_def list.size of_nat_0 div_0)
qed

lemma fifth_root4_pos: "q \<ge> 1 / 10000 \<Longrightarrow> fifth_root4 q \<noteq> 0"
  unfolding fifth_root4_zero SCORE_GRID_def by simp

lemma product_bound:
  fixes a m s g c :: rat
  assumes "a \<ge> 1 / 4" "m \<ge> 1 / 4" "s \<ge> 15 / 100" "g \<ge> 1 / 4" "c \<ge> 1 / 10"
  shows "a * m * s * g * c \<ge> 1 / 10000"
proof -
  have "1 / 4 * (1 / 4) \<le> a * m" using assms by (intro mult_mono) auto
  then have "1 / 16 * (15 / 100) \<le> a * m * s" using assms by (intro mult_mono) auto
  then have "15 / 1600 * (1 / 4) \<le> a * m * s * g" using assms by (intro mult_mono) auto
  then have "15 / 6400 * (1 / 10) \<le> a * m * s * g * c" using assms by (intro mult_mono) auto
  then show ?thesis by simp
qed

lemma total_zero:
  "fifth_root4 (alignment_score v * requirement_match_score c r * source_potential_score c
      * evidence_gain_score c r * cost_score c) = 0
   \<longleftrightarrow> (case v of None \<Rightarrow> True | Some x \<Rightarrow> qv_status x = Invalid)"
proof (cases "alignment_score v = 0")
  case True
  then show ?thesis using alignment_score_range(3) [of v] by (simp add: fifth_root4_zero)
next
  case False
  then have "alignment_score v \<ge> 1 / 4"
    by (auto simp: alignment_score_def split: option.splits validation_status.splits)
  moreover have "source_potential_score c \<ge> 15 / 100"
    by (simp add: source_potential_score_def Let_def)
  moreover have "cost_score c \<ge> 1 / 10" by (simp add: cost_score_def Let_def)
  ultimately have "fifth_root4 (alignment_score v * requirement_match_score c r
      * source_potential_score c * evidence_gain_score c r * cost_score c) \<noteq> 0"
    by (intro fifth_root4_pos product_bound match_range(1) gain_range(1))
  then show ?thesis using False alignment_score_range(3) [of v] by simp
qed

text \<open>The validator leaves a candidate undecided only when no term of the requirement matches.\<close>

lemma undecided_weak:
  assumes "validate_candidate c p r = Inr [v]" "qv_status v \<noteq> Valid" "qv_status v \<noteq> Invalid"
  shows "requirement_match_score c r = 1 / 4"
proof -
  have e: "qv_status v = fst (evaluate_candidate (gr_type r) c)"
    using assms(1) by (auto simp: validate_candidate_def split_beta split: if_splits)
  have "count_terms (match_terms (gr_type r) (qc_dimension_key c)) (casefold (qc_query_text c)) = 0"
    using assms(2,3)
    by (cases "gr_type r")
       (auto simp: e evaluate_candidate_def Let_def any_term_def count_terms_def split: if_splits)
  then show ?thesis by (simp add: requirement_match_score_def share_score_none)
qed

definition validator_output :: "query_candidate \<Rightarrow> gap_requirement \<Rightarrow> candidate_validation option \<Rightarrow> bool" where
  "validator_output c r v \<longleftrightarrow> (\<forall>x. v = Some x \<longrightarrow> (\<exists>p. validate_candidate c p r = Inr [x]))"

lemma score_candidate_total:
  assumes "validator_output c r v"
  shows "\<exists>s. score_candidate c v r = Inr s \<and> cs_candidate_id s = qc_candidate_id c
    \<and> 0 \<le> cs_total s \<and> cs_total s \<le> 1 \<and> cs_reasons s \<noteq> [] \<and> \<not> blank (hd (cs_reasons s))
    \<and> (cs_total s = 0 \<longleftrightarrow> (case v of None \<Rightarrow> True | Some x \<Rightarrow> qv_status x = Invalid))"
proof -
  let ?m = "requirement_match_score c r" and ?s = "source_potential_score c"
    and ?g = "evidence_gain_score c r" and ?c = "cost_score c"
  let ?R = "ranking_reasons c v r (alignment_score v) ?m ?s ?g ?c"
  have "?R \<noteq> [] \<and> \<not> blank (hd ?R)"
  proof (cases v)
    case (Some x)
    show ?thesis
    proof (cases "qv_status x = Valid \<or> qv_status x = Invalid")
      case False
      then have "?m = 1 / 4" using assms Some undecided_weak unfolding validator_output_def by blast
      then show ?thesis using Some False by (simp add: ranking_reasons_def blank_iff is_space_def)
    qed (auto simp: ranking_reasons_def Some blank_iff is_space_def)
  qed (simp add: ranking_reasons_def blank_iff is_space_def)
  then show ?thesis
    using match_range [of c r] gain_range [of c r] source_potential_range [of c] cost_score_range [of c] alignment_score_range [of v]
      fifth_root4_range total_zero [of v c r]
    by (auto simp: score_candidate_def validate_score_def Let_def not_less less_imp_le)
qed

section \<open>Lemmas: ranking and requests\<close>

lemma traverse_total_ex:
  "(\<And>x. x \<in> set xs \<Longrightarrow> \<exists>y. f x = Inr y \<and> P x y) \<Longrightarrow>
   \<exists>ys. traverse f xs = Inr ys \<and> list_all2 P xs ys"
  by (induction xs) fastforce+

definition sound_score ::
  "(uuid \<rightharpoonup> candidate_validation) \<Rightarrow> query_candidate \<Rightarrow> candidate_score \<Rightarrow> bool" where
  "sound_score validations c s \<longleftrightarrow>
     cs_candidate_id s = qc_candidate_id c \<and> 0 \<le> cs_total s \<and> cs_total s \<le> 1
     \<and> cs_reasons s \<noteq> [] \<and> \<not> blank (hd (cs_reasons s))
     \<and> (cs_total s = 0 \<longleftrightarrow> (case validations (qc_candidate_id c) of None \<Rightarrow> True
                           | Some x \<Rightarrow> qv_status x = Invalid))"

lemma rank_candidates_total:
  assumes "gr_closure_status r \<noteq> GClosed"
    and "\<forall>c \<in> set cs. validator_output c r (validations (qc_candidate_id c))"
  shows "\<exists>scored ordered. list_all2 (sound_score validations) cs scored
    \<and> ordered = sort_key (\<lambda>s. (- cs_total s, show_id (cs_candidate_id s))) scored
    \<and> rank_candidates show_id cs validations r = Inr (map2 mk_ranking [1..<length cs + 1] ordered)"
proof -
  have "\<exists>s. score_candidate c (validations (qc_candidate_id c)) r = Inr s \<and> sound_score validations c s"
    if "c \<in> set cs" for c
    using assms(2) that score_candidate_total unfolding sound_score_def by blast
  then obtain scored where s: "traverse (\<lambda>c. score_candidate c (validations (qc_candidate_id c)) r) cs
      = Inr scored" "list_all2 (sound_score validations) cs scored"
    using traverse_total_ex [of cs "\<lambda>c. score_candidate c (validations (qc_candidate_id c)) r"
        "sound_score validations"] by blast
  then show ?thesis
    using assms(1) list_all2_lengthD [OF s(2)] by (auto simp: rank_candidates_def Let_def)
qed

lemma map_mk_ranking:
  assumes "length is = length ss"
  shows "map rk_candidate_id (map2 mk_ranking is ss) = map cs_candidate_id ss"
    and "map rk_rank (map2 mk_ranking is ss) = is"
    and "map rk_score (map2 mk_ranking is ss) = map cs_total ss"
    and "map rk_reasons (map2 mk_ranking is ss) = map cs_reasons ss"
  using assms by (induction "is" ss rule: list_induct2) (simp_all add: mk_ranking_def)

lemma sorted_negated: "sorted (map (\<lambda>s. (- f s, g s)) xs) \<Longrightarrow> sorted_wrt (\<ge>) (map f xs)"
  for f :: "'s \<Rightarrow> rat" and g :: "'s \<Rightarrow> 'b :: linorder"
  by (induction xs) (auto simp: less_eq_prod_def)

text \<open>\<open>fifth_root4\<close> is the nearest grid point to the fifth root.\<close>

lemma length_filter_half:
  fixes x :: real
  assumes "0 \<le> x" "x \<le> 1"
  shows "length (filter (\<lambda>k. 2 * real k - 1 \<le> 2 * real n * x) [1..<Suc n]) = nat \<lfloor>real n * x + 1 / 2\<rfloor>"
proof -
  let ?m = "nat \<lfloor>real n * x + 1 / 2\<rfloor>"
  have nx: "0 \<le> real n * x" "real n * x \<le> real n"
    using assms by (simp_all add: mult_left_le)
  have half: "2 * real k - 1 \<le> 2 * real n * x \<longleftrightarrow> real k \<le> real n * x + 1 / 2" for k by auto
  have le: "2 * real k - 1 \<le> 2 * real n * x \<longleftrightarrow> k \<le> ?m" for k
  proof
    assume "2 * real k - 1 \<le> 2 * real n * x"
    then show "k \<le> ?m" unfolding half by (rule le_nat_floor)
  next
    assume "k \<le> ?m"
    then have "real k \<le> real ?m" by simp
    also have "\<dots> \<le> real n * x + 1 / 2" using nx by (intro of_nat_floor) simp
    finally show "2 * real k - 1 \<le> 2 * real n * x" unfolding half .
  qed
  have "?m \<le> n" using nx by linarith
  then have "{k \<in> {1..<Suc n}. k \<le> ?m} = {1..<Suc ?m}" by auto
  then have "card {k \<in> {1..<Suc n}. k \<le> ?m} = ?m" by simp
  moreover have "length (filter (\<lambda>k. k \<le> ?m) [1..<Suc n]) = card {k \<in> {1..<Suc n}. k \<le> ?m}"
    using distinct_card [of "filter (\<lambda>k. k \<le> ?m) [1..<Suc n]"] by (simp del: upt_Suc)
  ultimately show ?thesis unfolding le by simp
qed

lemma fifth_root4_floor:
  fixes x :: real
  assumes "x ^ 5 = real_of_rat q" "0 \<le> x" "x \<le> 1"
  shows "real_of_rat (fifth_root4 q)
    = real (nat \<lfloor>real SCORE_GRID * x + 1 / 2\<rfloor>) / real SCORE_GRID"
proof -
  have "(rat_of_nat (2 * k) - 1) ^ 5 \<le> (2 * rat_of_nat SCORE_GRID) ^ 5 * q
      \<longleftrightarrow> 2 * real k - 1 \<le> 2 * real SCORE_GRID * x" if "1 \<le> k" for k
  proof -
    have "(rat_of_nat (2 * k) - 1) ^ 5 \<le> (2 * rat_of_nat SCORE_GRID) ^ 5 * q
      \<longleftrightarrow> real_of_rat ((rat_of_nat (2 * k) - 1) ^ 5) \<le> real_of_rat ((2 * rat_of_nat SCORE_GRID) ^ 5 * q)"
      by (simp only: of_rat_less_eq)
    also have "\<dots> \<longleftrightarrow> (2 * real k - 1) ^ 5 \<le> (2 * real SCORE_GRID * x) ^ 5"
      by (simp add: of_rat_power of_rat_mult of_rat_diff power_mult_distrib assms(1))
    also have "\<dots> \<longleftrightarrow> 2 * real k - 1 \<le> 2 * real SCORE_GRID * x"
      using that assms(2) by (intro power_mono_iff) auto
    finally show ?thesis .
  qed
  then have "filter (\<lambda>k. (rat_of_nat (2 * k) - 1) ^ 5 \<le> (2 * rat_of_nat SCORE_GRID) ^ 5 * q)
        [1..<Suc SCORE_GRID]
      = filter (\<lambda>k. 2 * real k - 1 \<le> 2 * real SCORE_GRID * x) [1..<Suc SCORE_GRID]"
    by (intro filter_cong) (auto simp del: upt_Suc)
  then show ?thesis
    using length_filter_half [OF assms(2,3), of SCORE_GRID]
    by (simp only: fifth_root4_def of_rat_divide of_rat_of_nat_eq)
qed

lemma grid_error:
  assumes "t = real n / real SCORE_GRID" and "\<bar>real n - real SCORE_GRID * x\<bar> \<le> 1 / 2"
  shows "\<bar>t - x\<bar> \<le> 1 / 20000"
proof -
  have "real n = 10000 * t" using assms(1) by (simp add: SCORE_GRID_def)
  then have "10000 * t - 10000 * x \<le> 1 / 2" "10000 * x - 10000 * t \<le> 1 / 2"
    using assms(2) unfolding abs_le_iff by (auto simp: SCORE_GRID_def)
  then show ?thesis unfolding abs_le_iff by (intro conjI) linarith+
qed

lemma nearest: "0 \<le> y \<Longrightarrow> \<bar>real (nat \<lfloor>y + 1 / 2\<rfloor>) - y\<bar> \<le> 1 / 2"
  by linarith

lemma product_range:
  fixes a m s g c :: rat
  assumes "0 \<le> a" "a \<le> 1" "0 \<le> m" "m \<le> 1" "0 \<le> s" "s \<le> 1" "0 \<le> g" "g \<le> 1" "0 \<le> c" "c \<le> 1"
  shows "0 \<le> a * m * s * g * c" "a * m * s * g * c \<le> 1"
  using assms by (simp_all add: mult_le_one)

lemma blank_join_semi: "xs \<noteq> [] \<Longrightarrow> \<not> blank (hd xs) \<Longrightarrow> \<not> blank (join_semi xs)"
  by (cases xs rule: join_semi.cases) simp_all

section \<open>Properties\<close>

text \<open>
  C27. Ranking candidates of an open requirement whose validations come from the validator never
  raises. It ranks every candidate once, numbers the ranks from one, and orders them by decreasing
  score; every score lies between 0 and 1 with at least one reason, and is 0 exactly for the
  candidates with no validation or an invalid one, which therefore come last.
\<close>

theorem ranking_orders_validated_candidates:
  assumes "gr_closure_status r \<noteq> GClosed"
    and "\<forall>c \<in> set cs. validator_output c r (validations (qc_candidate_id c))"
  shows "\<exists>ks. rank_candidates show_id cs validations r = Inr ks
    \<and> mset (map rk_candidate_id ks) = mset (map qc_candidate_id cs)
    \<and> map rk_rank ks = [1..<length cs + 1]
    \<and> sorted_wrt (\<ge>) (map rk_score ks)
    \<and> (\<forall>k \<in> set ks. 0 \<le> rk_score k \<and> rk_score k \<le> 1 \<and> rk_reasons k \<noteq> []
         \<and> (rk_score k = 0 \<longleftrightarrow> (case validations (rk_candidate_id k) of None \<Rightarrow> True
                             | Some v \<Rightarrow> qv_status v = Invalid)))"
proof -
  obtain scored ordered where s: "list_all2 (sound_score validations) cs scored"
    and o': "ordered = sort_key (\<lambda>s. (- cs_total s, show_id (cs_candidate_id s))) scored"
    and k: "rank_candidates show_id cs validations r = Inr (map2 mk_ranking [1..<length cs + 1] ordered)"
    using rank_candidates_total [OF assms] by blast
  let ?ks = "map2 mk_ranking [1..<length cs + 1] ordered"
  have len: "length [1..<length cs + 1] = length ordered"
    using list_all2_lengthD [OF s] by (simp add: o' del: upt_Suc)
  have "map cs_candidate_id scored = map qc_candidate_id cs"
    using s by (induction rule: list_all2_induct) (simp_all add: sound_score_def)
  then have "image_mset cs_candidate_id (mset scored) = mset (map qc_candidate_id cs)"
    by (metis mset_map)
  moreover have "mset (map cs_candidate_id ordered) = image_mset cs_candidate_id (mset scored)"
    by (simp add: o')
  ultimately have ids: "mset (map rk_candidate_id ?ks) = mset (map qc_candidate_id cs)"
    by (simp only: map_mk_ranking(1) [OF len])
  have "sorted (map (\<lambda>s. (- cs_total s, show_id (cs_candidate_id s))) ordered)"
    unfolding o' by (rule sorted_sort_key)
  then have sorted: "sorted_wrt (\<ge>) (map rk_score ?ks)"
    unfolding map_mk_ranking(3) [OF len] by (rule sorted_negated)
  have "\<exists>c. sound_score validations c s" if "s \<in> set scored" for s
    using s that by (induction rule: list_all2_induct) auto
  then have "0 \<le> rk_score k \<and> rk_score k \<le> 1 \<and> rk_reasons k \<noteq> []
       \<and> (rk_score k = 0 \<longleftrightarrow> (case validations (rk_candidate_id k) of None \<Rightarrow> True
                           | Some v \<Rightarrow> qv_status v = Invalid))" if "k \<in> set ?ks" for k
    using that set_zip_rightD
    by (fastforce simp: o' mk_ranking_def sound_score_def)
  then show ?thesis using k ids sorted map_mk_ranking(2) [OF len] by (intro exI [of _ ?ks]) simp
qed

definition demo_plan :: query_plan where
  "demo_plan =
     \<lparr>qp_plan_id = UUID 11, qp_run_id = UUID 2, qp_question_id = ''q1'', qp_gap_id = UUID 1,
      qp_dimension_key = ''market'', qp_requirement_type = EvidenceQuality, qp_intent_id = UUID 12,
      qp_objective = Txt ''better evidence'', qp_strategy = EvidenceUpgrade,
      qp_topics = [''primary source''], qp_source_types = [''primary_source''],
      qp_constraints = [], qp_priority = 3, qp_status = Suggested, qp_created_at = 1,
      qp_context = None\<rparr>"

definition demo_candidate :: query_candidate where
  "demo_candidate =
     \<lparr>qc_candidate_id = UUID 13, qc_run_id = UUID 2, qc_question_id = ''q1'', qc_gap_id = UUID 1,
      qc_dimension_key = ''market'', qc_requirement_type = EvidenceQuality, qc_plan_id = UUID 11,
      qc_query_text = ''gpu primary source'', qc_purpose = Txt ''better evidence'',
      qc_topics = [''primary source''], qc_source_types = [''primary_source''],
      qc_constraints = [''c''], qc_generation_reason = [(''plan:'', UUID 11)],
      qc_status = CandidateGenerated, qc_feedback_id = Some (UUID 5),
      qc_avoid_reason = Some ''no_valid_path'', qc_context = None\<rparr>"

definition demo_validation :: candidate_validation where
  "demo_validation =
     \<lparr>qv_validation_id = UUID5 ''query-candidate-validation:'' [PId (UUID 13)],
      qv_candidate_id = UUID 13, qv_plan_id = UUID 11, qv_gap_id = UUID 1, qv_question_id = ''q1'',
      qv_status = Valid, qv_alignment = PlanAligned, qv_issues = [],
      qv_explanation = Zh ''consistent with the plan'' []\<rparr>"

lemmas execution_demo_defs = demo_plan_def demo_candidate_def demo_validation_def demo_requirement_def

lemma demo_validated:
  "validate_candidate demo_candidate demo_plan (demo_requirement EvidenceQuality GOpen)
     = Inr [demo_validation]"
  by (simp add: execution_demo_defs validate_candidate_def evaluate_candidate_def any_term_def
      contains_code casefold_def lower_char_def)

theorem ranking_orders_validated_candidates_witness:
  "\<exists>ks. rank_candidates (\<lambda>_. ''id'') [demo_candidate] [UUID 13 \<mapsto> demo_validation]
          (demo_requirement EvidenceQuality GOpen) = Inr ks
     \<and> map rk_candidate_id ks = [UUID 13] \<and> (\<forall>k \<in> set ks. rk_score k > 0)"
proof -
  let ?r = "demo_requirement EvidenceQuality GOpen" and ?v = "[UUID 13 \<mapsto> demo_validation]"
  have open_gap: "gr_closure_status ?r \<noteq> GClosed" by (simp add: demo_requirement_def)
  have "\<forall>c \<in> set [demo_candidate]. validator_output c ?r (?v (qc_candidate_id c))"
    using demo_validated by (auto simp: validator_output_def demo_candidate_def)
  from ranking_orders_validated_candidates [OF open_gap this, of "\<lambda>_. ''id''"]
  obtain ks where k: "rank_candidates (\<lambda>_. ''id'') [demo_candidate] ?v ?r = Inr ks"
    "mset (map rk_candidate_id ks) = mset (map qc_candidate_id [demo_candidate])"
    "\<forall>k \<in> set ks. 0 \<le> rk_score k \<and> rk_score k \<le> 1 \<and> rk_reasons k \<noteq> []
         \<and> (rk_score k = 0 \<longleftrightarrow> (case ?v (rk_candidate_id k) of None \<Rightarrow> True
                             | Some v \<Rightarrow> qv_status v = Invalid))"
    by (elim exE conjE) (rule that, assumption+)
  have ids: "map rk_candidate_id ks = [UUID 13]"
    using k(2) by (simp add: demo_candidate_def del: mset_map)
  then have "\<forall>k \<in> set ks. rk_candidate_id k = UUID 13" by (auto simp: map_eq_Cons_conv)
  then have "\<forall>k \<in> set ks. rk_score k > 0" using k(3) by (auto simp: demo_validation_def less_le)
  then show ?thesis using k(1) ids by (intro exI [of _ ks] conjI)
qed

text \<open>
  C28. The total score of a candidate is the fifth root of the product of its five scores, up to
  the rounding to four places.
\<close>

theorem total_score_is_geometric_mean:
  assumes "score_candidate c v r = Inr s"
  shows "\<bar>real_of_rat (cs_total s)
      - root 5 (real_of_rat (cs_alignment s * cs_requirement_match s * cs_source_potential s
                              * cs_evidence_gain s * cs_cost s))\<bar> \<le> 1 / 20000"
proof -
  let ?q = "cs_alignment s * cs_requirement_match s * cs_source_potential s * cs_evidence_gain s * cs_cost s"
  let ?x = "root 5 (real_of_rat ?q)"
  have t: "cs_total s = fifth_root4 ?q"
    and parts: "cs_alignment s = alignment_score v" "cs_requirement_match s = requirement_match_score c r"
      "cs_source_potential s = source_potential_score c" "cs_evidence_gain s = evidence_gain_score c r"
      "cs_cost s = cost_score c"
    using assms by (auto simp: score_candidate_def validate_score_def Let_def split: if_splits)
  have q: "0 \<le> ?q" "?q \<le> 1"
    unfolding parts
    using alignment_score_range(1,2) [of v] match_range [of c r] source_potential_range [of c]
      gain_range [of c r] cost_score_range [of c]
    by (intro product_range; simp)+
  have x: "?x ^ 5 = real_of_rat ?q" "0 \<le> ?x" "?x \<le> 1"
    using q by (simp_all add: real_root_pow_pos2)
  have "real_of_rat (cs_total s) = real (nat \<lfloor>real SCORE_GRID * ?x + 1 / 2\<rfloor>) / real SCORE_GRID"
    unfolding t by (rule fifth_root4_floor [OF x])
  moreover have "\<bar>real (nat \<lfloor>real SCORE_GRID * ?x + 1 / 2\<rfloor>) - real SCORE_GRID * ?x\<bar> \<le> 1 / 2"
    using x(2) by (intro nearest) simp
  ultimately show ?thesis by (rule grid_error)
qed

theorem total_score_is_geometric_mean_witness:
  "\<exists>s. score_candidate demo_candidate (Some demo_validation) (demo_requirement EvidenceQuality GOpen) = Inr s
    \<and> \<bar>real_of_rat (cs_total s)
        - root 5 (real_of_rat (cs_alignment s * cs_requirement_match s * cs_source_potential s
                                * cs_evidence_gain s * cs_cost s))\<bar> \<le> 1 / 20000"
proof -
  have "validator_output demo_candidate (demo_requirement EvidenceQuality GOpen) (Some demo_validation)"
    using demo_validated by (auto simp: validator_output_def)
  then obtain s where "score_candidate demo_candidate (Some demo_validation)
      (demo_requirement EvidenceQuality GOpen) = Inr s"
    using score_candidate_total by blast
  with total_score_is_geometric_mean [OF this] show ?thesis by blast
qed

text \<open>
  An execution request is created exactly for a generated candidate of an open gap with a valid
  validation and a ranking. It carries the identity, text and constraints of the candidate, and a
  feedback context is accepted for the hand-over to the research loop, with the reason of the
  feedback as its trigger.
\<close>

theorem execution_request_iff_ready:
  assumes "\<forall>x. v = Some x \<longrightarrow> qv_candidate_id x = qc_candidate_id c"
    and "\<forall>y. k = Some y \<longrightarrow> rk_candidate_id y = qc_candidate_id c
           \<and> 0 \<le> rk_score y \<and> rk_score y \<le> 1 \<and> \<not> blank (join_semi (rk_reasons y))"
    and "\<not> blank (qc_query_text c)"
  shows "\<exists>qs. create_request c v k r ctx = Inr qs \<and> length qs \<le> 1
    \<and> (qs \<noteq> [] \<longleftrightarrow> gr_closure_status r \<noteq> GClosed \<and> qc_status c = CandidateGenerated
         \<and> (\<exists>x. v = Some x \<and> qv_status x = Valid) \<and> k \<noteq> None)
    \<and> (\<forall>q \<in> set qs. er_candidate_id q = qc_candidate_id c \<and> er_gap_id q = qc_gap_id c
         \<and> er_query_text q = qc_query_text c \<and> er_source_constraints q = qc_constraints c
         \<and> er_execution_id q = UUID5 ''query-execution:'' [PId (qc_candidate_id c)]
         \<and> (\<forall>x reason. ctx = Some x \<and> qc_avoid_reason c = Some reason \<and> reason \<noteq> [] \<longrightarrow>
              (\<exists>fq. feedback_query_from x q = Inr fq \<and> fq_feedback_id fq = fe_feedback_id x
                 \<and> fq_execution_id fq = er_execution_id q \<and> fq_trigger_reason fq = reason)))"
proof (cases "gr_closure_status r \<noteq> GClosed \<and> qc_status c = CandidateGenerated
         \<and> (\<exists>x. v = Some x \<and> qv_status x = Valid) \<and> k \<noteq> None")
  case True
  then obtain x y where "v = Some x" "qv_status x = Valid" "k = Some y" by auto
  then show ?thesis
    using True assms
    by (simp add: create_request_def evaluate_execution_def validate_request_def feedback_query_from_def)
next
  case False
  then have "create_request c v k r ctx = Inr []"
    using assms
    by (cases "qc_status c"; cases v; cases k)
       (auto simp: create_request_def evaluate_execution_def Let_def)
  then show ?thesis using False by simp
qed

theorem execution_request_iff_ready_witness:
  "\<exists>qs. create_request demo_candidate (Some demo_validation)
      (Some \<lparr>rk_candidate_id = UUID 13, rk_rank = 1, rk_score = 1 / 2, rk_reasons = [''weak''],
         rk_details = \<lparr>cs_candidate_id = UUID 13, cs_alignment = 1, cs_requirement_match = 1,
           cs_source_potential = 1, cs_evidence_gain = 1, cs_cost = 1, cs_total = 1 / 2,
           cs_reasons = [''weak'']\<rparr>, rk_status = Ranked\<rparr>)
      (demo_requirement EvidenceQuality GOpen) None = Inr qs \<and> length qs \<le> 1 \<and> qs \<noteq> []"
  (is "\<exists>qs. create_request _ _ (Some ?k) ?r _ = _ \<and> _")
  using execution_request_iff_ready [of "Some demo_validation" demo_candidate "Some ?k" ?r None]
  by (auto simp: execution_demo_defs blank_iff is_space_def)

end
