(* ===== verification/Feedback_Dispatch.thy ===== *)
theory Feedback_Dispatch
  imports Query_Execution
begin

text \<open>
  Routing closure feedback back into the research pipeline:
  \<open>app/domain/closure_feedback_dispatcher.py\<close> and, from \<open>app/infrastructure/db/research_tools.py\<close>,
  \<open>_dispatch_closure_feedback\<close>, \<open>_dispatch_backfilled_closure_feedbacks\<close>,
  \<open>_run_feedback_completeness_pass\<close>, \<open>_finalize_run_closure_feedback\<close>,
  \<open>_closure_feedback_ids_by_gap\<close> and \<open>_prepare_feedback_target\<close>.

  The run row is the record \<open>run_usage\<close>: the two keys of its usage snapshot that these functions
  own, the rest of the snapshot, and the log of appended events, each event with the references
  later code reads. A database transaction that raises leaves no trace, so a raising step has no
  successor state. Rows read from the database are arguments. The need, action and plan time stamps
  are one argument \<open>now\<close>.
\<close>

section \<open>The dispatcher\<close>

datatype dispatch_status = DispatchCreated | DispatchSkipped | DispatchDuplicated | DispatchBlocked

record dispatch_result =
  dr_feedback_id :: uuid
  dr_gap_id :: uuid
  dr_status :: dispatch_status
  dr_reason :: string
  dr_need_id :: "uuid option"
  dr_action_id :: "uuid option"
  dr_needs :: "research_need list"
  dr_actions :: "research_action list"

definition dispatch_verdict ::
  "closure_feedback \<Rightarrow> dispatch_status \<Rightarrow> string \<Rightarrow> dispatch_result" where
  "dispatch_verdict f status reason =
     \<lparr>dr_feedback_id = cf_feedback_id f, dr_gap_id = cf_gap_id f, dr_status = status,
      dr_reason = reason, dr_need_id = None, dr_action_id = None, dr_needs = [], dr_actions = []\<rparr>"

definition dispatch ::
  "timestamp \<Rightarrow> uuid list \<Rightarrow> closure_feedback \<Rightarrow> gap_requirement \<Rightarrow> alignment list
    \<Rightarrow> dispatch_result result" where
  "dispatch now already f r alignments =
     (if gr_closure_status r = GClosed
        then Inr (dispatch_verdict f DispatchSkipped ''closed_gap'')
      else if cf_gap_id f \<noteq> gr_gap_id r
        then Inr (dispatch_verdict f DispatchBlocked ''feedback_requirement_mismatch'')
      else if cf_feedback_id f \<in> set already
        then Inr (dispatch_verdict f DispatchDuplicated ''feedback_already_dispatched'')
      else case generate_needs now r alignments None (Some f) None of
          Inl e \<Rightarrow> Inl e
        | Inr [] \<Rightarrow> Inr (dispatch_verdict f DispatchBlocked ''no_research_need_generated'')
        | Inr (n # ns) \<Rightarrow>
            (case traverse (\<lambda>m. generate_actions now m r (Some f)) (n # ns) of
               Inl e \<Rightarrow> Inl e
             | Inr actionss \<Rightarrow>
                 (let actions = concat actionss
                  in Inr \<lparr>dr_feedback_id = cf_feedback_id f, dr_gap_id = cf_gap_id f,
                       dr_status = DispatchCreated, dr_reason = ''research_need_created'',
                       dr_need_id = Some (rn_need_id n),
                       dr_action_id = (case actions of [] \<Rightarrow> None | a # _ \<Rightarrow> Some (ra_action_id a)),
                       dr_needs = n # ns, dr_actions = actions\<rparr>)))"

section \<open>The run and its events\<close>

datatype dispatch_event =
    FeedbackGenerated uuid string uuid
  | FeedbackDispatched uuid uuid "uuid option" dispatch_status string
  | NeedGenerated uuid uuid
  | NeedRefined uuid uuid
  | ActionSuggested uuid uuid
  | IntentGenerated uuid
  | PlanGenerated uuid
  | CandidateCreated uuid uuid
  | ContextRecorded string uuid uuid uuid
  | ExecutionBlocked feedback_execution
  | FeedbackExecutionStarted feedback_execution execution_request
  | QueryExecutionStarted feedback_execution execution_request
  | ExecutionConsumed "uuid option"
  | CompletenessChecked uuid
  | FinalizationCompleted nat nat

record run_usage =
  ru_dispatched :: "uuid list"
  ru_executions :: int
  ru_snapshot :: "(string \<times> json) list"
  ru_events :: "dispatch_event list"

definition emit :: "dispatch_event list \<Rightarrow> run_usage \<Rightarrow> run_usage" where
  "emit es u = u\<lparr>ru_events := ru_events u @ es\<rparr>"

text \<open>The environment of a dispatch: the clock and the printed form of identifiers.\<close>

record dispatch_env =
  de_now :: timestamp
  de_show :: "uuid \<Rightarrow> string"

definition FEEDBACK_EXECUTION_LIMIT :: int where
  "FEEDBACK_EXECUTION_LIMIT = 2"

definition execute_candidate ::
  "dispatch_env \<Rightarrow> closure_feedback \<Rightarrow> gap_requirement \<Rightarrow> research_need \<Rightarrow> query_candidate
    \<Rightarrow> candidate_validation \<Rightarrow> run_usage \<Rightarrow> run_usage result" where
  "execute_candidate env f r n c v u =
     (case rank_candidates (de_show env) [c] [qc_candidate_id c \<mapsto> v] r of
        Inl e \<Rightarrow> Inl e
      | Inr ks \<Rightarrow>
          (let ctx = create_feedback_execution (de_now env) (cf_feedback_id f) (qc_run_id c)
                       (qc_question_id c) (qc_gap_id c) (qc_dimension_key c)
                       (qc_requirement_type c) (rn_need_id n) (qc_candidate_id c)
           in case create_request c (Some v) (case ks of [] \<Rightarrow> None | k # _ \<Rightarrow> Some k) r (Some ctx) of
                Inl e \<Rightarrow> Inl e
              | Inr [] \<Rightarrow> Inr u
              | Inr (q # _) \<Rightarrow>
                  (case feedback_execution_allowed (ru_executions u) FEEDBACK_EXECUTION_LIMIT of
                     Inl e \<Rightarrow> Inl e
                   | Inr False \<Rightarrow> Inr (emit [ExecutionBlocked ctx] u)
                   | Inr True \<Rightarrow>
                       Inr (emit [FeedbackExecutionStarted ctx q, QueryExecutionStarted ctx q]
                              (u\<lparr>ru_executions := ru_executions u + 1\<rparr>)))))"

definition candidate_step ::
  "dispatch_env \<Rightarrow> closure_feedback \<Rightarrow> gap_requirement \<Rightarrow> research_need \<Rightarrow> query_plan \<Rightarrow> run_usage
    \<Rightarrow> query_candidate \<Rightarrow> run_usage result" where
  "candidate_step env f r n p u c =
     (let u1 = emit [CandidateCreated (qc_candidate_id c) (cf_feedback_id f)] u
      in case validate_candidate c p r of
           Inl e \<Rightarrow> Inl e
         | Inr [] \<Rightarrow> Inr u1
         | Inr (v # _) \<Rightarrow>
             execute_candidate env f r n c v
               (if context_is_empty (rn_context n) then u1
                else emit [ContextRecorded (qc_question_id c) (rn_need_id n) (qp_plan_id p)
                             (qc_candidate_id c)]
                  (u1\<lparr>ru_snapshot := record_context (ru_snapshot u1) (qc_question_id c)
                        (rn_context n) (Some (de_show env (rn_need_id n)))
                        (Some (de_show env (qp_plan_id p)))
                        (Some (de_show env (qc_candidate_id c)))\<rparr>)))"

definition plan_step ::
  "dispatch_env \<Rightarrow> closure_feedback \<Rightarrow> gap_requirement \<Rightarrow> research_need \<Rightarrow> run_usage \<Rightarrow> query_plan
    \<Rightarrow> run_usage result" where
  "plan_step env f r n u p =
     (let u1 = emit [PlanGenerated (qp_plan_id p)] u
      in case validate_query_plan p r of
           Inl e \<Rightarrow> Inl e
         | Inr [] \<Rightarrow> Inr u1
         | Inr (v # _) \<Rightarrow>
             (case generate_candidates p r v (Some f) of
                Inl e \<Rightarrow> Inl e
              | Inr cs \<Rightarrow> foldM (candidate_step env f r n p) u1 cs))"

definition intent_step ::
  "dispatch_env \<Rightarrow> closure_feedback \<Rightarrow> gap_requirement \<Rightarrow> research_need \<Rightarrow> research_action
    \<Rightarrow> run_usage \<Rightarrow> query_intent \<Rightarrow> run_usage result" where
  "intent_step env f r n a u i =
     (case generate_plans (de_now env) i r (ra_priority a) of
        Inl e \<Rightarrow> Inl e
      | Inr ps \<Rightarrow> foldM (plan_step env f r n) (emit [IntentGenerated (qi_intent_id i)] u) ps)"

definition action_step ::
  "dispatch_env \<Rightarrow> closure_feedback \<Rightarrow> gap_requirement \<Rightarrow> research_need \<Rightarrow> run_usage
    \<Rightarrow> research_action \<Rightarrow> run_usage result" where
  "action_step env f r n u a =
     (case generate_intents (de_now env) a r (Some (rn_context n)) of
        Inl e \<Rightarrow> Inl e
      | Inr is \<Rightarrow> foldM (intent_step env f r n a)
                    (emit [ActionSuggested (ra_action_id a) (cf_feedback_id f)] u) is)"

definition need_step ::
  "dispatch_env \<Rightarrow> closure_feedback \<Rightarrow> gap_requirement \<Rightarrow> research_action list \<Rightarrow> run_usage
    \<Rightarrow> research_need \<Rightarrow> run_usage result" where
  "need_step env f r actions u n =
     foldM (action_step env f r n)
       (emit (NeedGenerated (rn_need_id n) (cf_feedback_id f)
              # (if context_is_empty (rn_context n) then []
                 else [NeedRefined (cf_feedback_id f) (rn_need_id n)])) u) actions"

text \<open>\<open>already\<close> is the set of identifiers the dispatcher was built with.\<close>

definition dispatch_closure_feedback ::
  "dispatch_env \<Rightarrow> uuid list \<Rightarrow> closure_feedback \<Rightarrow> gap_requirement \<Rightarrow> alignment list \<Rightarrow> run_usage
    \<Rightarrow> run_usage result" where
  "dispatch_closure_feedback env already f r alignments u =
     (case dispatch (de_now env) already f r alignments of
        Inl e \<Rightarrow> Inl e
      | Inr d \<Rightarrow>
          (let u1 = emit [FeedbackGenerated (cf_gap_id f) (cf_question_id f) (cf_feedback_id f),
                          FeedbackDispatched (dr_feedback_id d) (dr_gap_id d) (dr_need_id d)
                            (dr_status d) (dr_reason d)] u;
               u2 = (case dr_need_id d of
                       None \<Rightarrow> u1
                     | Some _ \<Rightarrow> u1\<lparr>ru_dispatched :=
                         (if cf_feedback_id f \<in> set (ru_dispatched u1) then ru_dispatched u1
                          else ru_dispatched u1 @ [cf_feedback_id f])\<rparr>)
           in foldM (need_step env f r (dr_actions d)) u2 (dr_needs d)))"

section \<open>Backfilled feedback\<close>

definition backfilled_step ::
  "dispatch_env \<Rightarrow> uuid list \<Rightarrow> (uuid \<rightharpoonup> gap_requirement) \<Rightarrow> run_usage \<Rightarrow> closure_feedback
    \<Rightarrow> run_usage result" where
  "backfilled_step env already requirements u f =
     (case requirements (cf_gap_id f) of
        None \<Rightarrow> Inr u
      | Some r \<Rightarrow> dispatch_closure_feedback env already f r [] u)"

definition dispatch_backfilled ::
  "dispatch_env \<Rightarrow> closure_feedback list \<Rightarrow> (uuid \<rightharpoonup> gap_requirement) \<Rightarrow> run_usage
    \<Rightarrow> run_usage result" where
  "dispatch_backfilled env fs requirements u =
     foldM (backfilled_step env (ru_dispatched u) requirements) u fs"

definition requirements_by_gap :: "gap_requirement list \<Rightarrow> (uuid \<rightharpoonup> gap_requirement)" where
  "requirements_by_gap rs = map_of (rev (map (\<lambda>r. (gr_gap_id r, r)) rs))"

fun feedback_ids_by_gap ::
  "string option \<Rightarrow> dispatch_event list \<Rightarrow> (uuid \<rightharpoonup> uuid) \<Rightarrow> (uuid \<rightharpoonup> uuid)" where
  "feedback_ids_by_gap q [] m = m"
| "feedback_ids_by_gap q (FeedbackGenerated gid q' fid # es) m =
     feedback_ids_by_gap q es
       (if (case q of None \<Rightarrow> False | Some x \<Rightarrow> q' \<noteq> x) then m
        else case m gid of None \<Rightarrow> m(gid \<mapsto> fid) | Some _ \<Rightarrow> m)"
| "feedback_ids_by_gap q (_ # es) m = feedback_ids_by_gap q es m"

text \<open>\<open>rs\<close> are the rows of the question; \<open>in_call\<close> the feedback generated by the calling evaluation.\<close>

definition feedback_completeness_pass ::
  "dispatch_env \<Rightarrow> string \<Rightarrow> gap_requirement list \<Rightarrow> (uuid \<rightharpoonup> uuid) \<Rightarrow> run_usage \<Rightarrow> run_usage result" where
  "feedback_completeness_pass env q rs in_call u =
     (if rs = [] then Inr u
      else case run_completeness_pass (de_now env) (\<lambda>_. None) rs
                  (feedback_ids_by_gap (Some q) (ru_events u) (\<lambda>_. None) ++ in_call) of
             Inl e \<Rightarrow> Inl e
           | Inr x \<Rightarrow> dispatch_backfilled env (px_generated x) (requirements_by_gap rs)
               (emit (map (\<lambda>v. CompletenessChecked (cv_gap_id v)) (px_verdicts x)) u))"

definition terminal_reasons :: "string option \<Rightarrow> gap_requirement list \<Rightarrow> (uuid \<rightharpoonup> string)" where
  "terminal_reasons stop_reason rs =
     (case stop_reason of None \<Rightarrow> (\<lambda>_. None)
      | Some s \<Rightarrow> if is_terminal_run_stop_reason stop_reason
          then map_of (map (\<lambda>r. (gr_gap_id r, s)) rs) else (\<lambda>_. None))"

definition finalize_closure_feedback ::
  "dispatch_env \<Rightarrow> uuid \<Rightarrow> gap_requirement list \<Rightarrow> string option \<Rightarrow> run_usage \<Rightarrow> run_usage result" where
  "finalize_closure_feedback env rid rs stop_reason u =
     (if rs = [] then Inr u
      else case finalize_run rid (de_now env) (\<lambda>_. None) rs
                  (feedback_ids_by_gap None (ru_events u) (\<lambda>_. None))
                  (terminal_reasons stop_reason rs) of
             Inl e \<Rightarrow> Inl e
           | Inr x \<Rightarrow> dispatch_backfilled env (fx_generated x) (requirements_by_gap rs)
               (emit [FinalizationCompleted (length (fx_generated x)) (length (fx_blocked x))] u))"

section \<open>Claiming a started execution\<close>

text \<open>
  The research loop turns the first execution that was started and not yet consumed into its next
  target. \<open>refs\<close> of a started event are the context overlaid by the request. Questions and gaps of
  the current plan version are arguments; the tool call row and the target's budget baselines are
  not modelled.
\<close>

record plan_item =
  pi_question_id :: string
  pi_question :: string
  pi_priority :: int
  pi_requirements :: "string list"

record feedback_target =
  ft_question_id :: string
  ft_question :: string
  ft_query :: string
  ft_gap_id :: uuid
  ft_tool_call_id :: uuid
  ft_dimensions :: "(string \<times> string) list"
  ft_priority :: int
  ft_feedback_id :: uuid
  ft_feedback_execution_id :: uuid
  ft_query_execution_id :: uuid
  ft_trigger_reason :: string

fun started :: "dispatch_event list \<Rightarrow> (feedback_execution \<times> execution_request) list" where
  "started [] = []"
| "started (FeedbackExecutionStarted x q # es) = (x, q) # started es"
| "started (_ # es) = started es"

fun consumed :: "dispatch_event list \<Rightarrow> uuid option list" where
  "consumed [] = []"
| "consumed (ExecutionConsumed e # es) = e # consumed es"
| "consumed (_ # es) = consumed es"

definition pending_execution :: "dispatch_event list \<Rightarrow> execution_request option" where
  "pending_execution es =
     find (\<lambda>q. er_feedback_execution_id q \<notin> set (consumed es)) (map snd (started es))"

definition question_dimensions :: "string \<Rightarrow> string list \<Rightarrow> (string \<times> string) list" where
  "question_dimensions q criteria =
     map2 (\<lambda>i c. (q @ '':d'' @ show_nat i, c)) [1..<length criteria + 1] criteria"

definition legacy_gap_id :: "uuid \<Rightarrow> int \<Rightarrow> string \<Rightarrow> uuid" where
  "legacy_gap_id rid version q = UUID5 ''legacy-research-gap:'' [PId rid, PInt version, PStr q]"

definition prepare_feedback_target ::
  "dispatch_env \<Rightarrow> uuid \<Rightarrow> int \<Rightarrow> plan_item list \<Rightarrow> uuid \<Rightarrow> (string \<rightharpoonup> uuid) \<Rightarrow> run_usage
    \<Rightarrow> (feedback_target option \<times> (string \<rightharpoonup> uuid) \<times> run_usage) result" where
  "prepare_feedback_target env rid version items call_id gaps u =
     (case pending_execution (ru_events u) of
        None \<Rightarrow> Inr (None, gaps, u)
      | Some q \<Rightarrow>
          (let question_id = er_question_id q; query = strip (er_query_text q)
           in if question_id = [] \<or> query = [] then Inr (None, gaps, u)
              else case find (\<lambda>i. pi_question_id i = question_id) items of
                  None \<Rightarrow> Inr (None, gaps, u)
                | Some item \<Rightarrow>
                    (case (er_feedback_id q, er_feedback_execution_id q) of
                       (Some fid, Some xid) \<Rightarrow>
                         (let gap = (case gaps question_id of Some g \<Rightarrow> g
                                     | None \<Rightarrow> legacy_gap_id rid version question_id)
                          in Inr (Some \<lparr>ft_question_id = question_id, ft_question = pi_question item,
                                  ft_query = query, ft_gap_id = gap, ft_tool_call_id = call_id,
                                  ft_dimensions = question_dimensions question_id (pi_requirements item),
                                  ft_priority = pi_priority item, ft_feedback_id = fid,
                                  ft_feedback_execution_id = xid,
                                  ft_query_execution_id = er_execution_id q,
                                  ft_trigger_reason = (case er_trigger_reason q of
                                     None \<Rightarrow> ''None'' | Some t \<Rightarrow> t)\<rparr>,
                             gaps(question_id \<mapsto> gap),
                             emit [ExecutionConsumed (Some xid)]
                               (u\<lparr>ru_snapshot := AList.update ''feedback_query_context''
                                  (JObj [(''feedback_id'', JStr (de_show env fid)),
                                         (''feedback_execution_id'', JStr (de_show env xid)),
                                         (''query_execution_id'', JStr (de_show env (er_execution_id q))),
                                         (''feedback_question_id'', JStr question_id)])
                                  (ru_snapshot u)\<rparr>)))
                     | _ \<Rightarrow> Inl (ValueError ''badly formed hexadecimal UUID string''))))"

section \<open>Lemmas: what a dispatch does\<close>

lemma started_append [simp]: "started (es @ es') = started es @ started es'"
  by (induction es rule: started.induct) simp_all

lemma consumed_append [simp]: "consumed (es @ es') = consumed es @ consumed es'"
  by (induction es rule: consumed.induct) simp_all

lemma emit_simps [simp]:
  "ru_events (emit es u) = ru_events u @ es" "ru_dispatched (emit es u) = ru_dispatched u"
  "ru_executions (emit es u) = ru_executions u" "ru_snapshot (emit es u) = ru_snapshot u"
  by (simp_all add: emit_def)

definition execution_context ::
  "dispatch_env \<Rightarrow> closure_feedback \<Rightarrow> research_need \<Rightarrow> query_candidate \<Rightarrow> feedback_execution" where
  "execution_context env f n c =
     create_feedback_execution (de_now env) (cf_feedback_id f) (qc_run_id c) (qc_question_id c)
       (qc_gap_id c) (qc_dimension_key c) (qc_requirement_type c) (rn_need_id n) (qc_candidate_id c)"

lemma execute_valid_candidate:
  assumes r: "gr_closure_status r \<noteq> GClosed" and c: "qc_status c = CandidateGenerated"
    and nb: "\<not> blank (qc_query_text c)"
    and v: "validate_candidate c p r = Inr [v]" "qv_status v = Valid" "qv_candidate_id v = qc_candidate_id c"
    and u: "0 \<le> ru_executions u"
  shows "\<exists>q. execute_candidate env f r n c v u = Inr
      (if ru_executions u < FEEDBACK_EXECUTION_LIMIT
       then emit [FeedbackExecutionStarted (execution_context env f n c) q,
                  QueryExecutionStarted (execution_context env f n c) q]
              (u\<lparr>ru_executions := ru_executions u + 1\<rparr>)
       else emit [ExecutionBlocked (execution_context env f n c)] u)
    \<and> er_candidate_id q = qc_candidate_id c \<and> er_gap_id q = qc_gap_id c
    \<and> er_question_id q = qc_question_id c \<and> er_query_text q = qc_query_text c
    \<and> er_feedback_id q = Some (cf_feedback_id f) \<and> er_trigger_reason q = qc_avoid_reason c
    \<and> er_execution_id q = UUID5 ''query-execution:'' [PId (qc_candidate_id c)]
    \<and> er_feedback_execution_id q = Some (fe_execution_id (execution_context env f n c))"
proof -
  define w where "w = [qc_candidate_id c \<mapsto> v]"
  have w: "w (qc_candidate_id c) = Some v" by (simp add: w_def)
  then have "\<forall>x \<in> set [c]. validator_output x r (w (qc_candidate_id x))"
    using v(1) by (auto simp: validator_output_def)
  from rank_candidates_total [OF r this, of "de_show env"] obtain s where
    s: "sound_score w c s" "rank_candidates (de_show env) [c] w r = Inr [mk_ranking 1 s]"
    by (auto simp: list_all2_Cons1)
  then have nb': "\<not> blank (join_semi (cs_reasons s))"
    by (intro blank_join_semi) (simp_all add: sound_score_def)
  obtain q where q: "create_request c (Some v) (Some (mk_ranking 1 s)) r (Some (execution_context env f n c)) = Inr [q]"
    "er_candidate_id q = qc_candidate_id c" "er_gap_id q = qc_gap_id c"
    "er_question_id q = qc_question_id c" "er_query_text q = qc_query_text c"
    "er_feedback_id q = Some (cf_feedback_id f)" "er_trigger_reason q = qc_avoid_reason c"
    "er_execution_id q = UUID5 ''query-execution:'' [PId (qc_candidate_id c)]"
    "er_feedback_execution_id q = Some (fe_execution_id (execution_context env f n c))"
    using r c nb v s(1) nb'
    by (simp add: create_request_def evaluate_execution_def validate_request_def mk_ranking_def
        sound_score_def execution_context_def create_feedback_execution_def)
  show ?thesis
    using q u s(2) unfolding w_def
    by (intro exI [of _ q])
       (simp add: execute_candidate_def execution_context_def [symmetric] feedback_execution_allowed_def
         FEEDBACK_EXECUTION_LIMIT_def Let_def)
qed

text \<open>
  \<open>dispatched_to u u' f r\<close>: dispatching \<open>f\<close> against the open requirement \<open>r\<close> took \<open>u\<close> to \<open>u'\<close>.
  At most one execution starts, exactly when the recommended need is the one the requirement type
  calls for and the limit is not reached.
\<close>

definition request_for :: "closure_feedback \<Rightarrow> gap_requirement \<Rightarrow> feedback_execution \<times> execution_request \<Rightarrow> bool" where
  "request_for f r xq \<longleftrightarrow>
     (case xq of (x, q) \<Rightarrow>
       fe_feedback_id x = cf_feedback_id f \<and> fe_gap_id x = gr_gap_id r
       \<and> er_feedback_id q = Some (cf_feedback_id f) \<and> er_gap_id q = gr_gap_id r
       \<and> er_question_id q = gr_question_id r \<and> \<not> blank (er_query_text q)
       \<and> er_feedback_execution_id q = Some (fe_execution_id x)
       \<and> er_trigger_reason q = Some (reason_value (cf_failure_reason f)))"

definition starts_execution :: "closure_feedback \<Rightarrow> gap_requirement \<Rightarrow> run_usage \<Rightarrow> bool" where
  "starts_execution f r u \<longleftrightarrow>
     cf_need_type f = fst (need_for_type (gr_type r)) \<and> ru_executions u < FEEDBACK_EXECUTION_LIMIT"

definition same_but_started :: "closure_feedback \<Rightarrow> gap_requirement \<Rightarrow> bool \<Rightarrow> run_usage \<Rightarrow> run_usage \<Rightarrow> bool" where
  "same_but_started f r starts u u' \<longleftrightarrow>
     ru_dispatched u' = ru_dispatched u \<and> prefix (ru_events u) (ru_events u')
     \<and> (\<exists>new. started (ru_events u') = started (ru_events u) @ new \<and> length new = (if starts then 1 else 0)
          \<and> (\<forall>xq \<in> set new. request_for f r xq)
          \<and> ru_executions u' = ru_executions u + int (length new))"

lemma same_but_started_emit:
  "started es = [] \<Longrightarrow> same_but_started f r starts (emit es u) u' \<Longrightarrow> same_but_started f r starts u u'"
  unfolding same_but_started_def by (auto dest: append_prefixD)

lemma same_but_started_snapshot:
  "same_but_started f r starts (u\<lparr>ru_snapshot := x\<rparr>) u' = same_but_started f r starts u u'"
  by (simp add: same_but_started_def)

lemma candidate_step_outcome:
  assumes r: "gr_closure_status r \<noteq> GClosed"
    and c: "qc_status c = CandidateGenerated" "qc_plan_id c = qp_plan_id p"
      "qc_gap_id c = gr_gap_id r" "qc_question_id c = gr_question_id r"
      "qc_dimension_key c = gr_dimension_key r" "\<not> blank (qc_query_text c)"
      "qc_avoid_reason c = Some (reason_value (cf_failure_reason f))"
      "fst (evaluate_candidate (gr_type r) c) = Valid"
    and p: "qp_gap_id p = gr_gap_id r" "qp_question_id p = gr_question_id r"
      "qp_dimension_key p = gr_dimension_key r"
    and u: "0 \<le> ru_executions u"
  shows "\<exists>u'. candidate_step env f r n p u c = Inr u'
    \<and> same_but_started f r (ru_executions u < FEEDBACK_EXECUTION_LIMIT) u u'"
proof -
  obtain v where v: "validate_candidate c p r = Inr [v]" "qv_candidate_id v = qc_candidate_id c"
    "qv_status v = Valid"
    using stage_candidate_validation [OF r c(1,2,3) p(1) c(4) p(2) c(5) p(3)] c(8) by auto
  let ?u1 = "emit [CandidateCreated (qc_candidate_id c) (cf_feedback_id f)] u"
  let ?u2 = "if context_is_empty (rn_context n) then ?u1
     else emit [ContextRecorded (qc_question_id c) (rn_need_id n) (qp_plan_id p) (qc_candidate_id c)]
       (?u1\<lparr>ru_snapshot := record_context (ru_snapshot ?u1) (qc_question_id c) (rn_context n)
          (Some (de_show env (rn_need_id n))) (Some (de_show env (qp_plan_id p)))
          (Some (de_show env (qc_candidate_id c)))\<rparr>)"
  have e: "ru_executions ?u2 = ru_executions u" by simp
  obtain q where q: "execute_candidate env f r n c v ?u2 = Inr
      (if ru_executions u < FEEDBACK_EXECUTION_LIMIT
       then emit [FeedbackExecutionStarted (execution_context env f n c) q,
                  QueryExecutionStarted (execution_context env f n c) q]
              (?u2\<lparr>ru_executions := ru_executions u + 1\<rparr>)
       else emit [ExecutionBlocked (execution_context env f n c)] ?u2)"
    and f: "er_gap_id q = qc_gap_id c" "er_question_id q = qc_question_id c"
      "er_query_text q = qc_query_text c" "er_feedback_id q = Some (cf_feedback_id f)"
      "er_trigger_reason q = qc_avoid_reason c"
      "er_feedback_execution_id q = Some (fe_execution_id (execution_context env f n c))"
    using execute_valid_candidate [OF r c(1,6) v(1,3,2), of ?u2 env f n] u unfolding e by auto
  have "request_for f r (execution_context env f n c, q)"
    using c f by (simp add: request_for_def execution_context_def create_feedback_execution_def)
  then have "same_but_started f r (ru_executions u < FEEDBACK_EXECUTION_LIMIT) u
      (if ru_executions u < FEEDBACK_EXECUTION_LIMIT
       then emit [FeedbackExecutionStarted (execution_context env f n c) q,
                  QueryExecutionStarted (execution_context env f n c) q]
              (?u2\<lparr>ru_executions := ru_executions u + 1\<rparr>)
       else emit [ExecutionBlocked (execution_context env f n c)] ?u2)"
    by (simp add: same_but_started_def)
  then show ?thesis using q v(1) by (simp add: candidate_step_def Let_def)
qed

lemma plan_step_outcome:
  assumes r: "gr_closure_status r \<noteq> GClosed"
    and d: "normalized (gr_dimension_key r)" "\<not> blank (gr_dimension_key r)"
    and p: "qp_status p = Suggested" "qp_gap_id p = gr_gap_id r" "qp_question_id p = gr_question_id r"
      "qp_dimension_key p = gr_dimension_key r" "qp_source_types p = strategy_sources (qp_strategy p)"
    and u: "0 \<le> ru_executions u"
  shows "\<exists>u'. plan_step env f r n u p = Inr u'
    \<and> same_but_started f r (qp_strategy p = fst (expected_strategy (gr_type r))
                            \<and> ru_executions u < FEEDBACK_EXECUTION_LIMIT) u u'"
proof -
  let ?u1 = "emit [PlanGenerated (qp_plan_id p)] u"
  obtain v where v: "validate_query_plan p r = Inr [v]" "pv_plan_id v = qp_plan_id p"
    "pv_gap_id v = gr_gap_id r" "pv_status v = fst (evaluate_plan_alignment (gr_type r) (qp_strategy p))"
    using stage_plan_validation [OF r p(2,3,4)] by blast
  show ?thesis
  proof (cases "qp_strategy p = fst (expected_strategy (gr_type r))")
    case True
    then have valid: "pv_status v = Valid" by (simp add: v(4) fst_evaluate_plan_alignment)
    obtain c where c: "generate_candidates p r v (Some f) = Inr [c]" "qc_gap_id c = gr_gap_id r"
      "qc_question_id c = gr_question_id r" "qc_dimension_key c = gr_dimension_key r"
      "qc_plan_id c = qp_plan_id p" "qc_source_types c = qp_source_types p"
      "qc_query_text c = apply_query_hints (fst (candidate_text (qp_strategy p) (gr_dimension_key r)))
                          (context_hints (qp_context p))"
      "qc_status c = CandidateGenerated"
      "qc_avoid_reason c = Some (reason_value (cf_failure_reason f))"
      using stage_candidate [OF r p(1,2,3,4) valid v(2,3), of f] by blast
    have ok: "fst (evaluate_candidate (gr_type r) c) = Valid"
      by (rule matching_candidate_valid [OF c(7,4) _ True d]) (simp add: c(6) p(5))
    have nb: "\<not> blank (qc_query_text c)"
      unfolding c(7) by (intro hinted_not_blank candidate_text_not_blank)
    have u1: "0 \<le> ru_executions ?u1" using u by simp
    from candidate_step_outcome [OF r c(8,5,2,3,4) nb c(9) ok p(2,3,4) u1, of env n]
    obtain u' where u': "candidate_step env f r n p ?u1 c = Inr u'"
      "same_but_started f r (ru_executions ?u1 < FEEDBACK_EXECUTION_LIMIT) ?u1 u'"
      by (elim exE conjE) (rule that, assumption+)
    have "same_but_started f r (ru_executions u < FEEDBACK_EXECUTION_LIMIT) u u'"
      by (rule same_but_started_emit [OF _ u'(2) [unfolded emit_simps]]) simp
    then have "same_but_started f r (qp_strategy p = fst (expected_strategy (gr_type r))
                            \<and> ru_executions u < FEEDBACK_EXECUTION_LIMIT) u u'"
      by (simp only: True simp_thms)
    moreover have "plan_step env f r n u p = Inr u'"
      unfolding plan_step_def Let_def v(1) by (simp only: sum.case list.case c(1) foldM.simps u'(1))
    ultimately show ?thesis by blast
  next
    case False
    then have "pv_status v \<noteq> Valid" by (simp add: v(4) fst_evaluate_plan_alignment)
    then have "generate_candidates p r v (Some f) = Inr []"
      using r p(1) by (simp add: generate_candidates_def)
    then have "plan_step env f r n u p = Inr ?u1" by (simp add: plan_step_def v(1))
    then show ?thesis using False by (simp add: same_but_started_def)
  qed
qed

lemma need_step_outcome:
  assumes r: "gr_closure_status r \<noteq> GClosed"
    and d: "normalized (gr_dimension_key r)" "\<not> blank (gr_dimension_key r)"
    and a: "ra_status a = Suggested" "ra_gap_id a = gr_gap_id r" "ra_question_id a = gr_question_id r"
      "ra_dimension_key a = gr_dimension_key r" "1 \<le> ra_priority a"
      "ra_action_type a = action_type_for_need (cf_need_type f)"
    and u: "0 \<le> ru_executions u"
  shows "\<exists>u'. need_step env f r [a] u n = Inr u'
    \<and> same_but_started f r (starts_execution f r u) u u'"
proof -
  let ?u1 = "emit (NeedGenerated (rn_need_id n) (cf_feedback_id f)
              # (if context_is_empty (rn_context n) then []
                 else [NeedRefined (cf_feedback_id f) (rn_need_id n)])) u"
  let ?u2 = "emit [ActionSuggested (ra_action_id a) (cf_feedback_id f)] ?u1"
  obtain i where i: "generate_intents (de_now env) a r (Some (rn_context n)) = Inr [i]"
    "qi_gap_id i = gr_gap_id r" "qi_question_id i = gr_question_id r"
    "qi_dimension_key i = gr_dimension_key r" "qi_status i = Suggested"
    "qi_intent_type i = intent_type_for_action (ra_action_type a)"
    using stage_intent [OF r a(1,2,3,4), of "de_now env" "Some (rn_context n)"] by blast
  let ?u3 = "emit [IntentGenerated (qi_intent_id i)] ?u2"
  obtain p where p: "generate_plans (de_now env) i r (ra_priority a) = Inr [p]"
    "qp_gap_id p = gr_gap_id r" "qp_question_id p = gr_question_id r"
    "qp_dimension_key p = gr_dimension_key r" "qp_status p = Suggested"
    "qp_strategy p = strategy_for_intent (qi_intent_type i)"
    "qp_source_types p = strategy_sources (qp_strategy p)"
    using stage_plan [OF r i(5,2,3,4) a(5)] by blast
  have "qp_strategy p = strategy_for_need (cf_need_type f)"
    by (simp add: p(6) i(6) a(6) strategy_for_need_def)
  then have st: "(qp_strategy p = fst (expected_strategy (gr_type r))
      \<and> ru_executions ?u3 < FEEDBACK_EXECUTION_LIMIT) = starts_execution f r u"
    by (simp add: starts_execution_def strategy_for_need_expected)
  obtain u' where u': "plan_step env f r n ?u3 p = Inr u'"
    "same_but_started f r (starts_execution f r u) ?u3 u'"
    using plan_step_outcome [OF r d p(5,2,3,4,7), of ?u3 env f n] u unfolding st by auto
  have "same_but_started f r (starts_execution f r u) u u'"
    by (rule same_but_started_emit [OF _ same_but_started_emit [OF _ same_but_started_emit [OF _ u'(2)]]])
       simp_all
  then show ?thesis
    using u'(1) i(1) p(1) by (simp add: need_step_def action_step_def intent_step_def)
qed

definition dispatch_opening :: "closure_feedback \<Rightarrow> dispatch_result \<Rightarrow> dispatch_event list" where
  "dispatch_opening f d =
     [FeedbackGenerated (cf_gap_id f) (cf_question_id f) (cf_feedback_id f),
      FeedbackDispatched (dr_feedback_id d) (dr_gap_id d) (dr_need_id d) (dr_status d) (dr_reason d)]"

lemma dispatch_open_gap:
  assumes "gr_closure_status r \<noteq> GClosed" and "cf_gap_id f = gr_gap_id r"
    and "cf_feedback_id f \<notin> set already"
  shows "\<exists>d n a. dispatch now already f r al = Inr d \<and> dr_status d = DispatchCreated
    \<and> dr_need_id d = Some (rn_need_id n) \<and> dr_needs d = [n] \<and> dr_actions d = [a]
    \<and> ra_status a = Suggested \<and> ra_gap_id a = gr_gap_id r \<and> ra_question_id a = gr_question_id r
    \<and> ra_dimension_key a = gr_dimension_key r \<and> 1 \<le> ra_priority a
    \<and> ra_action_type a = action_type_for_need (cf_need_type f)"
proof -
  obtain n where n: "generate_needs now r al None (Some f) None = Inr [n]"
    "rn_gap_id n = gr_gap_id r" "rn_question_id n = gr_question_id r"
    "rn_dimension_key n = gr_dimension_key r" "rn_need_type n = cf_need_type f"
    "rn_priority n = 3" "rn_status n = NeedOpen"
    using stage_need [OF assms(1), of now al f] by blast
  obtain a where a: "generate_actions now n r (Some f) = Inr [a]" "ra_gap_id a = rn_gap_id n"
    "ra_question_id a = rn_question_id n" "ra_dimension_key a = rn_dimension_key n"
    "ra_action_type a = action_type_for_need (rn_need_type n)" "ra_priority a = rn_priority n"
    "ra_status a = Suggested"
    using stage_action [OF assms(1) n(7,2), of now f] n(6) by auto
  show ?thesis using assms n a by (simp add: dispatch_def)
qed

lemma dispatch_outcome:
  assumes r: "gr_closure_status r \<noteq> GClosed" and g: "cf_gap_id f = gr_gap_id r"
    and d: "normalized (gr_dimension_key r)" "\<not> blank (gr_dimension_key r)"
    and new: "cf_feedback_id f \<notin> set already" and u: "0 \<le> ru_executions u"
  shows "\<exists>u' d u2. dispatch_closure_feedback env already f r al u = Inr u'
    \<and> dr_status d = DispatchCreated
    \<and> ru_dispatched u2 = (if cf_feedback_id f \<in> set (ru_dispatched u) then ru_dispatched u
                           else ru_dispatched u @ [cf_feedback_id f])
    \<and> ru_events u2 = ru_events u @ dispatch_opening f d \<and> ru_executions u2 = ru_executions u
    \<and> same_but_started f r (starts_execution f r u) u2 u'"
proof -
  obtain d n a where x: "dispatch (de_now env) already f r al = Inr d" "dr_status d = DispatchCreated"
    "dr_need_id d = Some (rn_need_id n)" "dr_needs d = [n]" "dr_actions d = [a]"
    "ra_status a = Suggested" "ra_gap_id a = gr_gap_id r" "ra_question_id a = gr_question_id r"
    "ra_dimension_key a = gr_dimension_key r" "1 \<le> ra_priority a"
    "ra_action_type a = action_type_for_need (cf_need_type f)"
    using dispatch_open_gap [OF r g new] by blast
  let ?u1 = "emit (dispatch_opening f d) u"
  let ?u2 = "?u1\<lparr>ru_dispatched := (if cf_feedback_id f \<in> set (ru_dispatched ?u1) then ru_dispatched ?u1
                          else ru_dispatched ?u1 @ [cf_feedback_id f])\<rparr>"
  have e: "starts_execution f r ?u2 = starts_execution f r u" by (simp add: starts_execution_def)
  obtain u' where u': "need_step env f r [a] ?u2 n = Inr u'"
    "same_but_started f r (starts_execution f r u) ?u2 u'"
    using need_step_outcome [OF r d x(6-11), of ?u2 env n] u unfolding e by auto
  have run: "dispatch_closure_feedback env already f r al u = Inr u'"
    using u'(1) unfolding dispatch_closure_feedback_def x(1) sum.case Let_def x(4,5)
      dispatch_opening_def x(3) option.case
    by (simp only: foldM.simps sum.case)
  show ?thesis
    by (rule exI [of _ u'], rule exI [of _ d], rule exI [of _ ?u2])
       (use run x(2) u'(2) in simp)
qed

section \<open>Invariants of the run\<close>

text \<open>
  A dispatch changes the run through four operations only: it appends events that start nothing,
  starts an execution below the limit, replaces the context snapshot, and registers a feedback.
  What those four keep, every dispatch keeps.
\<close>

locale run_invariant =
  fixes I :: "run_usage \<Rightarrow> bool"
  assumes log: "I u \<Longrightarrow> started es = [] \<Longrightarrow> consumed es = [] \<Longrightarrow> I (emit es u)"
    and start: "I u \<Longrightarrow> ru_executions u < FEEDBACK_EXECUTION_LIMIT \<Longrightarrow>
      I (emit [FeedbackExecutionStarted x q, QueryExecutionStarted x q]
          (u\<lparr>ru_executions := ru_executions u + 1\<rparr>))"
    and snapshot: "I u \<Longrightarrow> I (u\<lparr>ru_snapshot := s\<rparr>)"
    and register: "I u \<Longrightarrow> I (u\<lparr>ru_dispatched := ru_dispatched u @ fids\<rparr>)"
begin

lemma foldM_keeps:
  "(\<And>s x s'. I s \<Longrightarrow> f s x = Inr s' \<Longrightarrow> I s') \<Longrightarrow> I s \<Longrightarrow> foldM f s xs = Inr s' \<Longrightarrow> I s'"
  by (induction xs arbitrary: s) (auto split: sum.splits)

lemma execute_keeps:
  assumes "I u" and "execute_candidate env f r n c v u = Inr u'"
  shows "I u'"
proof -
  from assms(2) consider "u' = u" | x where "u' = emit [ExecutionBlocked x] u"
    | x q where "u' = emit [FeedbackExecutionStarted x q, QueryExecutionStarted x q]
                   (u\<lparr>ru_executions := ru_executions u + 1\<rparr>)"
        "ru_executions u < FEEDBACK_EXECUTION_LIMIT"
    unfolding execute_candidate_def feedback_execution_allowed_def Let_def
    by (auto split: sum.splits list.splits bool.splits if_splits)
  then show ?thesis
    by cases (use assms(1) log start in simp_all)
qed

lemma candidate_keeps:
  assumes "I u" and "candidate_step env f r n p u c = Inr u'"
  shows "I u'"
proof -
  let ?u1 = "emit [CandidateCreated (qc_candidate_id c) (cf_feedback_id f)] u"
  have u1: "I ?u1" using assms(1) by (rule log) simp_all
  have u2: "I (emit es (?u1\<lparr>ru_snapshot := s\<rparr>))" if "started es = []" "consumed es = []" for es s
    using snapshot [OF u1] that by (rule log)
  show ?thesis
  proof (cases "validate_candidate c p r")
    case (Inr vs)
    show ?thesis
    proof (cases vs)
      case Nil
      then show ?thesis using assms(2) u1 Inr by (simp add: candidate_step_def)
    next
      case (Cons v vs')
      have "I (if context_is_empty (rn_context n) then ?u1
         else emit [ContextRecorded (qc_question_id c) (rn_need_id n) (qp_plan_id p) (qc_candidate_id c)]
           (?u1\<lparr>ru_snapshot := record_context (ru_snapshot ?u1) (qc_question_id c) (rn_context n)
              (Some (de_show env (rn_need_id n))) (Some (de_show env (qp_plan_id p)))
              (Some (de_show env (qc_candidate_id c)))\<rparr>))"
        using u1 u2 by simp
      moreover have "execute_candidate env f r n c v
        (if context_is_empty (rn_context n) then ?u1
         else emit [ContextRecorded (qc_question_id c) (rn_need_id n) (qp_plan_id p) (qc_candidate_id c)]
           (?u1\<lparr>ru_snapshot := record_context (ru_snapshot ?u1) (qc_question_id c) (rn_context n)
              (Some (de_show env (rn_need_id n))) (Some (de_show env (qp_plan_id p)))
              (Some (de_show env (qc_candidate_id c)))\<rparr>)) = Inr u'"
        using assms(2) unfolding candidate_step_def Let_def Inr Cons sum.case list.case .
      ultimately show ?thesis by (rule execute_keeps)
    qed
  next
    case (Inl e)
    then show ?thesis using assms(2) by (simp add: candidate_step_def)
  qed
qed

lemma plan_keeps:
  assumes "I u" and "plan_step env f r n u p = Inr u'"
  shows "I u'"
proof -
  have u1: "I (emit [PlanGenerated (qp_plan_id p)] u)" using assms(1) by (rule log) simp_all
  show ?thesis
  proof (cases "u' = emit [PlanGenerated (qp_plan_id p)] u")
    case False
    then obtain cs where
      "foldM (candidate_step env f r n p) (emit [PlanGenerated (qp_plan_id p)] u) cs = Inr u'"
      using assms(2) unfolding plan_step_def Let_def
      by (cases "validate_query_plan p r") (auto split: sum.splits list.splits)
    from foldM_keeps [OF candidate_keeps u1 this] show ?thesis .
  qed (use u1 in simp)
qed

lemma intent_keeps:
  assumes "I u" and "intent_step env f r n a u i = Inr u'"
  shows "I u'"
proof -
  have u1: "I (emit [IntentGenerated (qi_intent_id i)] u)" using assms(1) by (rule log) simp_all
  obtain ps where "foldM (plan_step env f r n) (emit [IntentGenerated (qi_intent_id i)] u) ps = Inr u'"
    using assms(2) unfolding intent_step_def by (auto split: sum.splits)
  from foldM_keeps [OF plan_keeps u1 this] show ?thesis .
qed

lemma action_keeps:
  assumes "I u" and "action_step env f r n u a = Inr u'"
  shows "I u'"
proof -
  have u1: "I (emit [ActionSuggested (ra_action_id a) (cf_feedback_id f)] u)"
    using assms(1) by (rule log) simp_all
  obtain xs where "foldM (intent_step env f r n a)
      (emit [ActionSuggested (ra_action_id a) (cf_feedback_id f)] u) xs = Inr u'"
    using assms(2) unfolding action_step_def by (auto split: sum.splits)
  from foldM_keeps [OF intent_keeps u1 this] show ?thesis .
qed

lemma need_keeps:
  assumes "I u" and "need_step env f r as u n = Inr u'"
  shows "I u'"
proof -
  have u1: "I (emit (NeedGenerated (rn_need_id n) (cf_feedback_id f)
              # (if context_is_empty (rn_context n) then []
                 else [NeedRefined (cf_feedback_id f) (rn_need_id n)])) u)"
    using assms(1) by (rule log) simp_all
  from foldM_keeps [OF action_keeps u1 assms(2) [unfolded need_step_def]] show ?thesis .
qed

lemma dispatch_keeps:
  assumes "I u" and "dispatch_closure_feedback env already f r al u = Inr u'"
  shows "I u'"
proof -
  obtain d where d: "dispatch (de_now env) already f r al = Inr d"
    using assms(2) by (auto simp: dispatch_closure_feedback_def split: sum.splits)
  let ?u1 = "emit [FeedbackGenerated (cf_gap_id f) (cf_question_id f) (cf_feedback_id f),
      FeedbackDispatched (dr_feedback_id d) (dr_gap_id d) (dr_need_id d) (dr_status d) (dr_reason d)] u"
  have u1: "I ?u1" using assms(1) by (rule log) simp_all
  let ?u2 = "case dr_need_id d of None \<Rightarrow> ?u1
     | Some _ \<Rightarrow> ?u1\<lparr>ru_dispatched := (if cf_feedback_id f \<in> set (ru_dispatched ?u1) then ru_dispatched ?u1
                          else ru_dispatched ?u1 @ [cf_feedback_id f])\<rparr>"
  have "I ?u2"
    using u1 register [OF u1, of "[]"] register [OF u1, of "[cf_feedback_id f]"]
    by (cases "dr_need_id d") simp_all
  moreover have "foldM (need_step env f r (dr_actions d)) ?u2 (dr_needs d) = Inr u'"
    using assms(2) unfolding dispatch_closure_feedback_def d sum.case Let_def .
  ultimately show ?thesis using foldM_keeps [OF need_keeps] by iprover
qed

lemma backfilled_keeps:
  assumes "I u" and "dispatch_backfilled env fs rm u = Inr u'"
  shows "I u'"
proof -
  have "I s'" if "I s" "backfilled_step env already rm s f = Inr s'" for s s' f already
    using that dispatch_keeps by (auto simp: backfilled_step_def split: option.splits)
  from foldM_keeps [OF this assms(1) assms(2) [unfolded dispatch_backfilled_def]] show ?thesis .
qed

lemma completeness_keeps:
  assumes "I u" and "feedback_completeness_pass env q rs in_call u = Inr u'"
  shows "I u'"
proof -
  have "started (map (\<lambda>v. CompletenessChecked (cv_gap_id v)) vs) = []"
    "consumed (map (\<lambda>v. CompletenessChecked (cv_gap_id v)) vs) = []" for vs
    by (induction vs) simp_all
  then have u1: "I (emit (map (\<lambda>v. CompletenessChecked (cv_gap_id v)) vs) u)" for vs
    using assms(1) by (intro log)
  show ?thesis
  proof (cases "rs = []")
    case False
    then obtain x :: pass_result where "dispatch_backfilled env (px_generated x) (requirements_by_gap rs)
        (emit (map (\<lambda>v. CompletenessChecked (cv_gap_id v)) (px_verdicts x)) u) = Inr u'"
      using assms(2) by (auto simp: feedback_completeness_pass_def split: sum.splits)
    from backfilled_keeps [OF u1 this] show ?thesis .
  qed (use assms in \<open>simp add: feedback_completeness_pass_def\<close>)
qed

lemma finalize_keeps:
  assumes "I u" and "finalize_closure_feedback env rid rs stop u = Inr u'"
  shows "I u'"
proof -
  have u1: "I (emit [FinalizationCompleted n m] u)" for n m using assms(1) by (rule log) simp_all
  show ?thesis
  proof (cases "rs = []")
    case False
    then obtain x :: finalization_result where "dispatch_backfilled env (fx_generated x) (requirements_by_gap rs)
        (emit [FinalizationCompleted (length (fx_generated x)) (length (fx_blocked x))] u) = Inr u'"
      using assms(2) by (auto simp: finalize_closure_feedback_def split: sum.splits)
    from backfilled_keeps [OF u1 this] show ?thesis .
  qed (use assms in \<open>simp add: finalize_closure_feedback_def\<close>)
qed

end

text \<open>The executions counted are the executions started, and they stay within the limit.\<close>

definition within_limit :: "run_usage \<Rightarrow> bool" where
  "within_limit u \<longleftrightarrow> 0 \<le> ru_executions u \<and> ru_executions u \<le> FEEDBACK_EXECUTION_LIMIT
     \<and> ru_executions u = int (length (started (ru_events u)))"

interpretation limit: run_invariant within_limit
  by unfold_locales (auto simp: within_limit_def)

text \<open>The event log and the registered feedback only grow.\<close>

definition grown_from :: "run_usage \<Rightarrow> run_usage \<Rightarrow> bool" where
  "grown_from u0 u \<longleftrightarrow> prefix (ru_events u0) (ru_events u) \<and> prefix (ru_dispatched u0) (ru_dispatched u)"

interpretation growth: run_invariant "grown_from u0" for u0
  by unfold_locales (auto simp: grown_from_def intro: prefix_prefix prefix_order.order_trans)

text \<open>Nothing is consumed twice, and only what was started.\<close>

definition claims_sound :: "run_usage \<Rightarrow> bool" where
  "claims_sound u \<longleftrightarrow> distinct (consumed (ru_events u))
     \<and> set (consumed (ru_events u)) \<subseteq> (er_feedback_execution_id \<circ> snd) ` set (started (ru_events u))"

interpretation claims: run_invariant claims_sound
  by unfold_locales (auto simp: claims_sound_def)

text \<open>What a run does with feedback, in any order.\<close>

inductive run_step :: "run_usage \<Rightarrow> run_usage \<Rightarrow> bool" where
  run_dispatch: "dispatch_closure_feedback env already f r al u = Inr u' \<Longrightarrow> run_step u u'"
| run_completeness: "feedback_completeness_pass env q rs in_call u = Inr u' \<Longrightarrow> run_step u u'"
| run_finalize: "finalize_closure_feedback env rid rs stop u = Inr u' \<Longrightarrow> run_step u u'"
| run_claim: "prepare_feedback_target env rid version items call_id gaps u = Inr (t, gaps', u')
    \<Longrightarrow> run_step u u'"

inductive_cases run_stepE: "run_step u u'"

lemma claim_cases:
  assumes "prepare_feedback_target env rid version items call_id gaps u = Inr (t, gaps', u')"
  obtains "t = None" "gaps' = gaps" "u' = u"
  | q fid xid item target snapshot where "pending_execution (ru_events u) = Some q"
      "er_feedback_id q = Some fid" "er_feedback_execution_id q = Some xid" "t = Some target"
      "find (\<lambda>i. pi_question_id i = er_question_id q) items = Some item"
      "ft_query target = strip (er_query_text q)" "ft_question_id target = er_question_id q"
      "ft_feedback_id target = fid" "ft_feedback_execution_id target = xid"
      "ft_query_execution_id target = er_execution_id q"
      "ft_question target = pi_question item" "strip (er_query_text q) \<noteq> []"
      "\<forall>reason. er_trigger_reason q = Some reason \<longrightarrow> ft_trigger_reason target = reason"
      "u' = emit [ExecutionConsumed (Some xid)] (u\<lparr>ru_snapshot := snapshot\<rparr>)"
proof (cases "pending_execution (ru_events u)")
  case None
  then show ?thesis using assms that(1) by (simp add: prepare_feedback_target_def)
next
  case (Some q)
  show ?thesis
  proof (cases "er_question_id q = [] \<or> strip (er_query_text q) = []
      \<or> find (\<lambda>i. pi_question_id i = er_question_id q) items = None")
    case True
    then have "prepare_feedback_target env rid version items call_id gaps u = Inr (None, gaps, u)"
      unfolding prepare_feedback_target_def Let_def Some by (elim disjE) simp_all
    then show ?thesis using assms that(1) by simp
  next
    case False
    then obtain item where item: "find (\<lambda>i. pi_question_id i = er_question_id q) items = Some item"
      by auto
    then obtain fid xid where "er_feedback_id q = Some fid" "er_feedback_execution_id q = Some xid"
      using assms False Some by (auto simp: prepare_feedback_target_def Let_def split: option.splits)
    then show ?thesis
      using assms False Some item
      by (intro that(2) [OF Some]) (auto simp: prepare_feedback_target_def Let_def)
  qed
qed

lemma pending_executionD:
  assumes "pending_execution es = Some q"
  shows "\<exists>pre x post. started es = pre @ (x, q) # post
    \<and> (\<forall>(x', q') \<in> set pre. er_feedback_execution_id q' \<in> set (consumed es))
    \<and> er_feedback_execution_id q \<notin> set (consumed es)"
proof -
  obtain i where i: "i < length (started es)" "er_feedback_execution_id q \<notin> set (consumed es)"
    "snd (started es ! i) = q"
    "\<forall>j < i. er_feedback_execution_id (snd (started es ! j)) \<in> set (consumed es)"
    using assms by (auto simp: pending_execution_def find_Some_iff)
  then have "started es = take i (started es) @ (fst (started es ! i), q) # drop (Suc i) (started es)"
    by (metis id_take_nth_drop prod.collapse)
  moreover have "\<forall>(x', q') \<in> set (take i (started es)). er_feedback_execution_id q' \<in> set (consumed es)"
    using i by (fastforce simp: in_set_conv_nth)
  ultimately show ?thesis using i(2) by blast
qed

lemma within_limit_claim:
  "within_limit u \<Longrightarrow> within_limit (emit [ExecutionConsumed e] (u\<lparr>ru_snapshot := s\<rparr>))"
  by (simp add: within_limit_def)

lemma claims_sound_claim:
  assumes "claims_sound u" and "pending_execution (ru_events u) = Some q"
  shows "claims_sound (emit [ExecutionConsumed (er_feedback_execution_id q)] (u\<lparr>ru_snapshot := s\<rparr>))"
  using assms(1) pending_executionD [OF assms(2)] by (force simp: claims_sound_def)

lemma run_step_keeps:
  assumes "run_step u u'" and "within_limit u" and "claims_sound u"
  shows "within_limit u' \<and> claims_sound u'"
  using assms(1)
proof cases
  case (run_dispatch env already f r al)
  then show ?thesis using limit.dispatch_keeps claims.dispatch_keeps assms(2,3) by blast
next
  case (run_completeness env q rs in_call)
  then show ?thesis using limit.completeness_keeps claims.completeness_keeps assms(2,3) by blast
next
  case (run_finalize env rid rs stop)
  then show ?thesis using limit.finalize_keeps claims.finalize_keeps assms(2,3) by blast
next
  case (run_claim env rid version items call_id gaps t gaps')
  from run_claim show ?thesis
  proof (cases rule: claim_cases)
    case 1
    then show ?thesis using assms(2,3) by simp
  next
    case (2 q fid xid item target snapshot)
    then show ?thesis
      using within_limit_claim [OF assms(2)] claims_sound_claim [OF assms(3) 2(1)] by simp
  qed
qed

lemma run_steps_keep:
  assumes "run_step\<^sup>*\<^sup>* u u'" and "within_limit u" and "claims_sound u"
  shows "within_limit u' \<and> claims_sound u'"
  using assms by (induction rule: rtranclp_induct) (auto dest: run_step_keeps)

lemma subset_length: "distinct xs \<Longrightarrow> set xs \<subseteq> f ` set ys \<Longrightarrow> length xs \<le> length ys"
  by (metis card_image_le card_length card_mono distinct_card finite_imageI finite_set order_trans)

lemma feedback_ids_by_gap_iff:
  "feedback_ids_by_gap None es m gid \<noteq> None
    \<longleftrightarrow> m gid \<noteq> None \<or> (\<exists>q fid. FeedbackGenerated gid q fid \<in> set es)"
  by (induction "None :: string option" es m rule: feedback_ids_by_gap.induct)
     (auto split: option.splits)

lemma dispatch_total:
  assumes r: "gr_closure_status r \<noteq> GClosed" and g: "cf_gap_id f = gr_gap_id r"
    and d: "normalized (gr_dimension_key r)" "\<not> blank (gr_dimension_key r)"
    and u: "within_limit u"
  shows "\<exists>u'. dispatch_closure_feedback env already f r al u = Inr u' \<and> within_limit u'
    \<and> prefix (ru_events u) (ru_events u')
    \<and> (\<exists>q fid. FeedbackGenerated (gr_gap_id r) q fid \<in> set (ru_events u'))"
proof (cases "cf_feedback_id f \<in> set already")
  case True
  then show ?thesis
    using r g u
    by (auto simp: dispatch_closure_feedback_def dispatch_def dispatch_verdict_def within_limit_def)
next
  case False
  have "0 \<le> ru_executions u" using u by (simp add: within_limit_def)
  from dispatch_outcome [OF r g d False this, of env al] obtain u' d' and u2 :: run_usage where
    o': "dispatch_closure_feedback env already f r al u = Inr u'"
    "ru_events u2 = ru_events u @ dispatch_opening f d'"
    "same_but_started f r (starts_execution f r u) u2 u'"
    by blast
  have "prefix (ru_events u @ dispatch_opening f d') (ru_events u')"
    using o'(2,3) by (simp add: same_but_started_def)
  then have "prefix (ru_events u) (ru_events u')"
    "FeedbackGenerated (gr_gap_id r) (cf_question_id f) (cf_feedback_id f) \<in> set (ru_events u')"
    by (auto simp: prefix_def dispatch_opening_def g)
  then show ?thesis using o'(1) limit.dispatch_keeps [OF u o'(1)] by blast
qed

definition well_keyed :: "gap_requirement list \<Rightarrow> bool" where
  "well_keyed rs \<longleftrightarrow> distinct (map gr_gap_id rs)
     \<and> (\<forall>r \<in> set rs. normalized (gr_dimension_key r) \<and> \<not> blank (gr_dimension_key r))"

lemma requirements_by_gap_lookup:
  "well_keyed rs \<Longrightarrow> r \<in> set rs \<Longrightarrow> requirements_by_gap rs (gr_gap_id r) = Some r"
  by (auto simp: requirements_by_gap_def well_keyed_def comp_def rev_map [symmetric] intro: map_of_is_SomeI)

lemma backfill_loop:
  assumes "well_keyed rs" and "set rs' \<subseteq> {r \<in> set rs. gr_closure_status r \<noteq> GClosed}"
    and "within_limit u"
  shows "\<exists>u'. foldM (backfilled_step env already (requirements_by_gap rs)) u
       (map (\<lambda>r. completeness_feedback now (al r) r) rs') = Inr u' \<and> within_limit u'
    \<and> prefix (ru_events u) (ru_events u')
    \<and> (\<forall>r \<in> set rs'. \<exists>q fid. FeedbackGenerated (gr_gap_id r) q fid \<in> set (ru_events u'))"
  using assms(2,3)
proof (induction rs' arbitrary: u)
  case (Cons r rs')
  let ?f = "completeness_feedback now (al r) r"
  have r: "gr_closure_status r \<noteq> GClosed" "r \<in> set rs" using Cons.prems by auto
  have g: "cf_gap_id ?f = gr_gap_id r" by (simp add: completeness_feedback_def Let_def)
  have d: "normalized (gr_dimension_key r)" "\<not> blank (gr_dimension_key r)"
    using assms(1) r(2) by (auto simp: well_keyed_def)
  from dispatch_total [OF r(1) g d Cons.prems(2), of env already "[]"] obtain u1 q fid where
    u1: "dispatch_closure_feedback env already ?f r [] u = Inr u1" "within_limit u1"
    "prefix (ru_events u) (ru_events u1)" "FeedbackGenerated (gr_gap_id r) q fid \<in> set (ru_events u1)"
    by blast
  have step: "backfilled_step env already (requirements_by_gap rs) u ?f = Inr u1"
    using u1(1) by (simp add: backfilled_step_def g requirements_by_gap_lookup [OF assms(1) r(2)])
  from Cons.IH [OF _ u1(2)] Cons.prems(1) obtain u' where
    u': "foldM (backfilled_step env already (requirements_by_gap rs)) u1
       (map (\<lambda>r. completeness_feedback now (al r) r) rs') = Inr u'" "within_limit u'"
    "prefix (ru_events u1) (ru_events u')"
    "\<forall>r \<in> set rs'. \<exists>q fid. FeedbackGenerated (gr_gap_id r) q fid \<in> set (ru_events u')"
    by auto
  have "FeedbackGenerated (gr_gap_id r) q fid \<in> set (ru_events u')"
    using u1(4) u'(3) by (auto dest: set_mono_prefix)
  then show ?case
    using step u' u1(3) by (auto intro: prefix_order.order_trans)
qed simp

lemma terminal_reasons_iff:
  "r \<in> set rs \<Longrightarrow> is_terminal_run_stop_reason stop \<longleftrightarrow> terminal_reasons stop rs (gr_gap_id r) \<noteq> None"
proof (cases stop)
  case (Some s)
  assume "r \<in> set rs"
  then have "map_of (map (\<lambda>r. (gr_gap_id r, s)) rs) (gr_gap_id r) \<noteq> None"
    unfolding map_of_eq_None_iff by force
  then show ?thesis by (simp add: terminal_reasons_def Some)
qed (simp add: terminal_reasons_def is_terminal_run_stop_reason_def)

section \<open>Properties\<close>

text \<open>
  C30. Dispatching the feedback of an open gap never fails. A feedback dispatched before changes
  nothing but the log. Otherwise the feedback is registered, and one execution starts exactly when
  the recommended need is the one the type of the requirement calls for and fewer than two have
  started; its request carries the feedback, the gap and the failure reason. Feedback recommending
  any other need stops at plan validation.
\<close>

theorem dispatch_starts_matching_execution:
  assumes "gr_closure_status r \<noteq> GClosed" and "cf_gap_id f = gr_gap_id r"
    and "normalized (gr_dimension_key r)" and "\<not> blank (gr_dimension_key r)"
    and "0 \<le> ru_executions u"
  shows "\<exists>u' new. dispatch_closure_feedback env already f r al u = Inr u'
    \<and> prefix (ru_events u) (ru_events u') \<and> started (ru_events u') = started (ru_events u) @ new
    \<and> ru_executions u' = ru_executions u + int (length new)
    \<and> length new = (if cf_feedback_id f \<notin> set already \<and> ru_executions u < 2
                       \<and> cf_need_type f = fst (need_for_type (gr_type r)) then 1 else 0)
    \<and> (\<forall>xq \<in> set new. request_for f r xq)
    \<and> (cf_feedback_id f \<notin> set already \<longrightarrow> cf_feedback_id f \<in> set (ru_dispatched u'))
    \<and> (cf_feedback_id f \<in> set already \<longrightarrow>
         ru_dispatched u' = ru_dispatched u \<and> ru_snapshot u' = ru_snapshot u)"
proof (cases "cf_feedback_id f \<in> set already")
  case True
  then show ?thesis
    using assms(1,2)
    by (simp add: dispatch_closure_feedback_def dispatch_def dispatch_verdict_def)
next
  case False
  from dispatch_outcome [OF assms(1-4) False assms(5), of env al] obtain u' d and u2 :: run_usage where
    o': "dispatch_closure_feedback env already f r al u = Inr u'"
    "ru_dispatched u2 = (if cf_feedback_id f \<in> set (ru_dispatched u) then ru_dispatched u
                           else ru_dispatched u @ [cf_feedback_id f])"
    "ru_events u2 = ru_events u @ dispatch_opening f d" "ru_executions u2 = ru_executions u"
    and s: "same_but_started f r (starts_execution f r u) u2 u'"
    by blast
  have e: "started (ru_events u2) = started (ru_events u)"
    by (simp add: o'(3) dispatch_opening_def)
  from s obtain new where n: "started (ru_events u') = started (ru_events u) @ new"
    "length new = (if starts_execution f r u then 1 else 0)" "\<forall>xq \<in> set new. request_for f r xq"
    "ru_executions u' = ru_executions u + int (length new)"
    unfolding same_but_started_def e o'(4) by blast
  have "prefix (ru_events u) (ru_events u')" "cf_feedback_id f \<in> set (ru_dispatched u')"
    using s o'(2,3) by (auto simp: same_but_started_def prefix_def)
  then show ?thesis
    using o'(1) n False
    by (intro exI [of _ u'] exI [of _ new])
       (auto simp: starts_execution_def FEEDBACK_EXECUTION_LIMIT_def)
qed

definition demo_env :: dispatch_env where
  "demo_env = \<lparr>de_now = 1, de_show = (\<lambda>_. ''id'')\<rparr>"

definition demo_run :: run_usage where
  "demo_run = \<lparr>ru_dispatched = [], ru_executions = 0, ru_snapshot = [], ru_events = []\<rparr>"

definition demo_feedback :: closure_feedback where
  "demo_feedback = completeness_feedback 1 AlignmentUnknown (demo_requirement IndependentSource GPartial)"

lemma demo_run_ok: "within_limit demo_run" "claims_sound demo_run"
  by (simp_all add: demo_run_def within_limit_def claims_sound_def FEEDBACK_EXECUTION_LIMIT_def)

lemma demo_key: "normalized (gr_dimension_key (demo_requirement ty st))"
  "\<not> blank (gr_dimension_key (demo_requirement ty st))"
  by (simp_all add: demo_requirement_def normalized_def split_ws_def is_space_def blank_iff)

theorem dispatch_starts_matching_execution_witness:
  "\<exists>u'. dispatch_closure_feedback demo_env [] demo_feedback (demo_requirement IndependentSource GPartial) [] demo_run
       = Inr u' \<and> length (started (ru_events u')) = 1 \<and> ru_executions u' = 1"
proof -
  let ?r = "demo_requirement IndependentSource GPartial"
  have "gr_closure_status ?r \<noteq> GClosed" "cf_gap_id demo_feedback = gr_gap_id ?r" "0 \<le> ru_executions demo_run"
    by (simp_all add: demo_requirement_def demo_feedback_def completeness_feedback_def demo_run_def Let_def)
  moreover have "cf_need_type demo_feedback = fst (need_for_type (gr_type ?r))"
    by (simp add: demo_feedback_def completeness_feedback_def demo_requirement_def derive_feedback_reason_def Let_def)
  ultimately show ?thesis
    using dispatch_starts_matching_execution [of ?r demo_feedback demo_run demo_env "[]" "[]"] demo_key
    by (auto simp: demo_run_def)
qed

text \<open>
  C31. From a fresh run, whatever the order of dispatches, completeness passes, finalisations and
  claims: at most two executions start, their count in the snapshot is exact, no execution is
  consumed twice, and only started ones are consumed.
\<close>

theorem feedback_executions_bounded:
  assumes "run_step\<^sup>*\<^sup>* u u'" and "ru_executions u = 0"
    and "started (ru_events u) = []" and "consumed (ru_events u) = []"
  shows "length (started (ru_events u')) \<le> 2
    \<and> ru_executions u' = int (length (started (ru_events u')))
    \<and> distinct (consumed (ru_events u'))
    \<and> length (consumed (ru_events u')) \<le> length (started (ru_events u'))
    \<and> set (consumed (ru_events u')) \<subseteq> (er_feedback_execution_id \<circ> snd) ` set (started (ru_events u'))"
proof -
  have "within_limit u" "claims_sound u"
    using assms(2-4) by (simp_all add: within_limit_def claims_sound_def FEEDBACK_EXECUTION_LIMIT_def)
  with assms(1) have k: "within_limit u'" "claims_sound u'" using run_steps_keep by blast+
  then have "length (consumed (ru_events u')) \<le> length (started (ru_events u'))"
    unfolding claims_sound_def by (intro subset_length [of _ "er_feedback_execution_id \<circ> snd"]) auto
  then show ?thesis
    using k by (simp add: within_limit_def claims_sound_def FEEDBACK_EXECUTION_LIMIT_def)
qed

theorem feedback_executions_bounded_witness:
  "\<exists>u'. run_step demo_run u' \<and> length (started (ru_events u')) \<le> 2"
proof -
  have "within_limit demo_run" by (rule demo_run_ok)
  from dispatch_total [OF _ _ demo_key this, of IndependentSource GPartial demo_feedback demo_env "[]" "[]"]
  obtain u' where "dispatch_closure_feedback demo_env [] demo_feedback
      (demo_requirement IndependentSource GPartial) [] demo_run = Inr u'"
    by (auto simp: demo_requirement_def demo_feedback_def completeness_feedback_def Let_def)
  then have s: "run_step demo_run u'" by (rule run_dispatch)
  then show ?thesis
    using feedback_executions_bounded [of demo_run u'] by (auto simp: demo_run_def)
qed

text \<open>
  C32. Ending a run leaves no gap unexplained: the finalisation succeeds, and then every gap that is
  not closed has a feedback in the log, unless the stop reason is a terminal one. Running it again
  on the same requirements generates nothing and only logs an empty finalisation.
\<close>

theorem run_end_explains_every_gap:
  assumes "well_keyed rs" and "rs \<noteq> []" and "within_limit u"
  shows "\<exists>u'. finalize_closure_feedback env rid rs stop u = Inr u'
    \<and> (\<forall>r \<in> set rs. gr_closure_status r \<noteq> GClosed \<longrightarrow>
         is_terminal_run_stop_reason stop
         \<or> feedback_ids_by_gap None (ru_events u') (\<lambda>_. None) (gr_gap_id r) \<noteq> None)
    \<and> (\<forall>env'. finalize_closure_feedback env' rid rs stop u' = Inr (emit [FinalizationCompleted 0 0] u'))"
proof -
  have nb: "\<forall>r \<in> set rs. \<not> blank (gr_dimension_key r)" using assms(1) by (simp add: well_keyed_def)
  define terminal where "terminal = terminal_reasons stop rs"
  define ids where "ids = (\<lambda>es. feedback_ids_by_gap None es (\<lambda>_. None))"
  have run: "finalize_closure_feedback env rid rs stop v =
      (case finalize_run rid (de_now env) (\<lambda>_. None) rs (ids (ru_events v)) terminal of
         Inl e \<Rightarrow> Inl e
       | Inr x \<Rightarrow> dispatch_backfilled env (fx_generated x) (requirements_by_gap rs)
           (emit [FinalizationCompleted (length (fx_generated x)) (length (fx_blocked x))] v))" for env v
    using assms(2) by (simp add: finalize_closure_feedback_def terminal_def ids_def)
  let ?m = "unexplained (ids (ru_events u)) terminal"
  obtain x :: finalization_result where
    x: "finalize_run rid (de_now env) (\<lambda>_. None) rs (ids (ru_events u)) terminal = Inr x"
    "fx_generated x = map (\<lambda>r. completeness_feedback (de_now env) (lookup_status (\<lambda>_. None) (gr_gap_id r)) r)
        (filter ?m rs)"
    using finalize_result_eq [OF nb] by blast
  let ?u1 = "emit [FinalizationCompleted (length (fx_generated x)) (length (fx_blocked x))] u"
  have lim: "within_limit ?u1" using assms(3) by (rule limit.log) simp_all
  have sub: "set (filter ?m rs) \<subseteq> {r \<in> set rs. gr_closure_status r \<noteq> GClosed}"
    by (auto simp: unexplained_def uncovered_def)
  from backfill_loop [OF assms(1) sub lim, of env "ru_dispatched ?u1" "de_now env"
      "\<lambda>r. lookup_status (\<lambda>_. None) (gr_gap_id r)"]
  obtain u' where
    u': "dispatch_backfilled env (fx_generated x) (requirements_by_gap rs) ?u1 = Inr u'"
    "prefix (ru_events ?u1) (ru_events u')"
    "\<forall>r \<in> set (filter ?m rs). \<exists>q fid. FeedbackGenerated (gr_gap_id r) q fid \<in> set (ru_events u')"
    unfolding dispatch_backfilled_def x(2) by blast
  have fin: "finalize_closure_feedback env rid rs stop u = Inr u'" using x(1) u'(1) by (simp add: run)
  have keep: "ids (ru_events u') g \<noteq> None" if "ids (ru_events u) g \<noteq> None" for g
    using that set_mono_prefix [OF u'(2)] unfolding ids_def feedback_ids_by_gap_iff emit_simps by auto
  have explained: "terminal (gr_gap_id r) \<noteq> None \<or> ids (ru_events u') (gr_gap_id r) \<noteq> None"
    if "r \<in> set rs" "gr_closure_status r \<noteq> GClosed" for r
  proof (cases "?m r")
    case True
    then show ?thesis using u'(3) that(1) unfolding ids_def feedback_ids_by_gap_iff by auto
  next
    case False
    then show ?thesis using keep that by (auto simp: unexplained_def uncovered_def)
  qed
  have "finalize_closure_feedback env' rid rs stop u' = Inr (emit [FinalizationCompleted 0 0] u')" for env'
  proof -
    obtain y :: finalization_result where
      y: "finalize_run rid (de_now env') (\<lambda>_. None) rs (ids (ru_events u')) terminal = Inr y"
      "fx_blocked y = []"
      "fx_generated y = map (\<lambda>r. completeness_feedback (de_now env') (lookup_status (\<lambda>_. None) (gr_gap_id r)) r)
          (filter (unexplained (ids (ru_events u')) terminal) rs)"
      using finalize_result_eq [OF nb] by blast
    have "filter (unexplained (ids (ru_events u')) terminal) rs = []"
      using explained by (auto simp: filter_empty_conv unexplained_def uncovered_def)
    then show ?thesis using y by (simp add: run dispatch_backfilled_def)
  qed
  then show ?thesis using fin explained terminal_reasons_iff unfolding terminal_def ids_def by blast
qed

theorem run_end_explains_every_gap_witness:
  "\<exists>u'. finalize_closure_feedback demo_env (UUID 2) [demo_requirement EvidenceQuality GOpen]
      (Some ''quality_reached'') demo_run = Inr u'
    \<and> feedback_ids_by_gap None (ru_events u') (\<lambda>_. None) (UUID 1) \<noteq> None"
proof -
  have "well_keyed [demo_requirement EvidenceQuality GOpen]" using demo_key by (simp add: well_keyed_def)
  then obtain u' where u: "finalize_closure_feedback demo_env (UUID 2) [demo_requirement EvidenceQuality GOpen]
      (Some ''quality_reached'') demo_run = Inr u'"
    "\<forall>r \<in> set [demo_requirement EvidenceQuality GOpen]. gr_closure_status r \<noteq> GClosed \<longrightarrow>
         is_terminal_run_stop_reason (Some ''quality_reached'')
         \<or> feedback_ids_by_gap None (ru_events u') (\<lambda>_. None) (gr_gap_id r) \<noteq> None"
    using run_end_explains_every_gap [OF _ _ demo_run_ok(1), of "[demo_requirement EvidenceQuality GOpen]"
        demo_env "UUID 2" "Some ''quality_reached''"] by blast
  have "\<not> is_terminal_run_stop_reason (Some ''quality_reached'')"
    by (simp add: is_terminal_run_stop_reason_def ends_with_def)
  then show ?thesis using u by (intro exI [of _ u']) (simp add: demo_requirement_def)
qed

text \<open>
  A claim takes the first execution that was started and not yet consumed, in the order of the
  log, and marks exactly that one consumed; the target searches its query for its question, under
  its feedback and with its failure reason as trigger.
\<close>

theorem claim_takes_first_pending:
  assumes "prepare_feedback_target env rid version items call_id gaps u = Inr (Some target, gaps', u')"
  shows "\<exists>pre x q post. started (ru_events u) = pre @ (x, q) # post
    \<and> (\<forall>(x', q') \<in> set pre. er_feedback_execution_id q' \<in> set (consumed (ru_events u)))
    \<and> er_feedback_execution_id q \<notin> set (consumed (ru_events u))
    \<and> ru_events u' = ru_events u @ [ExecutionConsumed (er_feedback_execution_id q)]
    \<and> ft_query target = strip (er_query_text q) \<and> ft_query target \<noteq> []
    \<and> ft_question_id target = er_question_id q
    \<and> Some (ft_feedback_id target) = er_feedback_id q
    \<and> Some (ft_feedback_execution_id target) = er_feedback_execution_id q
    \<and> (\<forall>reason. er_trigger_reason q = Some reason \<longrightarrow> ft_trigger_reason target = reason)"
  using assms
proof (cases rule: claim_cases)
  case (2 q fid xid item target' snapshot)
  from pending_executionD [OF 2(1)] obtain pre x post where
    "started (ru_events u) = pre @ (x, q) # post"
    "\<forall>(x', q') \<in> set pre. er_feedback_execution_id q' \<in> set (consumed (ru_events u))"
    "er_feedback_execution_id q \<notin> set (consumed (ru_events u))" by blast
  with 2 show ?thesis by (intro exI [of _ pre] exI [of _ x] exI [of _ q] exI [of _ post]) simp
qed simp

definition demo_execution :: feedback_execution where
  "demo_execution = create_feedback_execution 1 (UUID 5) (UUID 2) ''q1'' (UUID 1) ''market''
     EvidenceQuality (UUID 8) (UUID 13)"

definition demo_request :: execution_request where
  "demo_request =
     \<lparr>er_execution_id = UUID 21, er_run_id = UUID 2, er_question_id = ''q1'', er_gap_id = UUID 1,
      er_dimension_key = ''market'', er_candidate_id = UUID 13, er_ranking_score = 1 / 2,
      er_query_text = ''gpu primary source'', er_source_constraints = [],
      er_requirement_type = EvidenceQuality, er_execution_reason = ''ok'',
      er_feedback_id = Some (UUID 5), er_feedback_execution_id = Some (fe_execution_id demo_execution),
      er_trigger_reason = Some ''evidence_quality_low''\<rparr>"

definition demo_started :: run_usage where
  "demo_started = emit [FeedbackExecutionStarted demo_execution demo_request] demo_run"

definition demo_item :: plan_item where
  "demo_item = \<lparr>pi_question_id = ''q1'', pi_question = ''How large is the market?'', pi_priority = 1,
     pi_requirements = [''two owners'']\<rparr>"

lemma demo_pending: "pending_execution (ru_events demo_started) = Some demo_request"
  by (simp add: demo_started_def demo_run_def pending_execution_def)

theorem claim_takes_first_pending_witness:
  "\<exists>target gaps' u'. prepare_feedback_target demo_env (UUID 2) 1 [demo_item] (UUID 30) (\<lambda>_. None) demo_started
     = Inr (Some target, gaps', u') \<and> ft_trigger_reason target = ''evidence_quality_low''"
proof -
  have "\<exists>target gaps' u'. prepare_feedback_target demo_env (UUID 2) 1 [demo_item] (UUID 30) (\<lambda>_. None) demo_started
     = Inr (Some target, gaps', u')"
    by (simp add: prepare_feedback_target_def demo_pending demo_item_def)
       (simp add: demo_request_def strip_def lstrip_def is_space_def Let_def)
  then obtain target :: feedback_target and gaps' u' where
    c: "prepare_feedback_target demo_env (UUID 2) 1 [demo_item] (UUID 30) (\<lambda>_. None) demo_started
     = Inr (Some target, gaps', u')" by blast
  from claim_takes_first_pending [OF c] obtain pre x q post where
    "started (ru_events demo_started) = pre @ (x, q) # post"
    "\<forall>reason. er_trigger_reason q = Some reason \<longrightarrow> ft_trigger_reason target = reason"
    by blast
  then have "ft_trigger_reason target = ''evidence_quality_low''"
    by (auto simp: demo_started_def demo_run_def demo_request_def Cons_eq_append_conv)
  with c show ?thesis by blast
qed

text \<open>
  C34. An execution whose question is not in the plan is never claimed and blocks the executions
  behind it: as long as it is the first pending one, every claim returns nothing and changes
  nothing, and whatever executions start later, it stays the first pending one.
\<close>

theorem missing_question_blocks_claims:
  assumes "pending_execution (ru_events u) = Some q"
    and "er_question_id q \<notin> pi_question_id ` set items"
  shows "prepare_feedback_target env rid version items call_id gaps u = Inr (None, gaps, u)
    \<and> pending_execution (ru_events u @ [FeedbackExecutionStarted x' q', QueryExecutionStarted x' q']) = Some q"
proof -
  have "find (\<lambda>i. pi_question_id i = er_question_id q) items = None"
    using assms(2) unfolding find_None_iff by (metis image_eqI)
  then have "prepare_feedback_target env rid version items call_id gaps u = Inr (None, gaps, u)"
    using assms(1) by (simp add: prepare_feedback_target_def Let_def)
  moreover have "find P xs = Some q \<Longrightarrow> find P (xs @ ys) = Some q" for P and xs ys :: "execution_request list"
    by (induction xs) (auto split: if_splits)
  ultimately show ?thesis using assms(1) by (simp add: pending_execution_def)
qed

theorem missing_question_blocks_claims_witness:
  "prepare_feedback_target demo_env (UUID 2) 2 [demo_item\<lparr>pi_question_id := ''q2''\<rparr>] (UUID 30) (\<lambda>_. None) demo_started
     = Inr (None, \<lambda>_. None, demo_started)"
  using missing_question_blocks_claims [OF demo_pending, of "[demo_item\<lparr>pi_question_id := ''q2''\<rparr>]"]
  by (simp add: demo_request_def)

end
