(* ===== verification/Unicode_Text.thy ===== *)
theory Unicode_Text
  imports Prelude
begin

text \<open>
  Text beyond ASCII. A string of the model is the UTF-8 encoding of a Python string;
  \<open>code_points\<close> reads the characters back, so that \<open>len\<close>, slices and character ranges are those of
  the code. The lemmas show that decoding inverts encoding and what slicing does to the length.
\<close>

section \<open>Encoding and decoding\<close>

definition byte :: "nat \<Rightarrow> char" where
  "byte n = char_of n"

definition encode_char :: "nat \<Rightarrow> string" where
  "encode_char c =
     (if c < 0x80 then [byte c]
      else if c < 0x800 then [byte (0xC0 + c div 64), byte (0x80 + c mod 64)]
      else if c < 0x10000
        then [byte (0xE0 + c div 4096), byte (0x80 + (c div 64) mod 64), byte (0x80 + c mod 64)]
      else [byte (0xF0 + c div 262144), byte (0x80 + (c div 4096) mod 64),
            byte (0x80 + (c div 64) mod 64), byte (0x80 + c mod 64)])"

definition utf8 :: "nat list \<Rightarrow> string" where
  "utf8 cs = concat (map encode_char cs)"

fun code_points :: "string \<Rightarrow> nat list" where
  "code_points [] = []"
| "code_points (a # s) =
     (let n = of_char a :: nat in
      if n < 0xC0 then n # code_points s
      else if n < 0xE0 then
        (case s of b # s1 \<Rightarrow> ((n - 0xC0) * 64 + (of_char b - 0x80)) # code_points s1 | _ \<Rightarrow> [])
      else if n < 0xF0 then
        (case s of b # c # s2 \<Rightarrow>
           ((n - 0xE0) * 4096 + (of_char b - 0x80) * 64 + (of_char c - 0x80)) # code_points s2
         | _ \<Rightarrow> [])
      else
        (case s of b # c # d # s3 \<Rightarrow>
           ((n - 0xF0) * 262144 + (of_char b - 0x80) * 4096 + (of_char c - 0x80) * 64
            + (of_char d - 0x80)) # code_points s3
         | _ \<Rightarrow> []))"

definition scalar :: "nat \<Rightarrow> bool" where
  "scalar c \<longleftrightarrow> c < 0x110000"

text \<open>\<open>len(s)\<close>, \<open>s[:n]\<close> and the CJK block test.\<close>

definition text_len :: "string \<Rightarrow> nat" where
  "text_len s = length (code_points s)"

definition take_chars :: "nat \<Rightarrow> string \<Rightarrow> string" where
  "take_chars n s = utf8 (take n (code_points s))"

definition has_cjk :: "string \<Rightarrow> bool" where
  "has_cjk s \<longleftrightarrow> list_ex (\<lambda>c. 0x4E00 \<le> c \<and> c \<le> 0x9FFF) (code_points s)"

text \<open>A text is well formed when it encodes some characters.\<close>

definition valid_text :: "string \<Rightarrow> bool" where
  "valid_text s \<longleftrightarrow> (\<exists>cs. list_all scalar cs \<and> s = utf8 cs)"

section \<open>Round trip\<close>

lemma of_byte: "n < 256 \<Longrightarrow> (of_char (byte n) :: nat) = n"
  by (simp add: byte_def of_char_of)

lemma decode_char:
  assumes "scalar c"
  shows "code_points (encode_char c @ s) = c # code_points s"
proof -
  consider "c < 0x80" | "0x80 \<le> c" "c < 0x800" | "0x800 \<le> c" "c < 0x10000"
    | "0x10000 \<le> c" "c < 0x110000"
    using assms by (force simp: scalar_def)
  then show ?thesis
  proof cases
    case 1
    then show ?thesis by (simp add: encode_char_def of_byte)
  next
    case 2
    then have "192 + c div 64 < 224" "c mod 64 < 64" "\<not> 192 + c div 64 < 192" by auto
    with 2 show ?thesis by (simp add: encode_char_def of_byte Let_def)
  next
    case 3
    then have *: "224 + c div 4096 < 240" by auto
    have "c div 4096 * 4096 + c div 64 mod 64 * 64 + c mod 64 = c"
      using div_mult_mod_eq [of "c div 64" 64] div_mult_mod_eq [of c 64]
        div_mult2_eq [of c 64 64] by (simp only: numeral_times_numeral semiring_norm)
    with 3 * show ?thesis by (simp add: encode_char_def of_byte Let_def)
  next
    case 4
    then have *: "240 + c div 262144 < 256" by auto
    have "c div 262144 * 262144 + c div 4096 mod 64 * 4096 + c div 64 mod 64 * 64 + c mod 64 = c"
      using div_mult_mod_eq [of "c div 4096" 64] div_mult_mod_eq [of "c div 64" 64]
        div_mult_mod_eq [of c 64] div_mult2_eq [of c 64 64]
        div_mult2_eq [of c 64 4096] div_mult2_eq [of "c div 64" 64 64]
      by (simp only: numeral_times_numeral semiring_norm)
    with 4 * show ?thesis by (simp add: encode_char_def of_byte Let_def)
  qed
qed

lemma code_points_utf8: "list_all scalar cs \<Longrightarrow> code_points (utf8 cs) = cs"
  by (induction cs) (simp_all add: utf8_def decode_char)

lemma text_len_utf8: "list_all scalar cs \<Longrightarrow> text_len (utf8 cs) = length cs"
  by (simp add: text_len_def code_points_utf8)

lemma text_len_take_chars: "valid_text s \<Longrightarrow> text_len (take_chars n s) = min n (text_len s)"
proof -
  assume "valid_text s"
  then obtain cs where cs: "list_all scalar cs" "s = utf8 cs" by (auto simp: valid_text_def)
  then have "list_all scalar (take n cs)" by (auto simp: list_all_iff dest: in_set_takeD)
  with cs show ?thesis by (simp add: take_chars_def text_len_def code_points_utf8)
qed

text \<open>On ASCII text characters are bytes.\<close>

definition ascii :: "string \<Rightarrow> bool" where
  "ascii s \<longleftrightarrow> list_all (\<lambda>c. (of_char c :: nat) < 128) s"

lemma code_points_ascii: "ascii s \<Longrightarrow> code_points s = map of_char s"
  by (induction s) (simp_all add: ascii_def Let_def)

lemma encode_ascii: "ascii s \<Longrightarrow> utf8 (map of_char s) = s"
  by (induction s) (simp_all add: ascii_def utf8_def encode_char_def byte_def)

lemma text_len_ascii: "ascii s \<Longrightarrow> text_len s = length s"
  by (simp add: text_len_def code_points_ascii)

lemma take_chars_ascii: "ascii s \<Longrightarrow> take_chars n s = take n s"
proof -
  assume s: "ascii s"
  then have "ascii (take n s)" by (auto simp: ascii_def list_all_iff dest: in_set_takeD)
  with s show ?thesis
    using encode_ascii [of "take n s"] by (simp add: take_chars_def code_points_ascii take_map)
qed

text \<open>Building text from valid text.\<close>

lemma utf8_append: "utf8 (a @ b) = utf8 a @ utf8 b"
  by (simp add: utf8_def)

lemma valid_utf8 [simp]: "list_all scalar cs \<Longrightarrow> valid_text (utf8 cs)"
  by (auto simp: valid_text_def)

lemma valid_text_append [intro]: "valid_text a \<Longrightarrow> valid_text b \<Longrightarrow> valid_text (a @ b)"
  unfolding valid_text_def by (metis list_all_append utf8_append)

lemma valid_ascii: "ascii s \<Longrightarrow> valid_text s"
proof -
  assume s: "ascii s"
  then have "list_all scalar (map of_char s)" by (induction s) (simp_all add: ascii_def scalar_def)
  then show ?thesis using encode_ascii [OF s] valid_utf8 by metis
qed

lemma text_len_append: "valid_text a \<Longrightarrow> valid_text b \<Longrightarrow> text_len (a @ b) = text_len a + text_len b"
  unfolding valid_text_def by (elim exE conjE) (simp add: utf8_append [symmetric] text_len_utf8)

lemma text_len_Cons: "ascii [c] \<Longrightarrow> valid_text b \<Longrightarrow> text_len (c # b) = Suc (text_len b)"
  using text_len_append [of "[c]" b] valid_ascii [of "[c]"] text_len_ascii [of "[c]"] by simp

end
