(* ===== verification/Research_Budget.thy ===== *)
theory Research_Budget
  imports Prelude Unicode_Text
begin

text \<open>
  Question states and the budget decisions: \<open>app/domain/question_research_state.py\<close> and
  \<open>app/domain/research_budget.py\<close>.

  The projection of a question's observable facts to its execution, opportunity and recovery
  states; the allocation of one research call; the split of the research pool over the questions of
  a plan; the risk of claims, gaps and questions; the gate that lets a question spend more than its
  target; and the snapshot of the executable resource pools. The lemmas give the bounds each
  decision promises: an allocated call is affordable, the split explains the pool exactly, a
  question never borrows more than twice its target, scores stay in the unit interval.
\<close>

section \<open>Question research state\<close>

datatype first_pass_state = FPNotStarted | FPRunning | FPCompleted | FPBlocked

datatype opportunity_state =
    ONotStarted | OActive | OCompletedWithGap | OCompletedQuality | OBlockedTechnical
  | OBlockedResource

datatype recovery_state = RENotEvaluated | REEligible | REDenied | REDeferred

record question_facts =
  qf_question_id :: string
  qf_search_started :: int
  qf_search_completed :: int
  qf_search_failed :: int
  qf_readable_sources :: int
  qf_extraction_started :: int
  qf_candidate_evidence :: int
  qf_accepted_evidence :: int
  qf_evaluation_completed :: bool
  qf_coverage :: rat
  qf_gap_open :: bool
  qf_critical_gap :: bool
  qf_replan_count :: int
  qf_gap_attempts :: int
  qf_family_marker :: bool
  qf_technical_blocked :: bool
  qf_resource_blocked :: bool
  qf_budget_blocked :: bool
  qf_budget_reason :: "string option"
  qf_recovery_path :: bool
  qf_quality_met :: bool

record question_state =
  qr_question_id :: string
  qr_first_pass :: first_pass_state
  qr_opportunity :: opportunity_state
  qr_recovery :: recovery_state
  qr_blocking_reason :: "string option"

definition project_question_research_state :: "question_facts \<Rightarrow> question_state" where
  "project_question_research_state f =
     (let coverage = clamp01 (qf_coverage f);
          downstream = (0 < qf_readable_sources f \<or> 0 < qf_extraction_started f
            \<or> qf_evaluation_completed f \<or> 0 < qf_replan_count f \<or> 0 < qf_gap_attempts f);
          search = (0 < qf_search_started f \<or> 0 < qf_search_completed f);
          first_pass =
            (if qf_family_marker f \<or> 0 < qf_search_completed f \<or> downstream then FPCompleted
             else if search then FPRunning
             else if qf_technical_blocked f \<or> qf_resource_blocked f then FPBlocked
             else FPNotStarted);
          attempted = (qf_evaluation_completed f
            \<and> (0 < qf_search_completed f \<or> 0 < qf_readable_sources f
               \<or> 0 < qf_extraction_started f \<or> 0 < qf_gap_attempts f));
          quality = (qf_quality_met f
            \<or> (qf_evaluation_completed f \<and> 1 \<le> coverage \<and> \<not> qf_gap_open f));
          opportunity =
            (if quality then OCompletedQuality
             else if qf_gap_open f \<and> attempted then OCompletedWithGap
             else if qf_technical_blocked f then OBlockedTechnical
             else if qf_resource_blocked f then OBlockedResource
             else if downstream \<or> search then OActive
             else ONotStarted);
          recovery =
            (if opportunity = OCompletedQuality \<or> \<not> qf_gap_open f then REDenied
             else if opportunity = ONotStarted then RENotEvaluated
             else if qf_budget_blocked f \<or> opportunity \<in> {OBlockedTechnical, OBlockedResource}
               then REDeferred
             else if opportunity = OActive then RENotEvaluated
             else if qf_recovery_path f then REEligible
             else REDenied);
          reason =
            (case qf_budget_reason f of
               Some r \<Rightarrow> Some r
             | None \<Rightarrow> if opportunity = OBlockedTechnical then Some ''technical_blocked''
                       else if opportunity = OBlockedResource then Some ''resource_blocked''
                       else None)
      in \<lparr>qr_question_id = qf_question_id f, qr_first_pass = first_pass,
          qr_opportunity = opportunity, qr_recovery = recovery, qr_blocking_reason = reason\<rparr>)"

text \<open>Recovery is offered exactly to a question that was tried, evaluated and still has a gap.\<close>

definition recovery_open :: "question_facts \<Rightarrow> bool" where
  "recovery_open f \<longleftrightarrow>
     qf_gap_open f \<and> \<not> qf_quality_met f \<and> qf_evaluation_completed f \<and> \<not> qf_budget_blocked f
     \<and> qf_recovery_path f
     \<and> (0 < qf_search_completed f \<or> 0 < qf_readable_sources f \<or> 0 < qf_extraction_started f
        \<or> 0 < qf_gap_attempts f)"

lemma recovery_eligible_iff:
  "qr_recovery (project_question_research_state f) = REEligible \<longleftrightarrow> recovery_open f"
  by (auto simp: project_question_research_state_def recovery_open_def Let_def)

lemma opportunity_not_started:
  "qr_opportunity (project_question_research_state f) = ONotStarted
     \<Longrightarrow> \<not> qf_evaluation_completed f \<and> qf_search_started f \<le> 0 \<and> qf_search_completed f \<le> 0
       \<and> qf_readable_sources f \<le> 0"
  by (auto simp: project_question_research_state_def Let_def not_less split: if_splits)

section \<open>Numbers out of JSON\<close>

definition safe_int_or :: "int \<Rightarrow> json \<Rightarrow> int" where
  "safe_int_or d v =
     (case v of
        JInt n \<Rightarrow> n
      | JNum q \<Rightarrow> (if q < 0 then \<lceil>q\<rceil> else \<lfloor>q\<rfloor>)
      | JStr s \<Rightarrow> (case parse_int s of None \<Rightarrow> d | Some n \<Rightarrow> n)
      | _ \<Rightarrow> d)"

definition safe_int :: "json \<Rightarrow> int" where
  "safe_int = safe_int_or 0"

definition limit_of :: "string \<Rightarrow> (string \<times> json) list \<Rightarrow> int" where
  "limit_of key obj = max 0 (safe_int (jget_or (JInt 0) key obj))"

lemma limit_of_nonneg [simp]: "0 \<le> limit_of key obj"
  by (simp add: limit_of_def)

section \<open>Allocation of one call\<close>

datatype call_outcome = ExecuteCall | YieldQuestion | StopRun

record budget_decision =
  bd_outcome :: call_outcome
  bd_call_tokens :: int
  bd_future_reserve :: int
  bd_reason :: string

definition allocate_research_call ::
    "int \<Rightarrow> int \<Rightarrow> int \<Rightarrow> int \<Rightarrow> int \<Rightarrow> int \<Rightarrow> budget_decision result" where
  "allocate_research_call available eligible other_unattempted attempts minimum maximum =
     (if minimum \<le> 0 \<or> maximum < minimum then Inl (ValueError ''invalid call bounds'')
      else if available < minimum then
        Inr \<lparr>bd_outcome = StopRun, bd_call_tokens = 0, bd_future_reserve = 0,
             bd_reason = ''no_affordable_call''\<rparr>
      else if attempts > 0 \<and> other_unattempted > 0 then
        Inr \<lparr>bd_outcome = YieldQuestion, bd_call_tokens = 0, bd_future_reserve = 0,
             bd_reason = ''unattempted_questions_first''\<rparr>
      else
        let seats = min (max 1 eligible) (available div minimum)
        in Inr \<lparr>bd_outcome = ExecuteCall, bd_call_tokens = min maximum (available div seats),
                bd_future_reserve = (seats - 1) * minimum,
                bd_reason = ''affordable_question_share''\<rparr>)"

lemma seats_positive:
  "0 < minimum \<Longrightarrow> minimum \<le> available \<Longrightarrow> 1 \<le> min (max 1 eligible) (available div minimum)"
  for minimum available eligible :: int
  by (simp add: pos_imp_zdiv_pos_iff int_one_le_iff_zero_less)

lemma share_bounds:
  fixes minimum available seats :: int
  assumes "0 < minimum" and "1 \<le> seats" and "seats \<le> available div minimum"
  shows "minimum \<le> available div seats" and "available div seats + (seats - 1) * minimum \<le> available"
proof -
  have s0: "0 < seats" using assms(2) by linarith
  have "seats * minimum \<le> available div minimum * minimum"
    using assms by (simp add: mult_right_mono)
  also have "\<dots> = available - available mod minimum" by (simp add: minus_mod_eq_div_mult)
  finally have total: "seats * minimum \<le> available"
    using pos_mod_sign [OF assms(1), of available] by linarith
  then have "seats * minimum div seats \<le> available div seats" using s0 by (rule zdiv_mono1)
  then show low: "minimum \<le> available div seats" using s0 by simp
  have "available div seats * seats = available - available mod seats"
    by (simp add: minus_mod_eq_div_mult)
  then have "available div seats * seats \<le> available"
    using pos_mod_sign [OF s0, of available] by linarith
  moreover have "(seats - 1) * minimum \<le> (seats - 1) * (available div seats)"
    using assms(2) low by (intro mult_left_mono) simp_all
  ultimately show "available div seats + (seats - 1) * minimum \<le> available"
    by (simp add: left_diff_distrib mult.commute)
qed

text \<open>An executed call costs between the bounds and leaves the minimum for every other seat.\<close>

lemma allocated_call_is_affordable:
  assumes "allocate_research_call available eligible others attempts minimum maximum = Inr d"
    and "bd_outcome d = ExecuteCall"
  shows "minimum \<le> bd_call_tokens d" and "bd_call_tokens d \<le> maximum"
    and "bd_call_tokens d + bd_future_reserve d \<le> available" and "0 \<le> bd_future_reserve d"
proof -
  let ?seats = "min (max 1 eligible) (available div minimum)"
  have m: "0 < minimum" "minimum \<le> maximum" "minimum \<le> available"
    using assms by (cases d, simp add: allocate_research_call_def Let_def split: if_split_asm)+
  have "d = \<lparr>bd_outcome = ExecuteCall, bd_call_tokens = min maximum (available div ?seats),
      bd_future_reserve = (?seats - 1) * minimum, bd_reason = ''affordable_question_share''\<rparr>"
    using assms m unfolding allocate_research_call_def Let_def
    by (cases d) (simp split: if_split_asm)
  then have d: "bd_call_tokens d = min maximum (available div ?seats)"
      "bd_future_reserve d = (?seats - 1) * minimum" by simp_all
  have s: "1 \<le> ?seats" "?seats \<le> available div minimum"
    using seats_positive [OF m(1,3)] by simp_all
  note share = share_bounds [OF m(1) s]
  show "minimum \<le> bd_call_tokens d" using m d share by simp
  show "bd_call_tokens d \<le> maximum" using d by simp
  show "bd_call_tokens d + bd_future_reserve d \<le> available" using d share by linarith
  show "0 \<le> bd_future_reserve d" using d s m by (simp add: mult_nonneg_nonneg)
qed

definition question_schedule_key :: "int \<Rightarrow> rat \<Rightarrow> int \<Rightarrow> string \<Rightarrow> int \<times> int \<times> rat \<times> int \<times> string" where
  "question_schedule_key attempts coverage priority question_id =
     (if attempts > 0 then 1 else 0, attempts, coverage, priority, question_id)"

definition conservative_chars_to_tokens :: "int \<Rightarrow> string \<Rightarrow> int" where
  "conservative_chars_to_tokens per_token value =
     (if value = [] then 0
      else let cs = code_points value;
               cjk = int (length (filter (\<lambda>c. 0x3400 \<le> c \<and> c \<le> 0x9FFF) cs));
               other = int (length cs) - cjk
           in cjk + \<lceil>(of_int other :: rat) / of_int (max 1 per_token)\<rceil>)"

section \<open>The research pool split over the questions of a plan\<close>

record question_budget =
  qb_question_id :: string
  qb_minimum :: int
  qb_target :: int
  qb_priority :: int
  qb_complexity :: int

record budget_row =
  br_question_id :: string
  br_priority :: int
  br_complexity :: int
  br_weight :: int

definition json_items :: "json \<Rightarrow> int" where
  "json_items j = (case j of JList xs \<Rightarrow> int (length xs) | _ \<Rightarrow> 0)"

definition budget_row_of :: "(json \<Rightarrow> string) \<Rightarrow> nat \<Rightarrow> (string \<times> json) list \<Rightarrow> budget_row" where
  "budget_row_of other index question =
     (let raw = jget ''id'' question;
          question_id = (if truthy raw then py_str other raw else ''q'' @ show_nat index);
          priority = min 3 (max 1 (safe_int_or 2 (jget_or (JInt 2) ''priority'' question)));
          requirements = json_items (jget ''evidence_requirements'' question);
          hints = json_items (jget ''search_hints'' question);
          complexity = 1 + requirements + max 0 (hints - 1)
      in \<lparr>br_question_id = question_id, br_priority = priority, br_complexity = complexity,
          br_weight = (4 - priority) + complexity\<rparr>)"

definition budget_for :: "int \<Rightarrow> int \<Rightarrow> budget_row \<Rightarrow> question_budget" where
  "budget_for minimum target r =
     \<lparr>qb_question_id = br_question_id r, qb_minimum = minimum, qb_target = target,
      qb_priority = br_priority r, qb_complexity = br_complexity r\<rparr>"

text \<open>The weighted loop: the last question takes what the others left.\<close>

fun allot :: "int \<Rightarrow> int \<Rightarrow> int \<Rightarrow> int \<Rightarrow> budget_row list \<Rightarrow> question_budget list" where
  "allot minimum remaining weights pool [] = []"
| "allot minimum remaining weights pool (r # rs) =
     (let share = (if rs = [] then pool else (remaining * br_weight r) div weights)
      in budget_for minimum (minimum + share) r
           # allot minimum remaining weights (pool - share) rs)"

definition top_up :: "int \<Rightarrow> question_budget list \<Rightarrow> question_budget list" where
  "top_up pool es =
     (case es of [] \<Rightarrow> []
      | e # rest \<Rightarrow>
          let assigned = sum_list (map qb_target es)
          in if assigned < pool then e\<lparr>qb_target := qb_target e + pool - assigned\<rparr> # rest else es)"

definition budget_rows :: "(json \<Rightarrow> string) \<Rightarrow> (string \<times> json) list list \<Rightarrow> budget_row list" where
  "budget_rows other questions = map (\<lambda>(i, q). budget_row_of other i q) (enumerate 1 questions)"

definition split_pool :: "int \<Rightarrow> int \<Rightarrow> budget_row list \<Rightarrow> question_budget list" where
  "split_pool per_question pool rows =
     (let count = int (length rows) in
      if pool < per_question * count then
        let equal = pool div count in map (budget_for equal equal) rows
      else
        let remaining = pool - per_question * count
        in top_up pool (allot per_question remaining (sum_list (map br_weight rows)) remaining rows))"

definition estimate_question_budgets ::
    "(json \<Rightarrow> string) \<Rightarrow> (string \<times> json) list list \<Rightarrow> int \<Rightarrow> int \<Rightarrow> int \<Rightarrow> int \<Rightarrow> question_budget list result" where
  "estimate_question_budgets other questions max_tokens planner_tokens writer_reserve minimum =
     (if max_tokens < 0 \<or> planner_tokens < 0 \<or> writer_reserve < 0
        then Inl (ValueError ''token budgets must be non-negative'')
      else if questions = [] then Inr []
      else Inr (split_pool (max 1 minimum) (max 0 (max_tokens - planner_tokens - writer_reserve))
                  (budget_rows other questions)))"

text \<open>The share that the weights give a row, before the remainder is handed out.\<close>

definition fair_target :: "int \<Rightarrow> int \<Rightarrow> int \<Rightarrow> budget_row \<Rightarrow> int" where
  "fair_target minimum remaining weights r = minimum + (remaining * br_weight r) div weights"

lemma budget_for_simps [simp]:
  "qb_minimum (budget_for m t r) = m" "qb_target (budget_for m t r) = t"
  "qb_question_id (budget_for m t r) = br_question_id r"
  by (simp_all add: budget_for_def)

lemma weight_positive: "2 \<le> br_weight (budget_row_of other i q)"
proof -
  have "0 \<le> json_items j" for j by (simp add: json_items_def split: json.split)
  from this [of "jget ''evidence_requirements'' q"] show ?thesis
    unfolding budget_row_of_def Let_def budget_row.simps by linarith
qed

lemma allot_total:
  "rs \<noteq> [] \<Longrightarrow> sum_list (map qb_target (allot m R T P rs)) = m * int (length rs) + P"
proof (induction rs arbitrary: P)
  case (Cons r rs)
  then show ?case by (cases "rs = []") (simp_all add: Let_def algebra_simps)
qed simp

lemma allot_minimum: "e \<in> set (allot m R T P rs) \<Longrightarrow> qb_minimum e = m"
  by (induction rs arbitrary: P) (auto simp: Let_def)

lemma allot_ids: "map qb_question_id (allot m R T P rs) = map br_question_id rs"
  by (induction rs arbitrary: P) (auto simp: Let_def)

lemma allot_fair:
  assumes "sum_list (map (\<lambda>r. (R * br_weight r) div T) rs) \<le> P"
    and "P < sum_list (map (\<lambda>r. (R * br_weight r) div T) rs) + k"
  shows "list_all2 (\<lambda>r e. fair_target m R T r \<le> qb_target e \<and> qb_target e < fair_target m R T r + k)
           rs (allot m R T P rs)"
  using assms
proof (induction rs arbitrary: P)
  case (Cons r rs)
  show ?case
  proof (cases "rs = []")
    case True
    with Cons.prems show ?thesis by (simp add: fair_target_def)
  next
    case False
    let ?s = "(R * br_weight r) div T"
    have "0 < k" using Cons.prems by linarith
    moreover have "list_all2 (\<lambda>r e. fair_target m R T r \<le> qb_target e
        \<and> qb_target e < fair_target m R T r + k) rs (allot m R T (P - ?s) rs)"
      using Cons.prems by (intro Cons.IH) simp_all
    ultimately show ?thesis using False by (simp add: fair_target_def Let_def)
  qed
qed simp

text \<open>Rounding every share down loses less than one token per row.\<close>

lemma sum_div_bounds:
  fixes R T :: int
  assumes "0 < T"
  shows "T * sum_list (map (\<lambda>r. (R * br_weight r) div T) rs) \<le> R * sum_list (map br_weight rs)"
    and "rs \<noteq> [] \<Longrightarrow> R * sum_list (map br_weight rs)
      < T * sum_list (map (\<lambda>r. (R * br_weight r) div T) rs) + T * int (length rs)"
proof -
  have lo: "T * (x div T) \<le> x" and hi: "x < T * (x div T) + T" for x
    using mult_div_mod_eq [of T x] pos_mod_sign [OF assms, of x] pos_mod_bound [OF assms, of x]
    by linarith+
  show "T * sum_list (map (\<lambda>r. (R * br_weight r) div T) rs) \<le> R * sum_list (map br_weight rs)"
  proof (induction rs)
    case (Cons r rs)
    then show ?case using lo [of "R * br_weight r"] by (simp add: distrib_left)
  qed simp
  show "R * sum_list (map br_weight rs)
      < T * sum_list (map (\<lambda>r. (R * br_weight r) div T) rs) + T * int (length rs)"
    if "rs \<noteq> []"
    using that
  proof (induction rs)
    case (Cons r rs)
    then show ?case using hi [of "R * br_weight r"]
      by (cases "rs = []") (simp_all add: distrib_left)
  qed simp
qed

lemma top_up_exact: "sum_list (map qb_target es) = pool \<Longrightarrow> top_up pool es = es"
  by (cases es) (simp_all add: top_up_def Let_def)

lemma sum_list_const_target: "sum_list (map (\<lambda>r. c) rs) = c * int (length rs)" for c :: int
  by (induction rs) (simp_all add: distrib_left)

lemma length_budget_rows [simp]: "length (budget_rows other qs) = length qs"
  by (simp add: budget_rows_def)

lemma budget_row_weight: "x \<in> set (budget_rows other qs) \<Longrightarrow> 2 \<le> br_weight x"
  unfolding budget_rows_def using weight_positive by (clarsimp split: prod.splits)

lemma budget_rows_weights:
  "qs \<noteq> [] \<Longrightarrow> 0 < sum_list (map br_weight (budget_rows other qs))"
proof -
  assume "qs \<noteq> []"
  then obtain r rs where rows: "budget_rows other qs = r # rs"
    by (metis length_0_conv length_budget_rows neq_Nil_conv)
  have pos: "2 \<le> br_weight x" if "x \<in> set (r # rs)" for x
    using that unfolding rows [symmetric] by (rule budget_row_weight)
  then have "0 \<le> sum_list (map br_weight rs)"
    by (intro sum_list_nonneg) (force)
  with pos [of r] show ?thesis by (simp add: rows)
qed

lemma funded_split:
  assumes rows: "rs \<noteq> []" and T: "0 < T" "T = sum_list (map br_weight rs)" and R: "0 \<le> R"
    and m: "0 < m"
  shows "list_all2 (\<lambda>r e. fair_target m R T r \<le> qb_target e
           \<and> qb_target e < fair_target m R T r + int (length rs)) rs (allot m R T R rs)"
    and "e \<in> set (allot m R T R rs) \<Longrightarrow> \<forall>r \<in> set rs. 0 \<le> br_weight r \<Longrightarrow> m \<le> qb_target e"
proof -
  let ?S = "sum_list (map (\<lambda>r. (R * br_weight r) div T) rs)"
  have "T * ?S \<le> T * R" and "T * R < T * (?S + int (length rs))"
    using sum_div_bounds(1) [OF T(1), of R rs] sum_div_bounds(2) [OF T(1) rows, of R] T(2)
    by (simp_all add: mult.commute distrib_left)
  then have "?S \<le> R" and "R < ?S + int (length rs)" using T(1) by simp_all
  then show fair: "list_all2 (\<lambda>r e. fair_target m R T r \<le> qb_target e
           \<and> qb_target e < fair_target m R T r + int (length rs)) rs (allot m R T R rs)"
    by (rule allot_fair)
  show "m \<le> qb_target e"
    if e: "e \<in> set (allot m R T R rs)" and w: "\<forall>r \<in> set rs. 0 \<le> br_weight r"
  proof -
    from e fair obtain r where "r \<in> set rs" "fair_target m R T r \<le> qb_target e"
      by (auto simp: list_all2_conv_all_nth in_set_conv_nth) (metis nth_mem)
    moreover from this w R T(1) have "0 \<le> (R * br_weight r) div T"
      by (intro div_int_pos_iff [THEN iffD2]) auto
    ultimately show ?thesis by (simp add: fair_target_def)
  qed
qed

text \<open>
  C35. Splitting the research pool of a plan over its questions. If the pool can pay the floor of
  every question, the targets add up to the pool exactly, every question keeps at least the floor,
  and each target is its weighted share, or less than one token per question more. If it cannot,
  every question gets the same share and less than one token per question is left over. The
  estimates name the questions in their order.
\<close>

theorem question_targets_partition_the_pool:
  assumes "estimate_question_budgets other qs max_t planner writer minimum = Inr es" and "qs \<noteq> []"
  shows "let p = max 0 (max_t - planner - writer); least = max 1 minimum; n = int (length qs);
             rows = budget_rows other qs; spent = sum_list (map qb_target es)
         in map qb_question_id es = map br_question_id rows
            \<and> (if least * n \<le> p
               then spent = p \<and> (\<forall>e \<in> set es. qb_minimum e = least \<and> least \<le> qb_target e)
                 \<and> list_all2 (\<lambda>r e. let fair = fair_target least (p - least * n) (sum_list (map br_weight rows)) r
                     in fair \<le> qb_target e \<and> qb_target e < fair + n) rows es
               else (\<forall>e \<in> set es. qb_target e = p div n \<and> qb_minimum e = p div n)
                 \<and> spent \<le> p \<and> p < spent + n)"
proof -
  define p where p: "p = max 0 (max_t - planner - writer)"
  define m where m: "m = max 1 minimum"
  define rows where r: "rows = budget_rows other qs"
  define T where T: "T = sum_list (map br_weight rows)"
  have len: "length rows = length qs" by (simp add: r)
  with assms(2) have n: "length rows = length qs" "rows \<noteq> []" by auto
  have T0: "0 < T" using budget_rows_weights [OF assms(2)] by (simp add: T r)
  have w: "\<forall>x \<in> set rows. 0 \<le> br_weight x"
    using budget_row_weight [of _ other qs] by (fastforce simp: r)
  have es: "es = split_pool m p rows"
    using assms by (simp add: estimate_question_budgets_def p m r split: if_split_asm)
  show ?thesis
  proof (cases "m * int (length qs) \<le> p")
    case True
    let ?R = "p - m * int (length qs)"
    let ?es = "allot m ?R T ?R rows"
    have total: "sum_list (map qb_target ?es) = p" using n by (simp add: allot_total)
    then have es': "es = ?es" using es True by (simp add: split_pool_def Let_def T n(1) top_up_exact)
    have m0: "0 < m" by (simp add: m)
    have "0 \<le> ?R" using True by simp
    note split = funded_split [OF n(2) T0 T this m0]
    from split(2) [OF _ w] allot_minimum
    have each: "\<forall>e \<in> set ?es. qb_minimum e = m \<and> m \<le> qb_target e" by blast
    show ?thesis
      unfolding Let_def p [symmetric] m [symmetric] r [symmetric] T [symmetric] es'
      using True split(1) each total by (simp only: allot_ids n(1) if_True simp_thms)
  next
    case False
    let ?q = "p div int (length qs)"
    have es': "es = map (budget_for ?q ?q) rows" using es False by (simp add: split_pool_def Let_def n(1))
    have N: "0 < int (length qs)" using assms(2) by simp
    have "?q * int (length qs) = p - p mod int (length qs)" by (simp add: minus_mod_eq_div_mult)
    then have "?q * int (length qs) \<le> p" "p < ?q * int (length qs) + int (length qs)"
      using pos_mod_sign [OF N, of p] pos_mod_bound [OF N, of p] by linarith+
    with False show ?thesis
      by (simp add: es' Let_def p [symmetric] m [symmetric] r [symmetric] comp_def
          sum_list_const_target n(1))
  qed
qed

definition demo_questions :: "(string \<times> json) list list" where
  "demo_questions =
     [[(''id'', JStr ''q1''), (''priority'', JInt 1), (''evidence_requirements'', JList [JStr ''a'', JStr ''b''])],
      [(''id'', JStr ''q2''), (''priority'', JInt 3), (''search_hints'', JList [JStr ''h'', JStr ''k''])],
      []]"

definition demo_split :: "question_budget list" where
  "demo_split =
     [\<lparr>qb_question_id = ''q1'', qb_minimum = 2500, qb_target = 8750, qb_priority = 1, qb_complexity = 3\<rparr>,
      \<lparr>qb_question_id = ''q2'', qb_minimum = 2500, qb_target = 5625, qb_priority = 3, qb_complexity = 2\<rparr>,
      \<lparr>qb_question_id = ''q3'', qb_minimum = 2500, qb_target = 5625, qb_priority = 2, qb_complexity = 1\<rparr>]"

lemma demo_estimate:
  "estimate_question_budgets (\<lambda>_. []) demo_questions 20000 0 0 2500 = Inr demo_split"
  by (simp add: estimate_question_budgets_def demo_questions_def demo_split_def budget_rows_def
      budget_row_of_def split_pool_def json_items_def safe_int_or_def truthy_def Let_def top_up_def
      budget_for_def show_nat.simps char_of_def bit_Suc_0_iff)

theorem question_targets_partition_the_pool_witness:
  "sum_list (map qb_target demo_split) = 20000 \<and> list_all (\<lambda>e. 2500 \<le> qb_target e) demo_split"
  using question_targets_partition_the_pool [OF demo_estimate]
  by (simp add: Let_def demo_questions_def list_all_iff)

section \<open>Risk\<close>

datatype risk_level = RiskLow | RiskMedium | RiskHigh | RiskCritical

datatype risk_lifecycle = LifeOpen | LifeMitigating | LifeBlocked | LifeResolved

datatype verification_state = VerNotRequired | VerRequired | VerVerified | VerBlocked

fun level_value :: "risk_level \<Rightarrow> string" where
  "level_value RiskLow = ''low''"
| "level_value RiskMedium = ''medium''"
| "level_value RiskHigh = ''high''"
| "level_value RiskCritical = ''critical''"

fun lifecycle_value :: "risk_lifecycle \<Rightarrow> string" where
  "lifecycle_value LifeOpen = ''open''"
| "lifecycle_value LifeMitigating = ''mitigating''"
| "lifecycle_value LifeBlocked = ''blocked''"
| "lifecycle_value LifeResolved = ''resolved''"

fun verification_value :: "verification_state \<Rightarrow> string" where
  "verification_value VerNotRequired = ''not_required''"
| "verification_value VerRequired = ''required''"
| "verification_value VerVerified = ''verified''"
| "verification_value VerBlocked = ''blocked''"

definition risk_level_of :: "rat \<Rightarrow> risk_level" where
  "risk_level_of score =
     (if 85 / 100 \<le> score then RiskCritical
      else if 65 / 100 \<le> score then RiskHigh
      else if 35 / 100 \<le> score then RiskMedium
      else RiskLow)"

record claim_risk =
  cr_claim_id :: string
  cr_question_id :: string
  cr_dimension_key :: string
  cr_claim_status :: string
  cr_claim_type :: string
  cr_importance :: rat
  cr_score :: rat
  cr_level :: risk_level
  cr_lifecycle :: risk_lifecycle
  cr_verification :: verification_state
  cr_unresolved :: bool
  cr_required_sources :: int
  cr_independent_sources :: int
  cr_deficit :: int
  cr_conflicts :: "string list"
  cr_reasons :: "string list"

definition classify_claim_risk ::
    "string \<Rightarrow> string \<Rightarrow> string \<Rightarrow> string \<Rightarrow> string \<Rightarrow> rat \<Rightarrow> int \<Rightarrow> int \<Rightarrow> string list \<Rightarrow> claim_risk" where
  "classify_claim_risk claim_id question_id dimension_key claim_status claim_type importance
       sources required open_conflicts =
     (let status = casefold (strip claim_status);
          ctype = (let t = casefold (strip claim_type) in if t = [] then ''factual'' else t);
          imp = clamp01 importance;
          indep = max 0 sources;
          req = max 1 required;
          conflicts = dedup open_conflicts;
          deficit = max 0 (req - indep);
          rejected = (status = ''rejected'');
          supported = (status = ''supported'' \<and> deficit = 0 \<and> conflicts = []);
          unresolved = (\<not> rejected \<and> \<not> supported);
          risky_type = (ctype \<in> {''numeric'', ''forecast'', ''comparative'', ''market''});
          contested = (status = ''disputed'' \<or> conflicts \<noteq> []);
          raw = imp * (35 / 100)
            + (if 75 / 100 \<le> imp then 25 / 100 else 0)
            + (if risky_type then 25 / 100 else 0)
            + (if deficit \<noteq> 0 then min (30 / 100) (15 / 100 * of_int deficit) else 0)
            + (if contested then 40 / 100 else 0);
          score = py_round (min 1 (if rejected then 0 else raw)) 4;
          level = risk_level_of score;
          reasons = (if 75 / 100 \<le> imp then [''high_importance''] else [])
            @ (if risky_type then [''high_risk_claim_type''] else [])
            @ (if deficit \<noteq> 0 then [''independent_source_deficit''] else [])
            @ (if contested then [''open_conflict''] else [])
            @ (if rejected then [''claim_rejected''] else []);
          lifecycle =
            (if supported \<or> rejected then LifeResolved
             else if contested then LifeBlocked
             else if 0 < indep then LifeMitigating
             else LifeOpen);
          needed = (\<not> rejected \<and> (1 < req \<or> level \<in> {RiskHigh, RiskCritical} \<or> conflicts \<noteq> []));
          verification =
            (if \<not> needed then VerNotRequired
             else if supported then VerVerified
             else if conflicts \<noteq> [] then VerBlocked
             else VerRequired)
      in \<lparr>cr_claim_id = claim_id, cr_question_id = question_id, cr_dimension_key = dimension_key,
          cr_claim_status = status, cr_claim_type = ctype, cr_importance = py_round imp 4,
          cr_score = score, cr_level = level, cr_lifecycle = lifecycle,
          cr_verification = verification, cr_unresolved = unresolved, cr_required_sources = req,
          cr_independent_sources = indep, cr_deficit = deficit, cr_conflicts = conflicts,
          cr_reasons = reasons\<rparr>)"

record gap_risk =
  gk_gap_id :: string
  gk_question_id :: string
  gk_status :: string
  gk_type :: string
  gk_severity :: rat
  gk_attempts :: int
  gk_score :: rat
  gk_level :: risk_level
  gk_lifecycle :: risk_lifecycle
  gk_unresolved :: bool
  gk_blocked :: bool
  gk_reasons :: "string list"

definition classify_gap_risk ::
    "string \<Rightarrow> string \<Rightarrow> string \<Rightarrow> string \<Rightarrow> rat \<Rightarrow> int \<Rightarrow> bool \<Rightarrow> gap_risk" where
  "classify_gap_risk gap_id question_id gap_status gap_kind severity resolution_attempts blocked =
     (let status = casefold (strip gap_status);
          sev = clamp01 severity;
          attempts = max 0 resolution_attempts;
          unresolved = (status \<noteq> ''resolved'');
          raw = (if unresolved then sev * (70 / 100) else 0)
            + (if 2 \<le> attempts \<and> unresolved then 15 / 100 else 0)
            + (if blocked \<and> unresolved then 25 / 100 else 0);
          score = py_round (min 1 raw) 4;
          reasons = (if 2 \<le> attempts \<and> unresolved then [''repeated_resolution_attempts''] else [])
            @ (if blocked \<and> unresolved then [''no_eligible_action''] else [])
            @ [if unresolved then ''gap_open'' else ''gap_resolved''];
          lifecycle =
            (if \<not> unresolved then LifeResolved
             else if blocked then LifeBlocked
             else if 0 < attempts then LifeMitigating
             else LifeOpen)
      in \<lparr>gk_gap_id = gap_id, gk_question_id = question_id, gk_status = status,
          gk_type = (let t = casefold (strip gap_kind) in if t = [] then ''missing'' else t),
          gk_severity = py_round sev 4, gk_attempts = attempts, gk_score = score,
          gk_level = risk_level_of score, gk_lifecycle = lifecycle, gk_unresolved = unresolved,
          gk_blocked = (blocked \<and> unresolved), gk_reasons = reasons\<rparr>)"

definition HIGH_RISK_MARKERS :: "string list" where
  "HIGH_RISK_MARKERS =
     [utf8 [0x72EC, 0x7ACB, 0x6765, 0x6E90], utf8 [0x4E24, 0x4E2A], utf8 [0x4E24, 0x6761],
      utf8 [0x5E02, 0x573A, 0x89C4, 0x6A21], utf8 [0x5E02, 0x573A, 0x4EFD, 0x989D],
      utf8 [0x9884, 0x6D4B], utf8 [0x589E, 0x957F, 0x7387], utf8 [0x6BD4, 0x8F83],
      utf8 [0x9886, 0x5148],
      ''independent'', ''two '', ''market size'', ''market share'', ''forecast'', ''projection'',
      ''growth rate'', ''comparative'', ''leading'', ''largest'']"

definition requirement_is_high_risk :: "string \<Rightarrow> bool" where
  "requirement_is_high_risk v \<longleftrightarrow> list_ex (contains (casefold v)) HIGH_RISK_MARKERS"

record question_risk =
  qk_question_id :: string
  qk_priority :: int
  qk_coverage :: rat
  qk_score :: rat
  qk_level :: risk_level
  qk_unresolved_high_risk :: bool
  qk_gap_open :: bool
  qk_requires_independent :: bool
  qk_open_dimensions :: "string list"
  qk_unresolved_claims :: "string list"
  qk_high_risk_claims :: "string list"
  qk_high_risk_conflicts :: "string list"
  qk_lifecycle :: risk_lifecycle
  qk_verification :: verification_state
  qk_deficit :: int
  qk_borrow_eligible :: bool
  qk_reasons :: "string list"

record question_risk_facts =
  qi_question_id :: string
  qi_priority :: int
  qi_coverage :: rat
  qi_requirements :: "string list"
  qi_gap_open :: bool
  qi_open_dimensions :: "string list"
  qi_unresolved_claims :: "string list"
  qi_high_risk_claims :: "string list"
  qi_high_risk_conflicts :: "string list"
  qi_deficit :: int
  qi_blocked :: bool

definition question_risk_score :: "question_risk_facts \<Rightarrow> rat" where
  "question_risk_score i =
     (let priority = min 3 (max 1 (qi_priority i));
          deficit = max 0 (qi_deficit i);
          raw = (1 - clamp01 (qi_coverage i)) * (30 / 100)
            + (if priority = 1 then 35 / 100 else if priority = 2 then 10 / 100 else 0)
            + (if list_ex requirement_is_high_risk (qi_requirements i) then 25 / 100 else 0)
            + (if qi_gap_open i \<or> qi_open_dimensions i \<noteq> [] then 10 / 100 else 0)
            + (if qi_high_risk_claims i \<noteq> [] then 20 / 100 else 0)
            + (if qi_high_risk_conflicts i \<noteq> [] then 35 / 100 else 0)
            + (if deficit \<noteq> 0 then min (20 / 100) (of_int deficit * (10 / 100)) else 0)
            + (if qi_blocked i \<and> (qi_gap_open i \<or> qi_open_dimensions i \<noteq> []
                                    \<or> qi_unresolved_claims i \<noteq> []) then 10 / 100 else 0)
      in py_round (min 1 raw) 4)"

definition question_risk_reasons :: "question_risk_facts \<Rightarrow> string list" where
  "question_risk_reasons i =
     (if min 3 (max 1 (qi_priority i)) = 1 then [''priority_one''] else [])
     @ (if list_ex requirement_is_high_risk (qi_requirements i)
        then [''independent_corroboration_required''] else [])
     @ (if qi_gap_open i \<or> qi_open_dimensions i \<noteq> [] then [''acceptance_gap_open''] else [])
     @ (if qi_high_risk_claims i \<noteq> [] then [''high_risk_claim_unresolved''] else [])
     @ (if qi_high_risk_conflicts i \<noteq> [] then [''high_risk_conflict_open''] else [])
     @ (if 0 < qi_deficit i then [''independent_source_deficit''] else [])
     @ (if qi_blocked i \<and> (qi_gap_open i \<or> qi_open_dimensions i \<noteq> [] \<or> qi_unresolved_claims i \<noteq> [])
        then [''no_eligible_action''] else [])"

definition classify_question_risk :: "question_risk_facts \<Rightarrow> question_risk" where
  "classify_question_risk i =
     (let coverage = clamp01 (qi_coverage i);
          independent_required = list_ex requirement_is_high_risk (qi_requirements i);
          claims = dedup (qi_unresolved_claims i);
          risky = dedup (qi_high_risk_claims i);
          conflicts = dedup (qi_high_risk_conflicts i);
          dimensions = dedup (qi_open_dimensions i);
          deficit = max 0 (qi_deficit i);
          score = question_risk_score i;
          level = risk_level_of score;
          unresolved = (level \<in> {RiskHigh, RiskCritical}
            \<and> (qi_gap_open i \<or> dimensions \<noteq> [] \<or> risky \<noteq> [] \<or> conflicts \<noteq> [] \<or> deficit \<noteq> 0));
          lifecycle =
            (if \<not> qi_gap_open i \<and> dimensions = [] \<and> claims = [] \<and> conflicts = [] then LifeResolved
             else if qi_blocked i \<or> conflicts \<noteq> [] then LifeBlocked
             else if 0 < coverage then LifeMitigating
             else LifeOpen);
          needed = (independent_required \<or> risky \<noteq> [] \<or> conflicts \<noteq> [] \<or> deficit \<noteq> 0);
          verification =
            (if \<not> needed then VerNotRequired
             else if conflicts \<noteq> [] then VerBlocked
             else if lifecycle = LifeResolved \<and> deficit = 0 then VerVerified
             else VerRequired)
      in \<lparr>qk_question_id = qi_question_id i, qk_priority = min 3 (max 1 (qi_priority i)),
          qk_coverage = py_round coverage 4, qk_score = score, qk_level = level,
          qk_unresolved_high_risk = unresolved, qk_gap_open = qi_gap_open i,
          qk_requires_independent = independent_required, qk_open_dimensions = dimensions,
          qk_unresolved_claims = claims, qk_high_risk_claims = risky,
          qk_high_risk_conflicts = conflicts, qk_lifecycle = lifecycle,
          qk_verification = verification, qk_deficit = deficit,
          qk_borrow_eligible = (unresolved \<and> lifecycle \<in> {LifeOpen, LifeMitigating}
                                \<and> verification \<noteq> VerBlocked),
          qk_reasons = question_risk_reasons i\<rparr>)"

definition question_risk_as_dict :: "question_risk \<Rightarrow> (string \<times> json) list" where
  "question_risk_as_dict r =
     [(''question_id'', JStr (qk_question_id r)), (''priority'', JInt (qk_priority r)),
      (''coverage'', JNum (qk_coverage r)), (''risk_score'', JNum (qk_score r)),
      (''risk_level'', JStr (level_value (qk_level r))),
      (''unresolved_high_risk'', JBool (qk_unresolved_high_risk r)),
      (''gap_open'', JBool (qk_gap_open r)),
      (''requires_independent_sources'', JBool (qk_requires_independent r)),
      (''open_dimension_keys'', JList (map JStr (qk_open_dimensions r))),
      (''unresolved_claim_ids'', JList (map JStr (qk_unresolved_claims r))),
      (''high_risk_claim_ids'', JList (map JStr (qk_high_risk_claims r))),
      (''high_risk_conflict_ids'', JList (map JStr (qk_high_risk_conflicts r))),
      (''lifecycle'', JStr (lifecycle_value (qk_lifecycle r))),
      (''verification_state'', JStr (verification_value (qk_verification r))),
      (''independent_source_deficit'', JInt (qk_deficit r)),
      (''borrow_eligible'', JBool (qk_borrow_eligible r)),
      (''reasons'', JList (map JStr (qk_reasons r)))]"

text \<open>A question that may borrow has an unresolved high risk and no open conflict or block.\<close>

lemma borrow_eligible_question:
  assumes "qk_borrow_eligible (classify_question_risk i)"
  shows "qk_unresolved_high_risk (classify_question_risk i)"
    and "qi_high_risk_conflicts i = []" and "\<not> qi_blocked i"
    and "65 / 100 \<le> qk_score (classify_question_risk i)"
proof -
  let ?r = "classify_question_risk i"
  from assms have u: "qk_unresolved_high_risk ?r"
    and l: "qk_lifecycle ?r \<in> {LifeOpen, LifeMitigating}"
    by (simp_all add: classify_question_risk_def Let_def)
  show "qk_unresolved_high_risk ?r" by (rule u)
  from l show "qi_high_risk_conflicts i = []" "\<not> qi_blocked i"
    by (auto simp: classify_question_risk_def Let_def split: if_split_asm)
  from u have "qk_level ?r \<in> {RiskHigh, RiskCritical}" "qk_level ?r = risk_level_of (qk_score ?r)"
    by (simp_all add: classify_question_risk_def Let_def)
  then show "65 / 100 \<le> qk_score ?r" by (auto simp: risk_level_of_def split: if_split_asm)
qed

text \<open>Every score lies in the unit interval.\<close>

named_theorems score_intros \<open>sums of optional weights are not negative\<close>

lemma optional_weight [score_intros]:
  "0 \<le> x \<Longrightarrow> 0 \<le> (if b then x else 0)" "0 \<le> x \<Longrightarrow> 0 \<le> (if b then 0 else x)" for x :: rat
  by simp_all

lemma capped_score [score_intros]:
  "0 \<le> x \<Longrightarrow> 0 \<le> py_round (min 1 x) n \<and> py_round (min 1 x) n \<le> 1"
  by (rule py_round_unit) simp_all

declare add_nonneg_nonneg [score_intros] mult_nonneg_nonneg [score_intros]

lemma claim_risk_score_range:
  "0 \<le> cr_score (classify_claim_risk c q k st ty imp n req cs)
     \<and> cr_score (classify_claim_risk c q k st ty imp n req cs) \<le> 1"
  unfolding classify_claim_risk_def Let_def claim_risk.simps
  by (intro score_intros) simp_all

lemma gap_risk_score_range:
  "0 \<le> gk_score (classify_gap_risk g q st ty sev n b) \<and> gk_score (classify_gap_risk g q st ty sev n b) \<le> 1"
  unfolding classify_gap_risk_def Let_def gap_risk.simps
  by (intro score_intros) simp_all

lemma question_risk_score_range: "0 \<le> question_risk_score i \<and> question_risk_score i \<le> 1"
  unfolding question_risk_score_def Let_def
  by (intro score_intros) simp_all

section \<open>Borrowing beyond the target\<close>

record borrow_decision =
  bw_allowed :: bool
  bw_reason :: string
  bw_hard_limit :: bool
  bw_freeze :: bool

definition grant :: "string \<Rightarrow> borrow_decision" where
  "grant reason = \<lparr>bw_allowed = True, bw_reason = reason, bw_hard_limit = False, bw_freeze = False\<rparr>"

definition refuse :: "string \<Rightarrow> bool \<Rightarrow> bool \<Rightarrow> borrow_decision" where
  "refuse reason hard freeze =
     \<lparr>bw_allowed = False, bw_reason = reason, bw_hard_limit = hard, bw_freeze = freeze\<rparr>"

definition first_pass_refusal :: "bool \<Rightarrow> question_state option \<Rightarrow> borrow_decision option" where
  "first_pass_refusal all_complete research =
     (case research of
        None \<Rightarrow> if \<not> all_complete then Some (refuse ''first_pass_floor_protected'' False False) else None
      | Some s \<Rightarrow>
          if qr_opportunity s = ONotStarted then Some (refuse ''first_pass_floor_protected'' False False)
          else if qr_recovery s = RENotEvaluated
            then Some (refuse ''first_pass_floor_protected'' False False)
          else if qr_recovery s = REDeferred
            then Some (refuse ''first_pass_floor_protected'' False False)
          else if qr_recovery s = REDenied then Some (refuse ''recovery_ineligible'' False True)
          else None)"

definition acceptance_gap_open :: "question_risk \<Rightarrow> bool" where
  "acceptance_gap_open r \<longleftrightarrow> qk_gap_open r \<or> qk_open_dimensions r \<noteq> []"

definition recovery_exception :: "question_risk \<Rightarrow> int \<Rightarrow> bool \<Rightarrow> bool" where
  "recovery_exception r streak untried \<longleftrightarrow>
     (qk_priority r = 1 \<and> qk_unresolved_high_risk r)
     \<or> (qk_unresolved_high_risk r \<and> untried)
     \<or> (acceptance_gap_open r \<and> untried)
     \<or> (qk_unresolved_high_risk r \<and> acceptance_gap_open r \<and> streak < 2)"

text \<open>\<open>int(target * 1.5)\<close> of a non-negative target is \<open>3 * target div 2\<close>.\<close>

definition decide_question_borrow ::
    "question_risk \<Rightarrow> bool \<Rightarrow> question_state option \<Rightarrow> int \<Rightarrow> int \<Rightarrow> rat \<Rightarrow> int \<Rightarrow> bool \<Rightarrow> rat \<Rightarrow> borrow_decision" where
  "decide_question_borrow r all_complete research projected target_tokens utility streak untried threshold =
     (let target = max 0 target_tokens;
          spend = max 0 projected;
          gap = acceptance_gap_open r;
          recovery = recovery_exception r streak untried
      in if spend \<le> target then grant ''within_question_target''
         else case first_pass_refusal all_complete research of Some d \<Rightarrow> d
         | None \<Rightarrow>
           if spend > 3 * target div 2 \<and> \<not> recovery
             then refuse ''hard_question_token_limit'' True False
           else if recovery \<and> spend > 2 * target
             then refuse ''bounded_recovery_limit'' True True
           else if qk_verification r = VerBlocked then refuse ''verification_blocked'' False True
           else if (\<not> qk_unresolved_high_risk r \<and> \<not> gap) \<or> (\<not> qk_borrow_eligible r \<and> \<not> gap)
             then refuse ''no_unresolved_high_risk_gap'' False True
           else if 2 \<le> streak
                \<and> \<not> ((qk_priority r = 1 \<and> qk_unresolved_high_risk r \<and> untried) \<or> (gap \<and> untried))
             then refuse ''low_gain_streak'' False True
           else if utility < threshold then refuse ''expected_utility_below_threshold'' False True
           else grant ''high_risk_high_utility_borrow'')"

lemma grant_refuse [simp]:
  "bw_allowed (grant s)" "\<not> bw_allowed (refuse s h f)"
  by (simp_all add: grant_def refuse_def)

text \<open>The contract of the gate, condition by condition.\<close>

definition first_pass_done :: "bool \<Rightarrow> question_state option \<Rightarrow> bool" where
  "first_pass_done all_complete research \<longleftrightarrow>
     (case research of None \<Rightarrow> all_complete
      | Some s \<Rightarrow> qr_opportunity s \<noteq> ONotStarted \<and> qr_recovery s = REEligible)"

definition may_borrow ::
    "question_risk \<Rightarrow> bool \<Rightarrow> question_state option \<Rightarrow> int \<Rightarrow> int \<Rightarrow> rat \<Rightarrow> int \<Rightarrow> bool \<Rightarrow> rat \<Rightarrow> bool" where
  "may_borrow r all_complete research spend target utility streak untried threshold \<longleftrightarrow>
     first_pass_done all_complete research
     \<and> spend \<le> (if recovery_exception r streak untried then 2 * target else 3 * target div 2)
     \<and> qk_verification r \<noteq> VerBlocked
     \<and> (acceptance_gap_open r \<or> (qk_unresolved_high_risk r \<and> qk_borrow_eligible r))
     \<and> (streak < 2 \<or> (untried \<and> (acceptance_gap_open r \<or> (qk_priority r = 1 \<and> qk_unresolved_high_risk r))))
     \<and> threshold \<le> utility"

lemma first_pass_refusal_None: "first_pass_refusal a s = None \<longleftrightarrow> first_pass_done a s"
proof (cases s)
  case (Some x)
  then show ?thesis by (cases "qr_recovery x") (simp_all add: first_pass_refusal_def first_pass_done_def)
qed (simp add: first_pass_refusal_def first_pass_done_def)

lemma first_pass_refusal_Some: "first_pass_refusal a s = Some d \<Longrightarrow> \<not> bw_allowed d"
  by (auto simp: first_pass_refusal_def split: option.splits if_split_asm)

lemma borrow_allowed_iff:
  "bw_allowed (decide_question_borrow r a s projected target utility streak untried threshold) \<longleftrightarrow>
     max 0 projected \<le> max 0 target
     \<or> may_borrow r a s (max 0 projected) (max 0 target) utility streak untried threshold"
proof (cases "max 0 projected \<le> max 0 target")
  case False
  show ?thesis
  proof (cases "first_pass_refusal a s")
    case None
    then have "first_pass_done a s" by (simp add: first_pass_refusal_None)
    with False None show ?thesis
      unfolding decide_question_borrow_def may_borrow_def Let_def
      by (cases "recovery_exception r streak untried"; cases "acceptance_gap_open r")
        (simp_all add: not_le not_less, linarith+)
  next
    case (Some d)
    then have "\<not> first_pass_done a s" by (simp flip: first_pass_refusal_None)
    with False Some first_pass_refusal_Some [OF Some] show ?thesis
      by (simp add: decide_question_borrow_def may_borrow_def Let_def)
  qed
qed (simp add: decide_question_borrow_def Let_def)

text \<open>
  C36. The borrowing gate. A projected spend is allowed exactly when it stays within the target, or
  when the first pass is done, the spend is at most twice the target (one and a half times without
  a recovery exception), verification is not blocked, a gap or an eligible high risk is open, gain
  is not stagnating (unless an untried query family addresses the gap), and the expected utility
  reaches the threshold. With the question state that the facts project to, spending beyond the
  target is allowed only to a question whose recovery is open by those facts.
\<close>

theorem borrowing_is_bounded_and_justified:
  "(bw_allowed (decide_question_borrow r a s projected target utility streak untried threshold) \<longleftrightarrow>
      max 0 projected \<le> max 0 target
      \<or> may_borrow r a s (max 0 projected) (max 0 target) utility streak untried threshold)
   \<and> (bw_allowed (decide_question_borrow r a (Some (project_question_research_state f))
          projected target utility streak untried threshold)
      \<and> max 0 target < max 0 projected
      \<longrightarrow> recovery_open f \<and> projected \<le> 2 * max 0 target)"
proof (intro conjI impI)
  assume *: "bw_allowed (decide_question_borrow r a (Some (project_question_research_state f))
      projected target utility streak untried threshold) \<and> max 0 target < max 0 projected"
  then have m: "may_borrow r a (Some (project_question_research_state f)) (max 0 projected)
      (max 0 target) utility streak untried threshold"
    by (auto simp only: borrow_allowed_iff not_le [symmetric])
  then show "recovery_open f"
    by (simp add: may_borrow_def first_pass_done_def recovery_eligible_iff)
  from m have "max 0 projected \<le> 2 * max 0 target"
    by (simp only: may_borrow_def split: if_split_asm) linarith
  then show "projected \<le> 2 * max 0 target" by linarith
qed (rule borrow_allowed_iff)

definition demo_question_risk :: question_risk where
  "demo_question_risk = classify_question_risk
     \<lparr>qi_question_id = ''q1'', qi_priority = 1, qi_coverage = 1 / 4,
      qi_requirements = [], qi_gap_open = True,
      qi_open_dimensions = [''q1:d1''], qi_unresolved_claims = [], qi_high_risk_claims = [],
      qi_high_risk_conflicts = [], qi_deficit = 0, qi_blocked = False\<rparr>"

definition demo_facts :: question_facts where
  "demo_facts =
     \<lparr>qf_question_id = ''q1'', qf_search_started = 2, qf_search_completed = 2, qf_search_failed = 0,
      qf_readable_sources = 1, qf_extraction_started = 1, qf_candidate_evidence = 1,
      qf_accepted_evidence = 0, qf_evaluation_completed = True, qf_coverage = 1 / 4,
      qf_gap_open = True, qf_critical_gap = False, qf_replan_count = 0, qf_gap_attempts = 1,
      qf_family_marker = True, qf_technical_blocked = False, qf_resource_blocked = False,
      qf_budget_blocked = False, qf_budget_reason = None, qf_recovery_path = True,
      qf_quality_met = False\<rparr>"

lemma demo_borrow:
  "may_borrow demo_question_risk False (Some (project_question_research_state demo_facts)) 1800 1000
     (1 / 50) 0 True (5 / 1000)"
proof -
  have "recovery_open demo_facts" by (simp add: recovery_open_def demo_facts_def)
  then have "qr_recovery (project_question_research_state demo_facts) = REEligible"
    by (simp add: recovery_eligible_iff)
  moreover have "qr_opportunity (project_question_research_state demo_facts) = OCompletedWithGap"
    by (simp add: project_question_research_state_def demo_facts_def Let_def)
  moreover have "acceptance_gap_open demo_question_risk" "qk_verification demo_question_risk = VerNotRequired"
    by (simp_all add: acceptance_gap_open_def demo_question_risk_def classify_question_risk_def Let_def)
  ultimately show ?thesis by (simp add: may_borrow_def first_pass_done_def recovery_exception_def)
qed

theorem borrowing_is_bounded_and_justified_witness:
  "bw_allowed (decide_question_borrow demo_question_risk False
       (Some (project_question_research_state demo_facts)) 1800 1000 (1 / 50) 0 True (5 / 1000))
     \<and> recovery_open demo_facts"
  using demo_borrow borrowing_is_bounded_and_justified
    [of demo_question_risk False "Some (project_question_research_state demo_facts)" 1800 1000
        "1 / 50" 0 True "5 / 1000" demo_facts]
  by simp

section \<open>Executable resource pools\<close>

datatype pool_status = PoolDisabled | PoolAvailable | PoolExhausted | PoolReleased

fun pool_status_value :: "pool_status \<Rightarrow> string" where
  "pool_status_value PoolDisabled = ''disabled''"
| "pool_status_value PoolAvailable = ''available''"
| "pool_status_value PoolExhausted = ''exhausted''"
| "pool_status_value PoolReleased = ''released''"

record resource_pool =
  rp_name :: string
  rp_unit :: string
  rp_limit :: int
  rp_committed :: int
  rp_reserved :: int
  rp_uncertain :: int
  rp_remaining :: int
  rp_status :: pool_status
  rp_limit_key :: string
  rp_usage_key :: string

definition resource_pool_as_dict :: "resource_pool \<Rightarrow> json" where
  "resource_pool_as_dict p = JObj
     [(''unit'', JStr (rp_unit p)), (''limit'', JInt (rp_limit p)),
      (''committed'', JInt (rp_committed p)), (''reserved'', JInt (rp_reserved p)),
      (''uncertain'', JInt (rp_uncertain p)), (''remaining'', JInt (rp_remaining p)),
      (''status'', JStr (pool_status_value (rp_status p))),
      (''limit_key'', JStr (rp_limit_key p)), (''usage_key'', JStr (rp_usage_key p))]"

definition model_token_pool_for_node :: "string \<Rightarrow> string" where
  "model_token_pool_for_node node =
     (let n = casefold (strip node) in
      if n = ''planner'' then ''planner''
      else if n \<in> {''report_writer'', ''writer''} then ''writer''
      else if n \<in> {''verification'', ''claim_verifier'', ''report_verifier''} then ''verification''
      else if n \<in> {''safety'', ''reconciliation''} then ''safety''
      else ''research'')"

definition model_token_pool_limits :: "(string \<times> json) list \<Rightarrow> (string \<times> int) list" where
  "model_token_pool_limits allocation =
     [(''planner'', limit_of ''planner_tokens'' allocation),
      (''research'', limit_of ''research_tokens'' allocation),
      (''verification'', limit_of ''verification_tokens'' allocation),
      (''writer'', max 0 (safe_int (jget_or (jget_or (JInt 0) ''writer_tokens'' allocation)
                                      ''writer_tokens_initial'' allocation))),
      (''safety'', limit_of ''safety_tokens'' allocation)]"

definition POOL_SPECS :: "(string \<times> string \<times> string \<times> string \<times> string option) list" where
  "POOL_SPECS =
     [(''logical_queries'', ''queries'', ''max_logical_queries'', ''logical_queries'', None),
      (''provider_requests'', ''requests'', ''max_provider_requests'', ''search_provider_requests'', None),
      (''pages_fetched'', ''pages'', ''max_pages_fetched'', ''pages_fetched'', Some ''page_slots_reserved''),
      (''page_fetch_attempts'', ''attempts'', ''max_page_fetch_attempts'', ''page_fetch_attempts'',
       Some ''page_slots_reserved''),
      (''pages_extracted'', ''pages'', ''max_pages_extracted'', ''pages_extracted'',
       Some ''extraction_slots_reserved''),
      (''extraction_calls'', ''calls'', ''max_extraction_calls'', ''extraction_calls'',
       Some ''extraction_slots_reserved''),
      (''verification_calls'', ''calls'', ''max_verification_calls'', ''verification_calls'', None),
      (''scheduler_actions'', ''actions'', ''max_scheduler_actions'', ''scheduler_actions'', None),
      (''productive_iterations'', ''iterations'', ''max_iterations'', ''productive_iterations'', None)]"

definition usage_pool ::
    "(string \<times> json) list \<Rightarrow> (string \<times> json) list
       \<Rightarrow> string \<times> string \<times> string \<times> string \<times> string option \<Rightarrow> resource_pool" where
  "usage_pool budget usage = (\<lambda>(name, unit, limit_key, usage_key, reservation_key).
     let own = limit_of limit_key budget;
         limit = (if name = ''logical_queries'' \<and> own = 0 then limit_of ''max_searches'' budget
                  else if name \<in> {''pages_fetched'', ''pages_extracted''} \<and> own = 0
                    then limit_of ''max_pages'' budget
                  else own);
         committed = (if name = ''productive_iterations'' \<and> map_of usage usage_key = None
                      then limit_of ''iterations'' usage else limit_of usage_key usage);
         reserved = (case reservation_key of None \<Rightarrow> 0 | Some k \<Rightarrow> limit_of k usage);
         remaining = max 0 (limit - committed - reserved)
     in \<lparr>rp_name = name, rp_unit = unit, rp_limit = limit, rp_committed = committed,
         rp_reserved = reserved, rp_uncertain = 0, rp_remaining = remaining,
         rp_status = (if limit \<le> 0 then PoolDisabled else if remaining \<le> 0 then PoolExhausted
                      else PoolAvailable),
         rp_limit_key = limit_key, rp_usage_key = usage_key\<rparr>)"

definition MODEL_POOL_NAMES :: "string list" where
  "MODEL_POOL_NAMES = [''planner'', ''research'', ''verification'', ''writer'', ''safety'']"

definition pool_released :: "(string \<times> json) list \<Rightarrow> string \<Rightarrow> bool" where
  "pool_released usage name \<longleftrightarrow>
     (name = ''writer'' \<and> map_of usage ''writer_token_reserve_released'' \<noteq> None)
     \<or> (name = ''verification'' \<and> map_of usage ''verification_token_reserve_released'' \<noteq> None)"

definition model_pool :: "(string \<times> json) list \<Rightarrow> string \<Rightarrow> (string \<times> json) list \<Rightarrow> resource_pool" where
  "model_pool usage name raw =
     (let limit = limit_of ''allocated_tokens'' raw;
          committed = limit_of ''committed_tokens'' raw;
          left = max 0 (safe_int (jget_or (JInt (limit - committed)) ''remaining_tokens'' raw));
          released = pool_released usage name;
          status = (if released then PoolReleased else if limit \<le> 0 then PoolDisabled
                    else if left \<le> 0 then PoolExhausted else PoolAvailable)
      in \<lparr>rp_name = ''model_tokens.'' @ name, rp_unit = ''tokens'', rp_limit = limit,
          rp_committed = committed, rp_reserved = limit_of ''reserved_tokens'' raw,
          rp_uncertain = limit_of ''uncertain_tokens'' raw,
          rp_remaining = (if released then 0 else left), rp_status = status,
          rp_limit_key = (if name = ''writer'' then ''allocation.writer_tokens_initial''
                          else ''allocation.'' @ name @ ''_tokens''),
          rp_usage_key = ''model_token_pools.'' @ name @ ''.committed_tokens''\<rparr>)"

definition model_pools :: "(string \<times> json) list \<Rightarrow> json \<Rightarrow> resource_pool list" where
  "model_pools usage raw_pools =
     (case raw_pools of
        JObj pools \<Rightarrow>
          concat (map (\<lambda>name. case jget_or (JObj []) name pools of
                               JObj raw \<Rightarrow> [model_pool usage name raw] | _ \<Rightarrow> []) MODEL_POOL_NAMES)
      | _ \<Rightarrow> [])"

definition build_resource_pool_snapshot ::
    "(string \<times> json) list \<Rightarrow> (string \<times> json) list \<Rightarrow> (string \<times> json) list option \<Rightarrow> (string \<times> json) list" where
  "build_resource_pool_snapshot budget usage given =
     (let raw = (case given of Some (p # ps) \<Rightarrow> JObj (p # ps)
                 | _ \<Rightarrow> jget_or (JObj []) ''model_token_pools'' usage)
      in map (\<lambda>p. (rp_name p, resource_pool_as_dict p))
           (map (usage_pool budget usage) POOL_SPECS @ model_pools usage raw))"

text \<open>The numbers of a pool are not negative and its status says whether something is left.\<close>

definition pool_ok :: "resource_pool \<Rightarrow> bool" where
  "pool_ok p \<longleftrightarrow>
     0 \<le> rp_limit p \<and> 0 \<le> rp_committed p \<and> 0 \<le> rp_reserved p \<and> 0 \<le> rp_uncertain p
     \<and> 0 \<le> rp_remaining p
     \<and> (rp_status p = PoolAvailable \<longrightarrow> 0 < rp_remaining p \<and> 0 < rp_limit p)
     \<and> (rp_status p = PoolReleased \<longrightarrow> rp_remaining p = 0)"

lemma usage_pool_ok: "pool_ok (usage_pool budget usage spec)"
proof -
  obtain a b c d e where spec: "spec = (a, b, c, d, e)" by (cases spec) auto
  have "0 \<le> (case e of None \<Rightarrow> 0 | Some k \<Rightarrow> limit_of k usage)" by (simp split: option.split)
  then show ?thesis
    by (simp add: spec pool_ok_def usage_pool_def Let_def)
qed

lemma model_pool_ok: "pool_ok (model_pool usage name raw)"
  by (simp add: pool_ok_def model_pool_def Let_def)

lemma model_pools_ok: "p \<in> set (model_pools usage raw) \<Longrightarrow> pool_ok p"
  by (auto simp: model_pools_def model_pool_ok split: json.splits)

text \<open>Available capacity is never more than what committed and reserved work leaves of the limit.\<close>

lemma usage_pool_fields:
  "rp_remaining (usage_pool budget usage spec) =
     max 0 (rp_limit (usage_pool budget usage spec) - rp_committed (usage_pool budget usage spec)
            - rp_reserved (usage_pool budget usage spec))"
  "rp_status (usage_pool budget usage spec) =
     (if rp_limit (usage_pool budget usage spec) \<le> 0 then PoolDisabled
      else if rp_remaining (usage_pool budget usage spec) \<le> 0 then PoolExhausted else PoolAvailable)"
  by (cases spec, simp only: usage_pool_def Let_def prod.case resource_pool.simps)+

lemma usage_pool_capacity:
  "rp_status (usage_pool budget usage spec) = PoolAvailable \<Longrightarrow>
   rp_committed (usage_pool budget usage spec) + rp_reserved (usage_pool budget usage spec)
     + rp_remaining (usage_pool budget usage spec) = rp_limit (usage_pool budget usage spec)"
  using usage_pool_fields [of budget usage spec] by (simp split: if_split_asm)

section \<open>Estimates before a call\<close>

definition estimate_writer_reserve_tokens ::
    "int \<Rightarrow> int \<Rightarrow> int \<Rightarrow> int \<Rightarrow> int \<Rightarrow> int \<Rightarrow> rat \<Rightarrow> int \<Rightarrow> int" where
  "estimate_writer_reserve_tokens question_count evidence_count fixed per_question per_evidence
       output_tokens safety_ratio maximum =
     (let base = max 0 fixed + max 0 question_count * max 0 per_question
                 + max 0 evidence_count * max 0 per_evidence + max 1 output_tokens;
          margin = max 1 \<lceil>of_int base * safety_ratio\<rceil>
      in min (max 1 maximum) (base + margin))"

record minimum_call =
  mc_fixed_tokens :: int
  mc_source_tokens :: int
  mc_output_tokens :: int
  mc_margin_tokens :: int
  mc_total_tokens :: int

definition estimate_minimum_call_tokens :: "int \<Rightarrow> int \<Rightarrow> int \<Rightarrow> rat \<Rightarrow> minimum_call" where
  "estimate_minimum_call_tokens fixed_tokens source_tokens output_tokens safety_ratio =
     (let fixed = max 0 fixed_tokens; source = max 0 source_tokens; output = max 1 output_tokens;
          base = fixed + source + output;
          margin = max 1 \<lceil>of_int base * safety_ratio\<rceil>
      in \<lparr>mc_fixed_tokens = fixed, mc_source_tokens = source, mc_output_tokens = output,
          mc_margin_tokens = margin, mc_total_tokens = base + margin\<rparr>)"

lemma writer_reserve_bounds:
  "1 \<le> estimate_writer_reserve_tokens q e f pq pe out ratio maximum"
  "estimate_writer_reserve_tokens q e f pq pe out ratio maximum \<le> max 1 maximum"
proof -
  let ?base = "max 0 f + max 0 q * max 0 pq + max 0 e * max 0 pe + max 1 out"
  have "0 \<le> max 0 q * max 0 pq" "0 \<le> max 0 e * max 0 pe" by simp_all
  then have "1 \<le> ?base" by linarith
  then have "1 \<le> ?base + max 1 \<lceil>of_int ?base * ratio\<rceil>" by linarith
  then show "1 \<le> estimate_writer_reserve_tokens q e f pq pe out ratio maximum"
    unfolding estimate_writer_reserve_tokens_def Let_def by (intro min.boundedI max.cobounded1)
qed (unfold estimate_writer_reserve_tokens_def Let_def, rule min.cobounded1)

lemma minimum_call_exceeds_inputs:
  "f + s + out < mc_total_tokens (estimate_minimum_call_tokens f s out ratio)"
proof -
  have "f \<le> max 0 f" "s \<le> max 0 s" "out \<le> max 1 out" "(1 :: int) \<le> max 1 x" for x by simp_all
  then have "f + s + out + 1 \<le> max 0 f + max 0 s + max 1 out + max 1 x" for x
    by (intro add_mono)
  then show ?thesis
    unfolding estimate_minimum_call_tokens_def Let_def minimum_call.simps
    by (simp only: add1_zle_eq [symmetric])
qed

end
