(* ===== verification/Planning.thy ===== *)
theory Planning
  imports Unicode_Text
begin

text \<open>
  The planner's contracts: \<open>app/domain/planning.py\<close>. Questions and plans with their validators,
  the drafts the model writes and their deterministic clipping, fitting a plan to the iteration
  budget, the search hints of a replan, and the follow-up questions of open gaps. Lemmas: fitting
  keeps the best questions in their order, clipped drafts respect their limits, follow-up questions
  get unused identifiers and fit the plan.
\<close>

section \<open>Questions and plans\<close>

definition MAX_DYNAMIC_QUESTIONS :: nat where "MAX_DYNAMIC_QUESTIONS = 12"

definition MAX_DYNAMIC_APPEND :: nat where "MAX_DYNAMIC_APPEND = 3"

definition DEFAULT_RESEARCH_RESERVE_RATIO :: rat where "DEFAULT_RESEARCH_RESERVE_RATIO = 20 / 100"

record research_question =
  pq_id :: string
  pq_question :: string
  pq_priority :: int
  pq_rationale :: string
  pq_requirements :: "string list"
  pq_hints :: "string list"

record research_plan =
  rn_goal :: string
  rn_scope :: string
  rn_questions :: "research_question list"
  rn_criteria :: "string list"

definition len_between :: "nat \<Rightarrow> nat \<Rightarrow> string \<Rightarrow> bool" where
  "len_between lo hi s \<longleftrightarrow> lo \<le> text_len s \<and> text_len s \<le> hi"

definition is_digit :: "char \<Rightarrow> bool" where
  "is_digit c \<longleftrightarrow> 48 \<le> (of_char c :: nat) \<and> (of_char c :: nat) \<le> 57"

text \<open>The pattern \<open>^q[1-9][0-9]*$\<close>.\<close>

definition question_id_ok :: "string \<Rightarrow> bool" where
  "question_id_ok s \<longleftrightarrow>
     (case s of q # d # ds \<Rightarrow> q = CHR ''q'' \<and> is_digit d \<and> d \<noteq> CHR ''0'' \<and> list_all is_digit ds
      | _ \<Rightarrow> False)"

definition question_ok :: "research_question \<Rightarrow> bool" where
  "question_ok q \<longleftrightarrow>
     question_id_ok (pq_id q) \<and> len_between 5 500 (pq_question q)
     \<and> 1 \<le> pq_priority q \<and> pq_priority q \<le> 3 \<and> len_between 5 500 (pq_rationale q)
     \<and> 1 \<le> length (pq_requirements q) \<and> length (pq_requirements q) \<le> 5
     \<and> length (pq_hints q) \<le> 3"

definition mk_question :: "research_question \<Rightarrow> research_question result" where
  "mk_question q = (if question_ok q then Inr q else Inl (ValueError ''ResearchQuestion''))"

definition mk_plan :: "research_plan \<Rightarrow> research_plan result" where
  "mk_plan p =
     (if \<not> (len_between 5 2000 (rn_goal p) \<and> len_between 5 1000 (rn_scope p)
            \<and> 5 \<le> length (rn_questions p) \<and> length (rn_questions p) \<le> MAX_DYNAMIC_QUESTIONS
            \<and> list_all question_ok (rn_questions p)
            \<and> 2 \<le> length (rn_criteria p) \<and> length (rn_criteria p) \<le> 8)
        then Inl (ValueError ''ResearchPlan'')
      else if \<not> distinct (map pq_id (rn_questions p))
        then Inl (ValueError ''research question ids must be unique'')
      else Inr p)"

section \<open>Drafts written by the model\<close>

record question_draft =
  qd_question :: string
  qd_priority :: int
  qd_rationale :: string
  qd_requirements :: "string list"
  qd_hints :: "string list"

record plan_draft =
  dr_scope :: string
  dr_questions :: "question_draft list"
  dr_criteria :: "string list"

definition question_draft_ok :: "question_draft \<Rightarrow> bool" where
  "question_draft_ok q \<longleftrightarrow>
     len_between 5 120 (qd_question q) \<and> 1 \<le> qd_priority q \<and> qd_priority q \<le> 3
     \<and> len_between 5 80 (qd_rationale q)
     \<and> length (qd_requirements q) \<in> {1, 2} \<and> list_all (len_between 2 60) (qd_requirements q)
     \<and> length (qd_hints q) \<in> {1, 2} \<and> list_all (len_between 2 80) (qd_hints q)"

definition plan_draft_ok :: "plan_draft \<Rightarrow> bool" where
  "plan_draft_ok d \<longleftrightarrow>
     len_between 5 160 (dr_scope d) \<and> 5 \<le> length (dr_questions d) \<and> length (dr_questions d) \<le> 8
     \<and> list_all question_draft_ok (dr_questions d)
     \<and> 2 \<le> length (dr_criteria d) \<and> length (dr_criteria d) \<le> 4
     \<and> list_all (len_between 2 60) (dr_criteria d)"

definition compact_question_draft_ok :: "question_draft \<Rightarrow> bool" where
  "compact_question_draft_ok q \<longleftrightarrow>
     len_between 5 100 (qd_question q) \<and> 1 \<le> qd_priority q \<and> qd_priority q \<le> 3
     \<and> len_between 5 50 (qd_rationale q)
     \<and> length (qd_requirements q) = 1 \<and> list_all (len_between 2 50) (qd_requirements q)
     \<and> length (qd_hints q) \<le> 1 \<and> list_all (len_between 2 50) (qd_hints q)"

definition compact_plan_draft_ok :: "plan_draft \<Rightarrow> bool" where
  "compact_plan_draft_ok d \<longleftrightarrow>
     len_between 5 100 (dr_scope d) \<and> length (dr_questions d) = 5
     \<and> list_all compact_question_draft_ok (dr_questions d)
     \<and> length (dr_criteria d) = 2 \<and> list_all (len_between 2 60) (dr_criteria d)"

definition question_name :: "nat \<Rightarrow> string" where
  "question_name n = CHR ''q'' # show_nat n"

definition question_from_draft :: "nat \<Rightarrow> question_draft \<Rightarrow> research_question" where
  "question_from_draft index d =
     \<lparr>pq_id = question_name index, pq_question = qd_question d, pq_priority = qd_priority d,
      pq_rationale = qd_rationale d, pq_requirements = qd_requirements d, pq_hints = qd_hints d\<rparr>"

definition materialize_research_plan :: "string \<Rightarrow> plan_draft \<Rightarrow> research_plan result" where
  "materialize_research_plan goal draft =
     (case traverse (\<lambda>(i, d). mk_question (question_from_draft i d)) (enumerate 1 (dr_questions draft)) of
        Inl e \<Rightarrow> Inl e
      | Inr qs \<Rightarrow> mk_plan \<lparr>rn_goal = goal, rn_scope = dr_scope draft, rn_questions = qs,
                          rn_criteria = dr_criteria draft\<rparr>)"

text \<open>Clipping a draft payload to its contract before it is validated.\<close>

definition clip :: "nat \<Rightarrow> string \<Rightarrow> string" where
  "clip n s = take_chars n (join_sp (split_ws s))"

definition clip_text :: "nat \<Rightarrow> json \<Rightarrow> json" where
  "clip_text n v = (case v of JStr s \<Rightarrow> JStr (clip n s) | _ \<Rightarrow> v)"

definition clip_text_list :: "nat \<Rightarrow> nat \<Rightarrow> json \<Rightarrow> json" where
  "clip_text_list max_items max_chars v =
     (case v of JList xs \<Rightarrow> JList (map (clip_text max_chars) (take max_items xs)) | _ \<Rightarrow> v)"

definition clip_question :: "bool \<Rightarrow> json \<Rightarrow> json" where
  "clip_question short raw =
     (case raw of
        JObj q0 \<Rightarrow>
          let q1 = AList.update ''question''
                (clip_text (if short then 100 else 120) (jget ''question'' q0)) q0;
              q2 = AList.update ''rationale''
                (clip_text (if short then 50 else 80) (jget ''rationale'' q1)) q1;
              q3 = AList.update ''evidence_requirements''
                (clip_text_list (if short then 1 else 2) (if short then 50 else 60)
                   (jget ''evidence_requirements'' q2)) q2
          in JObj (AList.update ''search_hints''
                (clip_text_list (if short then 1 else 2) (if short then 50 else 80)
                   (jget ''search_hints'' q3)) q3)
      | _ \<Rightarrow> raw)"

definition normalize_research_plan_draft_payload :: "bool \<Rightarrow> json \<Rightarrow> json" where
  "normalize_research_plan_draft_payload short payload =
     (case payload of
        JObj p0 \<Rightarrow>
          let p1 = AList.update ''scope_summary''
                (clip_text (if short then 100 else 160) (jget ''scope_summary'' p0)) p0;
              p2 = (case jget ''questions'' p1 of
                      JList qs \<Rightarrow> AList.update ''questions''
                        (JList (map (clip_question short) (take (if short then 5 else 8) qs))) p1
                    | _ \<Rightarrow> p1)
          in JObj (AList.update ''completion_criteria''
                (clip_text_list (if short then 2 else 4) 60 (jget ''completion_criteria'' p2)) p2)
      | _ \<Rightarrow> payload)"

section \<open>Fitting a plan to its iteration budget\<close>

definition executable_questions :: "int \<Rightarrow> rat \<Rightarrow> int" where
  "executable_questions max_iterations reserve_ratio =
     (let reserve = (if max_iterations < 10 then 0
                     else max 1 \<lceil>of_int max_iterations * reserve_ratio\<rceil>);
          attempts = (if max_iterations < 10 then 1 else 2)
      in max 5 ((max_iterations - reserve) div attempts))"

definition best_questions :: "nat \<Rightarrow> research_question list \<Rightarrow> (nat \<times> research_question) list" where
  "best_questions n qs = take n (sort_key (\<lambda>(i, q). (pq_priority q, i)) (enumerate 0 qs))"

definition fit_plan_to_budget :: "research_plan \<Rightarrow> int \<Rightarrow> rat \<Rightarrow> research_plan result" where
  "fit_plan_to_budget plan max_iterations reserve_ratio =
     (if max_iterations < 1 then Inl (ValueError ''max_iterations must be positive'')
      else
        let executable = executable_questions max_iterations reserve_ratio in
        if int (length (rn_questions plan)) \<le> executable then Inr plan
        else
          let retained = fst ` set (best_questions (nat executable) (rn_questions plan))
          in Inr (plan\<lparr>rn_questions :=
               map snd (filter (\<lambda>(i, q). i \<in> retained) (enumerate 0 (rn_questions plan)))\<rparr>))"

section \<open>Search hints of a replan\<close>

text \<open>
  The one regular expression of the module. Matching is only used to cut the text at the first
  position where some alternative matches, so a matcher that answers yes or no is enough.
\<close>

datatype rx = RWords "string list" | RSpaces | ROneOf "char list" | ROpt "rx list"

fun rx_size :: "rx \<Rightarrow> nat" where
  "rx_size (ROpt q) = 1 + sum_list (map rx_size q)"
| "rx_size _ = 1"

function rx_match :: "rx list \<Rightarrow> string \<Rightarrow> bool" where
  "rx_match [] s = True"
| "rx_match (RWords ws # ps) s =
     list_ex (\<lambda>w. starts_with (casefold s) w \<and> rx_match ps (drop (length w) s)) ws"
| "rx_match (RSpaces # ps) s =
     (case s of [] \<Rightarrow> False
      | c # cs \<Rightarrow> is_space c \<and> (rx_match ps cs \<or> rx_match (RSpaces # ps) cs))"
| "rx_match (ROneOf xs # ps) s = (case s of [] \<Rightarrow> False | c # cs \<Rightarrow> c \<in> set xs \<and> rx_match ps cs)"
| "rx_match (ROpt q # ps) s = (rx_match (q @ ps) s \<or> rx_match ps s)"
  by pat_completeness auto
termination
  by (relation "measures [\<lambda>(ps, s). length s, \<lambda>(ps, s). sum_list (map rx_size ps)]") auto

definition HINT_PATTERNS :: "rx list list" where
  "HINT_PATTERNS =
     [[RWords [''official'', ''authoritative'', ''independent'', ''benchmark'', ''comparative'',
               ''survey'', ''systematic''], RSpaces,
       ROpt [RWords [''documentation'', ''report'', ''source'', ''study'', ''evidence'', ''data'']]],
      [RWords [(utf8 [0x516C, 0x5F00, 0x62A5, 0x544A]), (utf8 [0x5B9E, 0x8BC1, 0x6570, 0x636E]), (utf8 [0x6807, 0x51C6, 0x6570, 0x636E, 0x96C6]), (utf8 [0x6743, 0x5A01, 0x62A5, 0x544A])]],
      [RWords [''industry'', ''market''], RSpaces, RWords [''outlook'']],
      [RWords [''adoption''], RSpaces, RWords [''statistics'']],
      [RWords [''government''], RSpaces, RWords [''forecast''], RSpaces, RWords [''primary''],
       RSpaces, RWords [''data'']],
      [RWords [''independent''], RSpaces, RWords [''market''], RSpaces, RWords [''report''],
       RSpaces, RWords [''methodology'']],
      [RWords [''official''], RSpaces, RWords [''report''], RSpaces, RWords [''benchmark''],
       RSpaces, RWords [''independent''], RSpaces, RWords [''source'']],
      [RWords [''survey''], RSpaces, RWords [''comparative''], RSpaces, RWords [''study''],
       RSpaces, RWords [''evidence'']],
      [RWords [''systematic''], RSpaces, RWords [''review''], RSpaces, RWords [''validation''],
       RSpaces, RWords [''evidence'']],
      [RWords [''peer''], ROneOf ''- '', RWords [''reviewed''], RSpaces, RWords [''evaluation''],
       RSpaces, RWords [''dataset'']],
      [RWords [''comparative''], RSpaces, RWords [''benchmark''], RSpaces, RWords [''results''],
       RSpaces, RWords [''study'']],
      [RWords [''industry''], RSpaces, RWords [''outlook''], RSpaces, RWords [''adoption''],
       RSpaces, RWords [''statistics'']],
      [RWords [''manufacturer''], RSpaces, RWords [''product''], ROpt [RSpaces, RWords [''page'']]],
      [RWords [''vendor''], RSpaces, RWords [''solution'']],
      [RWords [''customer''], RSpaces, RWords [''case''], ROpt [RSpaces, RWords [''study'']]],
      [RWords [''field''], RSpaces, RWords [''trial'']],
      [RWords [''evaluation''], RSpaces, RWords [''report'']],
      [RWords [''technical''], RSpaces, RWords [''specification'']],
      [RWords [''peer''], ROneOf ''- '', RWords [''reviewed'']]]"

fun cut_before :: "(string \<Rightarrow> bool) \<Rightarrow> string \<Rightarrow> string" where
  "cut_before hit [] = []"
| "cut_before hit (c # cs) = (if hit (c # cs) then [] else c # cut_before hit cs)"

definition question_mark :: "string \<Rightarrow> bool" where
  "question_mark s \<longleftrightarrow> starts_with s ''?'' \<or> starts_with s (utf8 [0xFF1F])"

definition hint_topic :: "string \<Rightarrow> string" where
  "hint_topic hint =
     (let compact = join_sp (split_ws hint);
          asked = strip (cut_before question_mark compact)
      in strip (cut_before (\<lambda>s. list_ex (\<lambda>p. rx_match p s) HINT_PATTERNS) asked))"

fun topic_hints :: "string list \<Rightarrow> string list \<Rightarrow> string list" where
  "topic_hints acc [] = acc"
| "topic_hints acc (h # hs) =
     (let t = hint_topic h in
      if t \<noteq> [] \<and> casefold t \<notin> set (map casefold acc) then topic_hints (acc @ [take_chars 160 t]) hs
      else topic_hints acc hs)"

fun shortest :: "string list \<Rightarrow> string \<Rightarrow> string" where
  "shortest [] best = best"
| "shortest (x # xs) best = (if text_len x < text_len best then shortest xs x else shortest xs best)"

definition INDEPENDENT_BANKS :: "string list list" where
  "INDEPENDENT_BANKS =
     [[''official report benchmark independent source'', ''survey comparative study evidence'',
       (utf8 [0x6807, 0x51C6, 0x0020, 0x6570, 0x636E, 0x96C6, 0x0020, 0x6743, 0x5A01, 0x62A5, 0x544A])],
      [''independent market report methodology'', ''comparative benchmark results study'',
       (utf8 [0x72EC, 0x7ACB, 0x0020, 0x7EDF, 0x8BA1, 0x0020, 0x62A5, 0x544A, 0x0020, 0x7814, 0x7A76, 0x65B9, 0x6CD5])],
      [''government forecast primary data'', ''peer reviewed evaluation dataset'',
       (utf8 [0x653F, 0x5E9C, 0x0020, 0x9884, 0x6D4B, 0x0020, 0x539F, 0x59CB, 0x6570, 0x636E, 0x0020, 0x8BC4, 0x4F30])],
      [''industry outlook adoption statistics'', ''systematic review validation evidence'',
       (utf8 [0x884C, 0x4E1A, 0x0020, 0x8D8B, 0x52BF, 0x0020, 0x6E17, 0x900F, 0x7387, 0x0020, 0x7EDF, 0x8BA1])]]"

definition SOURCE_BANKS :: "string list list" where
  "SOURCE_BANKS =
     [[''official documentation case study'', ''survey benchmark dataset'', (utf8 [0x516C, 0x5F00, 0x62A5, 0x544A, 0x0020, 0x5B9E, 0x8BC1, 0x0020, 0x6570, 0x636E])],
      [''manufacturer product page deployment'', ''technical specification customer case'',
       (utf8 [0x5382, 0x5546, 0x0020, 0x4EA7, 0x54C1, 0x9875, 0x0020, 0x5E94, 0x7528, 0x6848, 0x4F8B])],
      [''official catalog application example'', ''independent implementation report'',
       (utf8 [0x5B98, 0x65B9, 0x0020, 0x76EE, 0x5F55, 0x0020, 0x843D, 0x5730, 0x0020, 0x6848, 0x4F8B])],
      [''vendor solution datasheet industry'', ''field trial evaluation report'',
       (utf8 [0x4F9B, 0x5E94, 0x5546, 0x0020, 0x65B9, 0x6848, 0x0020, 0x89C4, 0x683C, 0x4E66, 0x0020, 0x884C, 0x4E1A])]]"

definition GENERAL_BANKS :: "string list list" where
  "GENERAL_BANKS =
     [[''systematic review evidence'', ''official report statistics'', ''benchmark case study''],
      [''comparative evaluation results'', ''primary source technical report'',
       (utf8 [0x5BF9, 0x6BD4, 0x0020, 0x8BC4, 0x4F30, 0x0020, 0x7ED3, 0x679C, 0x0020, 0x539F, 0x59CB, 0x62A5, 0x544A])],
      [''deployment lessons learned'', ''independent field evidence'', (utf8 [0x843D, 0x5730, 0x0020, 0x7ECF, 0x9A8C, 0x0020, 0x72EC, 0x7ACB, 0x0020, 0x5B9E, 0x8BC1])],
      [''failure analysis validation'', ''industry survey evidence'', (utf8 [0x5931, 0x8D25, 0x5206, 0x6790, 0x0020, 0x884C, 0x4E1A, 0x8C03, 0x67E5, 0x0020, 0x8BC1, 0x636E])]]"

definition suffix_banks :: "string list \<Rightarrow> string list list" where
  "suffix_banks reasons =
     (let r = casefold (join_sp reasons) in
      if contains r (utf8 [0x72EC, 0x7ACB]) \<or> contains r ''second'' then INDEPENDENT_BANKS
      else if contains r (utf8 [0x539F, 0x6587]) \<or> contains r (utf8 [0x7F51, 0x9875]) \<or> contains r (utf8 [0x8BC1, 0x636E]) then SOURCE_BANKS
      else GENERAL_BANKS)"

definition hint_bases :: "research_question \<Rightarrow> string \<times> string" where
  "hint_bases question =
     (let found = topic_hints [] (pq_hints question);
          topics = (if found = [] then [take_chars 160 (join_sp (split_ws (pq_question question)))]
                    else found);
          primary = hd topics
      in (primary,
          case filter (\<lambda>h. has_cjk h \<noteq> has_cjk primary) (tl topics) of
            h # _ \<Rightarrow> h
          | [] \<Rightarrow> shortest (tl topics) primary))"

definition build_gap_resolution_hints :: "research_question \<Rightarrow> string list \<Rightarrow> int \<Rightarrow> string list" where
  "build_gap_resolution_hints question reasons rotation =
     (let (primary, alternate) = hint_bases question;
          banks = suffix_banks reasons;
          suffixes = banks ! nat (max 0 rotation mod int (length banks))
      in map2 (\<lambda>base suffix. take_chars 320 (base @ '' '' @ suffix)) [primary, alternate, primary] suffixes)"

section \<open>Questions that follow up on gaps\<close>

definition normalized_text :: "string \<Rightarrow> string" where
  "normalized_text s = join_sp (split_ws s)"

fun append_questions ::
    "research_question list \<Rightarrow> string list \<Rightarrow> research_question list \<Rightarrow> research_question list result" where
  "append_questions merged seen [] = Inr merged"
| "append_questions merged seen (q # qs) =
     (let text = normalized_text (pq_question q) in
      if casefold text \<in> set seen then append_questions merged seen qs
      else if length merged \<ge> MAX_DYNAMIC_QUESTIONS
        then Inl (ValueError ''dynamic question budget exhausted'')
      else append_questions (merged @ [q\<lparr>pq_question := text\<rparr>]) (casefold text # seen) qs)"

definition append_dynamic_questions :: "research_plan \<Rightarrow> research_question list \<Rightarrow> research_plan result" where
  "append_dynamic_questions plan additions =
     (if length additions > MAX_DYNAMIC_APPEND
        then Inl (ValueError ''at most three dynamic questions may be added per revision'')
      else case append_questions (rn_questions plan)
                  (map (\<lambda>q. casefold (normalized_text (pq_question q))) (rn_questions plan)) additions of
        Inl e \<Rightarrow> Inl e
      | Inr qs \<Rightarrow> Inr (plan\<lparr>rn_questions := qs\<rparr>))"

record gap_target =
  gt_dimension_key :: string
  gt_question :: string
  gt_reasons :: "string list"
  gt_priority :: int

text \<open>The loop \<open>while f"q{n}" in used_ids: n += 1\<close>.\<close>

definition above :: "string list \<Rightarrow> nat \<Rightarrow> nat" where
  "above used n = length (filter (\<lambda>s. \<exists>i \<ge> n. s = question_name i) used)"

lemma parse_digit_char:
  "m < 10 \<Longrightarrow> parse_digits a b (char_of (48 + m) # t) = parse_digits (a * 10 + int m) True t"
proof -
  assume m: "m < 10"
  have "(of_char (char_of (48 + m) :: char) :: int) = int (of_char (char_of (48 + m)))"
    by (metis of_nat_of_char)
  also have "\<dots> = 48 + int m" using m by (simp add: of_char_of)
  finally show ?thesis using m by (simp add: Let_def)
qed

lemma parse_show_nat:
  "parse_digits acc prev (show_nat n @ s)
     = parse_digits (acc * 10 ^ length (show_nat n) + int n) True s"
proof (induction n arbitrary: acc prev s rule: show_nat.induct)
  case (1 n)
  show ?case
  proof (cases "n < 10")
    case True
    then show ?thesis using parse_digit_char [of n] by (simp add: show_nat.simps [of n])
  next
    case False
    have "int n = 10 * int (n div 10) + int (n mod 10)"
      by (metis mult_div_mod_eq of_nat_add of_nat_mult of_nat_numeral)
    with False show ?thesis
      using "1" [of acc prev "char_of (48 + n mod 10) # s"] parse_digit_char [of "n mod 10"]
      by (simp add: show_nat.simps [of n] algebra_simps)
  qed
qed

lemma show_nat_inject: "show_nat m = show_nat n \<longleftrightarrow> m = n"
proof -
  have "parse_digits 0 False (show_nat k) = Some (int k)" for k
    using parse_show_nat [of 0 False k "[]"] by simp
  then show ?thesis by (metis of_nat_eq_iff option.inject)
qed

lemma question_name_inject [simp]: "question_name m = question_name n \<longleftrightarrow> m = n"
  by (simp add: question_name_def show_nat_inject)

lemma above_Suc: "question_name n \<in> set used \<Longrightarrow> above used (Suc n) < above used n"
proof -
  assume used: "question_name n \<in> set used"
  let ?P = "\<lambda>k s. \<exists>i \<ge> k. s = question_name i"
  have "?P (Suc n) s \<longleftrightarrow> s \<noteq> question_name n \<and> ?P n s" for s
    by (auto simp: Suc_le_eq le_less)
  then have "filter (?P (Suc n)) used = filter (\<lambda>s. s \<noteq> question_name n) (filter (?P n) used)"
    by (simp add: conj_commute)
  moreover have "length (filter (\<lambda>s. s \<noteq> question_name n) (filter (?P n) used)) < length (filter (?P n) used)"
    using used by (intro length_filter_less [of "question_name n"]) auto
  ultimately show ?thesis by (simp add: above_def)
qed

function next_free :: "string list \<Rightarrow> nat \<Rightarrow> nat" where
  "next_free used n = (if question_name n \<in> set used then next_free used (Suc n) else n)"
  by pat_completeness auto
termination
  by (relation "measure (\<lambda>(used, n). above used n)") (auto simp: above_Suc)

declare next_free.simps [simp del]

text \<open>The loop ends at the first unused number, after at most one step per used identifier.\<close>

lemma next_free_spec:
  "question_name (next_free used n) \<notin> set used \<and> n \<le> next_free used n
     \<and> next_free used n \<le> n + above used n"
proof (induction used n rule: next_free.induct)
  case (1 used n)
  show ?case
  proof (cases "question_name n \<in> set used")
    case True
    with 1 above_Suc [OF True] show ?thesis by (simp add: next_free.simps [of used n])
  qed (simp add: next_free.simps [of used n])
qed

definition join_reasons :: "string list \<Rightarrow> string" where
  "join_reasons xs = (case xs of [] \<Rightarrow> [] | x # rest \<Rightarrow> x @ concat (map (\<lambda>r. ''; '' @ r) rest))"

definition gap_question :: "nat \<Rightarrow> gap_target \<Rightarrow> research_question" where
  "gap_question n g =
     (let joined = join_reasons (gt_reasons g);
          reason_text = (if joined = [] then (utf8 [0x7F3A, 0x5C11, 0x6EE1, 0x8DB3, 0x9A8C, 0x6536, 0x6807, 0x51C6, 0x7684, 0x72EC, 0x7ACB, 0x8BC1, 0x636E]) else joined)
      in \<lparr>pq_id = question_name n,
          pq_question = take_chars 500 ((utf8 [0x9488, 0x5BF9, 0x7814, 0x7A76, 0x95EE, 0x9898, 0x300C]) @ gt_question g
            @ (utf8 [0x300D, 0x002C, 0x0020, 0x8FD8, 0x9700, 0x54EA, 0x4E9B, 0x72EC, 0x7ACB, 0x516C, 0x5F00, 0x8BC1, 0x636E, 0x8865, 0x9F50, 0x7F3A, 0x53E3, 0x003A, 0x0020]) @ reason_text @ ''?''),
          pq_priority = max 1 (min (gt_priority g) 3),
          pq_rationale = ''Evaluator '' @ (utf8 [0x53D1, 0x73B0, 0x7EF4, 0x5EA6, 0x0020]) @ gt_dimension_key g
            @ (utf8 [0x0020, 0x5C1A, 0x672A, 0x6EE1, 0x8DB3, 0x9A8C, 0x6536, 0x6807, 0x51C6, 0x002E]),
          pq_requirements = take 5 (take 4 (gt_reasons g) @ [(utf8 [0x81F3, 0x5C11, 0x4E00, 0x4E2A, 0x6B64, 0x524D, 0x672A, 0x4F7F, 0x7528, 0x7684, 0x72EC, 0x7ACB, 0x6765, 0x6E90])]),
          pq_hints = [take_chars 300 (gt_question g),
                      take_chars 260 (gt_question g) @ '' independent source'']\<rparr>)"

fun follow_ups ::
    "int \<Rightarrow> string list \<Rightarrow> nat \<Rightarrow> research_question list \<Rightarrow> gap_target list \<Rightarrow> research_question list result" where
  "follow_ups available used n additions [] = Inr additions"
| "follow_ups available used n additions (g # gs) =
     (if int (length additions) \<ge> available then Inr additions
      else
        let k = next_free used n in
        case mk_question (gap_question k g) of
          Inl e \<Rightarrow> Inl e
        | Inr q \<Rightarrow> follow_ups available (question_name k # used) (Suc k) (additions @ [q]) gs)"

definition question_number :: "research_question \<Rightarrow> nat result" where
  "question_number q =
     (case parse_int (drop 1 (pq_id q)) of
        None \<Rightarrow> Inl (ValueError ''invalid literal for int()'') | Some n \<Rightarrow> Inr (nat n))"

definition build_gap_driven_questions :: "research_plan \<Rightarrow> gap_target list \<Rightarrow> research_question list result" where
  "build_gap_driven_questions plan gaps =
     (case traverse question_number (rn_questions plan) of
        Inl e \<Rightarrow> Inl e
      | Inr [] \<Rightarrow> Inl (ValueError ''max() arg is an empty sequence'')
      | Inr (n # ns) \<Rightarrow>
          follow_ups (min (int MAX_DYNAMIC_APPEND)
              (int MAX_DYNAMIC_QUESTIONS - int (length (rn_questions plan))))
            (map pq_id (rn_questions plan)) (Suc (fold max ns n)) [] gaps)"

definition valid_gap :: "gap_target \<Rightarrow> bool" where
  "valid_gap g \<longleftrightarrow> valid_text (gt_question g) \<and> list_all valid_text (gt_reasons g)
     \<and> valid_text (gt_dimension_key g) \<and> text_len (gt_dimension_key g) \<le> 400"

lemma join_reasons_valid: "list_all valid_text rs \<Longrightarrow> valid_text (join_reasons rs)"
proof -
  have semi: "valid_text ''; ''" by (rule valid_ascii) (simp add: ascii_def)
  have nil: "valid_text []" by (rule valid_ascii) (simp add: ascii_def)
  have "list_all valid_text xs \<Longrightarrow> valid_text (concat (map (\<lambda>r. ''; '' @ r) xs))" for xs
  proof (induction xs)
    case (Cons x xs)
    then have "valid_text ((''; '' @ x) @ concat (map (\<lambda>r. ''; '' @ r) xs))"
      using semi by (intro valid_text_append) simp_all
    then show ?case by simp
  qed (use nil in simp)
  note rest = this
  show "valid_text (join_reasons rs)" if "list_all valid_text rs"
  proof (cases rs)
    case (Cons r rs')
    with that rest [of rs'] have "valid_text (r @ concat (map (\<lambda>r. ''; '' @ r) rs'))"
      by (intro valid_text_append) simp_all
    then show ?thesis by (simp only: Cons join_reasons_def list.case)
  qed (use nil in \<open>simp add: join_reasons_def\<close>)
qed

lemma show_nat_digits:
  "list_all is_digit (show_nat n) \<and> (0 < n \<longrightarrow> hd (show_nat n) \<noteq> CHR ''0'') \<and> show_nat n \<noteq> []"
proof (induction n rule: show_nat.induct)
  case (1 n)
  have digit: "is_digit (char_of (48 + m))" if "m < 10" for m :: nat
    using that by (simp add: is_digit_def of_char_of)
  have nonzero: "char_of (48 + m) \<noteq> CHR ''0''" if "0 < m" "m < 10" for m :: nat
  proof
    assume "char_of (48 + m) = CHR ''0''"
    then have "(of_char (char_of (48 + m) :: char) :: nat) = 48" by simp
    with that show False by (simp add: of_char_of)
  qed
  show ?case
  proof (cases "n < 10")
    case True
    then show ?thesis using digit [of n] nonzero [of n] by (simp add: show_nat.simps [of n])
  next
    case False
    then have "0 < n div 10" by (simp add: div_greater_zero_iff)
    with 1 False digit [of "n mod 10"] show ?thesis by (simp add: show_nat.simps [of n])
  qed
qed

lemma question_name_ok: "0 < n \<Longrightarrow> question_id_ok (question_name n)"
  using show_nat_digits [of n] by (cases "show_nat n") (auto simp: question_id_ok_def question_name_def)

lemma gap_question_ok:
  assumes g: "valid_gap g" and "0 < k"
  shows "question_ok (gap_question k g)"
proof -
  let ?reason = "let joined = join_reasons (gt_reasons g)
    in if joined = [] then (utf8 [0x7F3A, 0x5C11, 0x6EE1, 0x8DB3, 0x9A8C, 0x6536, 0x6807, 0x51C6, 0x7684, 0x72EC, 0x7ACB, 0x8BC1, 0x636E]) else joined"
  let ?pre = "(utf8 [0x9488, 0x5BF9, 0x7814, 0x7A76, 0x95EE, 0x9898, 0x300C])" and ?mid = "(utf8 [0x300D, 0x002C, 0x0020, 0x8FD8, 0x9700, 0x54EA, 0x4E9B, 0x72EC, 0x7ACB, 0x516C, 0x5F00, 0x8BC1, 0x636E, 0x8865, 0x9F50, 0x7F3A, 0x53E3, 0x003A, 0x0020])"
  let ?text = "?pre @ gt_question g @ ?mid @ ?reason @ ''?''"
  have pre: "valid_text ?pre" "text_len ?pre = 7" by (simp_all add: scalar_def text_len_utf8)
  have rest: "valid_text (gt_question g @ ?mid @ ?reason @ ''?'')"
    using g by (intro valid_text_append)
      (auto simp: valid_gap_def scalar_def Let_def join_reasons_valid intro: valid_ascii simp: ascii_def)
  have "text_len (take_chars 500 ?text) = min 500 (7 + text_len (gt_question g @ ?mid @ ?reason @ ''?''))"
    using pre rest by (simp only: text_len_take_chars valid_text_append text_len_append)
  then have question: "len_between 5 500 (pq_question (gap_question k g))"
    by (simp add: gap_question_def len_between_def Let_def)
  have d: "valid_text (gt_dimension_key g)" "text_len (gt_dimension_key g) \<le> 400"
    using g by (simp_all add: valid_gap_def)
  have head: "valid_text ''Evaluator ''" "text_len ''Evaluator '' = 10"
    by (simp_all add: valid_ascii text_len_ascii ascii_def)
  have parts: "valid_text ((utf8 [0x53D1, 0x73B0, 0x7EF4, 0x5EA6, 0x0020]))" "text_len ((utf8 [0x53D1, 0x73B0, 0x7EF4, 0x5EA6, 0x0020])) = 5"
    "valid_text ((utf8 [0x0020, 0x5C1A, 0x672A, 0x6EE1, 0x8DB3, 0x9A8C, 0x6536, 0x6807, 0x51C6, 0x002E]))" "text_len ((utf8 [0x0020, 0x5C1A, 0x672A, 0x6EE1, 0x8DB3, 0x9A8C, 0x6536, 0x6807, 0x51C6, 0x002E])) = 10"
    by (simp_all add: scalar_def text_len_utf8)
  have "text_len (pq_rationale (gap_question k g)) = 10 + (5 + (text_len (gt_dimension_key g) + 10))"
    using d head parts
    by (simp only: gap_question_def Let_def research_question.simps text_len_append valid_text_append)
  then have rationale: "len_between 5 500 (pq_rationale (gap_question k g))"
    using d by (simp add: len_between_def)
  have "question_id_ok (pq_id (gap_question k g))"
    using question_name_ok [OF assms(2)] by (simp add: gap_question_def Let_def)
  with question rationale show ?thesis
    by (simp add: question_ok_def) (simp add: gap_question_def Let_def)
qed

lemma mk_question_ok: "question_ok q \<Longrightarrow> mk_question q = Inr q"
  by (simp add: mk_question_def)

lemma follow_ups_fresh:
  assumes "list_all valid_gap gs" and "0 < n" and "distinct (map pq_id adds)"
    and "set (map pq_id adds) \<subseteq> set used" and "int (length adds) \<le> av"
  shows "\<exists>new. follow_ups av used n adds gs = Inr (adds @ new) \<and> distinct (map pq_id (adds @ new))
    \<and> set (map pq_id new) \<inter> set used = {} \<and> list_all question_ok new \<and> int (length (adds @ new)) \<le> av"
  using assms
proof (induction gs arbitrary: used n adds)
  case (Cons g gs)
  show ?case
  proof (cases "int (length adds) \<ge> av")
    case True
    with Cons.prems show ?thesis by simp
  next
    case False
    let ?k = "next_free used n"
    let ?q = "gap_question ?k g"
    have k: "0 < ?k" "question_name ?k \<notin> set used" using next_free_spec [of used n] Cons.prems by auto
    have q: "question_ok ?q" using Cons.prems k by (intro gap_question_ok) simp_all
    have id: "pq_id ?q = question_name ?k" by (simp add: gap_question_def Let_def)
    have "\<exists>new. follow_ups av (question_name ?k # used) (Suc ?k) (adds @ [?q]) gs = Inr ((adds @ [?q]) @ new)
      \<and> distinct (map pq_id ((adds @ [?q]) @ new))
      \<and> set (map pq_id new) \<inter> set (question_name ?k # used) = {} \<and> list_all question_ok new
      \<and> int (length ((adds @ [?q]) @ new)) \<le> av"
      using Cons.prems False k by (intro Cons.IH) (auto simp: id)
    then obtain new where new: "follow_ups av (question_name ?k # used) (Suc ?k) (adds @ [?q]) gs
          = Inr ((adds @ [?q]) @ new)" "distinct (map pq_id ((adds @ [?q]) @ new))"
        "set (map pq_id new) \<inter> set (question_name ?k # used) = {}" "list_all question_ok new"
        "int (length ((adds @ [?q]) @ new)) \<le> av" by blast
    then show ?thesis
      using False k q id
      by (intro exI [of _ "?q # new"]) (simp add: mk_question_ok Let_def)
  qed
qed simp

lemma append_questions_room:
  "length merged + length qs \<le> MAX_DYNAMIC_QUESTIONS \<Longrightarrow>
   \<exists>kept. append_questions merged seen qs = Inr (merged @ kept)
     \<and> subseq (map pq_id kept) (map pq_id qs)"
proof (induction qs arbitrary: merged seen)
  case (Cons q qs)
  let ?text = "normalized_text (pq_question q)"
  let ?q = "q\<lparr>pq_question := ?text\<rparr>"
  show ?case
  proof (cases "casefold ?text \<in> set seen")
    case True
    with Cons.prems Cons.IH [of merged seen] show ?thesis
      by (auto simp: Let_def intro: list_emb_Cons)
  next
    case False
    with Cons.prems Cons.IH [of "merged @ [?q]" "casefold ?text # seen"] obtain kept where
      "append_questions (merged @ [?q]) (casefold ?text # seen) qs = Inr ((merged @ [?q]) @ kept)"
      "subseq (map pq_id kept) (map pq_id qs)" by auto
    with False Cons.prems show ?thesis
      by (intro exI [of _ "?q # kept"]) (simp add: Let_def)
  qed
qed simp

text \<open>Identifiers of valid questions have a number.\<close>

lemma digit_int: "is_digit c \<Longrightarrow> 48 \<le> (of_char c :: int) \<and> (of_char c :: int) \<le> 57"
proof -
  assume "is_digit c"
  moreover have "(of_char c :: int) = int (of_char c)" by (metis of_nat_of_char)
  ultimately show ?thesis by (simp add: is_digit_def)
qed

lemma parse_digits_total:
  "list_all is_digit s \<Longrightarrow> 0 \<le> acc \<Longrightarrow> \<exists>n \<ge> 0. parse_digits acc True s = Some n"
proof (induction s arbitrary: acc)
  case (Cons c s)
  have "48 \<le> (of_char c :: int)" "(of_char c :: int) \<le> 57"
    using Cons.prems(1) digit_int [of c] by simp_all
  with Cons show ?case by (simp add: Let_def)
qed simp

lemma digit_not_space: "is_digit c \<Longrightarrow> \<not> is_space c"
  by (auto simp: is_digit_def is_space_def Let_def)

lemma strip_digits: "list_all is_digit s \<Longrightarrow> strip s = s"
proof -
  have lstrip: "list_all is_digit t \<Longrightarrow> lstrip t = t" for t
    by (cases t) (simp_all add: lstrip_def digit_not_space)
  assume "list_all is_digit s"
  then show ?thesis using lstrip [of s] lstrip [of "rev s"] by (simp add: strip_def)
qed

lemma question_number_total: "question_ok q \<Longrightarrow> \<exists>n. question_number q = Inr n"
proof -
  assume "question_ok q"
  then obtain d ds where id: "pq_id q = CHR ''q'' # d # ds" and d: "is_digit d" "list_all is_digit ds"
    by (auto simp: question_ok_def question_id_ok_def split: list.splits)
  have c: "48 \<le> (of_char d :: int)" "(of_char d :: int) \<le> 57"
    using d digit_int [of d] by simp_all
  then have sign: "d \<noteq> CHR ''-''" "d \<noteq> CHR ''+''" by auto
  obtain n where "parse_digits (of_char d - 48) True ds = Some n"
    using parse_digits_total [OF d(2), of "of_char d - 48"] c by auto
  then have "parse_int (d # ds) = Some n"
    using d c sign strip_digits [of "d # ds"] by (simp add: parse_int_def Let_def)
  then show ?thesis by (simp add: question_number_def id)
qed

lemma mk_plan_ok:
  "mk_plan p = Inr r \<Longrightarrow> r = p \<and> list_all question_ok (rn_questions p)
     \<and> 5 \<le> length (rn_questions p) \<and> length (rn_questions p) \<le> MAX_DYNAMIC_QUESTIONS
     \<and> distinct (map pq_id (rn_questions p))"
  by (simp add: mk_plan_def split: if_split_asm)

lemma numbers_total:
  "list_all question_ok qs \<Longrightarrow> \<exists>ns. traverse question_number qs = Inr ns \<and> length ns = length qs"
proof (induction qs)
  case (Cons q qs)
  with question_number_total [of q] show ?case by auto
qed simp

lemma subseq_distinct: "subseq xs ys \<Longrightarrow> distinct ys \<Longrightarrow> distinct xs \<and> set xs \<subseteq> set ys"
  by (induction rule: list_emb.induct) auto

text \<open>
  C37. Follow-up questions for the gaps of a valid plan. They are always created, at most three of
  them, each a valid question; the numbering loop ends at an unused number, so every new identifier
  is new; and appending them to the plan succeeds, keeps the questions it had, in place, and leaves
  a plan of at most twelve questions with distinct identifiers.
\<close>

theorem gap_follow_ups_extend_the_plan:
  assumes "mk_plan p = Inr p" and "list_all valid_gap gaps"
  shows "\<exists>qs p'. build_gap_driven_questions p gaps = Inr qs \<and> append_dynamic_questions p qs = Inr p'
    \<and> list_all question_ok qs \<and> length qs \<le> MAX_DYNAMIC_APPEND
    \<and> set (map pq_id qs) \<inter> set (map pq_id (rn_questions p)) = {}
    \<and> prefix (rn_questions p) (rn_questions p')
    \<and> distinct (map pq_id (rn_questions p')) \<and> length (rn_questions p') \<le> MAX_DYNAMIC_QUESTIONS"
proof -
  let ?old = "rn_questions p"
  let ?av = "min (int MAX_DYNAMIC_APPEND) (int MAX_DYNAMIC_QUESTIONS - int (length ?old))"
  have p: "list_all question_ok ?old" "?old \<noteq> []" "length ?old \<le> MAX_DYNAMIC_QUESTIONS"
    "distinct (map pq_id ?old)"
    using mk_plan_ok [OF assms(1)] by auto
  from numbers_total [OF p(1)] obtain n ns where numbers: "traverse question_number ?old = Inr (n # ns)"
    using p(2) by (metis length_0_conv neq_Nil_conv)
  obtain qs where qs: "follow_ups ?av (map pq_id ?old) (Suc (fold max ns n)) [] gaps = Inr qs"
    and distinct: "distinct (map pq_id qs)" and fresh: "set (map pq_id qs) \<inter> set (map pq_id ?old) = {}"
    and ok: "list_all question_ok qs" and len: "int (length qs) \<le> ?av"
    using follow_ups_fresh [OF assms(2), of "Suc (fold max ns n)" "[]" "map pq_id ?old" ?av] p(3)
    by auto
  have built: "build_gap_driven_questions p gaps = Inr qs"
    using numbers qs by (simp add: build_gap_driven_questions_def)
  have few: "length qs \<le> MAX_DYNAMIC_APPEND" "length ?old + length qs \<le> MAX_DYNAMIC_QUESTIONS"
    using len by simp_all
  from append_questions_room [OF few(2)] obtain kept where
    kept: "append_questions ?old (map (\<lambda>q. casefold (normalized_text (pq_question q))) ?old) qs = Inr (?old @ kept)"
      "subseq (map pq_id kept) (map pq_id qs)" by blast
  have "set (map pq_id kept) \<subseteq> set (map pq_id qs)" "length kept \<le> length qs"
    "distinct (map pq_id kept)"
    using subseq_distinct [OF kept(2) distinct] list_emb_length [OF kept(2)] by simp_all
  then show ?thesis
    using built kept few p fresh ok
    by (intro exI [of _ qs] exI [of _ "p\<lparr>rn_questions := ?old @ kept\<rparr>"])
      (auto simp: append_dynamic_questions_def)
qed

definition demo_question :: "nat \<Rightarrow> research_question" where
  "demo_question n =
     \<lparr>pq_id = question_name n, pq_question = ''What drives topic '' @ show_nat n @ ''?'', pq_priority = 2,
      pq_rationale = ''Scope of the goal'', pq_requirements = [''a report''], pq_hints = [''topic'']\<rparr>"

definition demo_plan :: research_plan where
  "demo_plan =
     \<lparr>rn_goal = ''Understand the market'', rn_scope = ''Market overview'',
      rn_questions = map demo_question [1, 2, 3, 4, 5], rn_criteria = [''sources'', ''numbers'']\<rparr>"

definition demo_gap_target :: gap_target where
  "demo_gap_target =
     \<lparr>gt_dimension_key = ''q2'', gt_question = ''What drives topic 2?'',
      gt_reasons = [''no independent source''], gt_priority = 1\<rparr>"

lemma show_digit: "n < 10 \<Longrightarrow> show_nat n = [char_of (48 + n)]"
  by (simp add: show_nat.simps)

lemma demo_plan_valid: "mk_plan demo_plan = Inr demo_plan"
proof -
  have "question_ok (demo_question n)" if "0 < n" "n < 10" for n
  proof -
    have a: "ascii (pq_question (demo_question n))" "length (pq_question (demo_question n)) = 20"
      using that by (simp_all add: demo_question_def show_digit ascii_def of_char_of)
    have b: "ascii ''Scope of the goal''" by (simp add: ascii_def)
    have "pq_rationale (demo_question n) = ''Scope of the goal''" "pq_id (demo_question n) = question_name n"
      by (simp_all add: demo_question_def)
    with that a text_len_ascii [OF a(1)] text_len_ascii [OF b] question_name_ok [of n] show ?thesis
      by (simp add: question_ok_def len_between_def) (simp add: demo_question_def)
  qed
  moreover have "ascii ''Understand the market''" "ascii ''Market overview''" by (simp_all add: ascii_def)
  ultimately show ?thesis
    by (simp add: mk_plan_def demo_plan_def len_between_def text_len_ascii MAX_DYNAMIC_QUESTIONS_def)
      (simp add: demo_question_def)
qed

theorem gap_follow_ups_extend_the_plan_witness:
  "\<exists>qs p'. build_gap_driven_questions demo_plan [demo_gap_target] = Inr qs
     \<and> append_dynamic_questions demo_plan qs = Inr p' \<and> distinct (map pq_id (rn_questions p'))"
proof -
  have "list_all valid_gap [demo_gap_target]"
    by (simp add: valid_gap_def demo_gap_target_def valid_ascii text_len_ascii ascii_def)
  from gap_follow_ups_extend_the_plan [OF demo_plan_valid this] show ?thesis by blast
qed

section \<open>Properties of fitting and clipping\<close>

text \<open>Fitting keeps the best questions, in the order of the plan.\<close>

lemma take_sort_key_least:
  assumes "x \<in> set (take n (sort_key f xs))" and "y \<in> set xs" and "y \<notin> set (take n (sort_key f xs))"
  shows "f x \<le> f y"
proof -
  let ?s = "sort_key f xs"
  have "sorted (map f (take n ?s @ drop n ?s))" by simp
  then have "\<forall>a \<in> set (map f (take n ?s)). \<forall>b \<in> set (map f (drop n ?s)). a \<le> b"
    unfolding map_append sorted_append by blast
  moreover have "y \<in> set (take n ?s @ drop n ?s)" using assms(2) by simp
  ultimately show ?thesis using assms(1,3) by (auto simp del: append_take_drop_id)
qed

lemma filter_enumerate_subseq: "subseq (map snd (filter P (enumerate n xs))) xs"
proof -
  have "subseq (map snd (filter P (enumerate n xs))) (map snd (enumerate n xs))"
    by (intro subseq_map subseq_filter_left)
  then show ?thesis by simp
qed

lemma fit_plan_keeps_best:
  assumes "fit_plan_to_budget plan m r = Inr p'" and "executable_questions m r < int (length (rn_questions plan))"
  shows "subseq (rn_questions p') (rn_questions plan)"
    and "rn_questions p' = map snd (filter (\<lambda>(i, q). i \<in> fst ` set (best_questions (nat (executable_questions m r)) (rn_questions plan))) (enumerate 0 (rn_questions plan)))"
    and "(i, q) \<in> set (best_questions (nat (executable_questions m r)) (rn_questions plan)) \<Longrightarrow>
         (j, k) \<in> set (enumerate 0 (rn_questions plan)) \<Longrightarrow>
         (j, k) \<notin> set (best_questions (nat (executable_questions m r)) (rn_questions plan)) \<Longrightarrow>
         (pq_priority q, i) \<le> (pq_priority k, j)"
proof -
  show eq: "rn_questions p' = map snd (filter (\<lambda>(i, q). i \<in> fst ` set (best_questions (nat (executable_questions m r)) (rn_questions plan))) (enumerate 0 (rn_questions plan)))"
    using assms by (auto simp: fit_plan_to_budget_def Let_def split: if_split_asm)
  then show "subseq (rn_questions p') (rn_questions plan)" by (simp only: filter_enumerate_subseq)
  show "(pq_priority q, i) \<le> (pq_priority k, j)"
    if "(i, q) \<in> set (best_questions (nat (executable_questions m r)) (rn_questions plan))"
      "(j, k) \<in> set (enumerate 0 (rn_questions plan))"
      "(j, k) \<notin> set (best_questions (nat (executable_questions m r)) (rn_questions plan))"
    using take_sort_key_least [OF that(1) [unfolded best_questions_def] that(2) that(3) [unfolded best_questions_def]]
    by simp
qed

lemma fitted_plan_size: "5 \<le> executable_questions m r"
  by (simp add: executable_questions_def Let_def)

text \<open>Clipped text respects its limit.\<close>

lemma clip_limit: "valid_text (join_sp (split_ws s)) \<Longrightarrow> text_len (clip n s) \<le> n"
  by (simp add: clip_def text_len_take_chars)

text \<open>
  Appending does not validate: an addition that reuses an identifier yields a plan that the
  plan's own validator rejects.
\<close>

lemma append_is_not_validated:
  assumes "pq_id q \<in> set (map pq_id (rn_questions p))"
    and "casefold (normalized_text (pq_question q))
      \<notin> set (map (\<lambda>q. casefold (normalized_text (pq_question q))) (rn_questions p))"
    and "length (rn_questions p) < MAX_DYNAMIC_QUESTIONS"
  shows "\<exists>p'. append_dynamic_questions p [q] = Inr p' \<and> mk_plan p' \<noteq> Inr p'"
proof -
  let ?q = "q\<lparr>pq_question := normalized_text (pq_question q)\<rparr>"
  have "append_dynamic_questions p [q] = Inr (p\<lparr>rn_questions := rn_questions p @ [?q]\<rparr>)"
    using assms(2,3) by (simp add: append_dynamic_questions_def MAX_DYNAMIC_APPEND_def Let_def)
  moreover have "mk_plan (p\<lparr>rn_questions := rn_questions p @ [?q]\<rparr>) \<noteq> Inr r" for r
    using assms(1) mk_plan_ok [of "p\<lparr>rn_questions := rn_questions p @ [?q]\<rparr>" r] by auto
  ultimately show ?thesis by blast
qed

end
