(* ===== verification/Run_Lifecycle.thy ===== *)
theory Run_Lifecycle
  imports Research_Budget Planning "HOL-Library.List_Lexorder" "HOL-Library.Char_ord"
begin

text \<open>
  The life cycle of a run: \<open>app/domain/research_runs.py\<close>, \<open>app/infrastructure/db/run_models.py\<close>,
  \<open>app/infrastructure/db/research_runs.py\<close>, \<open>app/infrastructure/db/outbox.py\<close> and the two
  transactions of \<open>app/infrastructure/db/reports.py\<close> and \<open>research_tools.py\<close> that end or guard a run.

  The database is a record of the tables these methods use, in insertion order. A method is one
  transaction: a function from the database to a reply and the database it commits, or to the
  exception after which nothing is committed. Row locks are the atomicity of a step, and the rows a
  skip-locked query leaves out are an argument. Summaries of events, which are prose, are dropped.
\<close>

section \<open>Rows\<close>

datatype stored_status =
    RunQueued | RunRunning | RunInterrupted | RunFailed | RunCancelled | RunCompleted
  | RunCompletedWithLimitations | RunCredentialsRequired

datatype run_phase =
    PhaseInitializing | PhasePlanning | PhaseResearching | PhaseEvaluating | PhaseWriting
  | PhaseVerifying | PhaseTerminal

fun status_value :: "stored_status \<Rightarrow> string" where
  "status_value RunQueued = ''queued''"
| "status_value RunRunning = ''running''"
| "status_value RunInterrupted = ''interrupted''"
| "status_value RunFailed = ''failed''"
| "status_value RunCancelled = ''cancelled''"
| "status_value RunCompleted = ''completed''"
| "status_value RunCompletedWithLimitations = ''completed_with_limitations''"
| "status_value RunCredentialsRequired = ''credentials_required''"

fun phase_value :: "run_phase \<Rightarrow> string" where
  "phase_value PhaseInitializing = ''initializing''"
| "phase_value PhasePlanning = ''planning''"
| "phase_value PhaseResearching = ''researching''"
| "phase_value PhaseEvaluating = ''evaluating''"
| "phase_value PhaseWriting = ''writing''"
| "phase_value PhaseVerifying = ''verifying''"
| "phase_value PhaseTerminal = ''terminal''"

lemma phase_value_inject [simp]: "phase_value p = phase_value q \<longleftrightarrow> p = q"
  by (cases p; cases q) simp_all

definition TERMINAL_RUN_STATUSES :: "stored_status set" where
  "TERMINAL_RUN_STATUSES = {RunFailed, RunCancelled, RunCompleted, RunCompletedWithLimitations}"

definition EXECUTION_LEASE_SECONDS :: int where "EXECUTION_LEASE_SECONDS = 900"

text \<open>
  \<open>f"{run.id}:{kind}:{n}"\<close>. The dispatcher gives it to the task queue as the task identifier, so it
  is also what a worker presents as \<open>worker_task_id\<close>.
\<close>

datatype dispatch_key = DispatchKey (key_run: uuid) (key_kind: string) (key_number: int)

type_synonym json_object = "(string \<times> json) list"

record run_row =
  rr_id :: uuid
  rr_owner_hash :: string
  rr_idempotency_key :: string
  rr_original_query :: string
  rr_normalized_goal :: string
  rr_constraints :: json_object
  rr_status :: stored_status
  rr_phase :: run_phase
  rr_state_version :: int
  rr_plan_version :: int
  rr_next_seq :: int
  rr_credential_status :: string
  rr_profile_id :: uuid
  rr_credential_id :: uuid
  rr_llm_config :: json_object
  rr_budget :: json_object
  rr_usage :: json_object
  rr_quality :: json_object
  rr_termination :: "string option"
  rr_lease_owner :: "string option"
  rr_lease_until :: "timestamp option"
  rr_worker :: "dispatch_key option"
  rr_created_at :: timestamp
  rr_updated_at :: timestamp
  rr_started_at :: "timestamp option"
  rr_finished_at :: "timestamp option"

record agent_event =
  ae_run_id :: uuid
  ae_seq :: int
  ae_phase :: run_phase
  ae_type :: string
  ae_refs :: json_object
  ae_metrics :: "json_object option"

datatype outbox_status = OutPending | OutPublishing | OutPublished | OutRetry | OutCancelled

record outbox_row =
  ob_id :: uuid
  ob_run_id :: uuid
  ob_type :: string
  ob_key :: dispatch_key
  ob_reason :: "string option"
  ob_status :: outbox_status
  ob_attempts :: nat
  ob_next_attempt :: timestamp
  ob_created_at :: timestamp
  ob_claimed_at :: "timestamp option"
  ob_published_at :: "timestamp option"
  ob_error :: "string option"

record plan_row =
  pw_run_id :: uuid
  pw_version :: int
  pw_question_id :: string
  pw_question :: string
  pw_priority :: int
  pw_rationale :: string
  pw_requirements :: "string list"
  pw_hints :: "string list"
  pw_status :: string

record database =
  db_runs :: "run_row list"
  db_events :: "agent_event list"
  db_outbox :: "outbox_row list"
  db_items :: "plan_row list"

record run_env =
  en_now :: timestamp
  en_show :: "uuid \<Rightarrow> string"
  en_str :: "json \<Rightarrow> string"

section \<open>Access to the tables\<close>

definition find_run :: "uuid \<Rightarrow> database \<Rightarrow> run_row option" where
  "find_run i db = find (\<lambda>r. rr_id r = i) (db_runs db)"

definition put_run :: "run_row \<Rightarrow> database \<Rightarrow> database" where
  "put_run r db = db\<lparr>db_runs := map (\<lambda>x. if rr_id x = rr_id r then r else x) (db_runs db)\<rparr>"

definition append_event ::
    "string \<Rightarrow> json_object \<Rightarrow> json_object option \<Rightarrow> run_row \<times> database \<Rightarrow> run_row \<times> database" where
  "append_event ty refs metrics = (\<lambda>(r, db).
     (r\<lparr>rr_next_seq := rr_next_seq r + 1\<rparr>,
      db\<lparr>db_events := db_events db @
        [\<lparr>ae_run_id = rr_id r, ae_seq = rr_next_seq r, ae_phase = rr_phase r, ae_type = ty,
          ae_refs = refs, ae_metrics = metrics\<rparr>]\<rparr>))"

definition save_with_event ::
    "string \<Rightarrow> json_object \<Rightarrow> json_object option \<Rightarrow> run_row \<Rightarrow> database \<Rightarrow> run_row \<times> database" where
  "save_with_event ty refs metrics r db =
     (let (r', db') = append_event ty refs metrics (r, db) in (r', put_run r' db'))"

definition show_key :: "(uuid \<Rightarrow> string) \<Rightarrow> dispatch_key \<Rightarrow> string" where
  "show_key sh k = sh (key_run k) @ '':'' @ key_kind k @ '':'' @ show_int (key_number k)"

definition outbox_new ::
    "uuid \<Rightarrow> uuid \<Rightarrow> string \<Rightarrow> dispatch_key \<Rightarrow> string option \<Rightarrow> timestamp \<Rightarrow> timestamp \<Rightarrow> outbox_row" where
  "outbox_new i run ty key reason now next_attempt =
     \<lparr>ob_id = i, ob_run_id = run, ob_type = ty, ob_key = key, ob_reason = reason,
      ob_status = OutPending, ob_attempts = 0, ob_next_attempt = next_attempt, ob_created_at = now,
      ob_claimed_at = None, ob_published_at = None, ob_error = None\<rparr>"

definition enqueue :: "outbox_row \<Rightarrow> database \<Rightarrow> database result" where
  "enqueue o' db =
     (if ob_key o' \<in> set (map ob_key (db_outbox db))
      then Inl (IntegrityError ''uq_task_dispatch_outbox_key'')
      else Inr (db\<lparr>db_outbox := db_outbox db @ [o']\<rparr>))"

definition plan_key :: "plan_row \<Rightarrow> uuid \<times> int \<times> string" where
  "plan_key w = (pw_run_id w, pw_version w, pw_question_id w)"

definition insert_items :: "plan_row list \<Rightarrow> database \<Rightarrow> database result" where
  "insert_items ws db =
     (if distinct (map plan_key (db_items db @ ws))
      then Inr (db\<lparr>db_items := db_items db @ ws\<rparr>)
      else Inl (IntegrityError ''uq_research_plan_item_version_question''))"

definition release_lease :: "run_row \<Rightarrow> run_row" where
  "release_lease r = r\<lparr>rr_lease_owner := None, rr_lease_until := None, rr_worker := None\<rparr>"

definition lock_run :: "string \<Rightarrow> uuid \<Rightarrow> database \<Rightarrow> run_row result" where
  "lock_run owner i db =
     (case find_run i db of
        Some r \<Rightarrow> if rr_owner_hash r = owner then Inr r else Inl (LookupErr ''research run'')
      | None \<Rightarrow> Inl (LookupErr ''research run''))"

text \<open>The guard of every method called by a worker.\<close>

definition owned_run :: "uuid \<Rightarrow> dispatch_key \<Rightarrow> database \<Rightarrow> run_row option" where
  "owned_run i task db =
     (case find_run i db of
        Some r \<Rightarrow> if rr_status r = RunRunning \<and> rr_worker r = Some task then Some r else None
      | None \<Rightarrow> None)"

definition locked_run :: "uuid \<Rightarrow> dispatch_key \<Rightarrow> database \<Rightarrow> run_row result" where
  "locked_run i task db =
     (case owned_run i task db of None \<Rightarrow> Inl (LeaseLost ''research'') | Some r \<Rightarrow> Inr r)"

section \<open>Bookkeeping in the usage and quality snapshots\<close>

definition obj_of :: "json \<Rightarrow> json_object" where
  "obj_of v = (case v of JObj o' \<Rightarrow> o' | _ \<Rightarrow> [])"

definition int_or_zero :: "json \<Rightarrow> int result" where
  "int_or_zero v = (if truthy v then py_int v else Inr 0)"

definition with_pools :: "json_object \<Rightarrow> json_object \<Rightarrow> json_object" where
  "with_pools budget usage =
     AList.update ''resource_pools'' (JObj (build_resource_pool_snapshot budget usage None)) usage"

definition model_token_total :: "json_object \<Rightarrow> int" where
  "model_token_total usage =
     safe_int (jget_or (JInt 0) ''evidence_total_tokens'' usage)
     + (case jget ''planner'' usage of
          JObj item \<Rightarrow> safe_int (jget_or (JInt 0) ''total_tokens'' item) | _ \<Rightarrow> 0)
     + (case jget ''writer'' usage of
          JObj item \<Rightarrow> safe_int (jget_or (JInt 0) ''total_tokens'' item) | _ \<Rightarrow> 0)"

definition record_search_transport_retry :: "json_object \<Rightarrow> json_object" where
  "record_search_transport_retry usage =
     AList.update ''technical_retries''
       (JInt (safe_int (jget_or (JInt 0) ''technical_retries'' usage) + 1)) usage"

section \<open>Creation and control by the user\<close>

record create_request =
  cq_idempotency_key :: string
  cq_original_query :: string
  cq_normalized_goal :: string
  cq_budget :: json_object

text \<open>
  The active profile and credential version the request may use, found by the join of the
  credential tables: profile, credential version and the configuration snapshot they give.
\<close>

record credential_binding =
  cb_profile_id :: uuid
  cb_credential_id :: uuid
  cb_llm_config :: json_object

definition initial_model_pools :: "json_object \<Rightarrow> json_object" where
  "initial_model_pools allocation =
     map (\<lambda>(name, limit). (name, JObj
       [(''allocated_tokens'', JInt limit), (''committed_tokens'', JInt 0),
        (''reserved_tokens'', JInt 0), (''remaining_tokens'', JInt limit),
        (''status'', JStr (if 0 < limit then ''available'' else ''disabled''))]))
       (model_token_pool_limits allocation)"

definition initial_usage :: "json_object \<Rightarrow> json_object" where
  "initial_usage budget =
     (let pools = initial_model_pools (obj_of (jget_or (JObj []) ''allocation'' budget));
          usage = [(''model_token_pools'', JObj pools)]
      in AList.update ''resource_pools''
           (JObj (build_resource_pool_snapshot budget usage (Some pools))) usage)"

definition new_run :: "run_env \<Rightarrow> uuid \<Rightarrow> string \<Rightarrow> create_request \<Rightarrow> credential_binding \<Rightarrow> run_row" where
  "new_run env i owner q b =
     \<lparr>rr_id = i, rr_owner_hash = owner, rr_idempotency_key = cq_idempotency_key q,
      rr_original_query = cq_original_query q, rr_normalized_goal = cq_normalized_goal q,
      rr_constraints = [], rr_status = RunQueued, rr_phase = PhaseInitializing,
      rr_state_version = 1, rr_plan_version = 0, rr_next_seq = 1,
      rr_credential_status = ''ready'', rr_profile_id = cb_profile_id b,
      rr_credential_id = cb_credential_id b, rr_llm_config = cb_llm_config b,
      rr_budget = cq_budget q, rr_usage = initial_usage (cq_budget q), rr_quality = [],
      rr_termination = None, rr_lease_owner = None, rr_lease_until = None, rr_worker = None,
      rr_created_at = en_now env, rr_updated_at = en_now env, rr_started_at = None,
      rr_finished_at = None\<rparr>"

definition create_run ::
    "run_env \<Rightarrow> uuid \<Rightarrow> uuid \<Rightarrow> string \<Rightarrow> create_request \<Rightarrow> credential_binding option \<Rightarrow> database
       \<Rightarrow> ((run_row \<times> bool) \<times> database) result" where
  "create_run env i outbox_id owner q binding db =
     (case find (\<lambda>r. rr_owner_hash r = owner \<and> rr_idempotency_key r = cq_idempotency_key q) (db_runs db) of
        Some r \<Rightarrow> Inr ((r, False), db)
      | None \<Rightarrow>
          (case binding of
             None \<Rightarrow> Inl (CredentialNotFound ''credential version'')
           | Some b \<Rightarrow>
               let r = new_run env i owner q b;
                   (r', db') = save_with_event ''run.created'' [(''run_id'', JStr (en_show env i))] None r
                                 (db\<lparr>db_runs := db_runs db @ [r]\<rparr>)
               in case enqueue (outbox_new outbox_id i ''start'' (DispatchKey i ''start'' 1) None
                                  (en_now env) (en_now env)) db' of
                    Inl e \<Rightarrow> Inl e
                  | Inr db'' \<Rightarrow> Inr ((r', True), db'')))"

text \<open>Revoking the dispatches of a run that are not published yet.\<close>

definition revocable :: "uuid \<Rightarrow> outbox_row \<Rightarrow> bool" where
  "revocable i o' \<longleftrightarrow> ob_run_id o' = i \<and> ob_status o' \<in> {OutPending, OutRetry, OutPublishing}"

definition revoke_dispatches :: "uuid \<Rightarrow> string \<Rightarrow> database \<Rightarrow> database" where
  "revoke_dispatches i reason db = db\<lparr>db_outbox :=
     map (\<lambda>o'. if revocable i o' then o'\<lparr>ob_status := OutCancelled, ob_error := Some reason\<rparr> else o')
       (db_outbox db)\<rparr>"

definition revoked_count :: "uuid \<Rightarrow> database \<Rightarrow> int" where
  "revoked_count i db = int (length (filter (revocable i) (db_outbox db)))"

definition cancel_run :: "run_env \<Rightarrow> string \<Rightarrow> uuid \<Rightarrow> database \<Rightarrow> (run_row \<times> database) result" where
  "cancel_run env owner i db =
     (case lock_run owner i db of
        Inl e \<Rightarrow> Inl e
      | Inr r \<Rightarrow>
          if rr_status r \<in> TERMINAL_RUN_STATUSES then Inr (r, db)
          else
            let n = revoked_count i db;
                r1 = (release_lease r)\<lparr>rr_status := RunCancelled, rr_phase := PhaseTerminal,
                       rr_termination := Some ''user_cancelled'', rr_finished_at := Some (en_now env),
                       rr_updated_at := en_now env, rr_state_version := rr_state_version r + 1\<rparr>
            in Inr (save_with_event ''run.cancelled''
                 [(''run_id'', JStr (en_show env i)), (''previous_status'', JStr (status_value (rr_status r))),
                  (''cancelled_dispatches'', JInt n)]
                 (Some [(''cancelled_dispatches'', JInt n)]) r1
                 (revoke_dispatches i ''run_cancelled_by_user'' db)))"

definition pause_run :: "run_env \<Rightarrow> string \<Rightarrow> uuid \<Rightarrow> database \<Rightarrow> (run_row \<times> database) result" where
  "pause_run env owner i db =
     (case lock_run owner i db of
        Inl e \<Rightarrow> Inl e
      | Inr r \<Rightarrow>
          if rr_status r \<in> TERMINAL_RUN_STATUSES then Inr (r, db)
          else
            let n = revoked_count i db;
                r1 = (release_lease r)\<lparr>rr_status := RunInterrupted,
                       rr_termination := Some ''user_paused'', rr_finished_at := None,
                       rr_updated_at := en_now env, rr_state_version := rr_state_version r + 1\<rparr>
            in Inr (save_with_event ''run.paused''
                 [(''run_id'', JStr (en_show env i)), (''previous_status'', JStr (status_value (rr_status r))),
                  (''cancelled_dispatches'', JInt n)]
                 (Some [(''cancelled_dispatches'', JInt n)]) r1
                 (revoke_dispatches i ''run_paused_by_user'' db)))"

definition resume_run :: "run_env \<Rightarrow> uuid \<Rightarrow> string \<Rightarrow> uuid \<Rightarrow> database \<Rightarrow> (run_row \<times> database) result" where
  "resume_run env outbox_id owner i db =
     (case lock_run owner i db of
        Inl e \<Rightarrow> Inl e
      | Inr r \<Rightarrow>
          if rr_status r = RunCompleted then Inl (InvalidTransition ''completed runs cannot be resumed'')
          else if rr_status r \<notin> {RunCancelled, RunFailed, RunInterrupted} then Inr (r, db)
          else
            let version = rr_state_version r + 1;
                r1 = r\<lparr>rr_status := RunQueued, rr_phase := PhaseInitializing, rr_termination := None,
                       rr_finished_at := None, rr_updated_at := en_now env, rr_state_version := version\<rparr>;
                (r2, db2) = save_with_event ''run.status_changed''
                  [(''run_id'', JStr (en_show env i)), (''status'', JStr (status_value RunQueued))] None r1 db
            in case enqueue (outbox_new outbox_id i ''resume'' (DispatchKey i ''resume'' version) None
                               (en_now env) (en_now env)) db2 of
                 Inl e \<Rightarrow> Inl e
               | Inr db3 \<Rightarrow> Inr (r2, db3))"

section \<open>The execution lease\<close>

definition MODEL_RETRY_PENDING :: string where
  "MODEL_RETRY_PENDING = ''model_transport_retry_pending''"

definition SEARCH_RETRY_PENDING :: string where
  "SEARCH_RETRY_PENDING = ''search_transport_retry_pending''"

definition lease_expired :: "timestamp \<Rightarrow> run_row \<Rightarrow> bool" where
  "lease_expired now r \<longleftrightarrow> (case rr_lease_until r of None \<Rightarrow> False | Some t \<Rightarrow> t \<le> now)"

definition seconds :: "int \<Rightarrow> int" where
  "seconds n = n * 1000000"

definition acquired_usage :: "json_object \<Rightarrow> json_object \<Rightarrow> int \<Rightarrow> json_object" where
  "acquired_usage budget usage maximum =
     (let tokens = model_token_total usage;
          guarded = (if 0 < maximum \<and> maximum \<le> tokens
                     then AList.update ''model_budget_guarded'' (JBool True)
                            (AList.update ''model_tokens'' (JInt tokens) usage)
                     else usage)
      in with_pools budget
           (dict_pop ''model_retry_not_before'' (dict_pop ''model_retry_after_seconds'' guarded)))"

definition acquire_for_execution ::
    "run_env \<Rightarrow> uuid \<Rightarrow> dispatch_key \<Rightarrow> int \<Rightarrow> database \<Rightarrow> (bool \<times> database) result" where
  "acquire_for_execution env i task lease_seconds db =
     (case find_run i db of
        None \<Rightarrow> Inr (False, db)
      | Some r \<Rightarrow>
          let now = en_now env;
              takeover = (rr_status r = RunRunning \<and> lease_expired now r)
          in if rr_status r \<noteq> RunQueued \<and> \<not> takeover then Inr (False, db)
             else case int_or_zero (jget_or (JInt 0) ''max_tokens'' (rr_budget r)) of
                 Inl e \<Rightarrow> Inl e
               | Inr maximum \<Rightarrow>
                   let phase = (if \<not> takeover \<and> rr_phase r = PhaseInitializing
                                then if 0 < rr_plan_version r then PhaseResearching else PhasePlanning
                                else rr_phase r);
                       r1 = r\<lparr>rr_status := RunRunning, rr_phase := phase,
                              rr_usage := acquired_usage (rr_budget r) (rr_usage r) maximum,
                              rr_termination :=
                                (if rr_termination r \<in> {Some MODEL_RETRY_PENDING, Some SEARCH_RETRY_PENDING}
                                 then None else rr_termination r),
                              rr_started_at := (case rr_started_at r of None \<Rightarrow> Some now | Some t \<Rightarrow> Some t),
                              rr_updated_at := now, rr_lease_owner := Some ''celery-worker'',
                              rr_lease_until := Some (now + seconds lease_seconds),
                              rr_worker := Some task, rr_state_version := rr_state_version r + 1\<rparr>
                   in Inr (True, snd (save_with_event
                        (if takeover then ''run.recovered'' else ''run.started'')
                        [(''run_id'', JStr (en_show env i)), (''phase'', JStr (phase_value phase)),
                         (''recovered_from_expired_lease'', JBool takeover)] None r1 db)))"

definition renew_execution_lease ::
    "run_env \<Rightarrow> uuid \<Rightarrow> dispatch_key \<Rightarrow> int \<Rightarrow> database \<Rightarrow> bool \<times> database" where
  "renew_execution_lease env i task lease_seconds db =
     (case owned_run i task db of
        None \<Rightarrow> (False, db)
      | Some r \<Rightarrow>
          (case rr_lease_until r of
             None \<Rightarrow> (False, db)
           | Some t \<Rightarrow>
               if t \<le> en_now env then (False, db)
               else (True, put_run (r\<lparr>rr_lease_until := Some (en_now env + seconds (max 60 lease_seconds)),
                                      rr_updated_at := en_now env\<rparr>) db)))"

text \<open>One row of the reconciler's loop; \<open>fresh\<close> gives the outbox identifier of a run.\<close>

definition requeue_expired :: "run_env \<Rightarrow> (uuid \<Rightarrow> uuid) \<Rightarrow> run_row \<Rightarrow> database \<Rightarrow> database result" where
  "requeue_expired env fresh r db =
     (let version = rr_state_version r + 1;
          key = DispatchKey (rr_id r) ''reconcile'' version;
          r1 = (release_lease r)\<lparr>rr_status := RunQueued, rr_phase := PhaseInitializing,
                 rr_termination := Some ''stale_worker_lease_recovered'',
                 rr_updated_at := en_now env, rr_state_version := version\<rparr>
      in case enqueue (outbox_new (fresh (rr_id r)) (rr_id r) ''resume'' key (Some ''stale_lease'')
                         (en_now env) (en_now env)) db of
           Inl e \<Rightarrow> Inl e
         | Inr db1 \<Rightarrow> Inr (snd (save_with_event ''run.requeued''
             [(''run_id'', JStr (en_show env (rr_id r))),
              (''reason'', JStr ''stale_worker_lease_recovered''),
              (''dispatch_key'', JStr (show_key (en_show env) key))] None r1 db1)))"

definition expired_runs :: "timestamp \<Rightarrow> uuid list \<Rightarrow> int \<Rightarrow> database \<Rightarrow> run_row list" where
  "expired_runs now locked limit db =
     take (nat limit)
       (filter (\<lambda>r. rr_id r \<notin> set locked)
         (sort_key (\<lambda>r. case rr_lease_until r of None \<Rightarrow> 0 | Some t \<Rightarrow> t)
           (filter (\<lambda>r. rr_status r = RunRunning \<and> lease_expired now r) (db_runs db))))"

definition reconcile_expired_leases ::
    "run_env \<Rightarrow> (uuid \<Rightarrow> uuid) \<Rightarrow> uuid list \<Rightarrow> int \<Rightarrow> database \<Rightarrow> (uuid list \<times> database) result" where
  "reconcile_expired_leases env fresh locked limit db =
     (if limit < 1 then Inr ([], db)
      else
        let rows = expired_runs (en_now env) locked limit db
        in case foldM (\<lambda>d r. requeue_expired env fresh r d) db rows of
             Inl e \<Rightarrow> Inl e
           | Inr db' \<Rightarrow> Inr (map rr_id rows, db'))"

section \<open>Plans of a run\<close>

record token_usage =
  tu_input :: int
  tu_output :: int
  tu_total :: int
  tu_accuracy :: string

definition token_usage_dump :: "token_usage \<Rightarrow> json" where
  "token_usage_dump u = JObj
     [(''input_tokens'', JInt (tu_input u)), (''output_tokens'', JInt (tu_output u)),
      (''total_tokens'', JInt (tu_total u)), (''accuracy'', JStr (tu_accuracy u))]"

definition question_dump :: "research_question \<Rightarrow> json_object" where
  "question_dump q =
     [(''id'', JStr (pq_id q)), (''question'', JStr (pq_question q)), (''priority'', JInt (pq_priority q)),
      (''rationale'', JStr (pq_rationale q)),
      (''evidence_requirements'', JList (map JStr (pq_requirements q))),
      (''search_hints'', JList (map JStr (pq_hints q)))]"

definition json_dict :: "json \<Rightarrow> json_object result" where
  "json_dict v = (case v of JObj o' \<Rightarrow> Inr o' | JList [] \<Rightarrow> Inr [] | JStr [] \<Rightarrow> Inr []
                  | _ \<Rightarrow> Inl (TypeError ''dict''))"

definition plan_rows :: "uuid \<Rightarrow> int \<Rightarrow> (string \<Rightarrow> string) \<Rightarrow> research_question list \<Rightarrow> plan_row list" where
  "plan_rows i version status_of qs =
     map (\<lambda>q. \<lparr>pw_run_id = i, pw_version = version, pw_question_id = pq_id q,
               pw_question = pq_question q, pw_priority = pq_priority q, pw_rationale = pq_rationale q,
               pw_requirements = pq_requirements q, pw_hints = pq_hints q,
               pw_status = status_of (pq_id q)\<rparr>) qs"

definition current_rows :: "run_row \<Rightarrow> int \<Rightarrow> database \<Rightarrow> plan_row list" where
  "current_rows r version db =
     sort_key (\<lambda>w. (pw_priority w, pw_question_id w))
       (filter (\<lambda>w. pw_run_id w = rr_id r \<and> pw_version w = version) (db_items db))"

definition question_of_row :: "plan_row \<Rightarrow> research_question" where
  "question_of_row w =
     \<lparr>pq_id = pw_question_id w, pq_question = pw_question w, pq_priority = pw_priority w,
      pq_rationale = pw_rationale w, pq_requirements = pw_requirements w, pq_hints = pw_hints w\<rparr>"

definition stored_plan :: "run_env \<Rightarrow> run_row \<Rightarrow> plan_row list \<Rightarrow> research_plan result" where
  "stored_plan env r rows =
     (let constraints = rr_constraints r;
          text = (\<lambda>key. py_str (en_str env) (jget_or (JStr (rr_normalized_goal r)) key constraints))
      in case traverse (\<lambda>w. mk_question (question_of_row w)) rows of
           Inl e \<Rightarrow> Inl e
         | Inr qs \<Rightarrow> mk_plan
             \<lparr>rn_goal = text ''plan_goal'', rn_scope = text ''plan_scope_summary'', rn_questions = qs,
              rn_criteria = (case jget_or (JList []) ''plan_completion_criteria'' constraints of
                               JList xs \<Rightarrow> map (py_str (en_str env)) xs | _ \<Rightarrow> [])\<rparr>)"

definition get_plan :: "run_env \<Rightarrow> string \<Rightarrow> uuid \<Rightarrow> database \<Rightarrow> research_plan result" where
  "get_plan env owner i db =
     (case lock_run owner i db of
        Inl e \<Rightarrow> Inl e
      | Inr r \<Rightarrow>
          if rr_plan_version r < 1 then Inl (LookupErr ''research plan'')
          else stored_plan env r (current_rows r (rr_plan_version r) db))"

definition get_plan_for_execution :: "run_env \<Rightarrow> uuid \<Rightarrow> int option \<Rightarrow> database \<Rightarrow> research_plan option result" where
  "get_plan_for_execution env i version db =
     (case find_run i db of
        None \<Rightarrow> Inr None
      | Some r \<Rightarrow>
          if rr_plan_version r < 1 then Inr None
          else
            let selected = (case version of None \<Rightarrow> rr_plan_version r
                            | Some v \<Rightarrow> if v = 0 then rr_plan_version r else v)
            in case stored_plan env r (current_rows r selected db) of
                 Inl e \<Rightarrow> Inl e | Inr p \<Rightarrow> Inr (Some p))"

definition dimension_keys :: "string \<Rightarrow> string list \<Rightarrow> string list" where
  "dimension_keys q reqs = map (\<lambda>(i, _). q @ '':d'' @ show_nat i) (enumerate 1 reqs)"

definition initial_risk :: "research_question \<Rightarrow> json" where
  "initial_risk q = JObj (question_risk_as_dict (classify_question_risk
     \<lparr>qi_question_id = pq_id q, qi_priority = pq_priority q, qi_coverage = 0,
      qi_requirements = pq_requirements q, qi_gap_open = True,
      qi_open_dimensions = dimension_keys (pq_id q) (pq_requirements q), qi_unresolved_claims = [],
      qi_high_risk_claims = [], qi_high_risk_conflicts = [], qi_deficit = 0, qi_blocked = False\<rparr>))"

definition count_flag :: "string \<Rightarrow> json_object \<Rightarrow> int" where
  "count_flag key states =
     int (length (filter (\<lambda>(k, v). case v of JObj s \<Rightarrow> truthy (jget key s) | _ \<Rightarrow> False) states))"

text \<open>The fields of the token allocation that describe the questions of a plan version.\<close>

definition allocation_of_questions :: "question_budget list \<Rightarrow> string \<Rightarrow> int \<Rightarrow> json_object" where
  "allocation_of_questions es estimate_version plan_version =
     [(''question_token_budgets'', JObj (dict_update [] (map (\<lambda>e. (qb_question_id e, JInt (qb_target e))) es))),
      (''question_token_floors'', JObj (dict_update [] (map (\<lambda>e. (qb_question_id e, JInt (qb_minimum e))) es))),
      (''question_token_budget_total'', JInt (sum_list (map qb_target es))),
      (''budget_estimate_version'', JStr estimate_version),
      (''question_budget_plan_version'', JInt plan_version)]"

definition pool_limit :: "string \<Rightarrow> json_object \<Rightarrow> int" where
  "pool_limit name allocation = (case map_of (model_token_pool_limits allocation) name of None \<Rightarrow> 0 | Some n \<Rightarrow> n)"

definition ledger_entry :: "string \<Rightarrow> string \<Rightarrow> int \<Rightarrow> int \<Rightarrow> string \<Rightarrow> json" where
  "ledger_entry node phase allocated actual status = JObj
     [(''node'', JStr node), (''phase'', JStr phase), (''allocated_tokens'', JInt allocated),
      (''actual_tokens'', JInt actual), (''status'', JStr status)]"

definition last_n :: "nat \<Rightarrow> 'a list \<Rightarrow> 'a list" where
  "last_n n xs = drop (length xs - n) xs"

definition planned_quality :: "research_plan \<Rightarrow> int \<Rightarrow> json_object \<Rightarrow> json_object" where
  "planned_quality plan version quality =
     (let states = dict_update [] (map (\<lambda>q. (pq_id q, initial_risk q)) (rn_questions plan));
          summary = [(''unresolved_questions'', JInt (count_flag ''unresolved_high_risk'' states)),
                     (''unresolved_claims'', JInt 0),
                     (''open_gaps'', JInt (int (length (rn_questions plan)))),
                     (''open_conflicts'', JInt 0),
                     (''borrow_eligible_questions'', JInt (count_flag ''borrow_eligible'' states))]
      in AList.update ''risk_state_by_question'' (JObj states)
           (AList.update ''risk_state'' (JObj
              [(''version'', JStr ''claim_gap.v2''), (''plan_version'', JInt version),
               (''questions'', JObj states), (''claims'', JObj []), (''gaps'', JObj []),
               (''conflicts'', JObj []), (''summary'', JObj summary)]) quality))"

definition planned_usage :: "json_object \<Rightarrow> json_object \<Rightarrow> token_usage \<Rightarrow> json_object \<Rightarrow> json_object" where
  "planned_usage budget allocation tokens usage =
     (let u1 = AList.update ''planner'' (token_usage_dump tokens) usage;
          u2 = AList.update ''model_tokens'' (JInt (model_token_total u1)) u1;
          ledger = (case jget_or (JList []) ''budget_ledger'' u2 of JList xs \<Rightarrow> xs | _ \<Rightarrow> []);
          entries =
            [ledger_entry ''planner'' ''planning'' (pool_limit ''planner'' allocation) (tu_total tokens) ''settled'',
             ledger_entry ''evidence_extractor'' ''researching'' (pool_limit ''research'' allocation) 0 ''available'',
             ledger_entry ''writer'' ''writing'' (pool_limit ''writer'' allocation) 0 ''protected'',
             ledger_entry ''verification'' ''writing''
               (safe_int (jget_or (JInt 0) ''verification_tokens'' allocation)) 0 ''protected'',
             ledger_entry ''safety'' ''all''
               (safe_int (jget_or (JInt 0) ''safety_tokens'' allocation)) 0 ''protected'']
      in with_pools budget (AList.update ''budget_ledger'' (JList (last_n 20 (ledger @ entries))) u2))"

definition fitted_plan :: "run_row \<Rightarrow> research_plan \<Rightarrow> research_plan result" where
  "fitted_plan r plan =
     (case int_or_zero (jget_or (JInt 0) ''max_iterations'' (rr_budget r)) of
        Inl e \<Rightarrow> Inl e
      | Inr n \<Rightarrow> fit_plan_to_budget plan n DEFAULT_RESEARCH_RESERVE_RATIO)"

text \<open>The run row with a generated plan as its version \<open>version\<close>.\<close>

definition with_generated_plan ::
    "run_env \<Rightarrow> research_plan \<Rightarrow> json_object \<Rightarrow> question_budget list \<Rightarrow> token_usage \<Rightarrow> run_row \<Rightarrow> run_row" where
  "with_generated_plan env plan allocation es tokens r =
     (let version = rr_plan_version r + 1;
          constraints = dict_update (rr_constraints r)
            [(''plan_goal'', JStr (rn_goal plan)), (''plan_scope_summary'', JStr (rn_scope plan)),
             (''plan_completion_criteria'', JList (map JStr (rn_criteria plan)))];
          allocation' = dict_update (AList.update ''writer_tokens_initial''
              (JInt (pool_limit ''writer'' allocation)) allocation)
            (allocation_of_questions es ''question_weighted.v2'' version);
          budget = AList.update ''allocation'' (JObj allocation') (rr_budget r)
      in r\<lparr>rr_plan_version := version, rr_constraints := constraints, rr_budget := budget,
           rr_quality := planned_quality plan version (rr_quality r),
           rr_usage := planned_usage budget allocation tokens (rr_usage r),
           rr_phase := PhaseResearching, rr_termination := None, rr_updated_at := en_now env,
           rr_state_version := rr_state_version r + 1\<rparr>)"

definition save_generated_plan ::
    "run_env \<Rightarrow> uuid \<Rightarrow> dispatch_key \<Rightarrow> research_plan \<Rightarrow> token_usage \<Rightarrow> database \<Rightarrow> (bool \<times> database) result" where
  "save_generated_plan env i task plan tokens db =
     (case owned_run i task db of
        None \<Rightarrow> Inr (False, db)
      | Some r \<Rightarrow>
        (case fitted_plan r plan of
           Inl e \<Rightarrow> Inl e
         | Inr p \<Rightarrow>
           (case json_dict (jget_or (JObj []) ''allocation'' (rr_budget r)) of
              Inl e \<Rightarrow> Inl e
            | Inr allocation \<Rightarrow>
              (case estimate_question_budgets (en_str env) (map question_dump (rn_questions p))
                      (pool_limit ''research'' allocation) 0 0 2500 of
                 Inl e \<Rightarrow> Inl e
               | Inr es \<Rightarrow>
                 (case insert_items (plan_rows i (rr_plan_version r + 1) (\<lambda>_. ''pending'') (rn_questions p)) db of
                    Inl e \<Rightarrow> Inl e
                  | Inr db1 \<Rightarrow>
                    Inr (True, snd (save_with_event ''plan.generated''
                      [(''plan_version'', JInt (rr_plan_version r + 1)),
                       (''questions'', JList (map (JStr \<circ> pq_question) (rn_questions p))),
                       (''question_ids'', JList (map (JStr \<circ> pq_id) (rn_questions p)))]
                      (Some [(''input_tokens'', JInt (tu_input tokens)),
                             (''output_tokens'', JInt (tu_output tokens)),
                             (''total_tokens'', JInt (tu_total tokens))])
                      (with_generated_plan env p allocation es tokens r) db1)))))))"

text \<open>What a replan resets: only entries of the reopened questions, and never a hard exhaustion.\<close>

definition hard_exhaustion :: "json \<Rightarrow> bool" where
  "hard_exhaustion v \<longleftrightarrow> (case v of JObj o' \<Rightarrow> jget ''reason'' o' = JStr ''hard_question_token_limit'' | _ \<Rightarrow> False)"

definition drop_reopened :: "bool \<Rightarrow> string list \<Rightarrow> json_object \<Rightarrow> json_object" where
  "drop_reopened keep_hard ids values =
     fold (\<lambda>q d. if keep_hard \<and> hard_exhaustion (jget q d) then d else dict_pop q d) ids values"

definition reset_map :: "string \<Rightarrow> bool \<Rightarrow> string list \<Rightarrow> json_object \<Rightarrow> json_object" where
  "reset_map field keep_hard ids usage =
     (case jget field usage of
        JObj values \<Rightarrow>
          if ids = [] then usage
          else let remaining = drop_reopened keep_hard ids values
               in if remaining \<noteq> [] then AList.update field (JObj remaining) usage
                  else dict_pop field usage
      | _ \<Rightarrow> usage)"

definition reset_plan_scoped_question_budget ::
    "(json \<Rightarrow> string) \<Rightarrow> string list \<Rightarrow> json_object \<Rightarrow> json_object" where
  "reset_plan_scoped_question_budget str ids usage0 =
     (let u1 = dict_pop ''replan_requested'' usage0;
          u2 = reset_map ''question_budget_exhausted_by_question'' True ids u1;
          u3 = reset_map ''query_strategy_exhausted_by_question'' False ids u2;
          u4 = reset_map ''executed_query_families_by_question'' False ids u3
      in case jget ''frozen_questions'' u4 of
           JList frozen \<Rightarrow>
             if ids = [] then u4
             else AList.update ''frozen_questions''
                    (JList (filter (\<lambda>q. py_str str q \<notin> set ids) frozen)) u4
         | _ \<Rightarrow> u4)"

definition reopened_state :: "json \<Rightarrow> json" where
  "reopened_state raw =
     (let state = obj_of raw;
          reasons0 = (case jget_or (JList []) ''reasons'' state of JList xs \<Rightarrow> xs | _ \<Rightarrow> []);
          reasons = (if JStr ''replan_reopened'' \<in> set reasons0 then reasons0
                     else reasons0 @ [JStr ''replan_reopened''])
      in JObj (dict_update state
           [(''gap_open'', JBool True), (''lifecycle'', JStr ''open''),
            (''borrow_eligible'', JBool (truthy (jget_or (JBool False) ''unresolved_high_risk'' state))),
            (''reasons'', JList reasons)]))"

definition risk_summary :: "json_object \<Rightarrow> json_object \<Rightarrow> json_object" where
  "risk_summary states summary =
     AList.update ''borrow_eligible_questions'' (JInt (count_flag ''borrow_eligible'' states))
       (AList.update ''unresolved_questions'' (JInt (count_flag ''unresolved_high_risk'' states)) summary)"

definition reset_replanned_quality_state :: "string list \<Rightarrow> int option \<Rightarrow> json_object \<Rightarrow> json_object" where
  "reset_replanned_quality_state ids plan_version q0 =
     (let q1 = (case jget ''low_information_gain_streak_by_question'' q0 of
                  JObj streaks \<Rightarrow> AList.update ''low_information_gain_streak_by_question''
                    (JObj (drop_reopened False ids streaks)) q0
                | _ \<Rightarrow> q0);
          q2 = AList.update ''low_information_gain_streak'' (JInt 0) q1;
          questions = fold (\<lambda>i d. AList.update i (reopened_state (jget_or (JObj []) i d)) d) ids
                        (obj_of (jget_or (JObj []) ''risk_state_by_question'' q2));
          q3 = AList.update ''risk_state_by_question'' (JObj questions) q2;
          risk1 = AList.update ''version'' (JStr ''claim_gap.v2'')
                    (obj_of (jget_or (JObj []) ''risk_state'' q3));
          risk2 = (case plan_version of None \<Rightarrow> risk1
                   | Some v \<Rightarrow> AList.update ''plan_version'' (JInt v) risk1);
          risk3 = AList.update ''questions'' (JObj questions) risk2;
          summary = risk_summary questions (obj_of (jget_or (JObj []) ''summary'' risk3))
      in AList.update ''risk_state'' (JObj (AList.update ''summary'' (JObj summary) risk3)) q3)"

definition replanned_row ::
    "(string \<rightharpoonup> string list) \<Rightarrow> int \<Rightarrow> plan_row \<Rightarrow> plan_row result" where
  "replanned_row targets version w =
     (case targets (pw_question_id w) of
        None \<Rightarrow> Inr (w\<lparr>pw_version := version\<rparr>)
      | Some reasons \<Rightarrow>
          (case mk_question (question_of_row w) of
             Inl e \<Rightarrow> Inl e
           | Inr q \<Rightarrow> Inr (w\<lparr>pw_version := version, pw_status := ''pending'',
                             pw_hints := build_gap_resolution_hints q reasons version\<rparr>)))"

definition replan_count :: "json_object \<Rightarrow> int result" where
  "replan_count usage =
     (case jget_or (JInt 0) ''replans'' usage of
        JNull \<Rightarrow> Inr 1 | JList _ \<Rightarrow> Inr 1 | JObj _ \<Rightarrow> Inr 1
      | v \<Rightarrow> (case py_int v of Inl e \<Rightarrow> Inl e | Inr n \<Rightarrow> Inr (n + 1)))"

text \<open>
  The new rows are added before the method knows whether a target matched; when none did, it
  returns from inside the transaction, which commits them.
\<close>

definition save_gap_resolution_plan ::
    "run_env \<Rightarrow> uuid \<Rightarrow> dispatch_key \<Rightarrow> (string \<times> string list) list \<Rightarrow> database \<Rightarrow> (bool \<times> database) result" where
  "save_gap_resolution_plan env i task gaps db =
     (case owned_run i task db of
        None \<Rightarrow> Inr (False, db)
      | Some r \<Rightarrow>
        if rr_plan_version r < 1 then Inr (False, db)
        else
          let rows = current_rows r (rr_plan_version r) db;
              targets = map_of (dict_update [] (take 3 gaps));
              version = rr_plan_version r + 1;
              ids = map pw_question_id (filter (\<lambda>w. targets (pw_question_id w) \<noteq> None) rows)
          in if gaps = [] then Inr (False, db)
             else case traverse (replanned_row targets version) rows of
                 Inl e \<Rightarrow> Inl e
               | Inr new_rows \<Rightarrow>
                 (case insert_items new_rows db of
                    Inl e \<Rightarrow> Inl e
                  | Inr db1 \<Rightarrow>
                    if ids = [] then Inr (False, db1)
                    else
                      let usage = reset_plan_scoped_question_budget (en_str env) ids (rr_usage r)
                      in case replan_count usage of
                           Inl e \<Rightarrow> Inl e
                         | Inr n \<Rightarrow>
                           let r1 = r\<lparr>rr_plan_version := version, rr_phase := PhaseResearching,
                                  rr_termination := None,
                                  rr_quality := reset_replanned_quality_state ids (Some version) (rr_quality r),
                                  rr_usage := with_pools (rr_budget r)
                                    (AList.update ''replans'' (JInt n) usage),
                                  rr_updated_at := en_now env,
                                  rr_state_version := rr_state_version r + 1\<rparr>
                           in Inr (True, snd (save_with_event ''plan.revised''
                                [(''plan_version'', JInt version),
                                 (''gap_resolution_question_ids'', JList (map JStr ids)),
                                 (''question_count'', JInt (int (length rows))),
                                 (''coverage_denominator_changed'', JBool False)] None r1 db1))))"

definition replanned_quality ::
    "research_question list \<Rightarrow> int \<Rightarrow> json_object \<Rightarrow> json_object" where
  "replanned_quality added version quality =
     (let q1 = reset_replanned_quality_state (map pq_id added) (Some version) quality;
          states = fold (\<lambda>q d. AList.update (pq_id q) (initial_risk q) d) added
                     (obj_of (jget_or (JObj []) ''risk_state_by_question'' q1));
          q2 = AList.update ''risk_state_by_question'' (JObj states) q1;
          risk1 = AList.update ''version'' (JStr ''claim_gap.v2'')
                   (AList.update ''plan_version'' (JInt version)
                     (AList.update ''questions'' (JObj states)
                       (obj_of (jget_or (JObj []) ''risk_state'' q2))));
          summary = risk_summary states (obj_of (jget_or (JObj []) ''summary'' risk1))
      in AList.update ''risk_state'' (JObj (AList.update ''summary'' (JObj summary) risk1)) q2)"

definition save_replanned_questions ::
    "run_env \<Rightarrow> uuid \<Rightarrow> dispatch_key \<Rightarrow> research_question list \<Rightarrow> database \<Rightarrow> (bool \<times> database) result" where
  "save_replanned_questions env i task additions db =
     (case owned_run i task db of
        None \<Rightarrow> Inr (False, db)
      | Some r \<Rightarrow>
        if rr_plan_version r < 1 then Inr (False, db)
        else
          let rows = current_rows r (rr_plan_version r) db;
              old_ids = map pw_question_id rows;
              version = rr_plan_version r + 1
          in case stored_plan env r rows of
              Inl e \<Rightarrow> Inl e
            | Inr current \<Rightarrow>
              (case append_dynamic_questions current additions of
                 Inl e \<Rightarrow> Inl e
               | Inr revised \<Rightarrow>
                 let added = filter (\<lambda>q. pq_id q \<notin> set old_ids) (rn_questions revised)
                 in if added = [] then Inr (False, db)
                    else
                      let old_status = map_of (rev (map (\<lambda>w. (pw_question_id w, pw_status w)) rows));
                          status_of = (\<lambda>q. case old_status q of None \<Rightarrow> ''pending'' | Some s \<Rightarrow> s)
                      in case insert_items (plan_rows i version status_of (rn_questions revised)) db of
                        Inl e \<Rightarrow> Inl e
                      | Inr db1 \<Rightarrow>
                        (case json_dict (jget_or (JObj []) ''allocation'' (rr_budget r)) of
                           Inl e \<Rightarrow> Inl e
                         | Inr allocation \<Rightarrow>
                           (case estimate_question_budgets (en_str env)
                                   (map question_dump (rn_questions revised))
                                   (pool_limit ''research'' allocation) 0 0 2500 of
                              Inl e \<Rightarrow> Inl e
                            | Inr es \<Rightarrow>
                              let budget = AList.update ''allocation'' (JObj (dict_update allocation
                                    (allocation_of_questions es ''question_weighted.v3_rebalanced'' version)))
                                    (rr_budget r);
                                  r1 = r\<lparr>rr_plan_version := version, rr_phase := PhaseResearching,
                                    rr_termination := None, rr_budget := budget,
                                    rr_usage := with_pools budget (reset_plan_scoped_question_budget
                                      (en_str env) (map pq_id (rn_questions revised)) (rr_usage r)),
                                    rr_quality := replanned_quality added version (rr_quality r),
                                    rr_updated_at := en_now env,
                                    rr_state_version := rr_state_version r + 1\<rparr>;
                                  logged = fold (\<lambda>q. append_event ''plan.question_added''
                                      [(''plan_version'', JInt version), (''question_id'', JStr (pq_id q)),
                                       (''question'', JStr (pq_question q)),
                                       (''created_reason'', JStr ''evaluation_gap'')] None)
                                    added (r1, db1)
                              in Inr (True, snd (save_with_event ''plan.revised''
                                   [(''plan_version'', JInt version),
                                    (''added_question_ids'', JList (map (JStr \<circ> pq_id) added)),
                                    (''question_count'', JInt (int (length (rn_questions revised))))] None
                                   (fst logged) (snd logged)))))))"

section \<open>Interrupting, retrying and failing\<close>

definition interrupt_for_pending_planner :: "run_env \<Rightarrow> uuid \<Rightarrow> dispatch_key \<Rightarrow> database \<Rightarrow> database" where
  "interrupt_for_pending_planner env i task db =
     (case owned_run i task db of
        None \<Rightarrow> db
      | Some r \<Rightarrow> snd (save_with_event ''run.interrupted''
          [(''reason'', JStr ''planner_not_implemented'')] None
          ((release_lease r)\<lparr>rr_status := RunInterrupted, rr_phase := PhasePlanning,
             rr_termination := Some ''planner_not_implemented'', rr_updated_at := en_now env,
             rr_state_version := rr_state_version r + 1\<rparr>) db))"

definition code_or_unknown :: "string option \<Rightarrow> string" where
  "code_or_unknown code = (case code of None \<Rightarrow> ''UNKNOWN'' | Some c \<Rightarrow> if c = [] then ''UNKNOWN'' else c)"

record model_retry =
  mr_role :: string
  mr_failed_attempt :: int
  mr_max_attempts :: int
  mr_error_code :: string
  mr_detail_code :: "string option"
  mr_delay_seconds :: rat

definition record_model_retry :: "run_env \<Rightarrow> uuid \<Rightarrow> dispatch_key \<Rightarrow> model_retry \<Rightarrow> database \<Rightarrow> bool \<times> database" where
  "record_model_retry env i task m db =
     (case owned_run i task db of
        None \<Rightarrow> (False, db)
      | Some r \<Rightarrow> (True, snd (save_with_event ''model.retry_scheduled''
          [(''role'', JStr (mr_role m)), (''failed_attempt'', JInt (mr_failed_attempt m)),
           (''next_attempt'', JInt (mr_failed_attempt m + 1)), (''max_attempts'', JInt (mr_max_attempts m)),
           (''error_code'', JStr (take_chars 100 (mr_error_code m))),
           (''detail_code'', JStr (take_chars 100 (code_or_unknown (mr_detail_code m))))]
          (Some [(''delay_seconds'', JNum (mr_delay_seconds m))])
          (r\<lparr>rr_updated_at := en_now env,
             rr_lease_until := Some (en_now env + seconds EXECUTION_LEASE_SECONDS),
             rr_state_version := rr_state_version r + 1\<rparr>) db)))"

definition RETRY_COMPLETION_RESERVE_SECONDS :: int where "RETRY_COMPLETION_RESERVE_SECONDS = 45"

definition MIN_DURABLE_RETRY_DELAY_SECONDS :: int where "MIN_DURABLE_RETRY_DELAY_SECONDS = 5"

definition REQUEUE_DELAYS_SECONDS :: "int list" where "REQUEUE_DELAYS_SECONDS = [30, 60, 120, 240]"

text \<open>\<open>int(delta.total_seconds())\<close> cuts towards zero. A text that is no ISO time is \<open>JStr\<close>.\<close>

definition whole_seconds :: "int \<Rightarrow> int" where
  "whole_seconds d = (if d < 0 then - ((- d) div 1000000) else d div 1000000)"

definition bounded_retry_delay :: "json_object \<Rightarrow> int \<Rightarrow> timestamp \<Rightarrow> int option" where
  "bounded_retry_delay budget requested now =
     (let wanted = max MIN_DURABLE_RETRY_DELAY_SECONDS requested
      in case jget ''deadline_at'' budget of
           JTime deadline \<Rightarrow>
             let latest = whole_seconds (deadline - now) - RETRY_COMPLETION_RESERVE_SECONDS
             in if latest < MIN_DURABLE_RETRY_DELAY_SECONDS then None else Some (min wanted latest)
         | _ \<Rightarrow> Some wanted)"

text \<open>
  The two methods that requeue a run after a transient failure differ in the prefix of their
  usage keys, in the reason they leave, and in what the search one counts on top.
\<close>

record dependency =
  dp_prefix :: string
  dp_reason :: string
  dp_event :: string
  dp_count :: "json_object \<Rightarrow> json_object"

definition model_dependency :: dependency where
  "model_dependency = \<lparr>dp_prefix = ''model'', dp_reason = MODEL_RETRY_PENDING,
     dp_event = ''model.retry_deferred'', dp_count = (\<lambda>u. u)\<rparr>"

definition search_dependency :: dependency where
  "search_dependency = \<lparr>dp_prefix = ''search'', dp_reason = SEARCH_RETRY_PENDING,
     dp_event = ''search.retry_deferred'', dp_count = record_search_transport_retry\<rparr>"

definition completed_requeues :: "run_env \<Rightarrow> dependency \<Rightarrow> run_row \<Rightarrow> int result" where
  "completed_requeues env d r =
     (if py_str (en_str env) (jget_or (JStr []) (dp_prefix d @ ''_transport_retry_phase'') (rr_usage r))
         = phase_value (rr_phase r)
      then (case int_or_zero (jget_or (JInt 0) (dp_prefix d @ ''_transport_requeues'') (rr_usage r)) of
              Inl e \<Rightarrow> Inl e | Inr n \<Rightarrow> Inr (max 0 n))
      else Inr 0)"

definition deferred_usage ::
    "dependency \<Rightarrow> run_row \<Rightarrow> int \<Rightarrow> int \<Rightarrow> timestamp \<Rightarrow> string \<Rightarrow> string option \<Rightarrow> json_object" where
  "deferred_usage d r attempt delay retry_at error_code detail_code =
     with_pools (rr_budget r) (dp_count d (dict_update (rr_usage r)
       [(dp_prefix d @ ''_transport_requeues'', JInt attempt),
        (dp_prefix d @ ''_transport_retry_phase'', JStr (phase_value (rr_phase r))),
        (dp_prefix d @ ''_retry_after_seconds'', JInt delay),
        (dp_prefix d @ ''_retry_not_before'', JTime retry_at),
        (''last_'' @ dp_prefix d @ ''_error_code'', JStr (take_chars 100 error_code)),
        (''last_'' @ dp_prefix d @ ''_detail_code'', JStr (take_chars 100 (code_or_unknown detail_code))),
        (''page_slots_reserved'', JInt 0)]))"

definition defer_retryable ::
    "dependency \<Rightarrow> run_env \<Rightarrow> uuid \<Rightarrow> uuid \<Rightarrow> dispatch_key \<Rightarrow> string \<Rightarrow> string option \<Rightarrow> database
       \<Rightarrow> (int option \<times> database) result" where
  "defer_retryable d env outbox_id i task error_code detail_code db =
     (case owned_run i task db of
        None \<Rightarrow> Inr (None, db)
      | Some r \<Rightarrow>
        (case completed_requeues env d r of
           Inl e \<Rightarrow> Inl e
         | Inr completed \<Rightarrow>
           if completed \<ge> int (length REQUEUE_DELAYS_SECONDS) then Inr (None, db)
           else
             (case bounded_retry_delay (rr_budget r) (REQUEUE_DELAYS_SECONDS ! nat completed) (en_now env) of
                None \<Rightarrow> Inr (None, db)
              | Some delay \<Rightarrow>
                let retry_at = en_now env + seconds delay;
                    version = rr_state_version r + 1;
                    key = DispatchKey i (dp_prefix d @ ''-retry'') version;
                    r1 = (release_lease r)\<lparr>
                      rr_usage := deferred_usage d r (completed + 1) delay retry_at error_code detail_code,
                      rr_status := RunQueued, rr_termination := Some (dp_reason d),
                      rr_finished_at := None, rr_updated_at := en_now env,
                      rr_state_version := version\<rparr>
                in case enqueue (outbox_new outbox_id i ''resume'' key (Some (dp_reason d))
                                   (en_now env) retry_at) db of
                     Inl e \<Rightarrow> Inl e
                   | Inr db1 \<Rightarrow> Inr (Some delay, snd (save_with_event (dp_event d)
                       [(''error_code'', JStr (take_chars 100 error_code)),
                        (''detail_code'', JStr (take_chars 100 (code_or_unknown detail_code))),
                        (''requeue_attempt'', JInt (completed + 1)),
                        (''max_requeue_attempts'', JInt (int (length REQUEUE_DELAYS_SECONDS))),
                        (''dispatch_key'', JStr (show_key (en_show env) key))]
                       (Some [(''delay_seconds'', JInt delay)]) r1 db1)))))"

definition defer_retryable_model_error ::
    "run_env \<Rightarrow> uuid \<Rightarrow> uuid \<Rightarrow> dispatch_key \<Rightarrow> string \<Rightarrow> string option \<Rightarrow> database \<Rightarrow> (int option \<times> database) result" where
  "defer_retryable_model_error = defer_retryable model_dependency"

definition defer_retryable_search_error ::
    "run_env \<Rightarrow> uuid \<Rightarrow> uuid \<Rightarrow> dispatch_key \<Rightarrow> string \<Rightarrow> string option \<Rightarrow> database \<Rightarrow> (int option \<times> database) result" where
  "defer_retryable_search_error = defer_retryable search_dependency"

definition is_upper_text :: "string \<Rightarrow> bool" where
  "is_upper_text s \<longleftrightarrow>
     (\<exists>c \<in> set s. 65 \<le> (of_char c :: nat) \<and> (of_char c :: nat) \<le> 90)
     \<and> (\<forall>c \<in> set s. \<not> (97 \<le> (of_char c :: nat) \<and> (of_char c :: nat) \<le> 122))"

definition ALLOWED_DIAGNOSTICS :: "string list" where
  "ALLOWED_DIAGNOSTICS =
     [''structured_output_strategy'', ''finish_reason'', ''output_tokens'', ''max_output_tokens'',
      ''response_length'', ''provider_request_id'', ''retry_mode'', ''first_error_code'',
      ''attempt_stage'', ''compact_trigger'', ''failure_node'', ''budget_type'', ''budget_limit'',
      ''budget_used'', ''budget_overrun'']"

definition safe_diagnostics :: "json_object \<Rightarrow> json_object" where
  "safe_diagnostics diagnostics =
     concat (map (\<lambda>(key, v). if key \<in> set ALLOWED_DIAGNOSTICS then
        (case v of JStr s \<Rightarrow> [(key, JStr (take_chars 200 s))] | JTime t \<Rightarrow> [(key, v)]
         | JInt n \<Rightarrow> [(key, v)] | JBool b \<Rightarrow> [(key, v)] | _ \<Rightarrow> []) else []) diagnostics)"

definition failure_diagnostics :: "run_row \<Rightarrow> string option \<Rightarrow> json_object \<Rightarrow> json_object result" where
  "failure_diagnostics r detail_code diagnostics =
     (let safe = safe_diagnostics diagnostics;
          base = (if map_of safe ''failure_node'' = None
                  then safe @ [(''failure_node'', JStr (phase_value (rr_phase r)))] else safe)
      in if detail_code = Some ''PAGE_BUDGET_OVERRUN'' then
           (case int_or_zero (jget_or (JInt 0) ''max_pages'' (rr_budget r)) of
              Inl e \<Rightarrow> Inl e
            | Inr limit \<Rightarrow>
              (case int_or_zero (jget_or (JInt 0) ''pages'' (rr_usage r)) of
                 Inl e \<Rightarrow> Inl e
               | Inr used \<Rightarrow> Inr (dict_update base
                   [(''failure_node'', JStr ''research_iteration''), (''budget_type'', JStr ''pages''),
                    (''budget_limit'', JInt limit), (''budget_used'', JInt used),
                    (''budget_overrun'', JInt (max 0 (used - limit)))])))
         else Inr base)"

definition fail_execution ::
    "run_env \<Rightarrow> uuid \<Rightarrow> dispatch_key \<Rightarrow> string \<Rightarrow> string option \<Rightarrow> json_object \<Rightarrow> database \<Rightarrow> database result" where
  "fail_execution env i task error_code detail_code diagnostics db =
     (case owned_run i task db of
        None \<Rightarrow> Inr db
      | Some r \<Rightarrow>
        (case failure_diagnostics r detail_code diagnostics of
           Inl e \<Rightarrow> Inl e
         | Inr diag \<Rightarrow>
           let code = take_chars 100 (if is_upper_text error_code then error_code else ''WORKER_EXECUTION_FAILED'');
               r1 = (release_lease r)\<lparr>rr_status := RunFailed, rr_phase := PhaseTerminal,
                      rr_termination := Some code, rr_updated_at := en_now env,
                      rr_finished_at := Some (en_now env),
                      rr_usage := with_pools (rr_budget r)
                        (AList.update ''page_slots_reserved'' (JInt 0) (rr_usage r)),
                      rr_state_version := rr_state_version r + 1\<rparr>
           in Inr (snd (save_with_event ''run.failed''
                [(''reason'', JStr code), (''detail_code'', JStr (take_chars 100 (code_or_unknown detail_code))),
                 (''model_diagnostics'', JObj diag)] None r1 db))))"

section \<open>Ending a run from the report writer\<close>

definition writing_run :: "uuid \<Rightarrow> dispatch_key \<Rightarrow> database \<Rightarrow> run_row result" where
  "writing_run i task db =
     (case owned_run i task db of
        Some r \<Rightarrow> if rr_phase r = PhaseWriting then Inr r else Inl (LeaseLost ''report writing'')
      | None \<Rightarrow> Inl (LeaseLost ''report writing''))"

text \<open>
  The end of \<open>save\<close>, after the report, its sections and citations are stored: the usage and quality
  snapshots it computes, the report's identifier and version and the verification are arguments.
\<close>

definition finish_report ::
    "run_env \<Rightarrow> uuid \<Rightarrow> dispatch_key \<Rightarrow> bool \<Rightarrow> json_object \<Rightarrow> json_object \<Rightarrow> uuid \<Rightarrow> int \<Rightarrow> json_object
       \<Rightarrow> database \<Rightarrow> database result" where
  "finish_report env i task limited usage quality report version verification db =
     (case writing_run i task db of
        Inl e \<Rightarrow> Inl e
      | Inr r \<Rightarrow>
          let status = (if limited then RunCompletedWithLimitations else RunCompleted);
              r1 = (release_lease r)\<lparr>rr_usage := usage, rr_quality := quality, rr_status := status,
                     rr_phase := PhaseTerminal,
                     rr_termination := Some (if limited then ''completed_with_limitations'' else ''quality_met''),
                     rr_finished_at := Some (en_now env), rr_updated_at := en_now env,
                     rr_state_version := rr_state_version r + 1\<rparr>;
              (r2, db2) = append_event ''report.verified''
                [(''report_id'', JStr (en_show env report)), (''version'', JInt version)] (Some verification)
                (r1, db)
          in Inr (snd (save_with_event ''run.completed''
               [(''report_id'', JStr (en_show env report)), (''status'', JStr (status_value status))] None r2 db2)))"

definition fail_no_evidence :: "run_env \<Rightarrow> uuid \<Rightarrow> dispatch_key \<Rightarrow> database \<Rightarrow> database result" where
  "fail_no_evidence env i task db =
     (case writing_run i task db of
        Inl e \<Rightarrow> Inl e
      | Inr r \<Rightarrow>
        (case traverse (\<lambda>key. int_or_zero (jget_or (JInt 0) key (rr_usage r)))
                [''searches'', ''pages'', ''search_provider_failures'',
                 ''evidence_extraction_failures'', ''page_read_failures''] of
           Inr [searches, pages, failures, extraction, reads] \<Rightarrow>
             let (detail, cause) =
                   (if failures \<noteq> 0 \<and> pages = 0 \<and> (searches = 0 \<or> searches \<le> failures)
                      then (''SEARCH_PROVIDER_EXHAUSTED'', ''search_provider_unavailable'')
                    else if pages \<noteq> 0 \<and> pages \<le> extraction
                      then (''EVIDENCE_EXTRACTION_UNAVAILABLE'', ''model_extraction_unavailable'')
                    else if pages \<noteq> 0
                      then (''EVIDENCE_VALIDATION_EMPTY'', ''no_candidate_passed_provenance_validation'')
                    else (''NO_READABLE_SOURCE'', ''no_readable_source''));
                 r1 = (release_lease r)\<lparr>rr_status := RunFailed, rr_phase := PhaseTerminal,
                        rr_termination := Some ''REPORT_NO_ACCEPTED_EVIDENCE'',
                        rr_finished_at := Some (en_now env), rr_updated_at := en_now env,
                        rr_state_version := rr_state_version r + 1\<rparr>
             in Inr (snd (save_with_event ''run.failed''
                  [(''reason'', JStr ''REPORT_NO_ACCEPTED_EVIDENCE''), (''detail_code'', JStr detail),
                   (''failure_stage'', JStr ''evidence_evaluation''), (''failure_cause'', JStr cause)]
                  (Some [(''searches'', JInt searches), (''pages'', JInt pages),
                         (''search_provider_failures'', JInt failures),
                         (''page_read_failures'', JInt reads),
                         (''evidence_extraction_failures'', JInt extraction), (''accepted_evidence'', JInt 0)])
                  r1 db))
         | Inr _ \<Rightarrow> Inl (ValueError ''unreachable'')
         | Inl e \<Rightarrow> Inl e))"

section \<open>The dispatch outbox\<close>

definition claimable :: "timestamp \<Rightarrow> int \<Rightarrow> outbox_row \<Rightarrow> bool" where
  "claimable now stale_after o' \<longleftrightarrow>
     (ob_status o' \<in> {OutPending, OutRetry} \<and> ob_next_attempt o' \<le> now)
     \<or> (ob_status o' = OutPublishing
        \<and> (case ob_claimed_at o' of None \<Rightarrow> False | Some t \<Rightarrow> t \<le> now - seconds stale_after))"

definition claim_batch ::
    "timestamp \<Rightarrow> uuid list \<Rightarrow> nat \<Rightarrow> int \<Rightarrow> database \<Rightarrow> (uuid \<times> uuid \<times> dispatch_key) list \<times> database" where
  "claim_batch now locked limit stale_after db =
     (let rows = take limit (filter (\<lambda>o'. ob_id o' \<notin> set locked)
            (sort_key ob_created_at (filter (claimable now stale_after) (db_outbox db))));
          ids = map ob_id rows
      in (map (\<lambda>o'. (ob_id o', ob_run_id o', ob_key o')) rows,
          db\<lparr>db_outbox := map (\<lambda>o'. if ob_id o' \<in> set ids
               then o'\<lparr>ob_status := OutPublishing, ob_claimed_at := Some now, ob_attempts := ob_attempts o' + 1\<rparr>
               else o') (db_outbox db)\<rparr>))"

definition update_outbox :: "uuid \<Rightarrow> (outbox_row \<Rightarrow> outbox_row) \<Rightarrow> database \<Rightarrow> database result" where
  "update_outbox i f db =
     (if i \<in> set (map ob_id (db_outbox db))
      then Inr (db\<lparr>db_outbox := map (\<lambda>o'. if ob_id o' = i then f o' else o') (db_outbox db)\<rparr>)
      else Inl (LookupErr ''outbox row''))"

definition mark_published :: "timestamp \<Rightarrow> uuid \<Rightarrow> database \<Rightarrow> database result" where
  "mark_published now i =
     update_outbox i (\<lambda>o'. o'\<lparr>ob_status := OutPublished, ob_published_at := Some now, ob_error := None\<rparr>)"

definition mark_retry :: "timestamp \<Rightarrow> uuid \<Rightarrow> string \<Rightarrow> database \<Rightarrow> database result" where
  "mark_retry now i error_code =
     update_outbox i (\<lambda>o'. o'\<lparr>ob_status := OutRetry,
       ob_next_attempt := now + seconds (min (2 ^ (ob_attempts o' - 1)) 60),
       ob_error := Some (take_chars 1000 error_code)\<rparr>)"

section \<open>Reading\<close>

definition get_run :: "string \<Rightarrow> uuid \<Rightarrow> database \<Rightarrow> run_row result" where
  "get_run owner i db = lock_run owner i db"

definition list_recent :: "string \<Rightarrow> nat \<Rightarrow> database \<Rightarrow> run_row list" where
  "list_recent owner limit db =
     take limit (sort_key (\<lambda>r. - rr_created_at r) (filter (\<lambda>r. rr_owner_hash r = owner) (db_runs db)))"

definition list_events :: "string \<Rightarrow> uuid \<Rightarrow> int \<Rightarrow> nat \<Rightarrow> database \<Rightarrow> agent_event list result" where
  "list_events owner i after_seq limit db =
     (case lock_run owner i db of
        Inl e \<Rightarrow> Inl e
      | Inr _ \<Rightarrow> Inr (take limit (sort_key ae_seq
          (filter (\<lambda>e. ae_run_id e = i \<and> after_seq < ae_seq e) (db_events db)))))"

definition get_budget_snapshot_for_execution :: "uuid \<Rightarrow> database \<Rightarrow> json_object" where
  "get_budget_snapshot_for_execution i db = (case find_run i db of None \<Rightarrow> [] | Some r \<Rightarrow> rr_budget r)"

end
