(* ===== verification/Run_Machine.thy ===== *)
theory Run_Machine
  imports Run_Lifecycle
begin

text \<open>
  The transactions of \<open>Run_Lifecycle\<close> as one machine: any of them may commit next, in any order and
  by any worker. The lemmas say what a transaction leaves alone; the properties are the invariant
  of the tables, the fencing of superseded workers, the bound on durable retries, and the replan
  that poisons the next one.
\<close>

section \<open>The machine of all transactions\<close>

datatype run_op =
    OpCreate run_env uuid uuid string create_request "credential_binding option"
  | OpCancel run_env string uuid
  | OpPause run_env string uuid
  | OpResume run_env uuid string uuid
  | OpAcquire run_env uuid dispatch_key int
  | OpRenew run_env uuid dispatch_key int
  | OpReconcile run_env "uuid \<Rightarrow> uuid" "uuid list" int
  | OpSavePlan run_env uuid dispatch_key research_plan token_usage
  | OpGapPlan run_env uuid dispatch_key "(string \<times> string list) list"
  | OpReplan run_env uuid dispatch_key "research_question list"
  | OpInterrupt run_env uuid dispatch_key
  | OpRecordRetry run_env uuid dispatch_key model_retry
  | OpDeferModel run_env uuid uuid dispatch_key string "string option"
  | OpDeferSearch run_env uuid uuid dispatch_key string "string option"
  | OpFail run_env uuid dispatch_key string "string option" json_object
  | OpFinish run_env uuid dispatch_key bool json_object json_object uuid int json_object
  | OpNoEvidence run_env uuid dispatch_key
  | OpClaim timestamp "uuid list" nat int
  | OpPublished timestamp uuid
  | OpRetry timestamp uuid string

text \<open>Whether the call did its work, and the database it commits.\<close>

definition done_with :: "'a result \<Rightarrow> ('a \<Rightarrow> bool \<times> database) \<Rightarrow> (bool \<times> database) result" where
  "done_with x f = (case x of Inl e \<Rightarrow> Inl e | Inr y \<Rightarrow> Inr (f y))"

lemma done_with_Inr: "done_with x f = Inr p \<longleftrightarrow> (\<exists>y. x = Inr y \<and> f y = p)"
  by (auto simp: done_with_def split: sum.splits)

fun exec_op :: "run_op \<Rightarrow> database \<Rightarrow> (bool \<times> database) result" where
  "exec_op (OpCreate env i ob owner q b) db =
     done_with (create_run env i ob owner q b db) (\<lambda>((r, new), d). (new, d))"
| "exec_op (OpCancel env owner i) db = done_with (cancel_run env owner i db) (\<lambda>(r, d). (True, d))"
| "exec_op (OpPause env owner i) db = done_with (pause_run env owner i db) (\<lambda>(r, d). (True, d))"
| "exec_op (OpResume env ob owner i) db = done_with (resume_run env ob owner i db) (\<lambda>(r, d). (True, d))"
| "exec_op (OpAcquire env i task s) db = acquire_for_execution env i task s db"
| "exec_op (OpRenew env i task s) db = Inr (renew_execution_lease env i task s db)"
| "exec_op (OpReconcile env fresh locked limit) db =
     done_with (reconcile_expired_leases env fresh locked limit db) (\<lambda>(ids, d). (ids \<noteq> [], d))"
| "exec_op (OpSavePlan env i task plan tokens) db = save_generated_plan env i task plan tokens db"
| "exec_op (OpGapPlan env i task gaps) db = save_gap_resolution_plan env i task gaps db"
| "exec_op (OpReplan env i task qs) db = save_replanned_questions env i task qs db"
| "exec_op (OpInterrupt env i task) db =
     Inr (owned_run i task db \<noteq> None, interrupt_for_pending_planner env i task db)"
| "exec_op (OpRecordRetry env i task m) db = Inr (record_model_retry env i task m db)"
| "exec_op (OpDeferModel env ob i task c d) db =
     done_with (defer_retryable_model_error env ob i task c d db) (\<lambda>(delay, d). (delay \<noteq> None, d))"
| "exec_op (OpDeferSearch env ob i task c d) db =
     done_with (defer_retryable_search_error env ob i task c d db) (\<lambda>(delay, d). (delay \<noteq> None, d))"
| "exec_op (OpFail env i task c d diag) db =
     done_with (fail_execution env i task c d diag db) (\<lambda>d. (owned_run i task db \<noteq> None, d))"
| "exec_op (OpFinish env i task limited u q rep v ver) db =
     done_with (finish_report env i task limited u q rep v ver db) (\<lambda>d. (True, d))"
| "exec_op (OpNoEvidence env i task) db = done_with (fail_no_evidence env i task db) (\<lambda>d. (True, d))"
| "exec_op (OpClaim now locked limit stale) db =
     (case claim_batch now locked limit stale db of (batch, d) \<Rightarrow> Inr (batch \<noteq> [], d))"
| "exec_op (OpPublished now i) db = done_with (mark_published now i db) (\<lambda>d. (True, d))"
| "exec_op (OpRetry now i c) db = done_with (mark_retry now i c db) (\<lambda>d. (True, d))"

text \<open>\<open>uuid7()\<close> does not repeat: the identifier of a new run is unused.\<close>

fun fresh_op :: "run_op \<Rightarrow> database \<Rightarrow> bool" where
  "fresh_op (OpCreate env i ob owner q b) db \<longleftrightarrow> i \<notin> rr_id ` set (db_runs db)"
| "fresh_op _ db \<longleftrightarrow> True"

inductive lifecycle_step :: "database \<Rightarrow> run_op \<Rightarrow> bool \<Rightarrow> database \<Rightarrow> bool" where
  committed: "exec_op op db = Inr (b, db') \<Longrightarrow> fresh_op op db \<Longrightarrow> lifecycle_step db op b db'"

inductive lifecycle_steps :: "database \<Rightarrow> (database \<times> run_op \<times> bool) list \<Rightarrow> database \<Rightarrow> bool" where
  none: "lifecycle_steps db [] db"
| step: "lifecycle_steps db tr db1 \<Longrightarrow> lifecycle_step db1 op b db2
    \<Longrightarrow> lifecycle_steps db (tr @ [(db1, op, b)]) db2"

inductive_cases lifecycle_stepE: "lifecycle_step db op b db'"

definition empty_database :: database where
  "empty_database = \<lparr>db_runs = [], db_events = [], db_outbox = [], db_items = []\<rparr>"

section \<open>What a transaction leaves alone\<close>

lemma find_run_id: "find_run i db = Some r \<Longrightarrow> rr_id r = i \<and> r \<in> set (db_runs db)"
  by (auto simp: find_run_def find_Some_iff)

lemma find_run_put:
  "find_run i (put_run r db) =
     (if i = rr_id r \<and> find_run i db \<noteq> None then Some r else find_run i db)"
proof -
  have "find (\<lambda>x. rr_id x = i) (map (\<lambda>x. if rr_id x = rr_id r then r else x) xs) =
      (if i = rr_id r \<and> find (\<lambda>x. rr_id x = i) xs \<noteq> None then Some r else find (\<lambda>x. rr_id x = i) xs)" for xs
    by (induction xs) auto
  then show ?thesis by (auto simp: find_run_def put_run_def)
qed

lemma append_event_fields [simp]:
  "rr_id (fst (append_event ty refs m (r, db))) = rr_id r"
  "rr_status (fst (append_event ty refs m (r, db))) = rr_status r"
  "rr_worker (fst (append_event ty refs m (r, db))) = rr_worker r"
  "rr_usage (fst (append_event ty refs m (r, db))) = rr_usage r"
  "rr_phase (fst (append_event ty refs m (r, db))) = rr_phase r"
  "db_runs (snd (append_event ty refs m (r, db))) = db_runs db"
  "db_outbox (snd (append_event ty refs m (r, db))) = db_outbox db"
  "db_items (snd (append_event ty refs m (r, db))) = db_items db"
  by (simp_all add: append_event_def)

lemma save_with_event_eq:
  "save_with_event ty refs m r db =
     (r\<lparr>rr_next_seq := rr_next_seq r + 1\<rparr>,
      put_run (r\<lparr>rr_next_seq := rr_next_seq r + 1\<rparr>) (snd (append_event ty refs m (r, db))))"
  by (simp add: save_with_event_def append_event_def)

lemma find_run_save:
  "find_run i (snd (save_with_event ty refs m r db)) =
     (if i = rr_id r \<and> find_run i db \<noteq> None then Some (r\<lparr>rr_next_seq := rr_next_seq r + 1\<rparr>)
      else find_run i db)"
proof -
  have "find_run j (snd (append_event ty refs m (r, db))) = find_run j db" for j
    by (simp add: find_run_def)
  then show ?thesis by (auto simp: save_with_event_eq find_run_put)
qed

lemma find_run_tables [simp]:
  "find_run i (db\<lparr>db_outbox := x\<rparr>) = find_run i db"
  "find_run i (db\<lparr>db_items := y\<rparr>) = find_run i db"
  "find_run i (db\<lparr>db_events := z\<rparr>) = find_run i db"
  by (simp_all add: find_run_def)

lemma enqueue_Inr: "enqueue o' db = Inr db' \<longleftrightarrow>
    ob_key o' \<notin> set (map ob_key (db_outbox db)) \<and> db' = db\<lparr>db_outbox := db_outbox db @ [o']\<rparr>"
  by (auto simp: enqueue_def)

lemma insert_items_Inr: "insert_items ws db = Inr db' \<longleftrightarrow>
    distinct (map plan_key (db_items db @ ws)) \<and> db' = db\<lparr>db_items := db_items db @ ws\<rparr>"
  by (auto simp: insert_items_def)

lemma owned_run_Some:
  "owned_run i task db = Some r \<longleftrightarrow>
     find_run i db = Some r \<and> rr_status r = RunRunning \<and> rr_worker r = Some task"
  by (auto simp: owned_run_def split: option.splits)

lemma lock_run_Inr: "lock_run owner i db = Inr r \<longleftrightarrow> find_run i db = Some r \<and> rr_owner_hash r = owner"
  by (auto simp: lock_run_def split: option.splits)

lemma writing_run_Inr:
  "writing_run i task db = Inr r \<longleftrightarrow> owned_run i task db = Some r \<and> rr_phase r = PhaseWriting"
  by (auto simp: writing_run_def split: option.splits)

lemma release_lease_fields [simp]:
  "rr_id (release_lease r) = rr_id r" "rr_worker (release_lease r) = None"
  "rr_lease_until (release_lease r) = None" "rr_lease_owner (release_lease r) = None"
  "rr_next_seq (release_lease r) = rr_next_seq r"
  "rr_state_version (release_lease r) = rr_state_version r"
  "rr_usage (release_lease r) = rr_usage r" "rr_phase (release_lease r) = rr_phase r"
  "rr_status (release_lease r) = rr_status r"
  by (simp_all add: release_lease_def)

section \<open>The effect of one transaction\<close>

definition row_ok :: "run_row \<Rightarrow> bool" where
  "row_ok r \<longleftrightarrow>
     (rr_status r = RunRunning \<longleftrightarrow> rr_worker r \<noteq> None)
     \<and> (rr_lease_until r = None \<longleftrightarrow> rr_worker r = None)
     \<and> (rr_lease_owner r = None \<longleftrightarrow> rr_worker r = None)
     \<and> (rr_status r \<in> TERMINAL_RUN_STATUSES \<longleftrightarrow> rr_phase r = PhaseTerminal)
     \<and> (rr_status r \<in> TERMINAL_RUN_STATUSES \<longrightarrow> rr_finished_at r \<noteq> None)
     \<and> (rr_status r = RunRunning \<longrightarrow> rr_phase r \<noteq> PhaseInitializing \<and> rr_started_at r \<noteq> None)
     \<and> 1 \<le> rr_state_version r"

fun op_target :: "run_op \<Rightarrow> uuid option" where
  "op_target (OpCancel env owner i) = Some i"
| "op_target (OpPause env owner i) = Some i"
| "op_target (OpResume env ob owner i) = Some i"
| "op_target (OpAcquire env i task s) = Some i"
| "op_target (OpRenew env i task s) = Some i"
| "op_target (OpSavePlan env i task plan tokens) = Some i"
| "op_target (OpGapPlan env i task gaps) = Some i"
| "op_target (OpReplan env i task qs) = Some i"
| "op_target (OpInterrupt env i task) = Some i"
| "op_target (OpRecordRetry env i task m) = Some i"
| "op_target (OpDeferModel env ob i task c d) = Some i"
| "op_target (OpDeferSearch env ob i task c d) = Some i"
| "op_target (OpFail env i task c d diag) = Some i"
| "op_target (OpFinish env i task limited u q rep v ver) = Some i"
| "op_target (OpNoEvidence env i task) = Some i"
| "op_target _ = None"

definition ended :: "run_row \<Rightarrow> bool" where
  "ended r \<longleftrightarrow> rr_status r \<in> {RunCompleted, RunCompletedWithLimitations}"

fun defers :: "string \<Rightarrow> run_op \<Rightarrow> bool" where
  "defers p (OpDeferModel env ob i task c d) \<longleftrightarrow> p = ''model''"
| "defers p (OpDeferSearch env ob i task c d) \<longleftrightarrow> p = ''search''"
| "defers p _ \<longleftrightarrow> False"

definition retry_mark :: "string \<Rightarrow> run_row \<Rightarrow> json \<times> json" where
  "retry_mark p r = (jget_or (JInt 0) (p @ ''_transport_requeues'') (rr_usage r),
                     jget_or (JStr []) (p @ ''_transport_retry_phase'') (rr_usage r))"

definition row_step :: "run_op \<Rightarrow> run_row \<Rightarrow> run_row \<Rightarrow> bool" where
  "row_step op r r' \<longleftrightarrow>
     rr_id r' = rr_id r \<and> (op_target op = None \<or> op_target op = Some (rr_id r))
     \<and> rr_state_version r \<le> rr_state_version r' \<and> (row_ok r \<longrightarrow> row_ok r')
     \<and> \<not> ended r
     \<and> (\<forall>task. rr_status r' = RunRunning \<and> rr_worker r' = Some task \<longrightarrow>
          (rr_status r = RunRunning \<and> rr_worker r = Some task)
          \<or> (\<exists>env s. op = OpAcquire env (rr_id r) task s))
     \<and> (\<forall>p \<in> {''model'', ''search''}. ended r' \<or> defers p op \<or> retry_mark p r' = retry_mark p r)"

definition logs :: "run_row \<Rightarrow> run_row \<Rightarrow> agent_event list \<Rightarrow> bool" where
  "logs r r' es \<longleftrightarrow>
     (\<forall>e \<in> set es. ae_run_id e = rr_id r) \<and> rr_next_seq r' = rr_next_seq r + int (length es)
     \<and> map ae_seq es = map (\<lambda>k. rr_next_seq r + int k) [0..<length es]"

definition same_outbox :: "database \<Rightarrow> database \<Rightarrow> bool" where
  "same_outbox db db' \<longleftrightarrow>
     map (\<lambda>o'. (ob_key o', ob_run_id o')) (db_outbox db') = map (\<lambda>o'. (ob_key o', ob_run_id o')) (db_outbox db)"

definition new_dispatch :: "run_row \<Rightarrow> run_row \<Rightarrow> database \<Rightarrow> database \<Rightarrow> bool" where
  "new_dispatch r r' db db' \<longleftrightarrow>
     rr_state_version r < rr_state_version r'
     \<and> (\<exists>o' kind. db_outbox db' = db_outbox db @ [o'] \<and> ob_run_id o' = rr_id r
          \<and> ob_key o' = DispatchKey (rr_id r) kind (rr_state_version r'))"

definition items_kept :: "database \<Rightarrow> database \<Rightarrow> bool" where
  "items_kept db db' \<longleftrightarrow>
     (distinct (map plan_key (db_items db)) \<longrightarrow> distinct (map plan_key (db_items db')))"

inductive effect :: "run_op \<Rightarrow> database \<Rightarrow> database \<Rightarrow> bool" where
  idle: "db_runs db' = db_runs db \<Longrightarrow> db_events db' = db_events db \<Longrightarrow> same_outbox db db'
    \<Longrightarrow> items_kept db db' \<Longrightarrow> effect op db db'"
| touch: "find_run (rr_id r) db = Some r \<Longrightarrow> row_step op r r' \<Longrightarrow> db_runs db' = db_runs (put_run r' db)
    \<Longrightarrow> db_events db' = db_events db @ es \<Longrightarrow> logs r r' es
    \<Longrightarrow> same_outbox db db' \<or> new_dispatch r r' db db' \<Longrightarrow> items_kept db db' \<Longrightarrow> effect op db db'"
| create: "rr_id r \<notin> rr_id ` set (db_runs db) \<Longrightarrow> row_ok r \<Longrightarrow> rr_status r = RunQueued
    \<Longrightarrow> rr_next_seq r = 2 \<Longrightarrow> op_target op = None
    \<Longrightarrow> db_runs db' = db_runs db @ [r] \<Longrightarrow> db_events db' = db_events db @ [e]
    \<Longrightarrow> ae_run_id e = rr_id r \<Longrightarrow> ae_seq e = 1
    \<Longrightarrow> db_outbox db' = db_outbox db @ [o'] \<Longrightarrow> ob_run_id o' = rr_id r
    \<Longrightarrow> ob_key o' = DispatchKey (rr_id r) kind (rr_state_version r)
    \<Longrightarrow> items_kept db db' \<Longrightarrow> effect op db db'"
| both: "effect op db db1 \<Longrightarrow> effect op db1 db2 \<Longrightarrow> effect op db db2"

inductive_cases effectE: "effect op db db'"

lemma same_outbox_refl [simp]: "same_outbox db db"
  by (simp add: same_outbox_def)

lemma items_kept_refl [simp]: "items_kept db db"
  by (simp add: items_kept_def)

lemma effect_refl [simp]: "effect op db db"
  by (rule idle) simp_all

lemma row_step_seq: "row_step op r r1 \<Longrightarrow> row_step op r (r1\<lparr>rr_next_seq := n\<rparr>)"
proof -
  have "row_ok (r1\<lparr>rr_next_seq := n\<rparr>) = row_ok r1" "ended (r1\<lparr>rr_next_seq := n\<rparr>) = ended r1"
    "retry_mark p (r1\<lparr>rr_next_seq := n\<rparr>) = retry_mark p r1" for p
    by (simp_all add: row_ok_def ended_def retry_mark_def)
  then show "row_step op r r1 \<Longrightarrow> row_step op r (r1\<lparr>rr_next_seq := n\<rparr>)"
    by (simp add: row_step_def)
qed

text \<open>A transaction that rewrites one row and logs one event, with the outbox it leaves.\<close>

lemma effect_save:
  assumes "find_run (rr_id r) db = Some r" and "rr_next_seq r1 = rr_next_seq r" and "row_step op r r1"
    and "db_runs db0 = db_runs db" and "db_events db0 = db_events db"
    and "same_outbox db db0 \<or> new_dispatch r r1 db db0" and "items_kept db db0"
  shows "effect op db (snd (save_with_event ty refs m r1 db0))"
proof (rule touch [OF assms(1) row_step_seq [OF assms(3)]])
  let ?r = "r1\<lparr>rr_next_seq := rr_next_seq r1 + 1\<rparr>" and ?db = "snd (save_with_event ty refs m r1 db0)"
  have db: "?db = put_run ?r (snd (append_event ty refs m (r1, db0)))" by (simp add: save_with_event_eq)
  show "db_runs ?db = db_runs (put_run ?r db)" using assms(4) by (simp add: db put_run_def)
  show "db_events ?db = db_events db @ [\<lparr>ae_run_id = rr_id r1, ae_seq = rr_next_seq r1,
      ae_phase = rr_phase r1, ae_type = ty, ae_refs = refs, ae_metrics = m\<rparr>]"
    using assms(5) by (simp add: db put_run_def append_event_def)
  show "logs r ?r [\<lparr>ae_run_id = rr_id r1, ae_seq = rr_next_seq r1,
      ae_phase = rr_phase r1, ae_type = ty, ae_refs = refs, ae_metrics = m\<rparr>]"
    using assms(2,3) by (simp add: logs_def row_step_def)
  have out: "db_outbox ?db = db_outbox db0" "db_items ?db = db_items db0"
    by (simp_all add: db put_run_def)
  show "same_outbox db ?db \<or> new_dispatch r ?r db ?db"
    using assms(6) by (simp add: same_outbox_def new_dispatch_def out)
  show "items_kept db ?db" using assms(7) by (simp add: items_kept_def out)
qed

lemma save_enqueued:
  "snd (save_with_event ty refs m r (db\<lparr>db_outbox := x\<rparr>)) = (snd (save_with_event ty refs m r db))\<lparr>db_outbox := x\<rparr>"
  by (simp add: save_with_event_eq put_run_def append_event_def)

lemma new_dispatchI:
  "rr_state_version r < rr_state_version r1 \<Longrightarrow> ob_run_id o' = rr_id r
     \<Longrightarrow> ob_key o' = DispatchKey (rr_id r) kind (rr_state_version r1)
     \<Longrightarrow> new_dispatch r r1 db (db\<lparr>db_outbox := db_outbox db @ [o']\<rparr>)"
  by (auto simp: new_dispatch_def)

lemma insert_items_kept: "insert_items ws db = Inr db' \<Longrightarrow>
    db_runs db' = db_runs db \<and> db_events db' = db_events db \<and> db_outbox db' = db_outbox db
    \<and> items_kept db db' \<and> same_outbox db db'"
  by (auto simp: insert_items_Inr items_kept_def same_outbox_def)

lemma outbox_new_fields [simp]:
  "ob_run_id (outbox_new i run ty key reason now next_attempt) = run"
  "ob_key (outbox_new i run ty key reason now next_attempt) = key"
  by (simp_all add: outbox_new_def)

section \<open>The effect of every method\<close>

named_theorems usage_simps \<open>reading a usage snapshot through its updates\<close>

lemma jget_or_update [usage_simps]:
  "jget_or d k (AList.update k' v u) = (if k = k' then v else jget_or d k u)"
  by (auto simp: jget_or_def map_of_update)

lemma jget_or_pop [usage_simps]:
  "jget_or d k (dict_pop k' u) = (if k = k' then d else jget_or d k u)"
  by (auto simp: jget_or_def map_of_dict_pop)

lemma jget_or_pools [usage_simps]:
  "k \<noteq> ''resource_pools'' \<Longrightarrow> jget_or d k (with_pools b u) = jget_or d k u"
  by (simp add: with_pools_def jget_or_update)

lemma jget_or_acquired [usage_simps]:
  "k \<notin> {''resource_pools'', ''model_retry_not_before'', ''model_retry_after_seconds'', ''model_tokens'',
         ''model_budget_guarded''} \<Longrightarrow> jget_or d k (acquired_usage b u n) = jget_or d k u"
  by (auto simp: acquired_usage_def Let_def usage_simps)

lemma jget_or_planned [usage_simps]:
  "k \<notin> {''resource_pools'', ''planner'', ''model_tokens'', ''budget_ledger''}
     \<Longrightarrow> jget_or d k (planned_usage b a t u) = jget_or d k u"
  by (auto simp: planned_usage_def Let_def usage_simps)

lemma jget_or_reset_map [usage_simps]:
  "k \<noteq> f \<Longrightarrow> jget_or d k (reset_map f h ids u) = jget_or d k u"
  by (simp add: reset_map_def Let_def usage_simps split: json.split)

lemma jget_or_reset [usage_simps]:
  "k \<notin> {''replan_requested'', ''question_budget_exhausted_by_question'',
         ''query_strategy_exhausted_by_question'', ''executed_query_families_by_question'',
         ''frozen_questions''}
     \<Longrightarrow> jget_or d k (reset_plan_scoped_question_budget str ids u) = jget_or d k u"
  by (simp add: reset_plan_scoped_question_budget_def Let_def usage_simps split: json.split)

lemmas row_step_simps = row_step_def row_ok_def ended_def retry_mark_def TERMINAL_RUN_STATUSES_def usage_simps

lemma revoked_same [simp]:
  "db_runs (revoke_dispatches i s db) = db_runs db" "db_events (revoke_dispatches i s db) = db_events db"
  "same_outbox db (revoke_dispatches i s db)" "items_kept db (revoke_dispatches i s db)"
  by (auto simp: revoke_dispatches_def same_outbox_def items_kept_def)

lemma cancel_effect:
  assumes "cancel_run env owner i db = Inr (r', db')"
  shows "effect (OpCancel env owner i) db db'"
proof -
  obtain r where r: "find_run i db = Some r" "rr_owner_hash r = owner"
    using assms by (auto simp: cancel_run_def lock_run_Inr split: sum.splits)
  have id: "rr_id r = i" using find_run_id [OF r(1)] by simp
  show ?thesis
  proof (cases "rr_status r \<in> TERMINAL_RUN_STATUSES")
    case True
    then show ?thesis using assms r by (simp add: cancel_run_def lock_run_def)
  next
    case False
    then show ?thesis
      using assms r id unfolding cancel_run_def lock_run_def Let_def
      by (auto intro!: effect_save [of r] simp: row_step_simps dest!: arg_cong [where f = snd])
  qed
qed

lemma pause_effect:
  assumes "pause_run env owner i db = Inr (r', db')"
  shows "effect (OpPause env owner i) db db'"
proof -
  obtain r where r: "find_run i db = Some r" "rr_owner_hash r = owner"
    using assms by (auto simp: pause_run_def lock_run_Inr split: sum.splits)
  have id: "rr_id r = i" using find_run_id [OF r(1)] by simp
  show ?thesis
  proof (cases "rr_status r \<in> TERMINAL_RUN_STATUSES")
    case True
    then show ?thesis using assms r by (simp add: pause_run_def lock_run_def)
  next
    case False
    then show ?thesis
      using assms r id unfolding pause_run_def lock_run_def Let_def
      by (auto intro!: effect_save [of r] simp: row_step_simps dest!: arg_cong [where f = snd])
  qed
qed

lemma save_with_event_tables [simp]:
  "db_outbox (snd (save_with_event ty refs m r db)) = db_outbox db"
  "db_items (snd (save_with_event ty refs m r db)) = db_items db"
  by (simp_all add: save_with_event_eq put_run_def)

lemma owned_runD: "owned_run i task db = Some r \<Longrightarrow>
    find_run (rr_id r) db = Some r \<and> rr_id r = i \<and> rr_status r = RunRunning \<and> rr_worker r = Some task"
  using find_run_id by (auto simp: owned_run_Some)

lemma items_kept_outbox [simp]: "items_kept db (db\<lparr>db_outbox := x\<rparr>)"
  by (simp add: items_kept_def)

lemma effect_dispatch:
  assumes "find_run (rr_id r) db = Some r" and "rr_next_seq r1 = rr_next_seq r" and "row_step op r r1"
    and "rr_state_version r < rr_state_version r1" and "ob_run_id o' = rr_id r"
    and "ob_key o' = DispatchKey (rr_id r) kind (rr_state_version r1)"
  shows "effect op db (snd (save_with_event ty refs m r1 (db\<lparr>db_outbox := db_outbox db @ [o']\<rparr>)))"
  using assms by (intro effect_save [of r] disjI2 new_dispatchI) simp_all

lemma resume_effect:
  assumes "resume_run env ob owner i db = Inr (r', db')"
  shows "effect (OpResume env ob owner i) db db'"
proof -
  obtain r where r: "find_run i db = Some r" "rr_owner_hash r = owner" "rr_status r \<noteq> RunCompleted"
    using assms by (auto simp: resume_run_def lock_run_Inr split: sum.splits if_splits)
  have id: "rr_id r = i" using find_run_id [OF r(1)] by simp
  show ?thesis
  proof (cases "rr_status r \<in> {RunCancelled, RunFailed, RunInterrupted}")
    case False
    then show ?thesis using assms r by (simp add: resume_run_def lock_run_def)
  next
    case True
    let ?r = "r\<lparr>rr_status := RunQueued, rr_phase := PhaseInitializing, rr_termination := None,
                rr_finished_at := None, rr_updated_at := en_now env, rr_state_version := rr_state_version r + 1\<rparr>"
    let ?o = "outbox_new ob i ''resume'' (DispatchKey i ''resume'' (rr_state_version r + 1)) None (en_now env) (en_now env)"
    have db': "db' = snd (save_with_event ''run.status_changed''
        [(''run_id'', JStr (en_show env i)), (''status'', JStr (status_value RunQueued))] None ?r
        (db\<lparr>db_outbox := db_outbox db @ [?o]\<rparr>))"
      using assms r(1,2,3) True unfolding save_enqueued resume_run_def lock_run_def Let_def case_prod_beta
      by (simp split: sum.splits if_splits) (simp_all add: enqueue_Inr)
    have "row_step (OpResume env ob owner i) r ?r"
      using True id by (elim insertE emptyE) (simp_all add: row_step_simps)
    then show ?thesis
      unfolding db' using r id by (intro effect_dispatch [of r]) simp_all
  qed
qed

lemma acquire_effect:
  assumes "acquire_for_execution env i task s db = Inr (b, db')"
  shows "effect (OpAcquire env i task s) db db'"
proof (cases "b")
  case False
  then show ?thesis using assms
    by (auto simp: acquire_for_execution_def Let_def split: option.splits if_splits sum.splits)
next
  case True
  then obtain r where r: "find_run i db = Some r" "rr_status r = RunQueued \<or> rr_status r = RunRunning"
    using assms by (auto simp: acquire_for_execution_def Let_def split: option.splits if_splits)
  have id: "rr_id r = i" using find_run_id [OF r(1)] by simp
  show ?thesis
    using assms r id True unfolding acquire_for_execution_def Let_def
    by (auto intro!: effect_save [of r] simp: row_step_simps split: if_splits sum.splits option.splits)
qed

lemma renew_effect: "effect (OpRenew env i task s) db (snd (renew_execution_lease env i task s db))"
proof (cases "owned_run i task db")
  case None
  then show ?thesis by (simp add: renew_execution_lease_def)
next
  case (Some r)
  note r = owned_runD [OF Some]
  let ?r = "r\<lparr>rr_lease_until := Some (en_now env + seconds (max 60 s)), rr_updated_at := en_now env\<rparr>"
  have "row_step (OpRenew env i task s) r ?r" using r by (auto simp: row_step_simps)
  then have "effect (OpRenew env i task s) db (put_run ?r db)"
    using r by (intro touch [of r _ _ ?r _ "[]"]) (auto simp: put_run_def logs_def same_outbox_def items_kept_def)
  then show ?thesis using Some by (simp add: renew_execution_lease_def split: option.split)
qed

lemma requeue_effect:
  assumes "requeue_expired env fresh r db = Inr db'" and "find_run (rr_id r) db = Some r"
    and "rr_status r = RunRunning"
  shows "effect (OpReconcile env fresh locked n) db db'"
proof -
  let ?r = "(release_lease r)\<lparr>rr_status := RunQueued, rr_phase := PhaseInitializing,
      rr_termination := Some ''stale_worker_lease_recovered'', rr_updated_at := en_now env,
      rr_state_version := rr_state_version r + 1\<rparr>"
  have "row_step (OpReconcile env fresh locked n) r ?r"
    using assms(3) by (simp add: row_step_simps)
  then show ?thesis
    using assms unfolding requeue_expired_def Let_def
    by (auto simp: enqueue_Inr intro!: effect_dispatch [of r] split: sum.splits)
qed

lemma requeue_other:
  "requeue_expired env fresh r db = Inr db' \<Longrightarrow> i \<noteq> rr_id r \<Longrightarrow> find_run i db' = find_run i db"
  by (auto simp: requeue_expired_def Let_def enqueue_Inr find_run_save split: sum.splits)

lemma reconcile_loop_effect:
  assumes "foldM (\<lambda>d r. requeue_expired env fresh r d) db rows = Inr db'"
    and "distinct (map rr_id rows)"
    and "\<And>r. r \<in> set rows \<Longrightarrow> find_run (rr_id r) db = Some r \<and> rr_status r = RunRunning"
  shows "effect (OpReconcile env fresh locked n) db db'"
  using assms
proof (induction rows arbitrary: db)
  case Nil
  then show ?case by simp
next
  case (Cons r rows)
  then obtain db1 where s: "requeue_expired env fresh r db = Inr db1"
    and l: "foldM (\<lambda>d r. requeue_expired env fresh r d) db1 rows = Inr db'"
    by (auto split: sum.splits)
  have "effect (OpReconcile env fresh locked n) db db1"
    using requeue_effect [OF s] Cons.prems(3) by simp
  moreover have "find_run (rr_id r') db1 = Some r' \<and> rr_status r' = RunRunning" if "r' \<in> set rows" for r'
  proof -
    have "rr_id r' \<noteq> rr_id r" using that Cons.prems(2) by (auto simp: image_iff)
    then show ?thesis using requeue_other [OF s] that Cons.prems(3) by simp
  qed
  then have "effect (OpReconcile env fresh locked n) db1 db'"
    using Cons.IH [OF l] Cons.prems(2) by simp
  ultimately show ?case by (rule both)
qed

lemma find_run_in: "distinct (map rr_id (db_runs db)) \<Longrightarrow> r \<in> set (db_runs db) \<Longrightarrow> find_run (rr_id r) db = Some r"
proof -
  have "distinct (map rr_id xs) \<Longrightarrow> r \<in> set xs \<Longrightarrow> find (\<lambda>x. rr_id x = rr_id r) xs = Some r" for xs
    by (induction xs) (auto simp: image_iff)
  then show "distinct (map rr_id (db_runs db)) \<Longrightarrow> r \<in> set (db_runs db) \<Longrightarrow> find_run (rr_id r) db = Some r"
    by (simp add: find_run_def)
qed

lemma distinct_map_sort_key: "distinct (map f (sort_key g xs)) = distinct (map f xs)"
proof -
  have "mset (map f (sort_key g xs)) = mset (map f xs)" by simp
  then show ?thesis by (metis mset_eq_imp_distinct_iff)
qed

lemma reconcile_effect:
  assumes "reconcile_expired_leases env fresh locked n db = Inr (ids, db')"
    and "distinct (map rr_id (db_runs db))"
  shows "effect (OpReconcile env fresh locked n) db db'"
proof (cases "n < 1")
  case True
  then show ?thesis using assms by (simp add: reconcile_expired_leases_def)
next
  case False
  let ?rows = "expired_runs (en_now env) locked n db"
  have d: "distinct (map rr_id ?rows)"
    using assms(2) unfolding expired_runs_def
    by (simp add: take_map [symmetric] distinct_take distinct_map_filter distinct_map_sort_key)
  have m: "find_run (rr_id r) db = Some r \<and> rr_status r = RunRunning" if "r \<in> set ?rows" for r
    using that assms(2) by (auto simp: expired_runs_def dest!: in_set_takeD intro!: find_run_in)
  show ?thesis
    using assms(1) False d m
    by (auto simp: reconcile_expired_leases_def Let_def intro!: reconcile_loop_effect split: sum.splits)
qed

end
