(* ===== verification/Run_Effects.thy ===== *)
theory Run_Effects
  imports Run_Machine
begin

text \<open>
  The effect of the methods a worker calls (the plans it saves, the retries it defers, the ends it
  writes) and of the dispatcher's, and with them of every transaction of the machine.
\<close>

section \<open>Rows that log several events\<close>

lemma effect_save_logged:
  assumes "find_run (rr_id r) db = Some r" and "row_step op r r1" and "logs r r1 es"
    and "db_runs db0 = db_runs db" and "db_events db0 = db_events db @ es"
    and "same_outbox db db0 \<or> new_dispatch r r1 db db0" and "items_kept db db0"
  shows "effect op db (snd (save_with_event ty refs m r1 db0))"
proof (rule touch [OF assms(1) row_step_seq [OF assms(2)]])
  let ?r = "r1\<lparr>rr_next_seq := rr_next_seq r1 + 1\<rparr>" and ?db = "snd (save_with_event ty refs m r1 db0)"
  let ?e = "\<lparr>ae_run_id = rr_id r1, ae_seq = rr_next_seq r1, ae_phase = rr_phase r1, ae_type = ty,
      ae_refs = refs, ae_metrics = m\<rparr>"
  show "db_runs ?db = db_runs (put_run ?r db)" using assms(4) by (simp add: save_with_event_eq put_run_def)
  show "db_events ?db = db_events db @ (es @ [?e])"
    using assms(5) by (simp add: save_with_event_eq put_run_def append_event_def)
  show "logs r ?r (es @ [?e])"
    using assms(2,3) by (auto simp: logs_def row_step_def)
  show "same_outbox db ?db \<or> new_dispatch r ?r db ?db"
    using assms(6) by (simp add: same_outbox_def new_dispatch_def)
  show "items_kept db ?db" using assms(7) by (simp add: items_kept_def)
qed

lemma fold_append_event:
  "fold (\<lambda>q. append_event ty (refs q) m) qs (r, db) =
     (r\<lparr>rr_next_seq := rr_next_seq r + int (length qs)\<rparr>,
      db\<lparr>db_events := db_events db @
        map (\<lambda>k. \<lparr>ae_run_id = rr_id r, ae_seq = rr_next_seq r + int k, ae_phase = rr_phase r,
                  ae_type = ty, ae_refs = refs (qs ! k), ae_metrics = m\<rparr>) [0..<length qs]\<rparr>)"
proof (induction qs arbitrary: r db)
  case Nil
  then show ?case by simp
next
  case (Cons q qs)
  have shift: "map f [0..<Suc n] = f 0 # map (\<lambda>k. f (Suc k)) [0..<n]" for f :: "nat \<Rightarrow> agent_event" and n
    by (simp add: map_upt_Suc del: upt_Suc)
  have one: "append_event ty rs m (r, db) =
      (r\<lparr>rr_next_seq := rr_next_seq r + 1\<rparr>, db\<lparr>db_events := db_events db @
        [\<lparr>ae_run_id = rr_id r, ae_seq = rr_next_seq r, ae_phase = rr_phase r, ae_type = ty,
          ae_refs = rs, ae_metrics = m\<rparr>]\<rparr>)" for rs
    by (simp add: append_event_def)
  show ?case by (simp add: one Cons.IH shift algebra_simps del: upt_Suc)
qed

lemma effect_logged_each:
  assumes "find_run (rr_id r) db = Some r" and "rr_next_seq r1 = rr_next_seq r" and "row_step op r r1"
    and "db_runs db0 = db_runs db" and "db_events db0 = db_events db"
    and "same_outbox db db0" and "items_kept db db0"
    and "p = fold (\<lambda>q. append_event ty' (refs' q) m') qs (r1, db0)"
  shows "effect op db (snd (save_with_event ty refs m (fst p) (snd p)))"
proof -
  have "row_step op r (fst p)" by (simp add: assms(8) fold_append_event row_step_seq [OF assms(3)])
  then show ?thesis
    using assms by (intro effect_save_logged [OF assms(1)])
      (auto simp: fold_append_event logs_def row_step_def same_outbox_def items_kept_def)
qed

section \<open>Plans\<close>

lemma save_plan_effect:
  assumes "save_generated_plan env i task plan tokens db = Inr (b, db')"
  shows "effect (OpSavePlan env i task plan tokens) db db'"
proof (cases "owned_run i task db")
  case None
  then show ?thesis using assms by (simp add: save_generated_plan_def)
next
  case (Some r)
  note r = owned_runD [OF Some]
  have "row_step (OpSavePlan env i task plan tokens) r (with_generated_plan env p a es tokens r)" for p a es
    using r by (simp add: with_generated_plan_def Let_def row_step_simps)
  moreover have "rr_next_seq (with_generated_plan env p a es tokens r) = rr_next_seq r" for p a es
    by (simp add: with_generated_plan_def Let_def)
  ultimately show ?thesis
    using assms Some r unfolding save_generated_plan_def
    by (auto split: sum.splits dest!: insert_items_kept intro!: effect_save [of r])
qed

lemma effect_inserted: "insert_items ws db = Inr d \<Longrightarrow> effect op db d"
  using insert_items_kept by (intro idle) auto

lemma gap_plan_effect:
  assumes "save_gap_resolution_plan env i task gaps db = Inr (b, db')"
  shows "effect (OpGapPlan env i task gaps) db db'"
proof (cases "owned_run i task db")
  case None
  then show ?thesis using assms by (simp add: save_gap_resolution_plan_def)
next
  case (Some r)
  note r = owned_runD [OF Some]
  have "row_step (OpGapPlan env i task gaps) r
      (r\<lparr>rr_plan_version := v, rr_phase := PhaseResearching, rr_termination := None, rr_quality := q,
         rr_usage := with_pools (rr_budget r) (AList.update ''replans'' n
           (reset_plan_scoped_question_budget (en_str env) ids (rr_usage r))),
         rr_updated_at := t, rr_state_version := rr_state_version r + 1\<rparr>)" for v q n ids t
    using r by (simp add: row_step_simps)
  then show ?thesis
    using assms Some r unfolding save_gap_resolution_plan_def Let_def
    by (auto split: sum.splits if_splits intro: effect_inserted
             intro!: effect_save [of r] dest: insert_items_kept)
qed

lemma replan_effect:
  assumes "save_replanned_questions env i task additions db = Inr (b, db')"
  shows "effect (OpReplan env i task additions) db db'"
proof (cases "owned_run i task db")
  case None
  then show ?thesis using assms by (simp add: save_replanned_questions_def)
next
  case (Some r)
  note r = owned_runD [OF Some]
  have "row_step (OpReplan env i task additions) r
      (r\<lparr>rr_plan_version := v, rr_phase := PhaseResearching, rr_termination := None, rr_budget := bu,
         rr_usage := with_pools bu (reset_plan_scoped_question_budget (en_str env) ids (rr_usage r)),
         rr_quality := q, rr_updated_at := t, rr_state_version := rr_state_version r + 1\<rparr>)" for v bu ids q t
    using r by (simp add: row_step_simps)
  then show ?thesis
    using assms Some r unfolding save_replanned_questions_def Let_def
    by (auto split: sum.splits if_splits dest!: insert_items_kept intro!: effect_logged_each [of r, OF _ _ _ _ _ _ _ refl])
qed

section \<open>Retries and ends\<close>

lemma interrupt_effect:
  "effect (OpInterrupt env i task) db (interrupt_for_pending_planner env i task db)"
proof (cases "owned_run i task db")
  case None
  then show ?thesis by (simp add: interrupt_for_pending_planner_def)
next
  case (Some r)
  note r = owned_runD [OF Some]
  show ?thesis
    using Some r by (auto simp: interrupt_for_pending_planner_def row_step_simps intro!: effect_save [of r])
qed

lemma record_retry_effect:
  "effect (OpRecordRetry env i task m) db (snd (record_model_retry env i task m db))"
proof (cases "owned_run i task db")
  case None
  then show ?thesis by (simp add: record_model_retry_def)
next
  case (Some r)
  note r = owned_runD [OF Some]
  show ?thesis
    using Some r by (auto simp: record_model_retry_def row_step_simps intro!: effect_save [of r])
qed

text \<open>The row a deferral leaves, and when it leaves it.\<close>

definition deferred_row ::
    "dependency \<Rightarrow> run_env \<Rightarrow> run_row \<Rightarrow> int \<Rightarrow> int \<Rightarrow> string \<Rightarrow> string option \<Rightarrow> run_row" where
  "deferred_row d env r n k c dc = (release_lease r)\<lparr>
     rr_usage := deferred_usage d r (n + 1) k (en_now env + seconds k) c dc,
     rr_status := RunQueued, rr_termination := Some (dp_reason d), rr_finished_at := None,
     rr_updated_at := en_now env, rr_state_version := rr_state_version r + 1\<rparr>"

definition deferred_dispatch :: "dependency \<Rightarrow> run_env \<Rightarrow> uuid \<Rightarrow> run_row \<Rightarrow> int \<Rightarrow> outbox_row" where
  "deferred_dispatch d env ob r k =
     outbox_new ob (rr_id r) ''resume'' (DispatchKey (rr_id r) (dp_prefix d @ ''-retry'') (rr_state_version r + 1))
       (Some (dp_reason d)) (en_now env) (en_now env + seconds k)"

lemma defer_retryable_cases:
  assumes "defer_retryable d env ob i task c dc db = Inr (delay, db')"
  obtains (no) "delay = None" "db' = db"
  | (deferred) r n k refs m where "owned_run i task db = Some r" "delay = Some k"
      "completed_requeues env d r = Inr n" "n < int (length REQUEUE_DELAYS_SECONDS)"
      "bounded_retry_delay (rr_budget r) (REQUEUE_DELAYS_SECONDS ! nat n) (en_now env) = Some k"
      "db' = snd (save_with_event (dp_event d) refs m (deferred_row d env r n k c dc)
         (db\<lparr>db_outbox := db_outbox db @ [deferred_dispatch d env ob r k]\<rparr>))"
proof (cases "delay")
  case None
  then show ?thesis
    using assms no unfolding defer_retryable_def Let_def by (auto split: option.splits sum.splits if_splits)
next
  case (Some k)
  then obtain r where r: "owned_run i task db = Some r"
    using assms by (auto simp: defer_retryable_def split: option.splits)
  then obtain n where n: "completed_requeues env d r = Inr n"
    using assms by (auto simp: defer_retryable_def split: sum.splits)
  have lim: "n < int (length REQUEUE_DELAYS_SECONDS)"
    using assms r n Some by (auto simp: defer_retryable_def split: if_splits)
  have k: "bounded_retry_delay (rr_budget r) (REQUEUE_DELAYS_SECONDS ! nat n) (en_now env) = Some k"
    using assms r n lim Some by (auto simp: defer_retryable_def Let_def split: option.splits sum.splits)
  have "rr_id r = i" using owned_runD [OF r] by simp
  then have "\<exists>refs m. db' = snd (save_with_event (dp_event d) refs m (deferred_row d env r n k c dc)
         (db\<lparr>db_outbox := db_outbox db @ [deferred_dispatch d env ob r k]\<rparr>))"
    using assms r n lim k
    by (auto simp: defer_retryable_def Let_def enqueue_Inr deferred_row_def deferred_dispatch_def split: sum.splits)
  then show ?thesis using deferred r n lim k Some by blast
qed

definition RETRY_KEYS :: "string set" where
  "RETRY_KEYS = {''model_transport_requeues'', ''model_transport_retry_phase'',
                 ''search_transport_requeues'', ''search_transport_retry_phase''}"

lemma jget_or_deferred_model:
  "k \<in> RETRY_KEYS \<Longrightarrow> jget_or v k (deferred_usage model_dependency r n delay t c dc) =
     (if k = ''model_transport_requeues'' then JInt n
      else if k = ''model_transport_retry_phase'' then JStr (phase_value (rr_phase r))
      else jget_or v k (rr_usage r))"
  unfolding RETRY_KEYS_def
  by (elim insertE emptyE) (simp_all add: deferred_usage_def model_dependency_def usage_simps)

lemma jget_or_deferred_search:
  "k \<in> RETRY_KEYS \<Longrightarrow> jget_or v k (deferred_usage search_dependency r n delay t c dc) =
     (if k = ''search_transport_requeues'' then JInt n
      else if k = ''search_transport_retry_phase'' then JStr (phase_value (rr_phase r))
      else jget_or v k (rr_usage r))"
  unfolding RETRY_KEYS_def
  by (elim insertE emptyE)
     (simp_all add: deferred_usage_def search_dependency_def record_search_transport_retry_def usage_simps)

lemma defer_effect:
  assumes d: "defer_retryable d env ob i task c dc db = Inr (delay, db')"
    and op: "op_target op = Some i"
    and other: "\<And>p r n k t. p \<in> {''model'', ''search''} \<Longrightarrow> \<not> defers p op
      \<Longrightarrow> retry_mark p (r\<lparr>rr_usage := deferred_usage d r n k t c dc\<rparr>) = retry_mark p r"
  shows "effect op db db'"
  using d
proof (cases rule: defer_retryable_cases)
  case no
  then show ?thesis by simp
next
  case (deferred r n k refs m)
  note r = owned_runD [OF deferred(1)]
  let ?r = "deferred_row d env r n k c dc"
  have "retry_mark p ?r = retry_mark p r" if "p \<in> {''model'', ''search''}" "\<not> defers p op" for p
    using other [OF that] by (simp add: retry_mark_def deferred_row_def)
  then have "row_step op r ?r"
    using r op unfolding row_step_def row_ok_def ended_def TERMINAL_RUN_STATUSES_def
    by (auto simp: deferred_row_def)
  then show ?thesis
    unfolding deferred(6) using r
    by (intro effect_dispatch [of r]) (auto simp: deferred_row_def deferred_dispatch_def)
qed

lemma defer_model_effect:
  "defer_retryable_model_error env ob i task c dc db = Inr (delay, db')
     \<Longrightarrow> effect (OpDeferModel env ob i task c dc) db db'"
  unfolding defer_retryable_model_error_def
  by (erule defer_effect) (auto simp: retry_mark_def jget_or_deferred_model RETRY_KEYS_def)

lemma defer_search_effect:
  "defer_retryable_search_error env ob i task c dc db = Inr (delay, db')
     \<Longrightarrow> effect (OpDeferSearch env ob i task c dc) db db'"
  unfolding defer_retryable_search_error_def
  by (erule defer_effect) (auto simp: retry_mark_def jget_or_deferred_search RETRY_KEYS_def)

lemma fail_effect:
  assumes "fail_execution env i task c dc diag db = Inr db'"
  shows "effect (OpFail env i task c dc diag) db db'"
proof (cases "owned_run i task db")
  case None
  then show ?thesis using assms by (simp add: fail_execution_def)
next
  case (Some r)
  note r = owned_runD [OF Some]
  show ?thesis
    using assms Some r unfolding fail_execution_def Let_def
    by (auto simp: row_step_simps split: sum.splits intro!: effect_save [of r])
qed

lemma finish_effect:
  assumes "finish_report env i task limited u q rep v ver db = Inr db'"
  shows "effect (OpFinish env i task limited u q rep v ver) db db'"
proof -
  obtain r where own: "owned_run i task db = Some r" and wr: "writing_run i task db = Inr r"
    using assms by (auto simp: finish_report_def writing_run_Inr split: sum.splits)
  note r = owned_runD [OF own]
  let ?r = "(release_lease r)\<lparr>rr_usage := u, rr_quality := q,
      rr_status := if limited then RunCompletedWithLimitations else RunCompleted,
      rr_phase := PhaseTerminal,
      rr_termination := Some (if limited then ''completed_with_limitations'' else ''quality_met''),
      rr_finished_at := Some (en_now env), rr_updated_at := en_now env,
      rr_state_version := rr_state_version r + 1\<rparr>"
  have step: "row_step (OpFinish env i task limited u q rep v ver) r ?r"
    using r by (simp add: row_step_simps)
  let ?p = "append_event ''report.verified''
      [(''report_id'', JStr (en_show env rep)), (''version'', JInt v)] (Some ver) (?r, db)"
  have db': "db' = snd (save_with_event ''run.completed''
      [(''report_id'', JStr (en_show env rep)), (''status'', JStr (status_value (rr_status ?r)))] None
      (fst ?p) (snd ?p))"
    using assms unfolding finish_report_def Let_def case_prod_beta by (simp add: wr)
  have "?p = fold (\<lambda>x. append_event ''report.verified''
      [(''report_id'', JStr (en_show env rep)), (''version'', JInt v)] (Some ver)) [()] (?r, db)"
    by simp
  then show ?thesis
    unfolding db' by (rule effect_logged_each [OF _ _ step _ _ _ _, rotated -1]) (insert r, auto)
qed

lemma no_evidence_effect:
  assumes "fail_no_evidence env i task db = Inr db'"
  shows "effect (OpNoEvidence env i task) db db'"
proof -
  obtain r where own: "owned_run i task db = Some r" and wr: "writing_run i task db = Inr r"
    using assms by (auto simp: fail_no_evidence_def writing_run_Inr split: sum.splits)
  note r = owned_runD [OF own]
  let ?r = "(release_lease r)\<lparr>rr_status := RunFailed, rr_phase := PhaseTerminal,
      rr_termination := Some ''REPORT_NO_ACCEPTED_EVIDENCE'', rr_finished_at := Some (en_now env),
      rr_updated_at := en_now env, rr_state_version := rr_state_version r + 1\<rparr>"
  have step: "row_step (OpNoEvidence env i task) r ?r" using r by (simp add: row_step_simps)
  obtain ty refs m where "db' = snd (save_with_event ty refs m ?r db)"
    using assms wr unfolding fail_no_evidence_def Let_def case_prod_beta
    by (auto split: sum.splits list.splits)
  then show ?thesis using r step by (auto intro!: effect_save [of r])
qed

section \<open>The dispatcher and creation\<close>

lemma same_outbox_map:
  "(\<And>o'. ob_key (f o') = ob_key o' \<and> ob_run_id (f o') = ob_run_id o')
     \<Longrightarrow> effect op db (db\<lparr>db_outbox := map f (db_outbox db)\<rparr>)"
  by (rule idle) (auto simp: same_outbox_def)

lemma claim_effect:
  "claim_batch now locked n stale db = (batch, db') \<Longrightarrow> effect (OpClaim now locked n stale) db db'"
  unfolding claim_batch_def Let_def by (auto intro!: same_outbox_map)

lemma update_outbox_effect:
  "update_outbox i f db = Inr db' \<Longrightarrow> (\<And>o'. ob_key (f o') = ob_key o' \<and> ob_run_id (f o') = ob_run_id o')
     \<Longrightarrow> effect op db db'"
  by (auto simp: update_outbox_def split: if_splits intro!: same_outbox_map)

lemma create_effect:
  assumes "create_run env i ob owner q b db = Inr ((r', new), db')"
    and "i \<notin> rr_id ` set (db_runs db)"
  shows "effect (OpCreate env i ob owner q b) db db'"
proof (cases "find (\<lambda>r. rr_owner_hash r = owner \<and> rr_idempotency_key r = cq_idempotency_key q) (db_runs db)")
  case (Some r)
  then show ?thesis using assms by (simp add: create_run_def)
next
  case None
  then obtain c where c: "b = Some c" using assms by (auto simp: create_run_def split: option.splits)
  let ?r = "new_run env i owner q c"
  let ?o = "outbox_new ob i ''start'' (DispatchKey i ''start'' 1) None (en_now env) (en_now env)"
  let ?e = "\<lparr>ae_run_id = i, ae_seq = 1, ae_phase = PhaseInitializing,
        ae_type = ''run.created'', ae_refs = [(''run_id'', JStr (en_show env i))], ae_metrics = None\<rparr>"
  have id: "rr_id ?r = i" "rr_next_seq ?r = 1" by (simp_all add: new_run_def)
  have "map (\<lambda>x. if rr_id x = i then z else x) (db_runs db) = db_runs db" for z
    using assms(2) by (intro map_idI) (auto simp: image_iff)
  then have db': "db' = db\<lparr>db_runs := db_runs db @ [?r\<lparr>rr_next_seq := 2\<rparr>],
      db_events := db_events db @ [?e],
      db_outbox := db_outbox db @ [?o]\<rparr>"
    using assms(1) None c id
    by (auto simp: create_run_def Let_def save_with_event_def append_event_def put_run_def enqueue_Inr
          case_prod_beta new_run_def split: sum.splits)
  show ?thesis
    by (rule effect.create [of "?r\<lparr>rr_next_seq := 2\<rparr>" db _ db' "?e" "?o" "''start''"])
       (insert assms(2), simp_all add: db' new_run_def row_ok_def TERMINAL_RUN_STATUSES_def items_kept_def)
qed

lemma renewed_effect: "renew_execution_lease env i task s db = (b, db') \<Longrightarrow> effect (OpRenew env i task s) db db'"
  using renew_effect by (metis snd_conv)

lemma recorded_effect: "record_model_retry env i task m db = (b, db') \<Longrightarrow> effect (OpRecordRetry env i task m) db db'"
  using record_retry_effect by (metis snd_conv)

lemma exec_effect:
  assumes "exec_op op db = Inr (b, db')" and "fresh_op op db" and "distinct (map rr_id (db_runs db))"
  shows "effect op db db'"
  using assms
  by (cases op)
     (auto simp: done_with_Inr create_effect cancel_effect pause_effect resume_effect acquire_effect
       reconcile_effect save_plan_effect gap_plan_effect replan_effect interrupt_effect
       defer_model_effect defer_search_effect fail_effect finish_effect no_evidence_effect
       mark_published_def mark_retry_def claim_effect renewed_effect recorded_effect
       intro: update_outbox_effect split: prod.splits)

end
