(* ===== verification/Run_Guarantees.thy ===== *)
theory Run_Guarantees
  imports Run_Effects
begin

text \<open>
  What holds of the tables after any sequence of transactions: the invariant of the rows, the log,
  the outbox and the plans; the fencing of workers that lost a run; the bound on durable retries of
  one phase; and what a replan that matches no question leaves behind.
\<close>

section \<open>The invariant of the tables\<close>

definition run_events :: "uuid \<Rightarrow> database \<Rightarrow> agent_event list" where
  "run_events i db = filter (\<lambda>e. ae_run_id e = i) (db_events db)"

definition log_ok :: "database \<Rightarrow> run_row \<Rightarrow> bool" where
  "log_ok db r \<longleftrightarrow> 1 \<le> rr_next_seq r \<and> map ae_seq (run_events (rr_id r) db) = [1..rr_next_seq r - 1]"

definition dispatch_ok :: "database \<Rightarrow> outbox_row \<Rightarrow> bool" where
  "dispatch_ok db o' \<longleftrightarrow> key_run (ob_key o') = ob_run_id o'
     \<and> (\<exists>r \<in> set (db_runs db). rr_id r = ob_run_id o' \<and> key_number (ob_key o') \<le> rr_state_version r)"

definition db_ok :: "database \<Rightarrow> bool" where
  "db_ok db \<longleftrightarrow>
     distinct (map rr_id (db_runs db))
     \<and> (\<forall>r \<in> set (db_runs db). row_ok r \<and> log_ok db r)
     \<and> (\<forall>e \<in> set (db_events db). ae_run_id e \<in> rr_id ` set (db_runs db))
     \<and> distinct (map ob_key (db_outbox db))
     \<and> (\<forall>o' \<in> set (db_outbox db). dispatch_ok db o')
     \<and> distinct (map plan_key (db_items db))"

lemma db_okI:
  "distinct (map rr_id (db_runs db)) \<Longrightarrow> (\<And>r. r \<in> set (db_runs db) \<Longrightarrow> row_ok r \<and> log_ok db r)
   \<Longrightarrow> (\<And>e. e \<in> set (db_events db) \<Longrightarrow> ae_run_id e \<in> rr_id ` set (db_runs db))
   \<Longrightarrow> distinct (map ob_key (db_outbox db)) \<Longrightarrow> (\<And>o'. o' \<in> set (db_outbox db) \<Longrightarrow> dispatch_ok db o')
   \<Longrightarrow> distinct (map plan_key (db_items db)) \<Longrightarrow> db_ok db"
  by (simp add: db_ok_def)

lemma db_okD:
  assumes "db_ok db"
  shows "distinct (map rr_id (db_runs db))"
    and "r \<in> set (db_runs db) \<Longrightarrow> row_ok r" and "r \<in> set (db_runs db) \<Longrightarrow> log_ok db r"
    and "e \<in> set (db_events db) \<Longrightarrow> ae_run_id e \<in> rr_id ` set (db_runs db)"
    and "distinct (map ob_key (db_outbox db))" and "o' \<in> set (db_outbox db) \<Longrightarrow> dispatch_ok db o'"
    and "distinct (map plan_key (db_items db))"
  using assms by (simp_all add: db_ok_def)

lemma upto_append_count: "1 \<le> n \<Longrightarrow> [1..n - 1] @ map (\<lambda>k. n + int k) [0..<l] = [1..n + int l - 1]"
  by (induction l) (simp_all add: upto_rec2 algebra_simps)

lemma same_outboxD:
  assumes "same_outbox db db'"
  shows "map ob_key (db_outbox db') = map ob_key (db_outbox db)"
    and "o' \<in> set (db_outbox db') \<Longrightarrow> \<exists>o1 \<in> set (db_outbox db). ob_key o1 = ob_key o' \<and> ob_run_id o1 = ob_run_id o'"
proof -
  have m: "map (\<lambda>o'. (ob_key o', ob_run_id o')) (db_outbox db') = map (\<lambda>o'. (ob_key o', ob_run_id o')) (db_outbox db)"
    using assms by (simp add: same_outbox_def)
  from arg_cong [OF m, of "map fst"] show "map ob_key (db_outbox db') = map ob_key (db_outbox db)"
    by (simp add: comp_def)
  show "\<exists>o1 \<in> set (db_outbox db). ob_key o1 = ob_key o' \<and> ob_run_id o1 = ob_run_id o'"
    if "o' \<in> set (db_outbox db')"
  proof -
    have "(ob_key o', ob_run_id o') \<in> set (map (\<lambda>o'. (ob_key o', ob_run_id o')) (db_outbox db))"
      using that by (simp flip: m)
    then show ?thesis by auto
  qed
qed

lemma dispatch_okE:
  assumes "dispatch_ok db o1" and "ob_key o' = ob_key o1" and "ob_run_id o' = ob_run_id o1"
    and "\<And>r. r \<in> set (db_runs db) \<Longrightarrow> \<exists>r' \<in> set (db_runs db'). rr_id r' = rr_id r \<and> rr_state_version r \<le> rr_state_version r'"
  shows "dispatch_ok db' o'"
proof -
  obtain r where r: "r \<in> set (db_runs db)" "rr_id r = ob_run_id o1" "key_number (ob_key o1) \<le> rr_state_version r"
    using assms(1) by (auto simp: dispatch_ok_def)
  obtain r' where "r' \<in> set (db_runs db')" "rr_id r' = rr_id r" "rr_state_version r \<le> rr_state_version r'"
    using assms(4) [OF r(1)] by blast
  then show ?thesis using assms(1-3) r by (force simp: dispatch_ok_def)
qed

lemma idle_ok:
  assumes ok: "db_ok db" and runs: "db_runs db' = db_runs db" and events: "db_events db' = db_events db"
    and out: "same_outbox db db'" and items: "items_kept db db'"
  shows "db_ok db'"
proof (rule db_okI)
  show "row_ok r \<and> log_ok db' r" if "r \<in> set (db_runs db')" for r
    using db_okD(2,3) [OF ok] that by (simp add: runs events log_ok_def run_events_def)
  show "dispatch_ok db' o'" if "o' \<in> set (db_outbox db')" for o'
    using same_outboxD(2) [OF out that] db_okD(6) [OF ok] by (force simp: dispatch_ok_def runs)
  show "distinct (map plan_key (db_items db'))" using items db_okD(7) [OF ok] by (simp add: items_kept_def)
qed (use db_okD [OF ok] in \<open>simp_all add: runs events same_outboxD(1) [OF out]\<close>)

lemma log_ok_touched:
  assumes "log_ok db r" and "logs r r' es" and "db_events db' = db_events db @ es" and "rr_id r' = rr_id r"
  shows "log_ok db' r'"
proof -
  have all: "filter (\<lambda>e. ae_run_id e = rr_id r) es = es"
    using assms(2) by (intro filter_True) (simp add: logs_def)
  have n: "1 \<le> rr_next_seq r" using assms(1) by (simp add: log_ok_def)
  have "map ae_seq (run_events (rr_id r') db') =
      [1..rr_next_seq r - 1] @ map (\<lambda>k. rr_next_seq r + int k) [0..<length es]"
    using assms all by (simp add: run_events_def log_ok_def logs_def)
  also have "\<dots> = [1..rr_next_seq r' - 1]"
    using upto_append_count [OF n] assms(2) by (simp add: logs_def)
  finally show ?thesis using n assms(2) by (simp add: log_ok_def logs_def)
qed

lemma log_ok_other:
  assumes "log_ok db x" and "logs r r' es" and "db_events db' = db_events db @ es" and "rr_id x \<noteq> rr_id r"
  shows "log_ok db' x"
proof -
  have "filter (\<lambda>e. ae_run_id e = rr_id x) es = []"
    using assms(2,4) by (auto simp: logs_def filter_empty_conv)
  then show ?thesis using assms(1,3) by (simp add: log_ok_def run_events_def)
qed

lemma dispatch_newest:
  assumes "dispatch_ok db o'" and "distinct (map rr_id (db_runs db))" and "r \<in> set (db_runs db)"
    and "rr_state_version r < v"
  shows "ob_key o' \<noteq> DispatchKey (rr_id r) kind v"
proof
  assume k: "ob_key o' = DispatchKey (rr_id r) kind v"
  obtain x where "x \<in> set (db_runs db)" "rr_id x = rr_id r" "v \<le> rr_state_version x"
    using assms(1) k by (auto simp: dispatch_ok_def)
  then show False using assms(2-4) by (metis find_run_in option.inject not_le)
qed

lemma touch_ok:
  assumes ok: "db_ok db" and found: "find_run (rr_id r) db = Some r" and st: "row_step op r r'"
    and runs: "db_runs db' = db_runs (put_run r' db)" and events: "db_events db' = db_events db @ es"
    and lg: "logs r r' es" and out: "same_outbox db db' \<or> new_dispatch r r' db db'"
    and items: "items_kept db db'"
  shows "db_ok db'"
proof (rule db_okI)
  have r: "r \<in> set (db_runs db)" using find_run_id [OF found] by simp
  have id: "rr_id r' = rr_id r" and ver: "rr_state_version r \<le> rr_state_version r'"
    using st by (simp_all add: row_step_def)
  have runs': "db_runs db' = map (\<lambda>x. if rr_id x = rr_id r then r' else x) (db_runs db)"
    using runs id by (simp add: put_run_def)
  have ids: "map rr_id (db_runs db') = map rr_id (db_runs db)" using id by (simp add: runs')
  then show "distinct (map rr_id (db_runs db'))" using db_okD(1) [OF ok] by simp
  have same: "x = r" if "x \<in> set (db_runs db)" "rr_id x = rr_id r" for x
    using that r db_okD(1) [OF ok] by (metis find_run_in option.inject)
  show "row_ok x \<and> log_ok db' x" if "x \<in> set (db_runs db')" for x
  proof (cases "x = r'")
    case True
    then show ?thesis
      using st db_okD(2) [OF ok r] log_ok_touched [OF db_okD(3) [OF ok r] lg events id] by (simp add: row_step_def)
  next
    case False
    then have x: "x \<in> set (db_runs db)" "rr_id x \<noteq> rr_id r" using that by (auto simp: runs')
    then show ?thesis using db_okD(2) [OF ok] log_ok_other [OF db_okD(3) [OF ok] lg events] by simp
  qed
  have img: "rr_id ` set (db_runs db') = rr_id ` set (db_runs db)" using ids by (metis list.set_map)
  show "ae_run_id e \<in> rr_id ` set (db_runs db')" if "e \<in> set (db_events db')" for e
    using that events img db_okD(4) [OF ok] r lg by (auto simp: logs_def)
  have grown: "\<exists>x' \<in> set (db_runs db'). rr_id x' = rr_id x \<and> rr_state_version x \<le> rr_state_version x'"
    if "x \<in> set (db_runs db)" for x
    using that same [OF that] id ver by (cases "rr_id x = rr_id r") (force simp: runs')+
  have r': "r' \<in> set (db_runs db')" using r by (force simp: runs')
  have kept: "dispatch_ok db' o'" if "o1 \<in> set (db_outbox db)" "ob_key o1 = ob_key o'" "ob_run_id o1 = ob_run_id o'" for o1 o'
    using dispatch_okE [OF db_okD(6) [OF ok that(1)] _ _ grown] that by simp
  show "dispatch_ok db' o'" if "o' \<in> set (db_outbox db')" for o'
    using out
  proof
    assume "same_outbox db db'"
    from same_outboxD(2) [OF this that] show ?thesis using kept by blast
  next
    assume "new_dispatch r r' db db'"
    then obtain n kind where n: "db_outbox db' = db_outbox db @ [n]" "ob_run_id n = rr_id r"
        "ob_key n = DispatchKey (rr_id r) kind (rr_state_version r')"
      by (auto simp: new_dispatch_def)
    have "dispatch_ok db' n" using n(2,3) r' id by (auto simp: dispatch_ok_def)
    then show ?thesis using that n(1) kept by auto
  qed
  show "distinct (map ob_key (db_outbox db'))"
    using out
  proof
    assume "new_dispatch r r' db db'"
    then obtain n kind where n: "db_outbox db' = db_outbox db @ [n]" "rr_state_version r < rr_state_version r'"
        "ob_key n = DispatchKey (rr_id r) kind (rr_state_version r')"
      by (auto simp: new_dispatch_def)
    have "ob_key n \<noteq> ob_key x" if "x \<in> set (db_outbox db)" for x
      using dispatch_newest [OF db_okD(6) [OF ok that] db_okD(1) [OF ok] r n(2)] n(3) by metis
    then have "ob_key n \<notin> ob_key ` set (db_outbox db)" by auto
    then show ?thesis using db_okD(5) [OF ok] by (simp add: n(1))
  qed (use same_outboxD(1) db_okD(5) [OF ok] in simp)
  show "distinct (map plan_key (db_items db'))" using items db_okD(7) [OF ok] by (simp add: items_kept_def)
qed

lemma create_ok:
  assumes ok: "db_ok db" and fresh: "rr_id r \<notin> rr_id ` set (db_runs db)" and row: "row_ok r" "rr_next_seq r = 2"
    and runs: "db_runs db' = db_runs db @ [r]" and events: "db_events db' = db_events db @ [e]"
    and e: "ae_run_id e = rr_id r" "ae_seq e = 1" and out: "db_outbox db' = db_outbox db @ [o']"
    and o': "ob_run_id o' = rr_id r" "ob_key o' = DispatchKey (rr_id r) kind (rr_state_version r)"
    and items: "items_kept db db'"
  shows "db_ok db'"
proof (rule db_okI)
  have none: "filter (\<lambda>x. ae_run_id x = rr_id r) (db_events db) = []"
    using fresh db_okD(4) [OF ok] by (metis (mono_tags, lifting) filter_False)
  show "row_ok x \<and> log_ok db' x" if "x \<in> set (db_runs db')" for x
  proof (cases "x \<in> set (db_runs db)")
    case True
    then have "rr_id x \<noteq> rr_id r" using fresh by (metis imageI)
    then show ?thesis
      using db_okD(2,3) [OF ok True] e by (simp add: log_ok_def run_events_def events)
  next
    case False
    then show ?thesis using that row e none by (simp add: runs events log_ok_def run_events_def)
  qed
  show "distinct (map rr_id (db_runs db'))" using fresh db_okD(1) [OF ok] by (simp add: runs)
  show "ae_run_id x \<in> rr_id ` set (db_runs db')" if "x \<in> set (db_events db')" for x
    using that db_okD(4) [OF ok] e by (auto simp: events runs)
  show "dispatch_ok db' x" if "x \<in> set (db_outbox db')" for x
  proof (cases "x \<in> set (db_outbox db)")
    case True
    then show ?thesis using db_okD(6) [OF ok] by (force simp: dispatch_ok_def runs)
  next
    case False
    then show ?thesis using that o' by (simp add: out dispatch_ok_def runs)
  qed
  have "ob_key o' \<noteq> ob_key x" if "x \<in> set (db_outbox db)" for x
    using db_okD(6) [OF ok that] o' fresh by (metis dispatch_ok_def dispatch_key.sel(1) imageI)
  then have "ob_key o' \<notin> ob_key ` set (db_outbox db)" by auto
  then show "distinct (map ob_key (db_outbox db'))" using db_okD(5) [OF ok] by (simp add: out)
  show "distinct (map plan_key (db_items db'))" using items db_okD(7) [OF ok] by (simp add: items_kept_def)
qed

lemma effect_ok: "effect op db db' \<Longrightarrow> db_ok db \<Longrightarrow> db_ok db'"
proof (induction rule: effect.induct)
  case (idle db' db op)
  then show ?case by (metis idle_ok)
next
  case (touch r db op r' db' es)
  then show ?case by (metis touch_ok)
next
  case (create r db op db' e o' kind)
  then show ?case by (metis create_ok)
next
  case (both op db db1 db2)
  then show ?case by blast
qed

lemma step_effect: "lifecycle_step db op b db' \<Longrightarrow> db_ok db \<Longrightarrow> effect op db db'"
  by (auto elim!: lifecycle_stepE dest: db_okD(1) intro: exec_effect)

lemma steps_ok: "lifecycle_steps db tr db' \<Longrightarrow> db_ok db \<Longrightarrow> db_ok db'"
  by (induction rule: lifecycle_steps.induct) (auto intro: effect_ok step_effect)

lemma empty_ok: "db_ok empty_database"
  by (simp add: db_ok_def empty_database_def)

section \<open>Properties of the tables\<close>

text \<open>
  C38. In every database that transactions can reach from an empty one, in any order and by any
  workers: run identifiers are distinct; a run holds a lease, its owner and its worker exactly while
  it is running, is in the terminal phase exactly when its status is terminal, and then has a finish
  time; the events of a run are numbered 1, 2, ... without a gap up to its next sequence number; every
  dispatch key is unique, belongs to an existing run and is not newer than that run's version; and no
  question is stored twice in a version of a plan.
\<close>

theorem reachable_tables_are_consistent:
  assumes "lifecycle_steps empty_database tr db"
  shows "distinct (map rr_id (db_runs db)) \<and> distinct (map ob_key (db_outbox db))
    \<and> distinct (map plan_key (db_items db))
    \<and> (\<forall>r \<in> set (db_runs db).
         (rr_status r = RunRunning \<longleftrightarrow> rr_worker r \<noteq> None)
         \<and> (rr_lease_until r = None \<longleftrightarrow> rr_worker r = None) \<and> (rr_lease_owner r = None \<longleftrightarrow> rr_worker r = None)
         \<and> (rr_status r \<in> TERMINAL_RUN_STATUSES \<longleftrightarrow> rr_phase r = PhaseTerminal)
         \<and> (rr_status r \<in> TERMINAL_RUN_STATUSES \<longrightarrow> rr_finished_at r \<noteq> None)
         \<and> map ae_seq (filter (\<lambda>e. ae_run_id e = rr_id r) (db_events db)) = [1..rr_next_seq r - 1])
    \<and> (\<forall>o' \<in> set (db_outbox db). key_run (ob_key o') = ob_run_id o'
         \<and> (\<exists>r \<in> set (db_runs db). rr_id r = ob_run_id o' \<and> key_number (ob_key o') \<le> rr_state_version r))"
proof -
  have ok: "db_ok db" using steps_ok [OF assms empty_ok] .
  then have "\<forall>r \<in> set (db_runs db). row_ok r \<and> log_ok db r" "\<forall>o' \<in> set (db_outbox db). dispatch_ok db o'"
    by (simp_all add: db_ok_def)
  then show ?thesis
    using db_okD(1,5,7) [OF ok] by (simp add: row_ok_def log_ok_def run_events_def dispatch_ok_def)
qed

section \<open>Running the machine\<close>

text \<open>The transactions of a list, one after the other; one that raises or is not fresh is left out.\<close>

fun run_ops :: "run_op list \<Rightarrow> database \<Rightarrow> (database \<times> run_op \<times> bool) list \<times> database" where
  "run_ops [] db = ([], db)"
| "run_ops (op # ops) db =
     (if fresh_op op db then
        (case exec_op op db of
           Inl e \<Rightarrow> run_ops ops db
         | Inr (b, db1) \<Rightarrow> (case run_ops ops db1 of (tr, db2) \<Rightarrow> ((db, op, b) # tr, db2)))
      else run_ops ops db)"

lemma steps_cons:
  "lifecycle_steps db1 tr db2 \<Longrightarrow> lifecycle_step db op b db1 \<Longrightarrow> lifecycle_steps db ((db, op, b) # tr) db2"
proof (induction rule: lifecycle_steps.induct)
  case (none db1)
  then show ?case using lifecycle_steps.step [OF lifecycle_steps.none] by fastforce
next
  case (step db1 tr db2 op' b' db3)
  then show ?case using lifecycle_steps.step [of db "(db, op, b) # tr"] by fastforce
qed

lemma run_ops_steps: "lifecycle_steps db (fst (run_ops ops db)) (snd (run_ops ops db))"
proof (induction ops db rule: run_ops.induct)
  case (1 db)
  then show ?case by (simp add: lifecycle_steps.none)
next
  case (2 op ops db)
  then show ?case
    by (auto split: sum.splits prod.splits intro!: steps_cons lifecycle_step.committed)
qed

text \<open>A run of one user, from its creation to a deferral of its planner.\<close>

definition demo_clock :: "int \<Rightarrow> run_env" where
  "demo_clock t = \<lparr>en_now = t, en_show = (\<lambda>_. ''r''), en_str = (\<lambda>_. [])\<rparr>"

definition demo_run_id :: uuid where "demo_run_id = UUID 7"

definition demo_task :: dispatch_key where "demo_task = DispatchKey demo_run_id ''start'' 1"

definition demo_create :: run_op where
  "demo_create = OpCreate (demo_clock 0) demo_run_id (UUID 1) ''u''
     \<lparr>cq_idempotency_key = ''k'', cq_original_query = ''q'', cq_normalized_goal = ''g'', cq_budget = []\<rparr>
     (Some \<lparr>cb_profile_id = UUID 0, cb_credential_id = UUID 0, cb_llm_config = []\<rparr>)"

definition demo_acquire :: run_op where
  "demo_acquire = OpAcquire (demo_clock 1) demo_run_id demo_task 900"

definition demo_defer :: run_op where
  "demo_defer = OpDeferModel (demo_clock 2) (UUID 2) demo_run_id demo_task ''E'' None"

definition demo_history :: "(database \<times> run_op \<times> bool) list \<times> database" where
  "demo_history = run_ops [demo_create, demo_acquire, demo_defer] empty_database"

lemma jget_or_initial:
  "k \<notin> {''model_token_pools'', ''resource_pools''} \<Longrightarrow> jget_or d k (initial_usage b) = d"
  by (auto simp: initial_usage_def Let_def jget_or_update) (auto simp: jget_or_def)?

lemma int_or_zero_int: "int_or_zero (JInt n) = Inr n"
  by (simp add: int_or_zero_def truthy_def py_int_def)

lemma jget_or_empty: "jget_or d k [] = d"
  by (simp add: jget_or_def)

lemmas demo_run_defs = demo_clock_def demo_run_id_def demo_task_def demo_create_def demo_acquire_def demo_defer_def

lemmas lifecycle_eval = empty_database_def done_with_def create_run_def acquire_for_execution_def
  defer_retryable_model_error_def defer_retryable_def completed_requeues_def bounded_retry_delay_def
  int_or_zero_int jget_or_empty owned_run_def find_run_def put_run_def save_with_event_def append_event_def enqueue_def
  outbox_new_def release_lease_def new_run_def REQUEUE_DELAYS_SECONDS_def MIN_DURABLE_RETRY_DELAY_SECONDS_def

lemma demo_history_facts:
  "map (\<lambda>(d, op, b). b) (fst demo_history) = [True, True, True]
   \<and> map rr_status (db_runs (snd demo_history)) = [RunQueued]
   \<and> length (db_outbox (snd demo_history)) = 2
   \<and> owned_run demo_run_id demo_task (snd demo_history) = None"
  unfolding demo_history_def
  by (simp add: demo_run_defs lifecycle_eval usage_simps jget_or_initial model_dependency_def Let_def)

lemma reachable_tables_are_consistent_witness:
  "map rr_status (db_runs (snd demo_history)) = [RunQueued] \<and> length (db_outbox (snd demo_history)) = 2
   \<and> distinct (map ob_key (db_outbox (snd demo_history)))
   \<and> list_all (\<lambda>r. rr_worker r = None) (db_runs (snd demo_history))"
proof -
  have "lifecycle_steps empty_database (fst demo_history) (snd demo_history)"
    unfolding demo_history_def by (rule run_ops_steps)
  from reachable_tables_are_consistent [OF this]
  have "distinct (map ob_key (db_outbox (snd demo_history)))"
    "\<forall>r \<in> set (db_runs (snd demo_history)). rr_status r = RunRunning \<longleftrightarrow> rr_worker r \<noteq> None"
    by blast+
  moreover have "\<forall>r \<in> set (db_runs (snd demo_history)). rr_status r = RunQueued"
    using demo_history_facts by (metis (no_types, lifting) empty_iff empty_set imageI insert_iff list.simps(15) list.set_map)
  ultimately show ?thesis using demo_history_facts by (simp add: list_all_iff)
qed

section \<open>Fencing\<close>

text \<open>The run was acquired by the message, in a transaction of a trace.\<close>

fun acquires :: "uuid \<Rightarrow> dispatch_key \<Rightarrow> database \<times> run_op \<times> bool \<Rightarrow> bool" where
  "acquires i task (db, OpAcquire env j task' s, b) \<longleftrightarrow> b \<and> j = i \<and> task' = task"
| "acquires i task _ \<longleftrightarrow> False"

lemma find_run_runs: "db_runs db' = db_runs db \<Longrightarrow> find_run i db' = find_run i db"
  by (simp add: find_run_def)

lemma find_run_appended:
  "db_runs db' = db_runs db @ [r] \<Longrightarrow> find_run i db' = Some x \<Longrightarrow> find_run i db = Some x \<or> x = r"
proof -
  have "find P (xs @ [r]) = Some x \<Longrightarrow> find P xs = Some x \<or> x = r" for P xs
    by (induction xs) (auto split: if_splits)
  then show "db_runs db' = db_runs db @ [r] \<Longrightarrow> find_run i db' = Some x \<Longrightarrow> find_run i db = Some x \<or> x = r"
    by (auto simp: find_run_def)
qed

lemma find_run_touched:
  assumes "db_runs db' = db_runs (put_run r' db)" and "rr_id r' = rr_id r" and "find_run (rr_id r) db = Some r"
  shows "find_run i db' = (if i = rr_id r then Some r' else find_run i db)"
proof -
  have "find_run i db' = find_run i (put_run r' db)" using assms(1) by (simp add: find_run_def)
  then show ?thesis using assms(2,3) by (simp add: find_run_put)
qed

lemma row_step_owner:
  "row_step op r r' \<Longrightarrow> rr_status r' = RunRunning \<and> rr_worker r' = Some task
     \<Longrightarrow> (rr_status r = RunRunning \<and> rr_worker r = Some task) \<or> (\<exists>env s. op = OpAcquire env (rr_id r) task s)"
  by (simp add: row_step_def)

lemma effect_keeps_lost:
  "effect op db db' \<Longrightarrow> owned_run i task db = None \<Longrightarrow> (\<And>env s. op \<noteq> OpAcquire env i task s)
     \<Longrightarrow> owned_run i task db' = None"
proof (induction rule: effect.induct)
  case (idle db' db op)
  then show ?case by (simp add: owned_run_def find_run_runs [OF idle.hyps(1)])
next
  case (touch r db op r' db' es)
  have id: "rr_id r' = rr_id r" using touch.hyps(2) by (simp add: row_step_def)
  show ?case
  proof (cases "i = rr_id r")
    case True
    have "\<not> (rr_status r = RunRunning \<and> rr_worker r = Some task)"
      using touch.hyps(1) touch.prems(1) True by (auto simp: owned_run_def)
    then have "\<not> (rr_status r' = RunRunning \<and> rr_worker r' = Some task)"
      using row_step_owner [OF touch.hyps(2)] touch.prems(2) True by metis
    then show ?thesis
      using find_run_touched [OF touch.hyps(3) id touch.hyps(1), of i] True by (auto simp: owned_run_def)
  next
    case False
    then show ?thesis
      using find_run_touched [OF touch.hyps(3) id touch.hyps(1), of i] touch.prems(1) by (simp add: owned_run_def)
  qed
next
  case (create r db op db' e o' kind)
  show ?case
  proof (rule ccontr)
    assume "owned_run i task db' \<noteq> None"
    then obtain x where x: "find_run i db' = Some x" "rr_status x = RunRunning" "rr_worker x = Some task"
      by (auto simp: owned_run_Some)
    then have "find_run i db = Some x" using find_run_appended [OF create.hyps(6)] create.hyps(3) by force
    then show False using create.prems(1) x by (simp add: owned_run_def)
  qed
next
  case (both op db db1 db2)
  then show ?case by blast
qed

lemma acquire_refused: "acquire_for_execution env i task s db = Inr (False, db') \<Longrightarrow> db' = db"
  by (auto simp: acquire_for_execution_def Let_def split: option.splits sum.splits if_splits)

lemma step_keeps_lost:
  assumes "lifecycle_step db op b db'" and "db_ok db" and "owned_run i task db = None"
    and "\<not> acquires i task (db, op, b)"
  shows "owned_run i task db' = None"
proof (cases "\<exists>env s. op = OpAcquire env i task s")
  case True
  then obtain env s where op: "op = OpAcquire env i task s" by blast
  then have "db' = db" using assms(1,4) by (auto elim!: lifecycle_stepE dest: acquire_refused)
  then show ?thesis using assms(3) by simp
next
  case False
  then show ?thesis using effect_keeps_lost [OF step_effect [OF assms(1,2)] assms(3)] by blast
qed

lemma steps_keep_lost:
  "lifecycle_steps db tr db' \<Longrightarrow> db_ok db \<Longrightarrow> owned_run i task db = None
     \<Longrightarrow> \<forall>x \<in> set tr. \<not> acquires i task x \<Longrightarrow> owned_run i task db' = None"
proof (induction rule: lifecycle_steps.induct)
  case (none db)
  then show ?case by simp
next
  case (step db tr db1 op b db2)
  then show ?case using step_keeps_lost steps_ok by simp
qed

text \<open>
  What the methods of a worker share: without the run they do nothing, and say so. From that law
  alone a worker that has lost its run is fenced off, whatever the others do meanwhile.
\<close>

locale worker_call =
  fixes call :: "uuid \<Rightarrow> dispatch_key \<Rightarrow> database \<Rightarrow> 'a" and refusal :: "database \<Rightarrow> 'a"
  assumes guarded: "owned_run i task db = None \<Longrightarrow> call i task db = refusal db"
begin

lemma fenced:
  "lifecycle_steps db tr db' \<Longrightarrow> db_ok db \<Longrightarrow> owned_run i task db = None
     \<Longrightarrow> \<forall>x \<in> set tr. \<not> acquires i task x \<Longrightarrow> call i task db' = refusal db'"
  using guarded steps_keep_lost by blast

end

interpretation renewing: worker_call "\<lambda>i task. renew_execution_lease env i task s" "Pair False" for env s
  by unfold_locales (simp add: renew_execution_lease_def)

interpretation plan_saving: worker_call
  "\<lambda>i task. save_generated_plan env i task plan tokens" "\<lambda>db. Inr (False, db)" for env plan tokens
  by unfold_locales (simp add: save_generated_plan_def)

interpretation resolving: worker_call
  "\<lambda>i task. save_gap_resolution_plan env i task gaps" "\<lambda>db. Inr (False, db)" for env gaps
  by unfold_locales (simp add: save_gap_resolution_plan_def)

interpretation replanning: worker_call
  "\<lambda>i task. save_replanned_questions env i task qs" "\<lambda>db. Inr (False, db)" for env qs
  by unfold_locales (simp add: save_replanned_questions_def)

interpretation interrupting: worker_call "\<lambda>i task. interrupt_for_pending_planner env i task" "\<lambda>db. db" for env
  by unfold_locales (simp add: interrupt_for_pending_planner_def)

interpretation recording: worker_call "\<lambda>i task. record_model_retry env i task m" "Pair False" for env m
  by unfold_locales (simp add: record_model_retry_def)

interpretation deferring: worker_call
  "\<lambda>i task. defer_retryable d env ob i task c dc" "\<lambda>db. Inr (None, db)" for d env ob c dc
  by unfold_locales (simp add: defer_retryable_def)

interpretation failing: worker_call "\<lambda>i task. fail_execution env i task c dc diag" Inr for env c dc diag
  by unfold_locales (simp add: fail_execution_def)

interpretation reporting: worker_call "\<lambda>i task. finish_report env i task limited u q rep v ver"
    "\<lambda>db. Inl (LeaseLost ''report writing'')" for env limited u q rep v ver
  by unfold_locales (simp add: finish_report_def writing_run_def)

interpretation giving_up: worker_call "\<lambda>i task. fail_no_evidence env i task"
    "\<lambda>db. Inl (LeaseLost ''report writing'')" for env
  by unfold_locales (simp add: fail_no_evidence_def writing_run_def)

interpretation researching: worker_call locked_run "\<lambda>db. Inl (LeaseLost ''research'')"
  by unfold_locales (simp add: locked_run_def)

text \<open>
  C39. A worker that does not hold a run cannot touch it: as long as its message does not acquire
  the run again, whatever other transactions commit in between, every method it calls on it refuses
  and leaves the database as it was: plans, replans, retries, failures and reports. So a worker
  whose lease was taken over by another message can no longer write.
\<close>

theorem superseded_worker_is_fenced:
  assumes "lifecycle_steps db tr db'" and "db_ok db" and "owned_run i task db = None"
    and "\<forall>x \<in> set tr. \<not> acquires i task x"
  shows "renew_execution_lease env i task s db' = (False, db')
    \<and> save_generated_plan env i task plan tokens db' = Inr (False, db')
    \<and> save_gap_resolution_plan env i task gaps db' = Inr (False, db')
    \<and> save_replanned_questions env i task qs db' = Inr (False, db')
    \<and> interrupt_for_pending_planner env i task db' = db'
    \<and> record_model_retry env i task m db' = (False, db')
    \<and> defer_retryable_model_error env ob i task c dc db' = Inr (None, db')
    \<and> defer_retryable_search_error env ob i task c dc db' = Inr (None, db')
    \<and> fail_execution env i task c dc diag db' = Inr db'
    \<and> finish_report env i task limited u q rep v ver db' = Inl (LeaseLost ''report writing'')
    \<and> fail_no_evidence env i task db' = Inl (LeaseLost ''report writing'')
    \<and> locked_run i task db' = Inl (LeaseLost ''research'')"
  unfolding defer_retryable_model_error_def defer_retryable_search_error_def
  by (intro conjI renewing.fenced [OF assms] plan_saving.fenced [OF assms] resolving.fenced [OF assms]
      replanning.fenced [OF assms] interrupting.fenced [OF assms] recording.fenced [OF assms]
      deferring.fenced [OF assms] failing.fenced [OF assms] reporting.fenced [OF assms]
      giving_up.fenced [OF assms] researching.fenced [OF assms])

lemma run_ops_only: "x \<in> set (fst (run_ops ops db)) \<Longrightarrow> fst (snd x) \<in> set ops"
proof (induction ops arbitrary: db)
  case Nil
  then show ?case by simp
next
  case (Cons op ops)
  then show ?case by (auto split: sum.splits prod.splits if_splits) (metis fst_conv)+
qed

text \<open>The deferred planner of \<open>demo_history\<close> is taken up by the message of its retry.\<close>

definition demo_retry_task :: dispatch_key where
  "demo_retry_task = DispatchKey demo_run_id ''model-retry'' 3"

definition demo_retake :: run_op where
  "demo_retake = OpAcquire (demo_clock 3) demo_run_id demo_retry_task 900"

definition demo_takeover :: "(database \<times> run_op \<times> bool) list \<times> database" where
  "demo_takeover = run_ops [demo_retake] (snd demo_history)"

lemma demo_takeover_facts:
  "owned_run demo_run_id demo_retry_task (snd demo_takeover) \<noteq> None"
  unfolding demo_takeover_def demo_history_def
  by (simp add: demo_retake_def demo_retry_task_def demo_run_defs lifecycle_eval usage_simps jget_or_initial
      model_dependency_def Let_def)

lemma superseded_worker_is_fenced_witness:
  "owned_run demo_run_id demo_retry_task (snd demo_takeover) \<noteq> None
   \<and> fail_execution (demo_clock 4) demo_run_id demo_task ''E'' None [] (snd demo_takeover) = Inr (snd demo_takeover)"
proof -
  have reach: "lifecycle_steps (snd demo_history) (fst demo_takeover) (snd demo_takeover)"
    unfolding demo_takeover_def by (rule run_ops_steps)
  have ok: "db_ok (snd demo_history)"
    unfolding demo_history_def using steps_ok [OF run_ops_steps empty_ok] .
  have "\<not> acquires demo_run_id demo_task x" if "x \<in> set (fst demo_takeover)" for x
  proof -
    have "fst (snd x) = demo_retake" using run_ops_only that unfolding demo_takeover_def by fastforce
    then show ?thesis by (cases x) (simp add: demo_retake_def demo_retry_task_def demo_task_def)
  qed
  then have "\<forall>x \<in> set (fst demo_takeover). \<not> acquires demo_run_id demo_task x" by blast
  from superseded_worker_is_fenced [OF reach ok _ this] demo_history_facts demo_takeover_facts
  show ?thesis by blast
qed

section \<open>Durable retries\<close>

text \<open>The phases in which the calls of a run were deferred for one dependency, in order.\<close>

definition deferral_of :: "string \<Rightarrow> uuid \<Rightarrow> database \<times> run_op \<times> bool \<Rightarrow> run_phase list" where
  "deferral_of p i = (\<lambda>(db, op, b).
     if b \<and> defers p op \<and> op_target op = Some i
     then (case find_run i db of None \<Rightarrow> [] | Some r \<Rightarrow> [rr_phase r]) else [])"

definition deferral_phases :: "string \<Rightarrow> uuid \<Rightarrow> (database \<times> run_op \<times> bool) list \<Rightarrow> run_phase list" where
  "deferral_phases p i tr = concat (map (deferral_of p i) tr)"

lemma deferral_phases_simps [simp]:
  "deferral_phases p i [] = []"
  "deferral_phases p i (tr @ [x]) = deferral_phases p i tr @ deferral_of p i x"
  by (simp_all add: deferral_phases_def)

text \<open>A run whose last deferrals were in one phase, that many times at least, or that ended since.\<close>

definition counted :: "string \<Rightarrow> uuid \<Rightarrow> run_phase \<Rightarrow> nat \<Rightarrow> database \<Rightarrow> bool" where
  "counted p i ph k db \<longleftrightarrow> k \<le> length REQUEUE_DELAYS_SECONDS
     \<and> (\<exists>r. find_run i db = Some r
          \<and> (ended r \<or> (\<exists>n. retry_mark p r = (JInt n, JStr (phase_value ph)) \<and> int k \<le> n)))"

lemma effect_keeps_count:
  "effect op db db' \<Longrightarrow> p \<in> {''model'', ''search''} \<Longrightarrow> \<not> (defers p op \<and> op_target op = Some i)
     \<Longrightarrow> counted p i ph k db \<Longrightarrow> counted p i ph k db'"
proof (induction rule: effect.induct)
  case (idle db' db op)
  then show ?case by (simp add: counted_def find_run_runs [OF idle.hyps(1)])
next
  case (touch r db op r' db' es)
  have id: "rr_id r' = rr_id r" using touch.hyps(2) by (simp add: row_step_def)
  note found = find_run_touched [OF touch.hyps(3) id touch.hyps(1), of i]
  show ?case
  proof (cases "i = rr_id r")
    case True
    have "op_target op = None \<or> op_target op = Some i" using touch.hyps(2) True by (simp add: row_step_def)
    then have "\<not> defers p op" using touch.prems(2) by (cases op) auto
    then have "\<not> ended r" "ended r' \<or> retry_mark p r' = retry_mark p r"
      using touch.hyps(2) touch.prems(1) by (auto simp: row_step_def)
    then show ?thesis using touch.prems(3) touch.hyps(1) found True by (auto simp: counted_def)
  next
    case False
    then show ?thesis using touch.prems(3) found by (simp add: counted_def)
  qed
next
  case (create r db op db' e o' kind)
  have "find P xs = Some x \<Longrightarrow> find P (xs @ [y]) = Some x" for P and xs :: "run_row list" and x y
    by (induction xs) auto
  then have "find_run i db = Some x \<Longrightarrow> find_run i db' = Some x" for x
    using create.hyps(6) by (simp add: find_run_def)
  then show ?case using create.prems(3) by (auto simp: counted_def)
next
  case (both op db db1 db2)
  then show ?case by blast
qed

lemma REQUEUE_COUNT [simp]: "length REQUEUE_DELAYS_SECONDS = 4"
  by (simp add: REQUEUE_DELAYS_SECONDS_def)

lemma completed_requeues_nonneg: "completed_requeues env d r = Inr n \<Longrightarrow> 0 \<le> n"
  by (auto simp: completed_requeues_def split: if_splits sum.splits)

lemma completed_requeues_marked:
  "retry_mark (dp_prefix d) r = (JInt m, JStr (phase_value (rr_phase r)))
     \<Longrightarrow> completed_requeues env d r = Inr (max 0 m)"
  by (simp add: completed_requeues_def retry_mark_def int_or_zero_int)

lemma deferred_mark:
  "d \<in> {model_dependency, search_dependency} \<Longrightarrow>
     retry_mark (dp_prefix d) (deferred_row d env r n k c dc) = (JInt (n + 1), JStr (phase_value (rr_phase r)))"
  unfolding retry_mark_def deferred_row_def
  by (elim insertE emptyE)
     (simp_all add: jget_or_deferred_model jget_or_deferred_search RETRY_KEYS_def,
      simp_all add: model_dependency_def search_dependency_def
        jget_or_deferred_model [unfolded model_dependency_def] jget_or_deferred_search [unfolded search_dependency_def]
        RETRY_KEYS_def)

lemma deferral_counts:
  assumes s: "defer_retryable d env ob i task c dc db = Inr (Some delay, db')"
    and d: "d \<in> {model_dependency, search_dependency}"
  obtains r where "find_run i db = Some r" and "counted (dp_prefix d) i (rr_phase r) 1 db'"
    and "\<And>k. counted (dp_prefix d) i (rr_phase r) k db \<Longrightarrow> counted (dp_prefix d) i (rr_phase r) (Suc k) db'"
  using s
proof (cases rule: defer_retryable_cases)
  case no
  then show ?thesis by simp
next
  case (deferred r n k refs m)
  note r = owned_runD [OF deferred(1)]
  have n: "0 \<le> n" using completed_requeues_nonneg [OF deferred(3)] .
  have row: "find_run i db' = Some ((deferred_row d env r n k c dc)\<lparr>rr_next_seq := rr_next_seq r + 1\<rparr>)"
    unfolding deferred(6) using r by (auto simp: find_run_save deferred_row_def)
  have mark: "retry_mark (dp_prefix d) ((deferred_row d env r n k c dc)\<lparr>rr_next_seq := rr_next_seq r + 1\<rparr>)
      = (JInt (n + 1), JStr (phase_value (rr_phase r)))"
    using deferred_mark [OF d] by (simp add: retry_mark_def)
  have "counted (dp_prefix d) i (rr_phase r) 1 db'" using row mark n by (simp add: counted_def)
  moreover have "counted (dp_prefix d) i (rr_phase r) (Suc k') db'"
    if held: "counted (dp_prefix d) i (rr_phase r) k' db" for k'
  proof -
    obtain m' where "retry_mark (dp_prefix d) r = (JInt m', JStr (phase_value (rr_phase r)))" "int k' \<le> m'"
      using held r by (auto simp: counted_def ended_def)
    then have "int k' \<le> n" using completed_requeues_marked [of d r m' env] deferred(3) by simp
    then show ?thesis using row mark deferred(4) by (simp add: counted_def)
  qed
  ultimately show ?thesis using that r by blast
qed

lemma dp_prefix_simps [simp]: "dp_prefix model_dependency = ''model''" "dp_prefix search_dependency = ''search''"
  by (simp_all add: model_dependency_def search_dependency_def)

text \<open>The step of a deferral of a run, for either dependency.\<close>

lemma deferral_step:
  assumes "lifecycle_step db op True db'" and "defers p op" and "op_target op = Some i"
  obtains d env ob task c dc delay where "d \<in> {model_dependency, search_dependency}" and "dp_prefix d = p"
    and "defer_retryable d env ob i task c dc db = Inr (Some delay, db')"
proof (cases op)
  case (OpDeferModel env ob j task c dc)
  then show ?thesis
    using assms that [of model_dependency env ob task c dc]
    by (auto elim!: lifecycle_stepE simp: done_with_Inr defer_retryable_model_error_def)
next
  case (OpDeferSearch env ob j task c dc)
  then show ?thesis
    using assms that [of search_dependency env ob task c dc]
    by (auto elim!: lifecycle_stepE simp: done_with_Inr defer_retryable_search_error_def)
qed (use assms in simp_all)

lemma deferral_refused:
  assumes "lifecycle_step db op False db'" and "defers p op"
  shows "db' = db"
proof -
  have "defer_retryable d env ob i task c dc db = Inr (None, db') \<Longrightarrow> db' = db" for d env ob i task c dc
    by (erule defer_retryable_cases) simp_all
  then show ?thesis
    using assms by (cases op) (auto elim!: lifecycle_stepE
      simp: done_with_Inr defer_retryable_model_error_def defer_retryable_search_error_def)
qed

lemma append_eq_replicate_snoc:
  "xs @ [x] = ys @ replicate k y \<Longrightarrow> 0 < k \<Longrightarrow> x = y \<and> xs = ys @ replicate (k - 1) y"
  by (cases k) (simp_all flip: replicate_append_same)

lemma retries_counted:
  assumes "lifecycle_steps db tr db'" and "db_ok db" and "p \<in> {''model'', ''search''}"
  shows "deferral_phases p i tr = ys @ replicate k ph \<Longrightarrow> 0 < k \<Longrightarrow> counted p i ph k db'"
  using assms
proof (induction arbitrary: k rule: lifecycle_steps.induct)
  case (none db)
  then show ?case by simp
next
  case (step db tr db1 op b db2)
  have ok: "db_ok db1" using steps_ok step.hyps(1) step.prems(3) by blast
  note IH = step.IH [OF _ _ step.prems(3,4)]
  show ?case
  proof (cases "b \<and> defers p op \<and> op_target op = Some i")
    case True
    then obtain d env ob task c dc delay where d: "d \<in> {model_dependency, search_dependency}" "dp_prefix d = p"
        "defer_retryable d env ob i task c dc db1 = Inr (Some delay, db2)"
      using deferral_step step.hyps(2) by metis
    obtain r where r: "find_run i db1 = Some r" "counted p i (rr_phase r) 1 db2"
        "\<And>k. counted p i (rr_phase r) k db1 \<Longrightarrow> counted p i (rr_phase r) (Suc k) db2"
      using deferral_counts [OF d(3,1)] d(2) by metis
    have "deferral_phases p i tr @ [rr_phase r] = ys @ replicate k ph"
      using step.prems(1) True r(1) by (simp add: deferral_of_def)
    from append_eq_replicate_snoc [OF this step.prems(2)]
    have ph: "rr_phase r = ph" and rest: "deferral_phases p i tr = ys @ replicate (k - 1) ph" by simp_all
    show ?thesis
    proof (cases "k = 1")
      case False
      then have "0 < k - 1" using step.prems(2) by simp
      from r(3) [unfolded ph, OF IH [OF rest this]] show ?thesis using step.prems(2) by simp
    qed (use r(2) ph in simp)
  next
    case False
    then have "deferral_phases p i tr = ys @ replicate k ph"
      using step.prems(1) by (auto simp: deferral_of_def split: if_splits)
    from IH [OF this step.prems(2)] have c: "counted p i ph k db1" .
    show ?thesis
    proof (cases "defers p op \<and> op_target op = Some i")
      case True
      then have "db2 = db1" using False deferral_refused step.hyps(2) by (metis (full_types))
      then show ?thesis using c by simp
    next
      case False
      then show ?thesis using effect_keeps_count [OF step_effect [OF step.hyps(2) ok] step.prems(4) _ c] by blast
    qed
  qed
qed

lemma deferral_of_single: "deferral_of p i x = [] \<or> (\<exists>y. deferral_of p i x = [y])"
  by (auto simp: deferral_of_def split: prod.splits option.splits)

text \<open>
  C40. Durable retries end: in every sequence of transactions, whoever commits them, the calls of a
  run to one dependency (the models or the search) are deferred at most four times in a row in one
  phase. The counter that says so lives in the usage snapshot, is kept by every other transaction, and
  starts again only when the phase of a deferral differs from that of the one before.
\<close>

theorem durable_retries_are_bounded:
  assumes "lifecycle_steps db tr db'" and "db_ok db" and "p \<in> {''model'', ''search''}"
    and "deferral_phases p i tr = xs @ replicate k ph @ zs"
  shows "k \<le> length REQUEUE_DELAYS_SECONDS"
  using assms
proof (induction arbitrary: zs rule: lifecycle_steps.induct)
  case (none db)
  then show ?case by simp
next
  case (step db tr db1 op b db2)
  have steps: "lifecycle_steps db (tr @ [(db1, op, b)]) db2"
    using step.hyps by (rule lifecycle_steps.step)
  show ?case
  proof (cases "zs = []")
    case True
    then show ?thesis
      using retries_counted [OF steps step.prems(1,2)] step.prems(3) by (cases "k = 0") (auto simp: counted_def)
  next
    case False
    then obtain zs' z where zs: "zs = zs' @ [z]" by (metis append_butlast_last_id)
    have "\<exists>us. deferral_phases p i tr = xs @ replicate k ph @ us"
      using deferral_of_single [of p i "(db1, op, b)"] step.prems(3) zs by auto
    then show ?thesis using step.IH step.prems(1,2) by blast
  qed
qed

text \<open>The run of \<open>demo_history\<close>, taken up again and deferred a second time.\<close>

definition demo_retries :: "(database \<times> run_op \<times> bool) list \<times> database" where
  "demo_retries = run_ops [demo_create, demo_acquire, demo_defer, demo_retake,
     OpDeferModel (demo_clock 4) (UUID 3) demo_run_id demo_retry_task ''E'' None] empty_database"

lemma demo_retries_facts:
  "deferral_phases ''model'' demo_run_id (fst demo_retries) = [PhasePlanning, PhasePlanning]"
  unfolding demo_retries_def
  by (simp add: demo_retake_def demo_retry_task_def demo_run_defs lifecycle_eval usage_simps jget_or_initial
      jget_or_deferred_model RETRY_KEYS_def Let_def deferral_phases_def deferral_of_def
      model_dependency_def [THEN arg_cong, of dp_reason] model_dependency_def [THEN arg_cong, of dp_event])

lemma durable_retries_are_bounded_witness:
  "deferral_phases ''model'' demo_run_id (fst demo_retries) = [PhasePlanning, PhasePlanning]
   \<and> (2::nat) \<le> length REQUEUE_DELAYS_SECONDS"
proof -
  have "lifecycle_steps empty_database (fst demo_retries) (snd demo_retries)"
    unfolding demo_retries_def by (rule run_ops_steps)
  moreover have "deferral_phases ''model'' demo_run_id (fst demo_retries) = [] @ replicate 2 PhasePlanning @ []"
    by (simp add: demo_retries_facts numeral_2_eq_2)
  ultimately show ?thesis
    using durable_retries_are_bounded [OF _ empty_ok, of "fst demo_retries" _ "''model''"] demo_retries_facts by blast
qed

lemma durable_delay_bounds:
  assumes "bounded_retry_delay budget requested now = Some delay"
  shows "5 \<le> delay" and "5 \<le> requested \<Longrightarrow> delay \<le> requested"
    and "jget ''deadline_at'' budget = JTime deadline \<Longrightarrow> now + seconds (delay + 45) \<le> deadline"
proof -
  show "5 \<le> delay" and "5 \<le> requested \<Longrightarrow> delay \<le> requested"
    using assms
    by (auto simp: bounded_retry_delay_def Let_def MIN_DURABLE_RETRY_DELAY_SECONDS_def
        split: json.splits if_splits)
  assume "jget ''deadline_at'' budget = JTime deadline"
  then have "delay \<le> whole_seconds (deadline - now) - 45" "5 \<le> delay"
    using assms
    by (auto simp: bounded_retry_delay_def Let_def MIN_DURABLE_RETRY_DELAY_SECONDS_def
        RETRY_COMPLETION_RESERVE_SECONDS_def split: if_splits)
  moreover have "0 \<le> whole_seconds d \<Longrightarrow> 1000000 * whole_seconds d \<le> max 0 d" for d
    by (auto simp: whole_seconds_def)
  ultimately show "now + seconds (delay + 45) \<le> deadline"
    by (smt (verit, best) seconds_def)
qed

section \<open>Replans that match nothing\<close>

lemma traverse_map: "traverse f xs = Inr ys \<Longrightarrow> (\<And>x y. f x = Inr y \<Longrightarrow> g y = h x) \<Longrightarrow> map g ys = map h xs"
  by (induction xs arbitrary: ys) (auto split: sum.splits)

lemma replanned_row_key:
  "replanned_row targets version w = Inr w' \<Longrightarrow> plan_key w' = (pw_run_id w, version, pw_question_id w)"
  by (auto simp: replanned_row_def plan_key_def split: option.splits sum.splits)

lemma current_rows_run: "w \<in> set (current_rows r v db) \<Longrightarrow> pw_run_id w = rr_id r \<and> pw_version w = v"
  by (simp add: current_rows_def)

lemma owned_run_items: "owned_run i task (db\<lparr>db_items := x\<rparr>) = owned_run i task db"
  by (simp add: owned_run_def)

lemma stored_rows_clash:
  assumes "insert_items ws db = Inr db1" and "w \<in> set ws" and "w' \<in> set ws'" and "plan_key w' = plan_key w"
  shows "insert_items ws' db1 = Inl (IntegrityError ''uq_research_plan_item_version_question'')"
  using assms by (force simp: insert_items_def split: if_splits)

lemma targets_keys: "map_of (dict_update [] gaps) q \<noteq> None \<Longrightarrow> q \<in> fst ` set gaps"
  using keys_dict_update [of "[]" gaps] by (simp add: map_of_eq_None_iff)

lemma append_questions_prefix:
  "append_questions merged seen qs = Inr out \<Longrightarrow> \<exists>kept. out = merged @ kept"
  by (induction merged seen qs rule: append_questions.induct) (auto simp: Let_def split: if_splits)

lemma traverse_set: "traverse f xs = Inr ys \<Longrightarrow> x \<in> set xs \<Longrightarrow> \<exists>y \<in> set ys. f x = Inr y"
  by (induction xs arbitrary: ys) (auto split: sum.splits)

lemma traverse_set_back: "traverse f xs = Inr ys \<Longrightarrow> y \<in> set ys \<Longrightarrow> \<exists>x \<in> set xs. f x = Inr y"
  by (induction xs arbitrary: ys) (auto split: sum.splits)

lemma stored_plan_ids:
  "stored_plan env r rows = Inr plan \<Longrightarrow> w \<in> set rows \<Longrightarrow> \<exists>q \<in> set (rn_questions plan). pq_id q = pw_question_id w"
  by (auto simp: stored_plan_def Let_def split: sum.splits dest!: mk_plan_ok traverse_set)
     (force simp: mk_question_def question_of_row_def split: if_splits)

lemma revised_ids:
  "append_dynamic_questions plan qs = Inr revised \<Longrightarrow> q \<in> set (rn_questions plan) \<Longrightarrow> q \<in> set (rn_questions revised)"
  by (auto simp: append_dynamic_questions_def split: if_splits sum.splits dest!: append_questions_prefix)

text \<open>A table that already holds the next version of a question admits no replan of the run.\<close>

lemma blocked_gap_plan:
  assumes own: "owned_run i task db = Some r" and v: "1 \<le> rr_plan_version r"
    and w: "w \<in> set (current_rows r (rr_plan_version r) db)"
    and x: "x \<in> set (db_items db)" "plan_key x = (i, rr_plan_version r + 1, pw_question_id w)"
    and gaps: "gaps \<noteq> []"
  shows "\<exists>e. save_gap_resolution_plan env i task gaps db = Inl e"
proof (cases "traverse (replanned_row (map_of (dict_update [] (take 3 gaps))) (rr_plan_version r + 1))
    (current_rows r (rr_plan_version r) db)")
  case (Inl e)
  then show ?thesis using own v gaps by (simp add: save_gap_resolution_plan_def)
next
  case (Inr new)
  obtain y where y: "y \<in> set new" "plan_key y = (pw_run_id w, rr_plan_version r + 1, pw_question_id w)"
    using traverse_set [OF Inr w] replanned_row_key by metis
  have "pw_run_id w = i" using current_rows_run [OF w] owned_runD [OF own] by simp
  then have "plan_key y = plan_key x" using y(2) x(2) by simp
  then have "insert_items new db = Inl (IntegrityError ''uq_research_plan_item_version_question'')"
    using x(1) y(1) by (auto simp: insert_items_def)
  then show ?thesis using own v gaps Inr by (simp add: save_gap_resolution_plan_def)
qed

lemma blocked_replan:
  assumes own: "owned_run i task db = Some r"
    and w: "w \<in> set (current_rows r (rr_plan_version r) db)"
    and x: "x \<in> set (db_items db)" "plan_key x = (i, rr_plan_version r + 1, pw_question_id w)"
  shows "save_replanned_questions env i task qs db \<noteq> Inr (True, db')"
proof
  assume s: "save_replanned_questions env i task qs db = Inr (True, db')"
  then obtain current revised status_of db1 where
      c: "stored_plan env r (current_rows r (rr_plan_version r) db) = Inr current"
    and rv: "append_dynamic_questions current qs = Inr revised"
    and ins: "insert_items (plan_rows i (rr_plan_version r + 1) status_of (rn_questions revised)) db = Inr db1"
    using own by (auto simp: save_replanned_questions_def Let_def split: if_splits sum.splits)
  obtain q where "q \<in> set (rn_questions current)" and id: "pq_id q = pw_question_id w"
    using stored_plan_ids [OF c w] by blast
  then have q: "q \<in> set (rn_questions revised)" using revised_ids [OF rv] by blast
  have "(i, rr_plan_version r + 1, pq_id q)
      \<in> plan_key ` set (plan_rows i (rr_plan_version r + 1) status_of (rn_questions revised))"
    using q by (force simp: plan_rows_def plan_key_def)
  then have "plan_key x \<in> plan_key ` set (plan_rows i (rr_plan_version r + 1) status_of (rn_questions revised))"
    by (simp add: x(2) id)
  then show False using ins x(1) by (auto simp: insert_items_Inr)
qed

text \<open>
  Most transactions leave alone what a \<open>view\<close> of a run row reads, and every stored plan row. What the view
  must satisfy for that: it reads only the plan version, the budget and the usage of the row, and nothing of
  the usage that taking up a run changes.
\<close>

definition view_kept :: "(run_row \<Rightarrow> 'v) \<Rightarrow> uuid \<Rightarrow> database \<Rightarrow> database \<Rightarrow> bool" where
  "view_kept view i db db' \<longleftrightarrow> map_option view (find_run i db') = map_option view (find_run i db)
     \<and> set (db_items db) \<subseteq> set (db_items db')"

lemma kept_same: "db_runs db' = db_runs db \<Longrightarrow> db_items db' = db_items db \<Longrightarrow> view_kept view i db db'"
  using find_run_runs [of db' db i] by (simp add: view_kept_def)

lemma kept_refl [simp]: "view_kept view i db db"
  by (simp add: view_kept_def)

lemma kept_trans: "view_kept view i db db1 \<Longrightarrow> view_kept view i db1 db2 \<Longrightarrow> view_kept view i db db2"
  by (auto simp: view_kept_def)

lemmas kept_save_simps = view_kept_def find_run_save

lemma put_items [simp]: "db_items (put_run r db) = db_items db"
  by (simp add: put_run_def)

lemma kept_tables [simp]:
  "db_items (revoke_dispatches j s db0) = db_items db0"
  "view_kept view i db (db0\<lparr>db_outbox := x\<rparr>) = view_kept view i db db0"
  "view_kept view i db (revoke_dispatches j s db0) = view_kept view i db db0"
  "find_run i (revoke_dispatches j s db0) = find_run i db0"
  by (simp_all add: view_kept_def revoke_dispatches_def)

lemma release_fields [simp]:
  "rr_plan_version (release_lease r) = rr_plan_version r" "rr_budget (release_lease r) = rr_budget r"
  by (simp_all add: release_lease_def)

lemma owned_id: "owned_run j task db = Some r \<Longrightarrow> find_run j db = Some r \<and> rr_id r = j"
  using find_run_id by (auto simp: owned_run_Some)

lemma locked_id: "lock_run owner j db = Inr r \<Longrightarrow> find_run j db = Some r \<and> rr_id r = j"
  using find_run_id by (auto simp: lock_run_Inr)

lemma kept_put:
  assumes "find_run (rr_id r1) db = Some r" and "view r1 = view r"
  shows "view_kept view i db (put_run r1 db)"
  using assms by (auto simp: view_kept_def find_run_put)

locale row_view =
  fixes view :: "run_row \<Rightarrow> 'v"
  assumes untouched: "rr_plan_version r' = rr_plan_version r \<Longrightarrow> rr_budget r' = rr_budget r
      \<Longrightarrow> rr_usage r' = rr_usage r \<Longrightarrow> view r' = view r"
    and acquired: "view (r\<lparr>rr_usage := acquired_usage (rr_budget r) (rr_usage r) n\<rparr>) = view r"
begin

lemma kept_save:
  assumes "find_run j db0 = Some r" and "rr_id r1 = j" and "view r1 = view r" and "view_kept view i db db0"
  shows "view_kept view i db (snd (save_with_event ty refs m r1 db0))"
proof -
  have "view (r1\<lparr>rr_next_seq := n\<rparr>) = view r1" for n by (rule untouched) simp_all
  then show ?thesis using assms by (auto simp: kept_save_simps)
qed

lemma kept_rewrite:
  assumes "find_run j db0 = Some r" and "rr_id r1 = j" and "rr_plan_version r1 = rr_plan_version r"
    and "rr_budget r1 = rr_budget r" and "rr_usage r1 = rr_usage r" and "view_kept view i db db0"
  shows "view_kept view i db (snd (save_with_event ty refs m r1 db0))"
  using kept_save [OF assms(1,2) untouched [OF assms(3-5)] assms(6)] .

lemma cancel_kept:
  assumes "cancel_run env owner j db = Inr (r', db')"
  shows "view_kept view i db db'"
proof -
  obtain r where r: "lock_run owner j db = Inr r" using assms by (auto simp: cancel_run_def split: sum.splits)
  show ?thesis using assms r locked_id [OF r]
    by (auto simp: cancel_run_def Let_def dest!: arg_cong [where f = snd] intro!: kept_rewrite [of j _ r] split: if_splits)
qed

lemma pause_kept:
  assumes "pause_run env owner j db = Inr (r', db')"
  shows "view_kept view i db db'"
proof -
  obtain r where r: "lock_run owner j db = Inr r" using assms by (auto simp: pause_run_def split: sum.splits)
  show ?thesis using assms r locked_id [OF r]
    by (auto simp: pause_run_def Let_def dest!: arg_cong [where f = snd] intro!: kept_rewrite [of j _ r] split: if_splits)
qed

lemma resume_kept:
  assumes "resume_run env ob owner j db = Inr (r', db')"
  shows "view_kept view i db db'"
proof -
  obtain r where r: "lock_run owner j db = Inr r" using assms by (auto simp: resume_run_def split: sum.splits)
  show ?thesis using assms r locked_id [OF r] unfolding resume_run_def Let_def case_prod_beta
    by (auto simp: enqueue_Inr intro!: kept_rewrite [of j _ r] split: sum.splits if_splits)
qed

lemma acquire_kept:
  assumes "acquire_for_execution env j task s db = Inr (b, db')"
  shows "view_kept view i db db'"
proof (cases "find_run j db")
  case None
  then show ?thesis using assms by (simp add: acquire_for_execution_def)
next
  case (Some r)
  have taken: "view r1 = view r" if "rr_plan_version r1 = rr_plan_version r" "rr_budget r1 = rr_budget r"
    "rr_usage r1 = acquired_usage (rr_budget r) (rr_usage r) n" for r1 n
    using untouched [of r1 "r\<lparr>rr_usage := acquired_usage (rr_budget r) (rr_usage r) n\<rparr>"] acquired [of r n] that by simp
  have "rr_id r = j" using find_run_id [OF Some] by blast
  then show ?thesis using assms Some
    by (auto simp: acquire_for_execution_def Let_def intro!: kept_save [of j _ r] taken split: sum.splits if_splits)
qed

lemma renew_kept:
  assumes "renew_execution_lease env j task s db = (b, db')"
  shows "view_kept view i db db'"
proof (cases "owned_run j task db")
  case (Some r)
  then show ?thesis using assms owned_id [OF Some]
    by (auto simp: renew_execution_lease_def intro!: kept_put [of _ _ r] untouched [of _ r] split: option.splits if_splits)
qed (use assms in \<open>simp add: renew_execution_lease_def\<close>)

lemma interrupt_kept: "view_kept view i db (interrupt_for_pending_planner env j task db)"
proof (cases "owned_run j task db")
  case (Some r)
  then show ?thesis using owned_id [OF Some]
    by (auto simp: interrupt_for_pending_planner_def intro!: kept_rewrite [of j _ r])
qed (simp add: interrupt_for_pending_planner_def)

lemma record_kept:
  assumes "record_model_retry env j task m db = (b, db')"
  shows "view_kept view i db db'"
proof (cases "owned_run j task db")
  case (Some r)
  then show ?thesis using assms owned_id [OF Some]
    by (auto simp: record_model_retry_def intro!: kept_rewrite [of j _ r])
qed (use assms in \<open>simp add: record_model_retry_def\<close>)

lemma no_evidence_kept:
  assumes "fail_no_evidence env j task db = Inr db'"
  shows "view_kept view i db db'"
proof -
  obtain r where r: "writing_run j task db = Inr r" using assms by (auto simp: fail_no_evidence_def split: sum.splits)
  have own: "find_run j db = Some r \<and> rr_id r = j" using r owned_id by (auto simp: writing_run_Inr)
  show ?thesis using assms r own unfolding fail_no_evidence_def Let_def case_prod_beta
    by (auto intro!: kept_rewrite [of j _ r] split: sum.splits list.splits if_splits)
qed

lemma create_kept:
  assumes "create_run env j ob owner q b db = Inr ((r, new), db')" and "find_run i db \<noteq> None"
    and fresh: "j \<notin> rr_id ` set (db_runs db)"
  shows "view_kept view i db db'"
proof -
  have "i \<noteq> j" using assms(2) fresh find_run_id by fastforce
  moreover have "rr_id (new_run env j owner q x) = j" for x by (simp add: new_run_def)
  moreover have "find P (xs @ [y]) = find P xs" if "find P xs \<noteq> None" for P xs and y :: run_row
    using that by (induction xs) auto
  then have "find_run i (db\<lparr>db_runs := db_runs db @ [x]\<rparr>) = find_run i db" for x
    using assms(2) unfolding find_run_def by simp
  ultimately show ?thesis using assms(1)
    by (auto simp: create_run_def enqueue_Inr Let_def kept_save_simps split: option.splits prod.splits sum.splits
        dest!: arg_cong [where f = snd])
qed

lemma requeue_kept:
  assumes "requeue_expired env fresh r db = Inr db'" and "find_run (rr_id r) db = Some r"
  shows "view_kept view i db db'"
  using assms by (auto simp: requeue_expired_def Let_def enqueue_Inr intro!: kept_rewrite [of "rr_id r" _ r] split: sum.splits)

lemma reconcile_loop_kept:
  assumes "foldM (\<lambda>d r. requeue_expired env fresh r d) db rows = Inr db'" and "distinct (map rr_id rows)"
    and "\<And>r. r \<in> set rows \<Longrightarrow> find_run (rr_id r) db = Some r"
  shows "view_kept view i db db'"
  using assms
proof (induction rows arbitrary: db)
  case Nil
  then show ?case by simp
next
  case (Cons r rows)
  then obtain db1 where s: "requeue_expired env fresh r db = Inr db1"
    and l: "foldM (\<lambda>d r. requeue_expired env fresh r d) db1 rows = Inr db'"
    by (auto split: sum.splits)
  have "find_run (rr_id r') db1 = Some r'" if "r' \<in> set rows" for r'
    using requeue_other [OF s, of "rr_id r'"] that Cons.prems(2,3) by (force simp: image_iff)
  then show ?case
    using Cons.IH [OF l] Cons.prems(2) requeue_kept [OF s Cons.prems(3)] by (auto intro: kept_trans)
qed

lemma reconcile_kept:
  assumes "reconcile_expired_leases env fresh locked n db = Inr (ids, db')" and "distinct (map rr_id (db_runs db))"
  shows "view_kept view i db db'"
proof (cases "n < 1")
  case True
  then show ?thesis using assms by (simp add: reconcile_expired_leases_def)
next
  case False
  let ?rows = "expired_runs (en_now env) locked n db"
  have "distinct (map rr_id ?rows)"
    using assms(2) unfolding expired_runs_def
    by (simp add: take_map [symmetric] distinct_take distinct_map_filter distinct_map_sort_key)
  moreover have "find_run (rr_id r) db = Some r" if "r \<in> set ?rows" for r
    using that assms(2) by (auto simp: expired_runs_def dest!: in_set_takeD intro!: find_run_in)
  ultimately show ?thesis using assms(1) False
    by (auto simp: reconcile_expired_leases_def Let_def intro!: reconcile_loop_kept split: sum.splits)
qed

lemma update_outbox_kept: "update_outbox j f db = Inr db' \<Longrightarrow> view_kept view i db db'"
  by (auto simp: update_outbox_def split: if_splits)

lemma claim_kept: "claim_batch now locked limit stale db = (batch, db') \<Longrightarrow> view_kept view i db db'"
  by (auto simp: claim_batch_def Let_def)

text \<open>Every transaction but those that save a plan or that end or defer an execution.\<close>

lemma exec_kept:
  "exec_op (OpCreate env j ob owner q bn) db = Inr (b, db') \<Longrightarrow> find_run i db \<noteq> None
     \<Longrightarrow> j \<notin> rr_id ` set (db_runs db) \<Longrightarrow> view_kept view i db db'"
  "exec_op (OpReconcile env fresh locked n) db = Inr (b, db') \<Longrightarrow> distinct (map rr_id (db_runs db)) \<Longrightarrow> view_kept view i db db'"
  "exec_op (OpCancel env owner j) db = Inr (b, db') \<Longrightarrow> view_kept view i db db'"
  "exec_op (OpPause env owner j) db = Inr (b, db') \<Longrightarrow> view_kept view i db db'"
  "exec_op (OpResume env ob owner j) db = Inr (b, db') \<Longrightarrow> view_kept view i db db'"
  "exec_op (OpAcquire env j task s) db = Inr (b, db') \<Longrightarrow> view_kept view i db db'"
  "exec_op (OpRenew env j task s) db = Inr (b, db') \<Longrightarrow> view_kept view i db db'"
  "exec_op (OpInterrupt env j task) db = Inr (b, db') \<Longrightarrow> view_kept view i db db'"
  "exec_op (OpRecordRetry env j task m) db = Inr (b, db') \<Longrightarrow> view_kept view i db db'"
  "exec_op (OpNoEvidence env j task) db = Inr (b, db') \<Longrightarrow> view_kept view i db db'"
  "exec_op (OpClaim now locked limit stale) db = Inr (b, db') \<Longrightarrow> view_kept view i db db'"
  "exec_op (OpPublished now ob) db = Inr (b, db') \<Longrightarrow> view_kept view i db db'"
  "exec_op (OpRetry now ob c) db = Inr (b, db') \<Longrightarrow> view_kept view i db db'"
  using create_kept [of env j ob owner q bn db _ _ db' i]
  by (auto simp: done_with_Inr cancel_kept pause_kept resume_kept acquire_kept renew_kept interrupt_kept record_kept
      no_evidence_kept update_outbox_kept claim_kept reconcile_kept mark_published_def mark_retry_def
      split: prod.splits)

end

text \<open>The plan version is such a view; deferrals and the ends of an execution leave it alone as well.\<close>

interpretation plan_view: row_view rr_plan_version
  by unfold_locales simp_all

abbreviation plans_kept :: "uuid \<Rightarrow> database \<Rightarrow> database \<Rightarrow> bool" where
  "plans_kept \<equiv> view_kept rr_plan_version"

lemma defer_kept:
  assumes "defer_retryable d env ob j task c x db = Inr (delay, db')"
  shows "plans_kept i db db'"
  using assms by (auto simp: defer_retryable_def enqueue_Inr Let_def kept_save_simps
      dest!: owned_id split: option.splits sum.splits if_splits)

lemma fail_kept: "fail_execution env j task c x diag db = Inr db' \<Longrightarrow> plans_kept i db db'"
  by (auto simp: fail_execution_def Let_def kept_save_simps dest!: owned_id split: option.splits sum.splits)

lemma finish_kept:
  assumes "finish_report env j task limited u q rep v ver db = Inr db'"
  shows "plans_kept i db db'"
proof -
  obtain r where r: "find_run j db = Some r" "rr_id r = j" "writing_run j task db = Inr r"
    using assms find_run_id by (fastforce simp: finish_report_def writing_run_Inr owned_run_Some split: sum.splits)
  have "find_run k (db\<lparr>db_events := x\<rparr>) = find_run k db" for k x by simp
  then show ?thesis using assms r unfolding finish_report_def Let_def case_prod_beta
    by (auto simp: append_event_def kept_save_simps)
qed

lemma ends_kept:
  "exec_op (OpDeferModel env ob j task c x) db = Inr (b, db') \<Longrightarrow> plans_kept i db db'"
  "exec_op (OpDeferSearch env ob j task c x) db = Inr (b, db') \<Longrightarrow> plans_kept i db db'"
  "exec_op (OpFail env j task c x diag) db = Inr (b, db') \<Longrightarrow> plans_kept i db db'"
  "exec_op (OpFinish env j task limited u q rep v ver) db = Inr (b, db') \<Longrightarrow> plans_kept i db db'"
  by (auto simp: done_with_Inr defer_kept fail_kept finish_kept defer_retryable_model_error_def
      defer_retryable_search_error_def)

text \<open>The plans of other runs.\<close>

lemma insert_items_plans: "insert_items ws db = Inr db' \<Longrightarrow> view_kept view i db db' \<and> find_run j db' = find_run j db"
  by (auto simp: insert_items_Inr view_kept_def)

lemma save_other:
  assumes "insert_items ws db = Inr db0" and "i \<noteq> rr_id r1"
  shows "view_kept view i db (snd (save_with_event ty refs m r1 db0))"
  using insert_items_plans [OF assms(1)] assms(2) by (auto simp: view_kept_def find_run_save)

lemma save_plan_other:
  assumes "save_generated_plan env j task plan tokens db = Inr (b, db')" and "i \<noteq> j"
  shows "view_kept view i db db'"
  using assms by (auto simp: save_generated_plan_def with_generated_plan_def Let_def dest!: owned_id
      intro!: save_other split: option.splits sum.splits)

lemma gap_plan_other:
  assumes "save_gap_resolution_plan env j task gaps db = Inr (b, db')" and "i \<noteq> j"
  shows "view_kept view i db db'"
  using assms by (auto simp: save_gap_resolution_plan_def Let_def insert_items_plans dest!: owned_id
      intro!: save_other split: option.splits sum.splits if_splits)

lemma replan_other:
  assumes "save_replanned_questions env j task qs db = Inr (b, db')" and "i \<noteq> j"
  shows "view_kept view i db db'"
  using assms by (auto simp: save_replanned_questions_def Let_def fold_append_event kept_save_simps insert_items_Inr
      dest!: owned_id split: option.splits sum.splits if_splits)


lemma defer_other:
  assumes "defer_retryable d env ob j task c x db = Inr (delay, db')" and "i \<noteq> j"
  shows "view_kept view i db db'"
  using assms by (auto simp: defer_retryable_def enqueue_Inr Let_def kept_save_simps
      dest!: owned_id split: option.splits sum.splits if_splits)

lemma fail_other: "fail_execution env j task c x diag db = Inr db' \<Longrightarrow> i \<noteq> j \<Longrightarrow> view_kept view i db db'"
  by (auto simp: fail_execution_def Let_def kept_save_simps dest!: owned_id split: option.splits sum.splits)

lemma finish_other:
  assumes "finish_report env j task limited u q rep v ver db = Inr db'" and "i \<noteq> j"
  shows "view_kept view i db db'"
proof -
  obtain r where "rr_id r = j" "writing_run j task db = Inr r"
    using assms(1) find_run_id by (fastforce simp: finish_report_def writing_run_Inr owned_run_Some split: sum.splits)
  then show ?thesis using assms unfolding finish_report_def Let_def case_prod_beta
    by (auto simp: append_event_def kept_save_simps)
qed

text \<open>The next version of a planned question is already stored.\<close>

definition blocked :: "uuid \<Rightarrow> int \<Rightarrow> database \<Rightarrow> bool" where
  "blocked i v db \<longleftrightarrow> map_option rr_plan_version (find_run i db) = Some v \<and> 1 \<le> v
     \<and> (\<exists>w \<in> set (db_items db). \<exists>x \<in> set (db_items db). plan_key w = (i, v, pw_question_id w)
          \<and> plan_key x = (i, v + 1, pw_question_id w))"

lemma blocked_raises:
  assumes "blocked i v db" and own: "owned_run i task db = Some r"
  shows "gaps \<noteq> [] \<Longrightarrow> \<exists>e. save_gap_resolution_plan env i task gaps db = Inl e"
    and "save_replanned_questions env i task qs db \<noteq> Inr (True, db')"
proof -
  obtain w x where v: "rr_plan_version r = v" "1 \<le> v" and w: "w \<in> set (db_items db)" "plan_key w = (i, v, pw_question_id w)"
    and x: "x \<in> set (db_items db)" "plan_key x = (i, v + 1, pw_question_id w)"
    using assms owned_id [OF own] by (auto simp: blocked_def)
  then have "w \<in> set (current_rows r (rr_plan_version r) db)"
    using owned_id [OF own] by (simp add: current_rows_def plan_key_def)
  then show "gaps \<noteq> [] \<Longrightarrow> \<exists>e. save_gap_resolution_plan env i task gaps db = Inl e"
    and "save_replanned_questions env i task qs db \<noteq> Inr (True, db')"
    using blocked_gap_plan [OF own] blocked_replan [OF own] v x by blast+
qed

lemma blocked_kept: "blocked i v db \<Longrightarrow> plans_kept i db db' \<Longrightarrow> blocked i v db'"
  unfolding blocked_def view_kept_def by (metis subsetD)

lemma replan_refused:
  "save_replanned_questions env i task qs db = Inr (False, db') \<Longrightarrow> db' = db"
  by (auto simp: save_replanned_questions_def Let_def split: option.splits sum.splits if_splits)

lemma gap_plan_blocked:
  assumes "blocked i v db" and "save_gap_resolution_plan env j task gaps db = Inr (b, db')"
  shows "plans_kept i db db'"
proof (cases "i = j")
  case True
  show ?thesis
  proof (cases "owned_run i task db")
    case None
    then show ?thesis using assms(2) True by (simp add: save_gap_resolution_plan_def)
  next
    case (Some r)
    then have "gaps = []" using blocked_raises(1) [OF assms(1) Some, of gaps env] assms(2) True by (cases "gaps = []") auto
    then show ?thesis using assms(2) True Some by (simp add: save_gap_resolution_plan_def Let_def split: if_splits)
  qed
qed (rule gap_plan_other [OF assms(2)])

lemma replan_blocked:
  assumes "blocked i v db" and "save_replanned_questions env j task qs db = Inr (b, db')"
  shows "plans_kept i db db'"
proof (cases "i = j")
  case True
  then have "\<not> b"
    using blocked_raises(2) [OF assms(1)] assms(2) by (cases "owned_run i task db") (auto simp: save_replanned_questions_def)
  then show ?thesis using replan_refused assms(2) by fastforce
qed (rule replan_other [OF assms(2)])

text \<open>A transaction that saves a generated plan for the run: the planner's, before the first round.\<close>

fun saves_plan :: "uuid \<Rightarrow> run_op \<Rightarrow> bool" where
  "saves_plan i (OpSavePlan env j task plan tokens) \<longleftrightarrow> j = i"
| "saves_plan i _ \<longleftrightarrow> False"

lemma step_keeps_blocked:
  assumes "lifecycle_step db op b db'" and "db_ok db" and "blocked i v db" and "\<not> saves_plan i op"
  shows "blocked i v db'"
proof (rule blocked_kept [OF assms(3)])
  have e: "exec_op op db = Inr (b, db')" and f: "fresh_op op db" using assms(1) by (auto elim: lifecycle_stepE)
  have found: "find_run i db \<noteq> None" using assms(3) by (auto simp: blocked_def)
  show "plans_kept i db db'"
  proof (cases op)
    case (OpCreate env j ob owner q bn)
    then show ?thesis using e f plan_view.exec_kept(1) [of env j ob owner q bn db b db' i] found by simp
  next
    case (OpReconcile env fresh locked n)
    then show ?thesis using e plan_view.exec_kept(2) [OF _ db_okD(1) [OF assms(2)]] by simp
  next
    case (OpSavePlan env j task plan tokens)
    then show ?thesis using e assms(4) save_plan_other [of env j task plan tokens db b db' i] by auto
  next
    case (OpGapPlan env j task gaps)
    then show ?thesis using e gap_plan_blocked [OF assms(3)] by simp
  next
    case (OpReplan env j task qs)
    then show ?thesis using e replan_blocked [OF assms(3)] by simp
  qed (use e in \<open>auto simp del: exec_op.simps intro: plan_view.exec_kept ends_kept\<close>)
qed

lemma steps_keep_blocked:
  "lifecycle_steps db tr db' \<Longrightarrow> db_ok db \<Longrightarrow> blocked i v db
     \<Longrightarrow> \<forall>x \<in> set tr. \<not> saves_plan i (fst (snd x)) \<Longrightarrow> blocked i v db'"
proof (induction rule: lifecycle_steps.induct)
  case (none db)
  then show ?case by simp
next
  case (step db tr db1 op b db2)
  then show ?case using step_keeps_blocked [OF step.hyps(2)] steps_ok by simp
qed

text \<open>
  C15. A replan that names no question of the current plan returns False but commits the rows it had
  already added for the next version, while the run keeps its version. That blocks the run for good: after
  any further run transactions of any workers, as long as none saves a newly generated plan for the run, the
  plan version is still the same, every gap plan of a worker that holds the run raises, and no replan with
  new questions succeeds, whatever gaps or questions they bring, because the rows of the next version collide
  with the ones left behind.
\<close>

theorem unmatched_replan_blocks_later_replans:
  assumes own: "owned_run i task db = Some r" and v: "1 \<le> rr_plan_version r"
    and rows: "current_rows r (rr_plan_version r) db \<noteq> []"
    and unmatched: "fst ` set (take 3 gaps) \<inter> pw_question_id ` set (current_rows r (rr_plan_version r) db) = {}"
    and call: "save_gap_resolution_plan env i task gaps db = Inr (b, db1)" and "gaps \<noteq> []"
    and ok: "db_ok db" and later: "lifecycle_steps db1 tr db2"
    and no_plan: "\<forall>x \<in> set tr. \<not> saves_plan i (fst (snd x))"
  shows "\<not> b \<and> db_runs db1 = db_runs db
    \<and> length (db_items db1) = length (db_items db) + length (current_rows r (rr_plan_version r) db)
    \<and> map_option rr_plan_version (find_run i db2) = Some (rr_plan_version r)
    \<and> (\<forall>env' task' gaps'. owned_run i task' db2 \<noteq> None \<and> gaps' \<noteq> []
          \<longrightarrow> (\<exists>e. save_gap_resolution_plan env' i task' gaps' db2 = Inl e))
    \<and> (\<forall>env' task' qs db3. save_replanned_questions env' i task' qs db2 \<noteq> Inr (True, db3))"
proof -
  let ?rows = "current_rows r (rr_plan_version r) db" and ?t = "map_of (dict_update [] (take 3 gaps))"
  have "?t (pw_question_id w) = None" if "w \<in> set ?rows" for w
  proof (rule ccontr)
    assume "?t (pw_question_id w) \<noteq> None"
    then have "pw_question_id w \<in> fst ` set (take 3 gaps)" by (rule targets_keys)
    then show False using unmatched that by (meson disjoint_iff imageI)
  qed
  then have no: "filter (\<lambda>w. ?t (pw_question_id w) \<noteq> None) ?rows = []" by (simp add: filter_empty_conv)
  have nv: "\<not> rr_plan_version r < 1" using v by simp
  obtain new where new: "traverse (replanned_row ?t (rr_plan_version r + 1)) ?rows = Inr new"
      and ins: "insert_items new db = Inr db1" and b: "\<not> b"
  proof -
    have "(case traverse (replanned_row ?t (rr_plan_version r + 1)) ?rows of Inl e \<Rightarrow> Inl e
        | Inr new \<Rightarrow> (case insert_items new db of Inl e \<Rightarrow> Inl e | Inr d \<Rightarrow> Inr (False, d))) = Inr (b, db1)"
      using call unfolding save_gap_resolution_plan_def Let_def
      by (simp only: own no nv assms(6) option.case if_False if_True list.map simp_thms)
    then show ?thesis using that by (auto split: sum.splits)
  qed
  have db1: "db1 = db\<lparr>db_items := db_items db @ new\<rparr>" using ins by (simp add: insert_items_Inr)
  have own1: "owned_run i task db1 = Some r" using own by (simp add: db1 owned_run_items)
  have "pw_version y = rr_plan_version r + 1" if "y \<in> set new" for y
    using traverse_set_back [OF new that] replanned_row_key by (fastforce simp: plan_key_def)
  then have kept: "current_rows r (rr_plan_version r) db1 = ?rows"
    unfolding current_rows_def db1 by (simp add: filter_empty_conv)
  obtain w where w: "w \<in> set ?rows" using rows by (meson last_in_set)
  obtain x where "x \<in> set new" "plan_key x = (pw_run_id w, rr_plan_version r + 1, pw_question_id w)"
    using traverse_set [OF new w] replanned_row_key by metis
  then have x: "x \<in> set (db_items db1)" "plan_key x = (i, rr_plan_version r + 1, pw_question_id w)"
    using current_rows_run [OF w] owned_runD [OF own] by (simp_all add: db1)
  have len: "length (db_items db1) = length (db_items db) + length ?rows"
    using traverse_Inr_length [OF new] by (simp add: db1)
  have "w \<in> set (db_items db1)" "plan_key w = (i, rr_plan_version r, pw_question_id w)"
    using w owned_id [OF own] by (auto simp: db1 current_rows_def plan_key_def)
  then have "blocked i (rr_plan_version r) db1"
    using owned_id [OF own1] v x by (auto simp: blocked_def)
  moreover have "db_ok db1"
  proof (rule steps_ok [OF _ ok])
    have "lifecycle_step db (OpGapPlan env i task gaps) b db1" using call by (intro lifecycle_step.committed) simp_all
    then show "lifecycle_steps db ([] @ [(db, OpGapPlan env i task gaps, b)]) db1"
      by (rule lifecycle_steps.step [OF lifecycle_steps.none])
  qed
  ultimately have after: "blocked i (rr_plan_version r) db2" using steps_keep_blocked [OF later] no_plan by blast
  have gap: "\<exists>e. save_gap_resolution_plan env' i task' gaps' db2 = Inl e"
    if "owned_run i task' db2 \<noteq> None" "gaps' \<noteq> []" for env' task' gaps'
    using that blocked_raises(1) [OF after] by blast
  have "save_replanned_questions env' i task' qs db2 \<noteq> Inr (True, db3)" for env' task' qs db3
    using blocked_raises(2) [OF after] by (cases "owned_run i task' db2") (auto simp: save_replanned_questions_def)
  then show ?thesis using gap b len after by (simp add: db1 blocked_def)
qed

text \<open>A running run with one planned question, whose evaluation names another one.\<close>

definition demo_planned :: database where
  "demo_planned = (snd demo_takeover)\<lparr>
     db_runs := map (\<lambda>r. r\<lparr>rr_plan_version := 1\<rparr>) (db_runs (snd demo_takeover)),
     db_items := [\<lparr>pw_run_id = demo_run_id, pw_version = 1, pw_question_id = ''q1'', pw_question = ''why'',
       pw_priority = 1, pw_rationale = [], pw_requirements = [], pw_hints = [], pw_status = ''pending''\<rparr>]\<rparr>"

lemma demo_planned_owned:
  "\<exists>r. owned_run demo_run_id demo_retry_task demo_planned = Some r \<and> rr_plan_version r = 1"
proof -
  have mapped: "find (\<lambda>r. rr_id r = i) (map (\<lambda>r. r\<lparr>rr_plan_version := 1\<rparr>) xs)
      = map_option (\<lambda>r. r\<lparr>rr_plan_version := 1\<rparr>) (find (\<lambda>r. rr_id r = i) xs)" for i xs
    by (induction xs) simp_all
  then show ?thesis
    using demo_takeover_facts by (auto simp: owned_run_Some demo_planned_def find_run_def mapped)
qed

lemma demo_planned_ok: "db_ok demo_planned"
proof -
  have "db_ok (snd demo_takeover)"
    unfolding demo_takeover_def demo_history_def using steps_ok [OF run_ops_steps steps_ok [OF run_ops_steps empty_ok]] .
  moreover have "row_ok (r\<lparr>rr_plan_version := 1\<rparr>) = row_ok r" for r by (simp add: row_ok_def)
  ultimately show ?thesis
    by (auto simp: db_ok_def demo_planned_def log_ok_def run_events_def dispatch_ok_def comp_def image_image)
qed

text \<open>A retry of the same worker, between the two gap plans.\<close>

definition demo_later :: run_op where
  "demo_later = OpRecordRetry (demo_clock 6) demo_run_id demo_retry_task
     \<lparr>mr_role = ''extractor'', mr_failed_attempt = 1, mr_max_attempts = 3, mr_error_code = ''MODEL_TIMEOUT'',
      mr_detail_code = None, mr_delay_seconds = 1\<rparr>"

lemma unmatched_replan_blocks_later_replans_witness:
  "\<exists>db1. save_gap_resolution_plan (demo_clock 5) demo_run_id demo_retry_task [(''q9'', [])] demo_planned = Inr (False, db1)
     \<and> (\<exists>e. save_gap_resolution_plan (demo_clock 7) demo_run_id demo_retry_task [(''q1'', [])]
            (snd (run_ops [demo_later] db1)) = Inl e)"
proof -
  obtain r where r: "owned_run demo_run_id demo_retry_task demo_planned = Some r" "rr_plan_version r = 1"
    using demo_planned_owned by blast
  have rows: "current_rows r 1 demo_planned = db_items demo_planned"
    using owned_runD [OF r(1)] by (simp add: current_rows_def demo_planned_def)
  have one: "pw_question_id ` set (db_items demo_planned) = {''q1''}" by (simp add: demo_planned_def)
  obtain db1 where call:
    "save_gap_resolution_plan (demo_clock 5) demo_run_id demo_retry_task [(''q9'', [])] demo_planned = Inr (False, db1)"
    using r rows unfolding save_gap_resolution_plan_def Let_def
    by (simp add: demo_planned_def replanned_row_def insert_items_def plan_key_def)
  have stored: "current_rows r (rr_plan_version r) demo_planned \<noteq> []"
    using rows r(2) by (simp add: demo_planned_def)
  have none: "fst ` set (take 3 [(''q9'', [])])
      \<inter> pw_question_id ` set (current_rows r (rr_plan_version r) demo_planned) = {}"
    using rows r(2) one by simp
  have quiet: "\<forall>x \<in> set (fst (run_ops [demo_later] db1)). \<not> saves_plan demo_run_id (fst (snd x))"
    by (simp add: demo_later_def split: sum.split prod.split)
  have v: "1 \<le> rr_plan_version r" using r(2) by simp
  note blocks = unmatched_replan_blocks_later_replans [OF r(1) v stored none call list.distinct(2) demo_planned_ok
      run_ops_steps quiet]
  have same: "db_runs db1 = db_runs demo_planned" using blocks by (elim conjE)
  have block: "\<exists>e. save_gap_resolution_plan (demo_clock 7) demo_run_id demo_retry_task [(''q1'', [])]
            (snd (run_ops [demo_later] db1)) = Inl e"
    if "owned_run demo_run_id demo_retry_task (snd (run_ops [demo_later] db1)) \<noteq> None"
    using blocks that by (elim conjE) (metis list.distinct(2))
  have own: "owned_run demo_run_id demo_retry_task db1 = Some r"
    using r(1) find_run_runs [OF same, of demo_run_id] by (simp add: owned_run_def)
  have "owned_run demo_run_id demo_retry_task (snd (run_ops [demo_later] db1)) \<noteq> None"
    using owned_runD [OF own] owned_id [OF own] by (simp add: demo_later_def record_model_retry_def owned_run_def find_run_save)
  then show ?thesis using block call by blast
qed

end
