(* ===== verification/State_Runtime.thy ===== *)
theory State_Runtime
  imports Research_State Run_Lifecycle
begin

text \<open>
  The projection of a run to the state of the graph: \<open>app/infrastructure/db/state_runtime.py\<close>.

  \<open>ensure_initialized\<close> stores a first snapshot, \<open>synchronize\<close> turns the rows of a run into one patch,
  applies it with the reducer of \<open>Research_State\<close>, and stores the new snapshot and the patch. Other
  transactions may change runs, evidence and gaps between two calls. The lemmas say what the
  projection yields on every row; the properties are the consistency of snapshots and patch log
  after any sequence of such steps, and exactly when a synchronisation is refused.
\<close>

section \<open>Numbers in snapshots\<close>

text \<open>\<open>min(1.0, max(0.0, x))\<close>: a comparison with NaN is false, so NaN becomes 0.\<close>

definition score_of_float :: "pyfloat \<Rightarrow> rat" where
  "score_of_float v = (case v of Fin q \<Rightarrow> clamp01 q | PosInf \<Rightarrow> 1 | NegInf \<Rightarrow> 0 | NaN \<Rightarrow> 0)"

definition score_value :: "json \<Rightarrow> rat" where
  "score_value v = (case v of
       JInt n \<Rightarrow> clamp01 (of_int n)
     | JNum q \<Rightarrow> clamp01 q
     | JStr s \<Rightarrow> (case parse_float s of None \<Rightarrow> 0 | Some x \<Rightarrow> score_of_float x)
     | _ \<Rightarrow> 0)"

lemma score_value_ok [simp]: "score_ok (score_value v)"
  by (simp add: score_value_def score_of_float_def score_ok_def
      split: json.split option.split pyfloat.split)

text \<open>\<open>max(low, int(v or other))\<close>.\<close>

definition bounded_int :: "int \<Rightarrow> int \<Rightarrow> json \<Rightarrow> int result" where
  "bounded_int low other v =
     (case (if truthy v then py_int v else Inr other) of Inl e \<Rightarrow> Inl e | Inr n \<Rightarrow> Inr (max low n))"

lemma bounded_int_ge: "bounded_int low other v = Inr n \<Longrightarrow> low \<le> n"
  by (auto simp: bounded_int_def split: sum.splits)

definition read_fields :: "(int \<times> int \<times> json) list \<Rightarrow> int list result" where
  "read_fields = traverse (\<lambda>(low, other, v). bounded_int low other v)"

lemma read_fields_ge:
  "read_fields fs = Inr xs \<Longrightarrow> length xs = length fs \<and> (\<forall>k < length fs. fst (fs ! k) \<le> xs ! k)"
  unfolding read_fields_def
proof (induction fs arbitrary: xs)
  case Nil
  then show ?case by simp
next
  case (Cons f fs)
  obtain low other v where f: "f = (low, other, v)" by (cases f)
  with Cons.prems obtain n ys where "bounded_int low other v = Inr n"
      and ys: "traverse (\<lambda>(low, other, v). bounded_int low other v) fs = Inr ys" and xs: "xs = n # ys"
    by (auto split: sum.splits)
  then have "low \<le> n" using bounded_int_ge by blast
  then show ?case using Cons.IH [OF ys] f xs by (auto simp: nth_Cons split: nat.split)
qed

section \<open>Projection of a run row\<close>

definition budget_limits_of :: "json_object \<Rightarrow> budget_limits result" where
  "budget_limits_of b =
     (let get = (\<lambda>d k. jget_or (JInt d) k b); pages = jget_or (JInt 30) ''max_pages'' b in
      case read_fields
        [(1, 8, get 8 ''max_iterations''), (0, 0, get 15 ''max_searches''),
         (0, 0, jget_or (get 15 ''max_searches'') ''max_logical_queries'' b),
         (0, 0, get 30 ''max_provider_requests''), (0, 0, get 30 ''max_pages''),
         (0, 0, jget_or pages ''max_pages_fetched'' b), (0, 0, jget_or pages ''max_pages_extracted'' b),
         (0, 0, jget_or pages ''max_extraction_calls'' b), (0, 0, get 5 ''max_verification_calls''),
         (0, 0, get 60 ''max_scheduler_actions''), (1, 100000, get 100000 ''max_tokens''),
         (1, 720, get 720 ''max_wall_clock_seconds'')] of
        Inl e \<Rightarrow> Inl e
      | Inr xs \<Rightarrow> Inr
          \<lparr>bl_max_iterations = xs ! 0, bl_max_searches = xs ! 1, bl_max_logical_queries = xs ! 2,
           bl_max_provider_requests = xs ! 3, bl_max_pages = xs ! 4, bl_max_pages_fetched = xs ! 5,
           bl_max_pages_extracted = xs ! 6, bl_max_extraction_calls = xs ! 7,
           bl_max_verification_calls = xs ! 8, bl_max_scheduler_actions = xs ! 9,
           bl_max_model_tokens = xs ! 10, bl_max_wall_clock_seconds = xs ! 11\<rparr>)"

definition node_tokens :: "string \<Rightarrow> json_object \<Rightarrow> int result" where
  "node_tokens node usage =
     (case jget_or (JObj []) node usage of
        JObj item \<Rightarrow> py_int (jget_or (JInt 0) ''total_tokens'' item) | _ \<Rightarrow> Inr 0)"

definition budget_usage_of :: "json_object \<Rightarrow> budget_usage result" where
  "budget_usage_of u =
     (let get = (\<lambda>k. jget_or (JInt 0) k u) in
      case node_tokens ''planner'' u of Inl e \<Rightarrow> Inl e | Inr planner \<Rightarrow>
      case node_tokens ''writer'' u of Inl e \<Rightarrow> Inl e | Inr writer \<Rightarrow>
      case read_fields
        [(0, 0, get ''iterations''), (0, 0, get ''searches''),
         (0, 0, jget_or (get ''searches'') ''logical_queries'' u), (0, 0, get ''search_provider_requests''),
         (0, 0, get ''pages''), (0, 0, jget_or (get ''pages'') ''pages_fetched'' u),
         (0, 0, jget_or (get ''pages'') ''pages_extracted'' u), (0, 0, get ''extraction_calls''),
         (0, 0, get ''verification_calls''), (0, 0, get ''scheduler_actions''),
         (0, 0, jget_or (get ''iterations'') ''productive_iterations'' u), (0, 0, get ''technical_retries'')] of
        Inl e \<Rightarrow> Inl e
      | Inr xs \<Rightarrow>
        (case int_or_zero (get ''evidence_total_tokens'') of
           Inl e \<Rightarrow> Inl e
         | Inr evidence \<Rightarrow> Inr
             \<lparr>bu_iterations = xs ! 0, bu_searches = xs ! 1, bu_logical_queries = xs ! 2,
              bu_search_provider_requests = xs ! 3, bu_pages = xs ! 4, bu_pages_fetched = xs ! 5,
              bu_pages_extracted = xs ! 6, bu_extraction_calls = xs ! 7, bu_verification_calls = xs ! 8,
              bu_scheduler_actions = xs ! 9, bu_productive_iterations = xs ! 10,
              bu_technical_retries = xs ! 11, bu_model_tokens = max 0 (planner + writer + evidence),
              bu_model_budget_guarded = truthy (jget ''model_budget_guarded'' u)\<rparr>))"

definition quality_of :: "json_object \<Rightarrow> quality_snapshot result" where
  "quality_of q =
     (let get = (\<lambda>k. score_value (jget_or (JNum 0) k q)) in
      case bounded_int 0 0 (jget_or (JInt 0) ''low_information_gain_streak'' q) of
        Inl e \<Rightarrow> Inl e
      | Inr streak \<Rightarrow> Inr
          \<lparr>qs_coverage = get ''coverage'', qs_information_gain = get ''information_gain'',
           qs_low_gain_streak = streak, qs_source_quality = get ''source_quality'',
           qs_source_independence = get ''source_independence'', qs_cross_validation = get ''cross_validation'',
           qs_freshness = get ''freshness'', qs_citation_support = get ''citation_support''\<rparr>)"

lemma read_fields_nth: "read_fields fs = Inr xs \<Longrightarrow> k < length fs \<Longrightarrow> fst (fs ! k) \<le> xs ! k"
  using read_fields_ge by blast

lemma read_fields_low:
  "read_fields fs = Inr xs \<Longrightarrow> list_all (\<lambda>f. 0 \<le> fst f) fs \<Longrightarrow> k < length fs \<Longrightarrow> 0 \<le> xs ! k"
  using read_fields_nth [of fs xs k] by (fastforce simp: list_all_length)

lemma budget_limits_of_ok:
  assumes "budget_limits_of b = Inr l"
  shows "budget_limits_ok l"
proof -
  obtain fs xs where r: "read_fields fs = Inr xs"
      and l: "bl_max_iterations l = xs ! 0" "bl_max_searches l = xs ! 1" "bl_max_logical_queries l = xs ! 2"
        "bl_max_provider_requests l = xs ! 3" "bl_max_pages l = xs ! 4" "bl_max_pages_fetched l = xs ! 5"
        "bl_max_pages_extracted l = xs ! 6" "bl_max_extraction_calls l = xs ! 7"
        "bl_max_verification_calls l = xs ! 8" "bl_max_scheduler_actions l = xs ! 9"
        "bl_max_model_tokens l = xs ! 10" "bl_max_wall_clock_seconds l = xs ! 11"
      and low: "list_all (\<lambda>f. 0 \<le> fst f) fs" "length fs = 12"
        "fst (fs ! 0) = 1" "fst (fs ! 10) = 1" "fst (fs ! 11) = 1"
    using assms unfolding budget_limits_of_def Let_def by (auto split: sum.splits)
  have "0 \<le> xs ! k" if "k < 12" for k using read_fields_low [OF r low(1)] that low(2) by simp
  moreover have "1 \<le> xs ! 0" "1 \<le> xs ! 10" "1 \<le> xs ! 11"
    using read_fields_nth [OF r, of 0] read_fields_nth [OF r, of 10] read_fields_nth [OF r, of 11] low by simp_all
  ultimately show ?thesis by (simp add: budget_limits_ok_def l)
qed

lemma budget_usage_of_ok:
  assumes "budget_usage_of u = Inr x"
  shows "budget_usage_ok x"
proof -
  obtain fs xs where r: "read_fields fs = Inr xs"
      and x: "bu_iterations x = xs ! 0" "bu_searches x = xs ! 1" "bu_logical_queries x = xs ! 2"
        "bu_search_provider_requests x = xs ! 3" "bu_pages x = xs ! 4" "bu_pages_fetched x = xs ! 5"
        "bu_pages_extracted x = xs ! 6" "bu_extraction_calls x = xs ! 7" "bu_verification_calls x = xs ! 8"
        "bu_scheduler_actions x = xs ! 9" "bu_productive_iterations x = xs ! 10"
        "bu_technical_retries x = xs ! 11" "0 \<le> bu_model_tokens x"
      and low: "list_all (\<lambda>f. 0 \<le> fst f) fs" "length fs = 12"
    using assms unfolding budget_usage_of_def Let_def by (auto split: sum.splits)
  have "0 \<le> xs ! k" if "k < 12" for k using read_fields_low [OF r low(1)] that low(2) by simp
  then show ?thesis by (simp add: budget_usage_ok_def x)
qed

lemma quality_of_ok: "quality_of q = Inr x \<Longrightarrow> quality_ok x"
  by (auto simp: quality_of_def quality_ok_def Let_def dest: bounded_int_ge split: sum.splits)

fun state_status :: "stored_status \<Rightarrow> run_phase \<Rightarrow> run_status" where
  "state_status RunQueued ph = SQueued"
| "state_status RunCompleted ph = SCompleted"
| "state_status RunCompletedWithLimitations ph = SCompletedWithLimitations"
| "state_status RunCancelled ph = SCancelled"
| "state_status RunCredentialsRequired ph = SCredentialsRequired"
| "state_status RunInterrupted ph = SInterrupted"
| "state_status RunFailed ph = SFailed"
| "state_status RunRunning ph =
     (if ph = PhaseWriting then SWriting else if ph = PhaseVerifying then SVerifying else SResearching)"

fun state_phase :: "run_phase \<Rightarrow> research_phase" where
  "state_phase PhaseInitializing = PhInit"
| "state_phase PhasePlanning = PhPlan"
| "state_phase PhaseResearching = PhResearch"
| "state_phase PhaseEvaluating = PhEvaluate"
| "state_phase PhaseWriting = PhWrite"
| "state_phase PhaseVerifying = PhVerify"
| "state_phase PhaseTerminal = PhFinalize"

definition BUDGET_STOPS :: "string list" where
  "BUDGET_STOPS =
     [''research_budget_exhausted'', ''RESEARCH_BUDGET_EXHAUSTED'', ''page_budget_exhausted'',
      ''search_budget_exhausted'', ''token_budget_exhausted'', ''iteration_budget_exhausted'',
      ''deadline_exhausted'', ''logical_query_budget_exhausted'', ''provider_request_budget_exhausted'',
      ''fetched_page_budget_exhausted'', ''extracted_page_budget_exhausted'', ''action_budget_exhausted'']"

definition state_stop_reason :: "string option \<Rightarrow> stop_reason option" where
  "state_stop_reason reason =
     (case reason of
        None \<Rightarrow> None
      | Some s \<Rightarrow>
          if s \<in> {MODEL_RETRY_PENDING, SEARCH_RETRY_PENDING} then None
          else if s \<in> {''quality_met'', ''completed''} then Some SRQualityMet
          else if s = ''completed_with_limitations'' then Some SRCompletedWithLimitations
          else if s \<in> set BUDGET_STOPS then Some SRBudgetExhausted
          else if s = ''stagnation'' then Some SRStagnation
          else if s = ''sources_exhausted'' then Some SRSourcesExhausted
          else if s = ''user_cancelled'' then Some SRCancelled
          else if s = ''credentials_required'' then Some SRCredentialsRequired
          else Some SRFatalError)"

definition gap_type_of :: "string \<Rightarrow> gap_type" where
  "gap_type_of s =
     (if s = ''weak'' then GTWeak else if s = ''stale'' then GTStale else if s = ''conflict'' then GTConflict
      else if s = ''insufficient_diversity'' then GTInsufficientDiversity else GTMissing)"

definition gap_status_of :: "string \<Rightarrow> gap_status" where
  "gap_status_of s =
     (if s = ''resolving'' then GSResolving else if s = ''resolved'' then GSResolved
      else if s = ''abandoned'' then GSAbandoned else GSOpen)"

definition question_uuid :: "uuid \<Rightarrow> string \<Rightarrow> uuid" where
  "question_uuid run q = UUID5 ''question:'' [PId run, PStr q]"

section \<open>Rows and tables\<close>

text \<open>An evidence row with the domain of its source, as the join returns it.\<close>

record evidence_row =
  er_id :: uuid
  er_run_id :: uuid
  er_question_id :: string
  er_score :: rat
  er_accepted :: bool
  er_domain :: string

record gap_row =
  gw_id :: uuid
  gw_run_id :: uuid
  gw_question_id :: string
  gw_type :: string
  gw_description :: string
  gw_criteria :: string
  gw_severity :: rat
  gw_status :: string
  gw_attempts :: int

record snapshot_row =
  sn_run_id :: uuid
  sn_version :: int
  sn_state :: research_state
  sn_hash :: string
  sn_updated_at :: timestamp

record patch_row =
  pt_id :: uuid
  pt_run_id :: uuid
  pt_base :: int
  pt_result :: int
  pt_node :: string
  pt_patch :: state_patch
  pt_hash :: string

text \<open>The tables of the runtime; evidence and gaps stand in the order of their creation.\<close>

record runtime =
  rt_db :: database
  rt_evidence :: "evidence_row list"
  rt_gaps :: "gap_row list"
  rt_snapshots :: "snapshot_row list"
  rt_patches :: "patch_row list"

text \<open>
  What the code takes from outside: the clock, the hash of a dumped state, and Pydantic's validation
  of a coverage dimension, which returns only instances that satisfy the field constraints.
\<close>

record state_env =
  se_now :: timestamp
  se_hash :: "research_state \<Rightarrow> string"
  se_dimension :: "json_object \<Rightarrow> coverage_dimension result"

definition dimension_parser_ok :: "state_env \<Rightarrow> bool" where
  "dimension_parser_ok env \<longleftrightarrow> (\<forall>o' d. se_dimension env o' = Inr d \<longrightarrow> coverage_dimension_ok d)"

definition coverage_map_of :: "state_env \<Rightarrow> json_object \<Rightarrow> coverage_dimension list result" where
  "coverage_map_of env q =
     (case jget_or (JList []) ''coverage_map'' q of
        JList items \<Rightarrow> traverse (se_dimension env)
          (concat (map (\<lambda>v. case v of JObj o' \<Rightarrow> [o'] | _ \<Rightarrow> []) items))
      | _ \<Rightarrow> Inr [])"

definition find_snapshot :: "uuid \<Rightarrow> runtime \<Rightarrow> snapshot_row option" where
  "find_snapshot i rt = find (\<lambda>s. sn_run_id s = i) (rt_snapshots rt)"

definition put_snapshot :: "snapshot_row \<Rightarrow> runtime \<Rightarrow> runtime" where
  "put_snapshot s rt =
     rt\<lparr>rt_snapshots := map (\<lambda>x. if sn_run_id x = sn_run_id s then s else x) (rt_snapshots rt)\<rparr>"

definition insert_patch :: "patch_row \<Rightarrow> runtime \<Rightarrow> runtime result" where
  "insert_patch p rt =
     (if (pt_run_id p, pt_result p) \<in> set (map (\<lambda>x. (pt_run_id x, pt_result x)) (rt_patches rt))
      then Inl (IntegrityError ''uq_state_patch_run_version'')
      else Inr (rt\<lparr>rt_patches := rt_patches rt @ [p]\<rparr>))"

section \<open>Initialising and synchronising\<close>

definition initial_state ::
    "uuid \<Rightarrow> run_status \<Rightarrow> research_phase \<Rightarrow> budget_limits \<Rightarrow> budget_usage \<Rightarrow> quality_snapshot
       \<Rightarrow> coverage_dimension list \<Rightarrow> stop_reason option \<Rightarrow> research_state" where
  "initial_state i status ph limits usage quality coverage stop =
     \<lparr>st_schema_version = ''1'', st_graph_schema_revision = ''2026-08-v1'', st_run_id = i, st_version = 0,
      st_status = status, st_phase = ph, st_iteration = 0, st_current_question_id = None, st_known = [],
      st_gaps = [], st_next_action = None, st_budget_limits = limits, st_budget_usage = usage,
      st_quality = quality, st_coverage_map = coverage, st_no_progress = 0, st_cancel_requested = False,
      st_stop_reason = stop\<rparr>"

definition first_state :: "state_env \<Rightarrow> run_row \<Rightarrow> research_state result" where
  "first_state env r =
     (case budget_limits_of (rr_budget r) of Inl e \<Rightarrow> Inl e | Inr limits \<Rightarrow>
      case budget_usage_of (rr_usage r) of Inl e \<Rightarrow> Inl e | Inr usage \<Rightarrow>
      case quality_of (rr_quality r) of Inl e \<Rightarrow> Inl e | Inr quality \<Rightarrow>
      case coverage_map_of env (rr_quality r) of Inl e \<Rightarrow> Inl e | Inr coverage \<Rightarrow>
      model_validate (initial_state (rr_id r) (state_status (rr_status r) (rr_phase r))
        (state_phase (rr_phase r)) limits usage quality coverage (state_stop_reason (rr_termination r))))"

definition ensure_initialized ::
    "state_env \<Rightarrow> uuid \<Rightarrow> runtime \<Rightarrow> (research_state \<times> runtime) result" where
  "ensure_initialized env i rt =
     (case find_snapshot i rt of
        Some sn \<Rightarrow> (case model_validate (sn_state sn) of Inl e \<Rightarrow> Inl e | Inr s \<Rightarrow> Inr (s, rt))
      | None \<Rightarrow>
        (case find_run i (rt_db rt) of
           None \<Rightarrow> Inl (LookupErr ''state snapshot'')
         | Some r \<Rightarrow>
           (case first_state env r of
              Inl e \<Rightarrow> Inl e
            | Inr s \<Rightarrow>
              let (r', db') = save_with_event ''state.initialized''
                    [(''state_version'', JInt (st_version s)), (''state_hash'', JStr (se_hash env s))] None
                    r (rt_db rt)
              in Inr (s, rt\<lparr>rt_db := db', rt_snapshots := rt_snapshots rt @
                   [\<lparr>sn_run_id = i, sn_version = st_version s, sn_state = s, sn_hash = se_hash env s,
                     sn_updated_at = se_now env\<rparr>]\<rparr>))))"

definition get_state :: "uuid \<Rightarrow> runtime \<Rightarrow> research_state result" where
  "get_state i rt =
     (case find_snapshot i rt of
        None \<Rightarrow> Inl (LookupErr ''state snapshot'') | Some sn \<Rightarrow> model_validate (sn_state sn))"

definition claim_of_evidence :: "uuid \<Rightarrow> evidence_row \<Rightarrow> known_claim" where
  "claim_of_evidence i e =
     \<lparr>kc_claim_id = er_id e, kc_question_id = question_uuid i (er_question_id e),
      kc_dimension_key = er_question_id e, kc_status = KSupported, kc_confidence = clamp01 (er_score e),
      kc_evidence_ids = [er_id e], kc_owner_keys = [er_domain e]\<rparr>"

definition project_gap :: "uuid \<Rightarrow> gap_row \<Rightarrow> uuid list \<Rightarrow> research_gap" where
  "project_gap i w claims =
     (let resolved = (gap_status_of (gw_status w) = GSResolved);
          ids = (if resolved then claims else [])
      in \<lparr>rg_gap_id = gw_id w, rg_question_id = question_uuid i (gw_question_id w),
          rg_dimension_key = gw_question_id w, rg_gap_type = gap_type_of (gw_type w),
          rg_description = gw_description w, rg_acceptance_criteria = gw_criteria w,
          rg_severity = clamp01 (gw_severity w), rg_expected_gain = 1 / 2,
          rg_resolution_attempts = gw_attempts w,
          rg_status = (if resolved \<and> ids = [] then GSAbandoned else gap_status_of (gw_status w)),
          rg_resolved_by = ids\<rparr>)"

definition accepted_evidence :: "uuid \<Rightarrow> runtime \<Rightarrow> evidence_row list" where
  "accepted_evidence i rt = filter (\<lambda>e. er_run_id e = i \<and> er_accepted e) (rt_evidence rt)"

definition gaps_of_run :: "uuid \<Rightarrow> runtime \<Rightarrow> gap_row list" where
  "gaps_of_run i rt = filter (\<lambda>w. gw_run_id w = i) (rt_gaps rt)"

definition projected_claims :: "uuid \<Rightarrow> runtime \<Rightarrow> known_claim list" where
  "projected_claims i rt = map (claim_of_evidence i) (accepted_evidence i rt)"

definition projected_gaps :: "uuid \<Rightarrow> runtime \<Rightarrow> research_gap list" where
  "projected_gaps i rt = map (\<lambda>w. project_gap i w
     (map er_id (filter (\<lambda>e. er_question_id e = gw_question_id w) (accepted_evidence i rt))))
     (gaps_of_run i rt)"

definition project_patch ::
    "state_env \<Rightarrow> uuid \<Rightarrow> uuid \<Rightarrow> research_state \<Rightarrow> run_row \<Rightarrow> runtime \<Rightarrow> state_patch result" where
  "project_patch env patch_id i current r rt =
     (case traverse validate_known_claim (projected_claims i rt) of Inl e \<Rightarrow> Inl e | Inr known \<Rightarrow>
      case traverse validate_research_gap (projected_gaps i rt) of Inl e \<Rightarrow> Inl e | Inr gaps \<Rightarrow>
      case budget_usage_of (rr_usage r) of Inl e \<Rightarrow> Inl e | Inr usage \<Rightarrow>
      case quality_of (rr_quality r) of Inl e \<Rightarrow> Inl e | Inr quality \<Rightarrow>
      case coverage_map_of env (rr_quality r) of Inl e \<Rightarrow> Inl e | Inr coverage \<Rightarrow>
      Inr \<lparr>sp_patch_id = patch_id, sp_base_version = st_version current, sp_known_upserts = known,
           sp_gap_upserts = gaps, sp_next_action = None, sp_budget_usage = Some usage,
           sp_quality = Some quality, sp_coverage_map = Some coverage,
           sp_phase = Some (state_phase (rr_phase r)),
           sp_status = Some (state_status (rr_status r) (rr_phase r)),
           sp_stop_reason = state_stop_reason (rr_termination r),
           sp_clear_stop_reason = (rr_termination r = None)\<rparr>)"

definition store_state ::
    "state_env \<Rightarrow> string \<Rightarrow> uuid \<Rightarrow> state_patch \<Rightarrow> research_state \<Rightarrow> snapshot_row \<Rightarrow> run_row \<Rightarrow> runtime
       \<Rightarrow> runtime result" where
  "store_state env node i patch updated sn r rt =
     (let hash = se_hash env updated;
          rt1 = put_snapshot (sn\<lparr>sn_version := st_version updated, sn_state := updated, sn_hash := hash,
                  sn_updated_at := se_now env\<rparr>) rt
      in case insert_patch \<lparr>pt_id = sp_patch_id patch, pt_run_id = i, pt_base = sp_base_version patch,
                 pt_result = st_version updated, pt_node = node, pt_patch = patch, pt_hash = hash\<rparr> rt1 of
           Inl e \<Rightarrow> Inl e
         | Inr rt2 \<Rightarrow> Inr (rt2\<lparr>rt_db := snd (save_with_event ''state.patch_applied''
             [(''node'', JStr node), (''base_version'', JInt (sp_base_version patch)),
              (''result_version'', JInt (st_version updated)), (''state_hash'', JStr hash)] None r (rt_db rt2))\<rparr>))"

definition synchronize ::
    "state_env \<Rightarrow> uuid \<Rightarrow> uuid \<Rightarrow> string \<Rightarrow> dispatch_key option \<Rightarrow> runtime \<Rightarrow> (research_state \<times> runtime) result" where
  "synchronize env patch_id i node task rt =
     (case (find_snapshot i rt, find_run i (rt_db rt)) of
        (Some sn, Some r) \<Rightarrow>
          if (case task of None \<Rightarrow> False | Some t \<Rightarrow> rr_worker r \<noteq> Some t)
            then Inl (LeaseLost ''state runtime'')
          else (case model_validate (sn_state sn) of
              Inl e \<Rightarrow> Inl e
            | Inr current \<Rightarrow>
              if st_version current \<noteq> sn_version sn then Inl (VersionConflict (sn_version sn) (st_version current))
              else (case project_patch env patch_id i current r rt of
                  Inl e \<Rightarrow> Inl e
                | Inr patch \<Rightarrow>
                  (case apply_patch current patch of
                     Inl e \<Rightarrow> Inl e
                   | Inr updated \<Rightarrow>
                     (case store_state env node i patch updated sn r rt of
                        Inl e \<Rightarrow> Inl e | Inr rt' \<Rightarrow> Inr (updated, rt')))))
      | _ \<Rightarrow> Inl (LookupErr ''state snapshot''))"

section \<open>The tables agree\<close>

definition patches_of :: "uuid \<Rightarrow> runtime \<Rightarrow> patch_row list" where
  "patches_of i rt = filter (\<lambda>p. pt_run_id p = i) (rt_patches rt)"

definition snapshot_ok :: "(research_state \<Rightarrow> string) \<Rightarrow> patch_row list \<Rightarrow> snapshot_row \<Rightarrow> bool" where
  "snapshot_ok h ps sn \<longleftrightarrow>
     state_inv (sn_state sn) \<and> st_next_action (sn_state sn) = None \<and> 0 \<le> sn_version sn
     \<and> st_version (sn_state sn) = sn_version sn \<and> sn_hash sn = h (sn_state sn)
     \<and> map (\<lambda>p. (pt_base p, pt_result p)) (filter (\<lambda>p. pt_run_id p = sn_run_id sn) ps)
         = map (\<lambda>v. (v - 1, v)) [1..sn_version sn]"

definition runtime_ok :: "(research_state \<Rightarrow> string) \<Rightarrow> runtime \<Rightarrow> bool" where
  "runtime_ok h rt \<longleftrightarrow>
     distinct (map sn_run_id (rt_snapshots rt))
     \<and> (\<forall>sn \<in> set (rt_snapshots rt). snapshot_ok h (rt_patches rt) sn)
     \<and> (\<forall>p \<in> set (rt_patches rt). pt_run_id p \<in> sn_run_id ` set (rt_snapshots rt))"

text \<open>
  Between two calls of the runtime anything may happen to runs, evidence and gaps; only the runtime
  writes snapshots and patches.
\<close>

inductive runtime_step :: "(research_state \<Rightarrow> string) \<Rightarrow> runtime \<Rightarrow> runtime \<Rightarrow> bool"
  for h :: "research_state \<Rightarrow> string" where
  business: "rt_snapshots rt' = rt_snapshots rt \<Longrightarrow> rt_patches rt' = rt_patches rt \<Longrightarrow> runtime_step h rt rt'"
| initialised: "se_hash env = h \<Longrightarrow> ensure_initialized env i rt = Inr (s, rt') \<Longrightarrow> runtime_step h rt rt'"
| synchronized: "se_hash env = h \<Longrightarrow> synchronize env patch_id i node task rt = Inr (s, rt')
    \<Longrightarrow> runtime_step h rt rt'"

inductive_cases runtime_stepE: "runtime_step h rt rt'"

definition empty_runtime :: runtime where
  "empty_runtime = \<lparr>rt_db = \<lparr>db_runs = [], db_events = [], db_outbox = [], db_items = []\<rparr>,
     rt_evidence = [], rt_gaps = [], rt_snapshots = [], rt_patches = []\<rparr>"

lemma find_snapshot_mem: "find_snapshot i rt = Some sn \<Longrightarrow> sn \<in> set (rt_snapshots rt) \<and> sn_run_id sn = i"
  by (auto simp: find_snapshot_def find_Some_iff)

lemma find_snapshot_None: "find_snapshot i rt = None \<longleftrightarrow> i \<notin> sn_run_id ` set (rt_snapshots rt)"
  by (auto simp: find_snapshot_def find_None_iff)

lemma find_snapshot_put:
  "find_snapshot i rt = Some sn \<Longrightarrow> sn_run_id sn' = i
     \<Longrightarrow> find_snapshot j (put_snapshot sn' rt) = (if j = i then Some sn' else find_snapshot j rt)"
proof -
  assume f: "find_snapshot i rt = Some sn" and id: "sn_run_id sn' = i"
  have "find (\<lambda>s. sn_run_id s = j) (map (\<lambda>x. if sn_run_id x = sn_run_id sn' then sn' else x) xs)
      = (if j = sn_run_id sn' \<and> find (\<lambda>s. sn_run_id s = j) xs \<noteq> None then Some sn'
         else find (\<lambda>s. sn_run_id s = j) xs)" for xs
    by (induction xs) auto
  then show ?thesis using f id by (auto simp: find_snapshot_def put_snapshot_def)
qed

text \<open>What a synchronisation did, when it returned.\<close>

lemma synchronize_cases:
  assumes "synchronize env pid i node task rt = Inr (s, rt')"
  obtains sn r patch where "find_snapshot i rt = Some sn" and "find_run i (rt_db rt) = Some r"
    and "\<And>t. task = Some t \<Longrightarrow> rr_worker r = Some t"
    and "state_inv (sn_state sn)" and "st_version (sn_state sn) = sn_version sn"
    and "project_patch env pid i (sn_state sn) r rt = Inr patch" and "apply_patch (sn_state sn) patch = Inr s"
    and "store_state env node i patch s sn r rt = Inr rt'"
  using assms unfolding synchronize_def
  by (auto simp: model_validate_Inr_iff split: option.splits if_splits sum.splits)

lemma project_patch_fields:
  "project_patch env pid i s r rt = Inr p \<Longrightarrow> sp_base_version p = st_version s \<and> sp_next_action p = None"
  by (auto simp: project_patch_def split: sum.splits)

lemma store_state_tables:
  assumes "store_state env node i patch s sn r rt = Inr rt'"
  shows "rt_snapshots rt' = rt_snapshots (put_snapshot (sn\<lparr>sn_version := st_version s, sn_state := s,
      sn_hash := se_hash env s, sn_updated_at := se_now env\<rparr>) rt)"
    and "rt_patches rt' = rt_patches rt @ [\<lparr>pt_id = sp_patch_id patch, pt_run_id = i,
      pt_base = sp_base_version patch, pt_result = st_version s, pt_node = node, pt_patch = patch,
      pt_hash = se_hash env s\<rparr>]"
  using assms by (auto simp: store_state_def insert_patch_def Let_def put_snapshot_def split: sum.splits if_splits)

lemma snapshot_ok_other: "snapshot_ok h ps sn \<Longrightarrow> pt_run_id p \<noteq> sn_run_id sn \<Longrightarrow> snapshot_ok h (ps @ [p]) sn"
  by (simp add: snapshot_ok_def)

lemma snapshot_ok_next:
  assumes "snapshot_ok h ps sn" and "state_inv s" and "st_next_action s = None"
    and "st_version s = sn_version sn + 1" and "pt_run_id p = sn_run_id sn"
    and "pt_base p = sn_version sn" and "pt_result p = st_version s"
  shows "snapshot_ok h (ps @ [p]) (sn\<lparr>sn_version := st_version s, sn_state := s, sn_hash := h s, sn_updated_at := t\<rparr>)"
proof -
  have "[1..sn_version sn + 1] = [1..sn_version sn] @ [sn_version sn + 1]"
    using assms(1) by (simp add: snapshot_ok_def upto_rec2)
  then show ?thesis using assms by (simp add: snapshot_ok_def)
qed

lemma synchronize_ok:
  assumes sync: "synchronize env pid i node task rt = Inr (s, rt')" and h: "se_hash env = h"
    and ok: "runtime_ok h rt"
  shows "runtime_ok h rt'"
proof -
  obtain sn r patch where sn: "find_snapshot i rt = Some sn" "st_version (sn_state sn) = sn_version sn"
    and p: "project_patch env pid i (sn_state sn) r rt = Inr patch" and s: "apply_patch (sn_state sn) patch = Inr s"
    and st: "store_state env node i patch s sn r rt = Inr rt'"
    using synchronize_cases [OF sync] by metis
  note mem = find_snapshot_mem [OF sn(1)] and tabs = store_state_tables [OF st]
  have old: "snapshot_ok h (rt_patches rt) sn" using ok mem by (simp add: runtime_ok_def)
  have s': "s = patched (sn_state sn) patch" "state_inv s" using s unfolding apply_patch_Inr by blast+
  have next_state: "st_next_action s = None" "st_version s = sn_version sn + 1"
    using old project_patch_fields [OF p] sn(2) by (simp_all add: s'(1) patched_def snapshot_ok_def)
  let ?sn = "sn\<lparr>sn_version := st_version s, sn_state := s, sn_hash := se_hash env s, sn_updated_at := se_now env\<rparr>"
  have snaps: "rt_snapshots rt' = map (\<lambda>x. if sn_run_id x = i then ?sn else x) (rt_snapshots rt)"
    using mem by (simp add: tabs(1) put_snapshot_def)
  have ids: "map sn_run_id (rt_snapshots rt') = map sn_run_id (rt_snapshots rt)"
    using mem by (auto simp: snaps)
  have new: "snapshot_ok h (rt_patches rt') ?sn"
    using snapshot_ok_next [OF old s'(2) next_state] project_patch_fields [OF p] sn(2) mem
    by (simp add: tabs(2) h)
  have others: "snapshot_ok h (rt_patches rt') x" if "x \<in> set (rt_snapshots rt)" "sn_run_id x \<noteq> i" for x
    using snapshot_ok_other that ok unfolding tabs(2) runtime_ok_def by simp
  have "\<forall>x \<in> set (rt_snapshots rt'). snapshot_ok h (rt_patches rt') x"
    using new others by (auto simp: snaps)
  moreover have img: "sn_run_id ` set (rt_snapshots rt') = sn_run_id ` set (rt_snapshots rt)"
    using ids by (metis list.set_map)
  have "\<forall>q \<in> set (rt_patches rt'). pt_run_id q \<in> sn_run_id ` set (rt_snapshots rt')"
    using ok mem unfolding img tabs(2) runtime_ok_def by auto
  ultimately show ?thesis using ok ids by (simp add: runtime_ok_def)
qed

lemma first_state_fields:
  "first_state env r = Inr s \<Longrightarrow> state_inv s \<and> st_next_action s = None \<and> st_version s = 0 \<and> st_known s = []"
  by (auto simp: first_state_def model_validate_Inr_iff initial_state_def split: sum.splits)

lemma initialize_ok:
  assumes init: "ensure_initialized env i rt = Inr (s, rt')" and h: "se_hash env = h" and ok: "runtime_ok h rt"
  shows "runtime_ok h rt'"
proof (cases "find_snapshot i rt")
  case (Some sn)
  then show ?thesis using init ok by (auto simp: ensure_initialized_def split: sum.splits)
next
  case None
  then obtain r where s: "first_state env r = Inr s"
      and snaps: "rt_snapshots rt' = rt_snapshots rt @ [\<lparr>sn_run_id = i, sn_version = st_version s, sn_state = s,
        sn_hash = se_hash env s, sn_updated_at = se_now env\<rparr>]" and pats: "rt_patches rt' = rt_patches rt"
    using init by (auto simp: ensure_initialized_def Let_def split: option.splits sum.splits prod.splits)
  have new: "i \<notin> sn_run_id ` set (rt_snapshots rt)" using None by (simp add: find_snapshot_None)
  then have "filter (\<lambda>p. pt_run_id p = i) (rt_patches rt) = []"
    using ok unfolding runtime_ok_def by (metis (mono_tags, lifting) filter_False)
  then show ?thesis
    using ok new first_state_fields [OF s] h by (auto simp: runtime_ok_def snaps pats snapshot_ok_def)
qed

lemma runtime_step_ok: "runtime_step h rt rt' \<Longrightarrow> runtime_ok h rt \<Longrightarrow> runtime_ok h rt'"
proof (erule runtime_stepE)
  assume "runtime_ok h rt" "rt_snapshots rt' = rt_snapshots rt" "rt_patches rt' = rt_patches rt"
  then show "runtime_ok h rt'" by (simp add: runtime_ok_def)
qed (rule initialize_ok synchronize_ok; assumption)+

text \<open>A snapshot never goes back: its version grows, and it forgets no claim.\<close>

definition extends :: "snapshot_row \<Rightarrow> snapshot_row \<Rightarrow> bool" where
  "extends sn sn' \<longleftrightarrow> sn_run_id sn' = sn_run_id sn \<and> sn_version sn \<le> sn_version sn'
     \<and> (\<exists>ks. map kc_claim_id (st_known (sn_state sn')) = map kc_claim_id (st_known (sn_state sn)) @ ks)"

lemma extends_refl [simp]: "extends sn sn"
  by (simp add: extends_def)

lemma extends_trans: "extends a b \<Longrightarrow> extends b c \<Longrightarrow> extends a c"
  by (auto simp: extends_def)

lemma runtime_step_extends:
  assumes "runtime_step h rt rt'" and ok: "runtime_ok h rt" and sn: "find_snapshot i rt = Some sn"
  shows "\<exists>sn'. find_snapshot i rt' = Some sn' \<and> extends sn sn'"
  using assms(1)
proof cases
  case business
  then show ?thesis using sn by (simp add: find_snapshot_def)
next
  case (initialised env j s)
  show ?thesis
  proof (cases "find_snapshot j rt")
    case None
    then have "\<exists>x. rt_snapshots rt' = rt_snapshots rt @ [x]"
      using initialised(2) by (auto simp: ensure_initialized_def Let_def split: option.splits sum.splits prod.splits)
    moreover have "find P xs = Some y \<Longrightarrow> find P (xs @ [x]) = Some y" for P and xs :: "snapshot_row list" and x y
      by (induction xs) auto
    ultimately show ?thesis using sn by (auto simp: find_snapshot_def)
  next
    case (Some _)
    then show ?thesis using initialised(2) sn by (auto simp: ensure_initialized_def split: sum.splits)
  qed
next
  case (synchronized env pid j node task s)
  obtain old r patch where old: "find_snapshot j rt = Some old" "st_version (sn_state old) = sn_version old"
    and s: "apply_patch (sn_state old) patch = Inr s"
    and st: "store_state env node j patch s old r rt = Inr rt'"
    using synchronize_cases [OF synchronized(2)] by metis
  let ?sn = "old\<lparr>sn_version := st_version s, sn_state := s, sn_hash := se_hash env s, sn_updated_at := se_now env\<rparr>"
  have put: "find_snapshot i rt' = (if i = j then Some ?sn else find_snapshot i rt)"
    using find_snapshot_put [OF old(1), of ?sn i] find_snapshot_mem [OF old(1)]
    by (simp add: find_snapshot_def store_state_tables(1) [OF st])
  have s': "s = patched (sn_state old) patch" using s unfolding apply_patch_Inr by blast
  have "distinct (map kc_claim_id (st_known (sn_state old)))"
    using ok find_snapshot_mem [OF old(1)] by (simp add: runtime_ok_def snapshot_ok_def state_inv_def)
  from merge_by_keeps_order [OF this]
  have "\<exists>ks. map kc_claim_id (merge_by kc_claim_id (st_known (sn_state old)) (sp_known_upserts patch))
      = map kc_claim_id (st_known (sn_state old)) @ ks"
    by (metis append_take_drop_id)
  then have "extends old ?sn" using old(2) by (simp add: extends_def s' patched_def)
  then show ?thesis using put sn old(1) by (cases "i = j") auto
qed

text \<open>
  C16. Snapshots and patches agree. Whatever other transactions do to runs, evidence and gaps between
  the calls, a run has at most one snapshot, which is a valid state of its own version and hash; the
  patches of a run carry exactly the versions 1, 2, ... up to its snapshot, each based on the one
  before; and a snapshot, once stored, never loses its version or a claim it knew.
\<close>

theorem snapshots_and_patches_agree:
  assumes "(runtime_step h)\<^sup>*\<^sup>* empty_runtime rt" and "(runtime_step h)\<^sup>*\<^sup>* rt rt'"
    and "find_snapshot i rt = Some sn"
  shows "distinct (map sn_run_id (rt_snapshots rt)) \<and> state_inv (sn_state sn)
    \<and> st_version (sn_state sn) = sn_version sn \<and> sn_hash sn = h (sn_state sn)
    \<and> map (\<lambda>p. (pt_base p, pt_result p)) (filter (\<lambda>p. pt_run_id p = i) (rt_patches rt))
        = map (\<lambda>v. (v - 1, v)) [1..sn_version sn]
    \<and> (\<exists>sn'. find_snapshot i rt' = Some sn' \<and> extends sn sn')"
proof -
  have "runtime_ok h rt" using assms(1)
  proof (induction rule: rtranclp_induct)
    case base
    show ?case by (simp add: runtime_ok_def empty_runtime_def)
  qed (rule runtime_step_ok)
  then have ok: "runtime_ok h rt" "snapshot_ok h (rt_patches rt) sn" "sn_run_id sn = i"
    using find_snapshot_mem [OF assms(3)] by (simp_all add: runtime_ok_def)
  have "runtime_ok h rt' \<and> (\<exists>sn'. find_snapshot i rt' = Some sn' \<and> extends sn sn')"
    using assms(2)
  proof (induction rule: rtranclp_induct)
    case base
    then show ?case using ok(1) assms(3) by auto
  next
    case (step rt1 rt2)
    then show ?case using runtime_step_ok runtime_step_extends extends_trans by metis
  qed
  then show ?thesis using ok by (simp add: runtime_ok_def snapshot_ok_def)
qed

section \<open>When a synchronisation is refused\<close>

definition evidence_ok :: "evidence_row \<Rightarrow> bool" where
  "evidence_ok e \<longleftrightarrow> text_ok 100 (er_question_id e)"

definition gap_ok :: "gap_row \<Rightarrow> bool" where
  "gap_ok w \<longleftrightarrow> text_ok 100 (gw_question_id w) \<and> text_ok 1000 (gw_description w)
     \<and> text_ok 1000 (gw_criteria w) \<and> 0 \<le> gw_attempts w"

text \<open>
  The stop reason after a projection, and the budget checks of a state: what usage a status, a phase
  and a guard allow.
\<close>

definition stop_after :: "run_row \<Rightarrow> research_state \<Rightarrow> stop_reason option" where
  "stop_after r s =
     (case state_stop_reason (rr_termination r) of
        Some x \<Rightarrow> Some x | None \<Rightarrow> if rr_termination r = None then None else st_stop_reason s)"

definition usage_admitted :: "budget_usage \<Rightarrow> run_row \<Rightarrow> research_state \<Rightarrow> bool" where
  "usage_admitted u r s \<longleftrightarrow> (let l = st_budget_limits s in
     bu_iterations u \<le> bl_max_iterations l \<and> bu_searches u \<le> bl_max_searches l
     \<and> (max (bu_pages u) (bu_pages_fetched u)
          \<le> (if 0 < bu_pages_fetched u then bl_max_pages_fetched l else bl_max_pages l)
        \<or> rr_status r = RunFailed \<and> stop_after r s = Some SRBudgetExhausted)
     \<and> (bu_model_tokens u \<le> bl_max_model_tokens l \<or> bu_model_budget_guarded u
        \<or> rr_phase r \<in> {PhaseWriting, PhaseVerifying, PhaseTerminal}))"

lemma state_status_failed: "state_status st ph = SFailed \<longleftrightarrow> st = RunFailed"
  by (cases st) auto

lemma state_stop_reason_None: "state_stop_reason None = None"
  by (simp add: state_stop_reason_def)

lemma state_phase_late: "state_phase ph \<in> {PhWrite, PhVerify, PhFinalize} \<longleftrightarrow> ph \<in> {PhaseWriting, PhaseVerifying, PhaseTerminal}"
  by (cases ph) auto

lemma traverse_id: "(\<And>x. x \<in> set xs \<Longrightarrow> f x = Inr x) \<Longrightarrow> traverse f xs = Inr xs"
  by (induction xs) simp_all

lemma claim_valid: "evidence_ok e \<Longrightarrow> validate_known_claim (claim_of_evidence i e) = Inr (claim_of_evidence i e)"
  by (simp add: validate_known_claim_def claim_of_evidence_def evidence_ok_def score_ok_def)

lemma gap_valid: "gap_ok w \<Longrightarrow> validate_research_gap (project_gap i w cs) = Inr (project_gap i w cs)"
  by (simp add: validate_research_gap_def project_gap_def Let_def gap_ok_def score_ok_def)

lemma claims_valid:
  assumes "list_all evidence_ok (accepted_evidence i rt)"
  shows "c \<in> set (projected_claims i rt) \<Longrightarrow> validate_known_claim c = Inr c"
    and "traverse validate_known_claim (projected_claims i rt) = Inr (projected_claims i rt)"
proof -
  show *: "validate_known_claim c = Inr c" if "c \<in> set (projected_claims i rt)" for c
    using that assms claim_valid by (auto simp: projected_claims_def list_all_iff)
  show "traverse validate_known_claim (projected_claims i rt) = Inr (projected_claims i rt)"
    by (rule traverse_id) (rule *)
qed

lemma gaps_valid:
  assumes "list_all gap_ok (gaps_of_run i rt)"
  shows "g \<in> set (projected_gaps i rt) \<Longrightarrow> validate_research_gap g = Inr g"
    and "traverse validate_research_gap (projected_gaps i rt) = Inr (projected_gaps i rt)"
proof -
  show *: "validate_research_gap g = Inr g" if "g \<in> set (projected_gaps i rt)" for g
    using that assms gap_valid by (auto simp: projected_gaps_def list_all_iff)
  show "traverse validate_research_gap (projected_gaps i rt) = Inr (projected_gaps i rt)"
    by (rule traverse_id) (rule *)
qed

lemma coverage_map_ok:
  assumes "dimension_parser_ok env" and "coverage_map_of env q = Inr m"
  shows "list_all coverage_dimension_ok m"
proof -
  have "traverse f xs = Inr ys \<Longrightarrow> (\<And>x y. f x = Inr y \<Longrightarrow> P y) \<Longrightarrow> list_all P ys" for f xs ys and P
    by (induction xs arbitrary: ys) (auto split: sum.splits)
  then show ?thesis
    using assms by (auto simp: coverage_map_of_def dimension_parser_ok_def split: json.splits)
qed

text \<open>The state after a projected patch is valid exactly when its usage is admitted.\<close>

lemma projected_state_valid:
  assumes inv: "state_inv s" and na: "st_next_action s = None"
    and rows: "list_all evidence_ok (accepted_evidence i rt)" "list_all gap_ok (gaps_of_run i rt)"
    and p: "project_patch env pid i s r rt = Inr patch" and env: "dimension_parser_ok env"
    and u: "budget_usage_of (rr_usage r) = Inr u"
  shows "state_inv (patched s patch) \<longleftrightarrow> usage_admitted u r s"
proof -
  obtain q m where q: "quality_of (rr_quality r) = Inr q" and m: "coverage_map_of env (rr_quality r) = Inr m"
    and patch: "patch = \<lparr>sp_patch_id = pid, sp_base_version = st_version s,
      sp_known_upserts = projected_claims i rt, sp_gap_upserts = projected_gaps i rt,
      sp_next_action = None, sp_budget_usage = Some u, sp_quality = Some q, sp_coverage_map = Some m,
      sp_phase = Some (state_phase (rr_phase r)), sp_status = Some (state_status (rr_status r) (rr_phase r)),
      sp_stop_reason = state_stop_reason (rr_termination r), sp_clear_stop_reason = (rr_termination r = None)\<rparr>"
    using p claims_valid(2) [OF rows(1)] gaps_valid(2) [OF rows(2)] u
    by (auto simp: project_patch_def split: sum.splits)
  have "list_all (\<lambda>c. is_ok (validate_known_claim c)) (merge_by kc_claim_id (st_known s) (projected_claims i rt))"
    "list_all (\<lambda>g. is_ok (validate_research_gap g)) (merge_by rg_gap_id (st_gaps s) (projected_gaps i rt))"
    using inv claims_valid(1) [OF rows(1)] gaps_valid(1) [OF rows(2)]
      set_merge_by [of kc_claim_id "st_known s" "projected_claims i rt"]
      set_merge_by [of rg_gap_id "st_gaps s" "projected_gaps i rt"]
    by (auto simp: state_inv_def state_fields_ok_def list_all_iff)
  then have fields: "state_fields_ok (patched s patch)"
    using inv na budget_usage_of_ok [OF u] quality_of_ok [OF q] coverage_map_ok [OF env m]
    by (simp add: state_inv_def state_fields_ok_def patched_def patch)
  have dist: "distinct (map kc_claim_id (st_known (patched s patch)))" "distinct (map rg_gap_id (st_gaps (patched s patch)))"
    by (simp_all add: patched_def distinct_merge_by)
  have terminal: "page_overrun_is_terminal (patched s patch)
      \<longleftrightarrow> rr_status r = RunFailed \<and> stop_after r s = Some SRBudgetExhausted"
    by (auto simp: page_overrun_is_terminal_def patched_def patch state_status_failed stop_after_def
        state_stop_reason_None split: option.split)
  have late: "model_overrun_is_terminal (patched s patch) \<longleftrightarrow> rr_phase r \<in> {PhaseWriting, PhaseVerifying, PhaseTerminal}"
    using state_phase_late by (simp add: model_overrun_is_terminal_def patched_def patch)
  have same: "st_next_action (patched s patch) = None" "st_budget_usage (patched s patch) = u"
    "st_budget_limits (patched s patch) = st_budget_limits s"
    using na by (simp_all add: patched_def patch)
  show ?thesis
    unfolding state_inv_def usage_admitted_def Let_def terminal late page_usage_def page_limit_def same
    using fields dist by auto
qed


lemma next_patch_fits:
  assumes "runtime_ok h rt" and "find_snapshot i rt = Some sn" and "pt_run_id p = i" and "pt_result p = sn_version sn + 1"
  shows "\<exists>rt'. insert_patch p (put_snapshot sn' rt) = Inr rt'"
proof -
  have "map (\<lambda>q. (pt_base q, pt_result q)) (filter (\<lambda>q. pt_run_id q = i) (rt_patches rt))
      = map (\<lambda>v. (v - 1, v)) [1..sn_version sn]"
    using assms(1) find_snapshot_mem [OF assms(2)] by (auto simp: runtime_ok_def snapshot_ok_def)
  then have "map snd (map (\<lambda>q. (pt_base q, pt_result q)) (filter (\<lambda>q. pt_run_id q = i) (rt_patches rt)))
      = [1..sn_version sn]"
    by (simp add: comp_def)
  then have results: "pt_result ` set (filter (\<lambda>q. pt_run_id q = i) (rt_patches rt)) = set [1..sn_version sn]"
    by (metis (no_types, lifting) list.map_comp list.set_map map_eq_conv o_apply snd_conv)
  have "pt_result q \<le> sn_version sn" if "q \<in> set (rt_patches rt)" "pt_run_id q = i" for q
  proof -
    have "pt_result q \<in> pt_result ` set (filter (\<lambda>q. pt_run_id q = i) (rt_patches rt))" using that by auto
    then show ?thesis unfolding results by simp
  qed
  then show ?thesis using assms(3,4) by (fastforce simp: insert_patch_def put_snapshot_def)
qed

lemma project_patch_succeeds:
  assumes "list_all evidence_ok (accepted_evidence i rt)" and "list_all gap_ok (gaps_of_run i rt)"
  shows "(\<exists>patch. project_patch env pid i s r rt = Inr patch) \<longleftrightarrow>
    (\<exists>u q m. budget_usage_of (rr_usage r) = Inr u \<and> quality_of (rr_quality r) = Inr q
       \<and> coverage_map_of env (rr_quality r) = Inr m)"
  unfolding project_patch_def claims_valid(2) [OF assms(1)] gaps_valid(2) [OF assms(2)]
  by (auto split: sum.split)

text \<open>
  C25. When a run can be projected. With the worker's lease held and rows of the sizes the columns
  allow, a synchronisation succeeds exactly if the usage and quality dictionaries of the run can be
  read and the usage stays inside the limits frozen in the snapshot: iterations and searches always,
  pages unless the run failed on its budget, model tokens unless the guard is set or the run is already
  writing. The patch log never stands in the way.
\<close>

theorem synchronize_succeeds_iff:
  assumes ok: "runtime_ok h rt" and env: "dimension_parser_ok env"
    and sn: "find_snapshot i rt = Some sn" and r: "find_run i (rt_db rt) = Some r"
    and rows: "list_all evidence_ok (accepted_evidence i rt)" "list_all gap_ok (gaps_of_run i rt)"
  shows "(\<exists>s rt'. synchronize env pid i node task rt = Inr (s, rt')) \<longleftrightarrow>
    (task = None \<or> task = rr_worker r)
    \<and> (\<exists>u q m. budget_usage_of (rr_usage r) = Inr u \<and> quality_of (rr_quality r) = Inr q
         \<and> coverage_map_of env (rr_quality r) = Inr m \<and> usage_admitted u r (sn_state sn))"
    (is "?returns \<longleftrightarrow> ?held \<and> ?fits")
proof -
  let ?s = "sn_state sn"
  have s: "state_inv ?s" "st_next_action ?s = None" "st_version ?s = sn_version sn"
    using ok find_snapshot_mem [OF sn] by (auto simp: runtime_ok_def snapshot_ok_def)
  have held: "?held \<longleftrightarrow> \<not> (case task of None \<Rightarrow> False | Some t \<Rightarrow> rr_worker r \<noteq> Some t)"
    by (auto split: option.split)
  have store: "\<exists>rt'. store_state env node i p (patched ?s p) sn r rt = Inr rt'" for p
    using next_patch_fits [OF ok sn, of "\<lparr>pt_id = sp_patch_id p, pt_run_id = i, pt_base = sp_base_version p,
        pt_result = sn_version sn + 1, pt_node = node, pt_patch = p, pt_hash = se_hash env (patched ?s p)\<rparr>"
        "sn\<lparr>sn_version := sn_version sn + 1, sn_state := patched ?s p, sn_hash := se_hash env (patched ?s p),
          sn_updated_at := se_now env\<rparr>"] s(3)
    by (auto simp: store_state_def Let_def split: sum.splits)
  have valid: "model_validate ?s = Inr ?s" using s(1) by (simp add: model_validate_Inr_iff)
  have run: "synchronize env pid i node task rt = (if \<not> ?held then Inl (LeaseLost ''state runtime'') else
      (case project_patch env pid i ?s r rt of Inl e \<Rightarrow> Inl e | Inr patch \<Rightarrow>
       (case apply_patch ?s patch of Inl e \<Rightarrow> Inl e | Inr updated \<Rightarrow>
        (case store_state env node i patch updated sn r rt of Inl e \<Rightarrow> Inl e | Inr rt' \<Rightarrow> Inr (updated, rt')))))"
    using s(3) held by (simp add: synchronize_def sn r valid)
  have applied: "(\<exists>s'. apply_patch ?s p = Inr s' \<and> (\<exists>rt'. store_state env node i p s' sn r rt = Inr rt'))
      \<longleftrightarrow> state_inv (patched ?s p)" if hyp: "project_patch env pid i ?s r rt = Inr p" for p
    using project_patch_fields [OF hyp] store [of p] by (simp add: apply_patch_Inr)
  have "?returns \<longleftrightarrow> ?held \<and> (\<exists>p s'. project_patch env pid i ?s r rt = Inr p \<and> apply_patch ?s p = Inr s'
      \<and> (\<exists>rt'. store_state env node i p s' sn r rt = Inr rt'))"
    unfolding run by (auto split: sum.split)
  also have "\<dots> \<longleftrightarrow> ?held \<and> (\<exists>p. project_patch env pid i ?s r rt = Inr p \<and> state_inv (patched ?s p))"
    using applied by blast
  also have "\<dots> \<longleftrightarrow> ?held \<and> ?fits"
  proof (cases "\<exists>p. project_patch env pid i ?s r rt = Inr p")
    case True
    then obtain p u q m where p: "project_patch env pid i ?s r rt = Inr p"
        and u: "budget_usage_of (rr_usage r) = Inr u" and qm: "quality_of (rr_quality r) = Inr q"
        "coverage_map_of env (rr_quality r) = Inr m"
      using project_patch_succeeds [OF rows] by blast
    have "state_inv (patched ?s p) \<longleftrightarrow> usage_admitted u r ?s"
      by (rule projected_state_valid [OF s(1,2) rows p env u])
    then show ?thesis using p u qm by simp
  next
    case False
    then show ?thesis using project_patch_succeeds [OF rows] by blast
  qed
  finally show ?thesis .
qed


text \<open>A run in its research phase, projected twice; between the calls its usage grows.\<close>

definition demo_row :: "json_object \<Rightarrow> run_row" where
  "demo_row usage =
     \<lparr>rr_id = UUID 7, rr_owner_hash = ''o'', rr_idempotency_key = ''k'', rr_original_query = ''q'',
      rr_normalized_goal = ''q'', rr_constraints = [], rr_status = RunRunning, rr_phase = PhaseResearching,
      rr_state_version = 1, rr_plan_version = 1, rr_next_seq = 4, rr_credential_status = ''ready'',
      rr_profile_id = UUID 1, rr_credential_id = UUID 2, rr_llm_config = [],
      rr_budget = [(''max_searches'', JInt 2), (''max_pages'', JInt 3)], rr_usage = usage, rr_quality = [],
      rr_termination = None, rr_lease_owner = Some ''w'', rr_lease_until = Some 900,
      rr_worker = Some (DispatchKey (UUID 7) ''start'' 1), rr_created_at = 0, rr_updated_at = 0,
      rr_started_at = Some 0, rr_finished_at = None\<rparr>"

definition demo_runtime :: "json_object \<Rightarrow> runtime" where
  "demo_runtime usage = empty_runtime\<lparr>
     rt_db := \<lparr>db_runs = [demo_row usage], db_events = [], db_outbox = [], db_items = []\<rparr>,
     rt_evidence := [\<lparr>er_id = UUID 20, er_run_id = UUID 7, er_question_id = ''q1'', er_score = 3 / 2,
       er_accepted = True, er_domain = ''example.org''\<rparr>],
     rt_gaps := [\<lparr>gw_id = UUID 30, gw_run_id = UUID 7, gw_question_id = ''q2'', gw_type = ''weak'',
       gw_description = ''d'', gw_criteria = ''c'', gw_severity = 1 / 2, gw_status = ''resolved'',
       gw_attempts = 1\<rparr>]\<rparr>"

definition demo_env :: state_env where
  "demo_env = \<lparr>se_now = 5, se_hash = (\<lambda>s. show_int (st_version s)), se_dimension = (\<lambda>_. Inl (ValueError ''dimension''))\<rparr>"

definition demo_started :: runtime where
  "demo_started = (case ensure_initialized demo_env (UUID 7) (demo_runtime []) of
     Inl e \<Rightarrow> empty_runtime | Inr (s, rt) \<Rightarrow> rt)"

definition demo_used :: "int \<Rightarrow> runtime" where
  "demo_used n = demo_started\<lparr>rt_db := \<lparr>db_runs = [demo_row [(''searches'', JInt n)]], db_events = [],
     db_outbox = [], db_items = []\<rparr>\<rparr>"

definition demo_sync :: "int \<Rightarrow> (research_state \<times> runtime) result" where
  "demo_sync n = synchronize demo_env (UUID 50) (UUID 7) ''research'' (Some (DispatchKey (UUID 7) ''start'' 1))
     (demo_used n)"

definition demo_synced :: runtime where
  "demo_synced = (case demo_sync 2 of Inl e \<Rightarrow> empty_runtime | Inr (s, rt) \<Rightarrow> rt)"

lemma demo_started_returns: "is_ok (ensure_initialized demo_env (UUID 7) (demo_runtime []))"
  by code_simp

lemma demo_sync_returns: "is_ok (demo_sync 2) \<and> \<not> is_ok (demo_sync 3)"
  by code_simp

lemma demo_synced_snapshot:
  "map_option (\<lambda>sn. (sn_version sn, map kc_claim_id (st_known (sn_state sn)))) (find_snapshot (UUID 7) demo_synced)
     = Some (1, [UUID 20])"
  by code_simp

lemma demo_used_snapshot:
  "find_run (UUID 7) (rt_db (demo_used n)) = Some (demo_row [(''searches'', JInt n)])
   \<and> accepted_evidence (UUID 7) (demo_used n) = accepted_evidence (UUID 7) demo_started
   \<and> gaps_of_run (UUID 7) (demo_used n) = gaps_of_run (UUID 7) demo_started
   \<and> find_snapshot (UUID 7) (demo_used n) = find_snapshot (UUID 7) demo_started"
  by (simp add: demo_used_def find_run_def demo_row_def accepted_evidence_def gaps_of_run_def find_snapshot_def)

lemma demo_rows_ok:
  "list_all evidence_ok (accepted_evidence (UUID 7) demo_started) \<and> list_all gap_ok (gaps_of_run (UUID 7) demo_started)
   \<and> find_snapshot (UUID 7) demo_started \<noteq> None"
  by code_simp

lemma demo_used_reachable: "(runtime_step (se_hash demo_env))\<^sup>*\<^sup>* empty_runtime (demo_used n)"
proof -
  obtain s where s: "ensure_initialized demo_env (UUID 7) (demo_runtime []) = Inr (s, demo_started)"
    using demo_started_returns by (auto simp: demo_started_def is_ok_iff)
  have a: "runtime_step (se_hash demo_env) empty_runtime (demo_runtime [])"
    by (rule business) (simp_all add: demo_runtime_def)
  have b: "runtime_step (se_hash demo_env) (demo_runtime []) demo_started"
    by (rule initialised [OF refl s])
  have c: "runtime_step (se_hash demo_env) demo_started (demo_used n)"
    by (rule business) (simp_all add: demo_used_def)
  show ?thesis
    using a b c by (blast intro: rtranclp.intros)
qed

theorem snapshots_and_patches_agree_witness:
  "case find_snapshot (UUID 7) demo_synced of None \<Rightarrow> False
   | Some sn \<Rightarrow> sn_version sn = 1 \<and> state_inv (sn_state sn) \<and> map kc_claim_id (st_known (sn_state sn)) = [UUID 20]
       \<and> map (\<lambda>p. (pt_base p, pt_result p)) (filter (\<lambda>p. pt_run_id p = UUID 7) (rt_patches demo_synced)) = [(0, 1)]"
proof -
  obtain s where s: "demo_sync 2 = Inr (s, demo_synced)"
    using demo_sync_returns by (auto simp: demo_synced_def is_ok_iff)
  have step: "runtime_step (se_hash demo_env) (demo_used 2) demo_synced"
    by (rule synchronized [OF refl s [unfolded demo_sync_def]])
  obtain sn where sn: "find_snapshot (UUID 7) demo_synced = Some sn" "sn_version sn = 1"
      "map kc_claim_id (st_known (sn_state sn)) = [UUID 20]"
    using demo_synced_snapshot by auto
  have "[1..1::int] = [1]" by (simp add: upto_rec1)
  then show ?thesis
    using snapshots_and_patches_agree [OF rtranclp.rtrancl_into_rtrancl [OF demo_used_reachable step]
        rtranclp.rtrancl_refl sn(1)] sn by simp
qed

theorem synchronize_succeeds_iff_witness:
  "(\<exists>s rt'. demo_sync 2 = Inr (s, rt'))
   \<and> is_ok (budget_usage_of [(''searches'', JInt 3)])
   \<and> (\<exists>sn. find_snapshot (UUID 7) demo_started = Some sn
       \<and> \<not> (\<exists>u. budget_usage_of [(''searches'', JInt 3)] = Inr u
              \<and> usage_admitted u (demo_row [(''searches'', JInt 3)]) (sn_state sn)))"
proof -
  have reach: "runtime_ok (se_hash demo_env) (demo_used n)" for n
    using demo_used_reachable
  proof (induction rule: rtranclp_induct)
    case base
    show ?case by (simp add: runtime_ok_def empty_runtime_def)
  qed (rule runtime_step_ok)
  obtain sn where sn: "find_snapshot (UUID 7) demo_started = Some sn" using demo_rows_ok by blast
  have env: "dimension_parser_ok demo_env" by (simp add: dimension_parser_ok_def demo_env_def)
  note iff = synchronize_succeeds_iff [OF reach env, of "UUID 7", unfolded conjunct2 [OF conjunct2 [OF conjunct2 [OF demo_used_snapshot]]],
      OF sn conjunct1 [OF demo_used_snapshot]]
  have "\<not> (\<exists>u. budget_usage_of [(''searches'', JInt 3)] = Inr u
      \<and> usage_admitted u (demo_row [(''searches'', JInt 3)]) (sn_state sn))"
  proof
    assume "\<exists>u. budget_usage_of [(''searches'', JInt 3)] = Inr u
      \<and> usage_admitted u (demo_row [(''searches'', JInt 3)]) (sn_state sn)"
    moreover have "is_ok (quality_of []) \<and> is_ok (coverage_map_of demo_env [])" by code_simp
    ultimately have "is_ok (demo_sync 3)"
      using iff [of 3 "UUID 50" "''research''" "Some (DispatchKey (UUID 7) ''start'' 1)"] demo_rows_ok demo_used_snapshot [of 3]
      by (simp add: demo_sync_def demo_row_def is_ok_iff)
    then show False using demo_sync_returns by simp
  qed
  moreover have "is_ok (budget_usage_of [(''searches'', JInt 3)])" by code_simp
  ultimately show ?thesis
    using sn demo_sync_returns by (auto simp: is_ok_iff split: sum.splits)
qed

end
