(* ===== verification/Recovery_Execution.thy ===== *)
theory Recovery_Execution
  imports Run_Machine
begin

text \<open>
  Recovery attempts: \<open>app/domain/recovery_execution.py\<close>, and the event writer of
  \<open>app/infrastructure/db/research_tools.py\<close> that attaches an active recovery to every event of a run.

  The state machine of one attempt, the measurement of its outcome, the context that is stored in the
  usage snapshot while the attempt runs, and \<open>_append_event\<close>, which reads that context back. The lemmas
  give the machine's reachable states, what each outcome type means, and that a stored context is read
  back as it was written.
\<close>

section \<open>The state machine of an attempt\<close>

datatype recovery_execution_state =
    RecNotStarted | RecAuthorized | RecRunning | RecCompleted | RecFailed | RecCancelled

record recovery_execution =
  rx_run_id :: uuid
  rx_question_id :: string
  rx_plan_version :: int
  rx_attempt :: uuid
  rx_coverage_before :: rat
  rx_gap_before :: "string list"
  rx_tokens_reserved :: int
  rx_state :: recovery_execution_state
  rx_coverage_after :: "rat option"
  rx_gap_after :: "string list"
  rx_reason :: "string option"
  rx_accepted_before :: int
  rx_accepted_after :: int

definition authorize_recovery ::
    "uuid \<Rightarrow> string \<Rightarrow> int \<Rightarrow> uuid \<Rightarrow> rat \<Rightarrow> string list \<Rightarrow> int \<Rightarrow> int \<Rightarrow> recovery_execution" where
  "authorize_recovery run q version attempt coverage gaps tokens accepted =
     \<lparr>rx_run_id = run, rx_question_id = q, rx_plan_version = version, rx_attempt = attempt,
      rx_coverage_before = coverage, rx_gap_before = gaps, rx_tokens_reserved = tokens,
      rx_state = RecAuthorized, rx_coverage_after = None, rx_gap_after = [], rx_reason = None,
      rx_accepted_before = accepted, rx_accepted_after = 0\<rparr>"

definition start_recovery :: "recovery_execution \<Rightarrow> recovery_execution result" where
  "start_recovery x =
     (if rx_state x \<noteq> RecAuthorized then Inl (ValueError ''cannot start recovery'')
      else Inr (x\<lparr>rx_state := RecRunning\<rparr>))"

definition complete_recovery ::
    "rat \<Rightarrow> string list \<Rightarrow> int \<Rightarrow> string option \<Rightarrow> recovery_execution \<Rightarrow> recovery_execution result" where
  "complete_recovery coverage gaps accepted reason x =
     (if rx_state x \<noteq> RecRunning then Inl (ValueError ''cannot complete recovery'')
      else Inr (x\<lparr>rx_coverage_after := Some coverage, rx_gap_after := gaps, rx_accepted_after := accepted,
                 rx_reason := reason, rx_state := RecCompleted\<rparr>))"

definition fail_recovery :: "string \<Rightarrow> recovery_execution \<Rightarrow> recovery_execution result" where
  "fail_recovery reason x =
     (if rx_state x \<noteq> RecRunning then Inl (ValueError ''cannot fail recovery'')
      else Inr (x\<lparr>rx_reason := Some reason, rx_state := RecFailed\<rparr>))"

definition cancel_recovery :: "string \<Rightarrow> recovery_execution \<Rightarrow> recovery_execution result" where
  "cancel_recovery reason x =
     (if rx_state x \<notin> {RecAuthorized, RecRunning} then Inl (ValueError ''cannot cancel recovery'')
      else Inr (x\<lparr>rx_reason := Some reason, rx_state := RecCancelled\<rparr>))"

inductive recovery_step :: "recovery_execution \<Rightarrow> recovery_execution \<Rightarrow> bool" where
  start: "start_recovery x = Inr y \<Longrightarrow> recovery_step x y"
| complete: "complete_recovery c g a r x = Inr y \<Longrightarrow> recovery_step x y"
| fail: "fail_recovery r x = Inr y \<Longrightarrow> recovery_step x y"
| cancel: "cancel_recovery r x = Inr y \<Longrightarrow> recovery_step x y"

inductive_cases recovery_stepE: "recovery_step x y"

fun recovery_rank :: "recovery_execution_state \<Rightarrow> nat" where
  "recovery_rank RecNotStarted = 0"
| "recovery_rank RecAuthorized = 1"
| "recovery_rank RecRunning = 2"
| "recovery_rank _ = 3"

lemmas recovery_moves = start_recovery_def complete_recovery_def fail_recovery_def cancel_recovery_def

text \<open>Every move goes forward and needs a live attempt; only completing records a result.\<close>

lemma recovery_step_rank: "recovery_step x y \<Longrightarrow> recovery_rank (rx_state x) < recovery_rank (rx_state y)"
  by (erule recovery_stepE) (auto simp: recovery_moves split: if_splits)

lemma recovery_step_live: "recovery_step x y \<Longrightarrow> rx_state x \<in> {RecAuthorized, RecRunning}"
  by (erule recovery_stepE) (auto simp: recovery_moves split: if_splits)

lemma recovery_step_result:
  "recovery_step x y \<Longrightarrow> rx_coverage_after y \<noteq> rx_coverage_after x \<Longrightarrow> rx_state y = RecCompleted"
  by (erule recovery_stepE) (auto simp: recovery_moves split: if_splits)

lemma recovery_history:
  assumes "(recovery_step ^^ n) (authorize_recovery run q v a c g t e) y"
  shows "n \<le> 2 \<and> rx_attempt y = a \<and> (rx_coverage_after y \<noteq> None \<longleftrightarrow> rx_state y = RecCompleted)"
proof -
  have "n + 1 \<le> recovery_rank (rx_state y) \<and> rx_attempt y = a
      \<and> (rx_coverage_after y \<noteq> None \<longleftrightarrow> rx_state y = RecCompleted)"
    using assms
  proof (induction n arbitrary: y)
    case 0
    then show ?case by (auto simp: authorize_recovery_def)
  next
    case (Suc n)
    then obtain z where "(recovery_step ^^ n) (authorize_recovery run q v a c g t e) z" and z: "recovery_step z y" by auto
    with Suc.IH have IH: "n + 1 \<le> recovery_rank (rx_state z)" "rx_attempt z = a"
      "rx_coverage_after z \<noteq> None \<longleftrightarrow> rx_state z = RecCompleted" by blast+
    from z have "rx_attempt y = rx_attempt z \<and> (rx_coverage_after y = rx_coverage_after z \<and> rx_state y \<noteq> RecCompleted
        \<or> rx_coverage_after y \<noteq> None \<and> rx_state y = RecCompleted)"
      by (rule recovery_stepE) (auto simp: recovery_moves split: if_splits)
    then show ?case using IH recovery_step_rank [OF z] recovery_step_live [OF z] by auto
  qed
  moreover have "recovery_rank s \<le> 3" for s by (cases s) simp_all
  ultimately show ?thesis using order_trans [of "n + 1" "recovery_rank (rx_state y)" 3] by auto
qed

section \<open>The outcome of an attempt\<close>

datatype recovery_outcome_state = OutcomeNotEvaluated | OutcomeEvaluated

datatype recovery_outcome_type = RecoverySuccessful | RecoveryPartial | RecoveryLowGain | RecoveryFailed

fun outcome_state_value :: "recovery_outcome_state \<Rightarrow> string" where
  "outcome_state_value OutcomeNotEvaluated = ''not_evaluated''"
| "outcome_state_value OutcomeEvaluated = ''evaluated''"

fun outcome_type_value :: "recovery_outcome_type \<Rightarrow> string" where
  "outcome_type_value RecoverySuccessful = ''successful''"
| "outcome_type_value RecoveryPartial = ''partial''"
| "outcome_type_value RecoveryLowGain = ''low_gain''"
| "outcome_type_value RecoveryFailed = ''failed''"

text \<open>The measurements before and after, as they are passed to \<open>evaluate\<close> and kept in the outcome.\<close>

record recovery_measures =
  rm_run_id :: uuid
  rm_question_id :: string
  rm_plan_version :: int
  rm_attempt :: uuid
  rm_coverage_before :: rat
  rm_coverage_after :: rat
  rm_gaps_before :: int
  rm_gaps_after :: int
  rm_accepted_before :: int
  rm_accepted_after :: int
  rm_candidate_before :: int
  rm_candidate_after :: int
  rm_independent_before :: int
  rm_independent_after :: int
  rm_tokens_reserved :: int
  rm_tokens_used :: int
  rm_new_sources :: int
  rm_new_independent :: int
  rm_closure_id :: "uuid option"
  rm_closure_ids :: "uuid list"
  rm_closed_gaps :: "string list"
  rm_partial_gaps :: "string list"
  rm_remaining_gaps :: "string list"

record recovery_outcome = recovery_measures +
  ro_type :: recovery_outcome_type
  ro_utility_gain :: rat
  ro_state :: recovery_outcome_state

definition gained :: "int \<Rightarrow> int \<Rightarrow> int" where
  "gained before after = max 0 (after - before)"

definition outcome_type_of :: "bool \<Rightarrow> recovery_measures \<Rightarrow> recovery_outcome_type" where
  "outcome_type_of execution_failed m =
     (let coverage = max 0 (rm_coverage_after m - rm_coverage_before m);
          gaps = gained (rm_gaps_after m) (rm_gaps_before m);
          accepted = gained (rm_accepted_before m) (rm_accepted_after m);
          candidates = gained (rm_candidate_before m) (rm_candidate_after m);
          independents = gained (rm_independent_before m) (rm_independent_after m);
          useful = (0 < coverage \<or> 0 < gaps \<or> 0 < accepted \<or> 0 < candidates \<or> 0 < independents
                    \<or> 0 < rm_new_sources m)
      in if execution_failed then RecoveryFailed
         else if \<not> useful
           then (if 0 < rm_tokens_used m \<or> 0 < rm_tokens_reserved m then RecoveryLowGain else RecoveryFailed)
         else if 2 / 10 \<le> coverage \<or> 0 < gaps \<or> 5 \<le> accepted \<or> 0 < independents then RecoverySuccessful
         else RecoveryPartial)"

definition utility_gain_of :: "recovery_measures \<Rightarrow> rat" where
  "utility_gain_of m = py_round
     (max 0 (rm_coverage_after m - rm_coverage_before m)
      + of_int (gained (rm_gaps_after m) (rm_gaps_before m)) * (1 / 10)
      + of_int (gained (rm_accepted_before m) (rm_accepted_after m)) * (2 / 100)
      + of_int (gained (rm_independent_before m) (rm_independent_after m)) * (5 / 100)
      + of_int (rm_new_sources m) * (1 / 100)) 6"

definition evaluate_outcome :: "bool \<Rightarrow> recovery_measures \<Rightarrow> recovery_outcome" where
  "evaluate_outcome execution_failed m =
     recovery_measures.extend
       (m\<lparr>rm_gaps_before := max 0 (rm_gaps_before m), rm_gaps_after := max 0 (rm_gaps_after m),
          rm_accepted_before := max 0 (rm_accepted_before m), rm_accepted_after := max 0 (rm_accepted_after m),
          rm_candidate_before := max 0 (rm_candidate_before m),
          rm_candidate_after := max 0 (rm_candidate_after m),
          rm_independent_before := max 0 (rm_independent_before m),
          rm_independent_after := max 0 (rm_independent_after m),
          rm_tokens_reserved := max 0 (rm_tokens_reserved m), rm_tokens_used := max 0 (rm_tokens_used m),
          rm_new_sources := max 0 (rm_new_sources m), rm_new_independent := max 0 (rm_new_independent m)\<rparr>)
       (recovery_outcome.fields (outcome_type_of execution_failed m) (utility_gain_of m) OutcomeEvaluated)"

lemma gained_pos [simp]: "0 < gained a b \<longleftrightarrow> a < b" "0 \<le> gained a b"
  by (auto simp: gained_def)

text \<open>Success means a visible improvement, low gain that tokens bought nothing at all.\<close>

lemma outcome_type_cases:
  "outcome_type_of failed m = RecoverySuccessful \<longleftrightarrow> \<not> failed
     \<and> (rm_coverage_before m + 2 / 10 \<le> rm_coverage_after m \<or> rm_gaps_after m < rm_gaps_before m
        \<or> rm_accepted_before m + 5 \<le> rm_accepted_after m \<or> rm_independent_before m < rm_independent_after m)"
  "outcome_type_of failed m = RecoveryLowGain \<longleftrightarrow> \<not> failed \<and> (0 < rm_tokens_used m \<or> 0 < rm_tokens_reserved m)
     \<and> rm_coverage_after m \<le> rm_coverage_before m \<and> rm_gaps_before m \<le> rm_gaps_after m
     \<and> rm_accepted_after m \<le> rm_accepted_before m \<and> rm_candidate_after m \<le> rm_candidate_before m
     \<and> rm_independent_after m \<le> rm_independent_before m \<and> rm_new_sources m \<le> 0"
  by (auto simp: outcome_type_of_def Let_def gained_def max_def)

definition outcome_event_fields :: "(uuid \<Rightarrow> string) \<Rightarrow> recovery_outcome \<Rightarrow> json_object" where
  "outcome_event_fields sh x =
     [(''outcome_state'', JStr (outcome_state_value (ro_state x))),
      (''outcome_type'', JStr (outcome_type_value (ro_type x))),
      (''coverage_before'', JNum (rm_coverage_before x)), (''coverage_after'', JNum (rm_coverage_after x)),
      (''gap_count_before'', JInt (rm_gaps_before x)), (''gap_count_after'', JInt (rm_gaps_after x)),
      (''accepted_evidence_before'', JInt (rm_accepted_before x)),
      (''accepted_evidence_after'', JInt (rm_accepted_after x)),
      (''candidate_evidence_before'', JInt (rm_candidate_before x)),
      (''candidate_evidence_after'', JInt (rm_candidate_after x)),
      (''independent_sources_before'', JInt (rm_independent_before x)),
      (''independent_sources_after'', JInt (rm_independent_after x)),
      (''tokens_reserved'', JInt (rm_tokens_reserved x)), (''tokens_used'', JInt (rm_tokens_used x)),
      (''new_sources_count'', JInt (rm_new_sources x)),
      (''new_independent_sources_count'', JInt (rm_new_independent x)),
      (''utility_gain'', JNum (ro_utility_gain x)),
      (''closure_evaluation_id'', case rm_closure_id x of None \<Rightarrow> JNull | Some i \<Rightarrow> JStr (sh i)),
      (''closure_evaluation_ids'', JList (map (JStr \<circ> sh) (rm_closure_ids x))),
      (''closed_gap_ids'', JList (map JStr (rm_closed_gaps x))),
      (''partial_gap_ids'', JList (map JStr (rm_partial_gaps x))),
      (''remaining_gap_ids'', JList (map JStr (rm_remaining_gaps x)))]"

section \<open>The context of an active attempt\<close>

record recovery_context =
  rc_run_id :: uuid
  rc_question_id :: string
  rc_plan_version :: int
  rc_attempt :: uuid
  rc_trigger :: string
  rc_coverage_before :: rat
  rc_gap_before :: "string list"
  rc_created_at :: timestamp

text \<open>
  The environment of a transaction of the tool repository: the clock, \<open>str\<close> and \<open>UUID\<close> on
  identifiers, and \<open>str\<close> on the other JSON values. A text that is a date is a \<open>JTime\<close>, so
  \<open>fromisoformat\<close> refuses a \<open>JStr\<close>.
\<close>

record tool_env =
  tn_now :: timestamp
  tn_show :: "uuid \<Rightarrow> string"
  tn_read :: "string \<Rightarrow> uuid option"
  tn_str :: "json \<Rightarrow> string"

definition create_recovery_context ::
    "tool_env \<Rightarrow> uuid \<Rightarrow> string \<Rightarrow> int \<Rightarrow> uuid \<Rightarrow> string \<Rightarrow> rat \<Rightarrow> string list \<Rightarrow> recovery_context" where
  "create_recovery_context env run q version attempt trigger coverage gaps =
     \<lparr>rc_run_id = run, rc_question_id = q, rc_plan_version = version, rc_attempt = attempt,
      rc_trigger = trigger, rc_coverage_before = coverage, rc_gap_before = gaps,
      rc_created_at = tn_now env\<rparr>"

definition recovery_refs :: "tool_env \<Rightarrow> recovery_context \<Rightarrow> json_object" where
  "recovery_refs env c =
     [(''recovery_attempt_id'', JStr (tn_show env (rc_attempt c))),
      (''recovery_question_id'', JStr (rc_question_id c)),
      (''recovery_plan_version'', JInt (rc_plan_version c)),
      (''recovery_trigger_reason'', JStr (rc_trigger c)),
      (''recovery_coverage_before'', JNum (rc_coverage_before c)),
      (''recovery_gap_before'', JList (map JStr (rc_gap_before c))),
      (''recovery_context_created_at'', JTime (rc_created_at c))]"

definition merge_recovery_context :: "tool_env \<Rightarrow> json_object \<Rightarrow> recovery_context option \<Rightarrow> json_object" where
  "merge_recovery_context env refs context =
     (case context of None \<Rightarrow> refs | Some c \<Rightarrow> dict_update (recovery_refs env c) refs)"

definition clear_recovery_context :: "tool_env \<Rightarrow> uuid \<Rightarrow> json_object \<Rightarrow> json_object" where
  "clear_recovery_context env attempt usage =
     (if jget ''recovery_attempt_id'' usage \<noteq> JStr (tn_show env attempt) then usage
      else dict_pop ''recovery_context'' (dict_pop ''recovery_question_id'' (dict_pop ''recovery_attempt_id'' usage)))"

text \<open>\<open>_as_float\<close>; a text that reads as an infinity or as no number counts as 0.\<close>

definition as_float :: "json \<Rightarrow> rat" where
  "as_float v = (case v of JInt n \<Rightarrow> of_int n | JNum q \<Rightarrow> q
     | JStr s \<Rightarrow> (case parse_float s of Some (Fin q) \<Rightarrow> q | _ \<Rightarrow> 0) | _ \<Rightarrow> 0)"

text \<open>Iterating over a JSON value: a text yields its characters, a dictionary its keys.\<close>

definition json_elements :: "json \<Rightarrow> json list result" where
  "json_elements v = (case v of
       JList xs \<Rightarrow> Inr xs
     | JObj o' \<Rightarrow> Inr (map (JStr \<circ> fst) o')
     | JStr s \<Rightarrow> Inr (map (\<lambda>c. JStr (utf8 [c])) (code_points s))
     | _ \<Rightarrow> Inl (TypeError ''not iterable''))"

definition stored_recovery_context :: "tool_env \<Rightarrow> run_row \<Rightarrow> json_object \<Rightarrow> recovery_context result" where
  "stored_recovery_context env r stored =
     (let text = (\<lambda>k. py_str (tn_str env) (jget_or (JStr []) k stored)) in
      case map_of stored ''recovery_attempt_id'' of
        None \<Rightarrow> Inl (LookupErr ''recovery_attempt_id'')
      | Some a \<Rightarrow> (case tn_read env (py_str (tn_str env) a) of
          None \<Rightarrow> Inl (ValueError ''UUID'')
        | Some attempt \<Rightarrow> (case json_elements (jget_or (JList []) ''recovery_gap_before'' stored) of
            Inl e \<Rightarrow> Inl e
          | Inr gaps \<Rightarrow> (case map_of stored ''recovery_context_created_at'' of
              None \<Rightarrow> Inl (LookupErr ''recovery_context_created_at'')
            | Some (JTime t) \<Rightarrow> Inr
                \<lparr>rc_run_id = rr_id r, rc_question_id = text ''recovery_question_id'',
                 rc_plan_version = safe_int (jget_or (JInt 0) ''recovery_plan_version'' stored),
                 rc_attempt = attempt, rc_trigger = text ''recovery_trigger_reason'',
                 rc_coverage_before = as_float (jget_or (JNum 0) ''recovery_coverage_before'' stored),
                 rc_gap_before = map (py_str (tn_str env)) (filter (\<lambda>v. v \<noteq> JNull) gaps),
                 rc_created_at = t\<rparr>
            | Some _ \<Rightarrow> Inl (ValueError ''isoformat'')))))"

section \<open>Writing an event\<close>

definition PROPAGATED_EVENT_TYPES :: "string list" where
  "PROPAGATED_EVENT_TYPES =
     [''search.query.started'', ''search.completed'', ''search.reused'', ''candidate.created'',
      ''candidate.normalized'', ''candidate.duplicate_checked'', ''candidate.skipped'',
      ''candidate.dispatch_started'', ''candidate.dispatch_selected'', ''candidate.dispatch_skipped'',
      ''candidate.fetch_started'', ''candidate.fetch_failed'', ''candidate.fetch_success'',
      ''candidate.readable'', ''source.fetch_started'', ''source.fetch_success'', ''source.fetch_failed'',
      ''source.parse_started'', ''source.parse_success'', ''source.parse_failed'',
      ''source.content_extracted'', ''source.content_quality_passed'', ''source.content_quality_rejected'',
      ''source.readable'', ''evidence.selection_started'', ''evidence.selection_selected'',
      ''evidence.selection_skipped'', ''evidence.extraction_started'', ''evidence.extracted'',
      ''evidence.alignment.started'', ''evidence.alignment.completed'', ''evidence.alignment.failed'',
      ''gap.closure.started'', ''gap.closure.transition'', ''gap.closure.completed'',
      ''evaluation.completed'']"

definition feedback_refs :: "string \<Rightarrow> json_object \<Rightarrow> json_object \<Rightarrow> json_object" where
  "feedback_refs ty usage refs =
     (case jget ''feedback_query_context'' usage of
        JObj c \<Rightarrow>
          if ty \<in> set PROPAGATED_EVENT_TYPES
             \<and> (\<not> truthy (jget ''question_id'' refs)
                \<or> jget ''question_id'' refs = jget ''feedback_question_id'' c)
          then dict_update refs
                 [(''feedback_id'', jget ''feedback_id'' c),
                  (''feedback_execution_id'', jget ''feedback_execution_id'' c),
                  (''query_execution_id'', jget ''query_execution_id'' c)]
          else refs
      | _ \<Rightarrow> refs)"

definition append_tool_event ::
    "tool_env \<Rightarrow> string \<Rightarrow> json_object \<Rightarrow> json_object option \<Rightarrow> run_row \<times> database
       \<Rightarrow> (run_row \<times> database) result" where
  "append_tool_event env ty refs metrics = (\<lambda>(r, db).
     (case (case jget ''recovery_context'' (rr_usage r) of
              JObj stored \<Rightarrow> map_sum id (\<lambda>c. merge_recovery_context env refs (Some c))
                               (stored_recovery_context env r stored)
            | _ \<Rightarrow> Inr refs) of
        Inl e \<Rightarrow> Inl e
      | Inr merged \<Rightarrow> Inr (append_event ty (feedback_refs ty (rr_usage r) merged) metrics (r, db))))"

record recovery_note =
  ry_event :: string
  ry_question_id :: string
  ry_plan_version :: int
  ry_attempt :: uuid
  ry_coverage_before :: rat
  ry_coverage_after :: "rat option"
  ry_gap_before :: "string list"
  ry_gap_after :: "string list"
  ry_accepted_before :: int
  ry_accepted_after :: int
  ry_tokens_reserved :: int
  ry_reason :: "string option"
  ry_outcome :: "recovery_outcome option"

definition build_recovery_event :: "tool_env \<Rightarrow> uuid \<Rightarrow> recovery_note \<Rightarrow> json_object" where
  "build_recovery_event env run n =
     (let payload =
        [(''event'', JStr (ry_event n)), (''run_id'', JStr (tn_show env run)),
         (''question_id'', JStr (ry_question_id n)), (''plan_version'', JInt (ry_plan_version n)),
         (''attempt_id'', JStr (tn_show env (ry_attempt n))),
         (''recovery_attempt_id'', JStr (tn_show env (ry_attempt n))),
         (''coverage_before'', JNum (ry_coverage_before n)),
         (''coverage_after'', case ry_coverage_after n of None \<Rightarrow> JNull | Some q \<Rightarrow> JNum q),
         (''gap_before'', JList (map JStr (ry_gap_before n))),
         (''accepted_evidence_before'', JInt (ry_accepted_before n)),
         (''accepted_evidence_after'', JInt (ry_accepted_after n)),
         (''tokens_reserved'', JInt (ry_tokens_reserved n))]
        @ (if ry_outcome n = None then [(''gap_after'', JList (map JStr (ry_gap_after n)))] else [])
        @ (case ry_reason n of None \<Rightarrow> [] | Some s \<Rightarrow> [(''reason'', JStr s)])
      in case ry_outcome n of None \<Rightarrow> payload
         | Some x \<Rightarrow> dict_update payload (outcome_event_fields (tn_show env) x))"

definition RECOVERY_REF_KEYS :: "string list" where
  "RECOVERY_REF_KEYS = [''question_id'', ''plan_version'', ''attempt_id'', ''recovery_attempt_id'']"

definition append_recovery_event ::
    "tool_env \<Rightarrow> recovery_note \<Rightarrow> run_row \<times> database \<Rightarrow> (run_row \<times> database) result" where
  "append_recovery_event env n = (\<lambda>(r, db).
     (let payload = build_recovery_event env (rr_id r) n
      in append_tool_event env (ry_event n)
           (map (\<lambda>k. (k, jget k payload)) RECOVERY_REF_KEYS)
           (Some (filter (\<lambda>(k, v). k \<notin> set ([''event'', ''run_id''] @ RECOVERY_REF_KEYS)) payload))
           (r, db)))"

text \<open>
  While an attempt runs, its context is read back as it was written, so every event carries the
  attempt. What is used of \<open>UUID\<close> is that it reads the printed form of the attempt back.
\<close>

definition prints :: "tool_env \<Rightarrow> uuid \<Rightarrow> bool" where
  "prints env i \<longleftrightarrow> tn_read env (tn_show env i) = Some i"

lemma stored_context_roundtrip:
  assumes "prints env (rc_attempt c)" and "rc_run_id c = rr_id r"
  shows "stored_recovery_context env r (recovery_refs env c @ extra) = Inr c"
proof -
  have "filter (\<lambda>v. v \<noteq> JNull) (map JStr xs) = map JStr xs" for xs by (induction xs) simp_all
  then show ?thesis
    using assms unfolding prints_def
    by (cases c) (simp add: stored_recovery_context_def recovery_refs_def json_elements_def as_float_def
        safe_int_def safe_int_or_def comp_def)
qed

lemma event_carries_attempt:
  assumes "prints env (rc_attempt c)" and "jget ''recovery_context'' (rr_usage r) = JObj (recovery_refs env c @ extra)" and "rc_run_id c = rr_id r"
    and "map_of refs ''recovery_attempt_id'' = None"
    and "append_tool_event env ty refs metrics (r, db) = Inr (r', db')"
  shows "jget ''recovery_attempt_id'' (ae_refs (last (db_events db'))) = JStr (tn_show env (rc_attempt c))"
proof -
  let ?merged = "merge_recovery_context env refs (Some c)"
  have k: "map_of (dict_update d e) k = (case map_of (rev e) k of None \<Rightarrow> map_of d k | Some v \<Rightarrow> Some v)" for d e and k :: string
    by (induction d e rule: dict_update.induct) (auto simp: map_of_update map_of_append split: option.split)
  have "map_of (rev refs) ''recovery_attempt_id'' = None" using assms(4) by (simp add: map_of_eq_None_iff)
  then have "jget ''recovery_attempt_id'' ?merged = JStr (tn_show env (rc_attempt c))"
    by (simp add: merge_recovery_context_def jget_def k recovery_refs_def)
  moreover have "jget ''recovery_attempt_id'' (feedback_refs ty u m) = jget ''recovery_attempt_id'' m" for u m
    by (simp add: feedback_refs_def jget_def k map_of_update split: json.split)
  ultimately show ?thesis
    using assms(2,5) stored_context_roundtrip [OF assms(1,3), of extra]
    by (auto simp: append_tool_event_def append_event_def)
qed

end
