(* ===== verification/Token_Ledger.thy ===== *)
theory Token_Ledger
  imports Recovery_Execution
begin

text \<open>
  The model token budget of a run: the reservations of \<open>app/infrastructure/db/research_tools.py\<close>
  (\<open>evidence_model_budget\<close>, \<open>reserve_model_tokens\<close>, \<open>settle_model_reservation\<close>,
  \<open>mark_model_reservation_uncertain\<close>, \<open>release_model_reservation\<close> and what they call), over the
  table of \<open>model_budget_models.py\<close>, with \<open>expected_utility\<close> of \<open>domain/adaptive_scheduler.py\<close>.

  A reservation holds tokens before a call starts. It is settled with the tokens the call was billed,
  released when no call was made, or marked uncertain when nobody knows; while its lease runs it
  counts against the run, the pool of its node and its question. The properties follow a run over any
  sequence of such transactions: what a granted reservation leaves, and what keeps a pool inside its
  limit.
\<close>

section \<open>Rows\<close>

datatype reservation_status = ResReserved | ResUncertain | ResSettled | ResReleased

fun reservation_status_value :: "reservation_status \<Rightarrow> string" where
  "reservation_status_value ResReserved = ''reserved''"
| "reservation_status_value ResUncertain = ''uncertain''"
| "reservation_status_value ResSettled = ''settled''"
| "reservation_status_value ResReleased = ''released''"

record reservation =
  mr_id :: uuid
  mr_run_id :: uuid
  mr_question_id :: string
  mr_node :: string
  mr_attempt :: uuid
  mr_estimated_input :: int
  mr_max_output :: int
  mr_reserved_total :: int
  mr_actual_total :: "int option"
  mr_status :: reservation_status
  mr_usage_estimated :: bool
  mr_lease_until :: "timestamp option"
  mr_created_at :: timestamp
  mr_settled_at :: "timestamp option"

text \<open>The other rows the borrowing decision counts: queries, evidence with its source owner, gaps.\<close>

record search_fact =
  sf_run_id :: uuid
  sf_question_id :: string
  sf_status :: string

record evidence_fact =
  ef_run_id :: uuid
  ef_question_id :: string
  ef_accepted :: bool
  ef_owner :: string

record gap_fact =
  gf_run_id :: uuid
  gf_question_id :: string
  gf_attempts :: int

record ledger =
  lg_db :: database
  lg_reservations :: "reservation list"
  lg_searches :: "search_fact list"
  lg_evidence :: "evidence_fact list"
  lg_gaps :: "gap_fact list"

definition reservation_row :: "uuid \<Rightarrow> uuid \<Rightarrow> ledger \<Rightarrow> reservation option" where
  "reservation_row i attempt lg =
     find (\<lambda>v. mr_run_id v = i \<and> mr_attempt v = attempt) (lg_reservations lg)"

definition put_reservation :: "reservation \<Rightarrow> ledger \<Rightarrow> ledger" where
  "put_reservation v lg = lg\<lparr>lg_reservations :=
     map (\<lambda>x. if mr_run_id x = mr_run_id v \<and> mr_attempt x = mr_attempt v then v else x) (lg_reservations lg)\<rparr>"

section \<open>What is held\<close>

definition expired :: "timestamp \<Rightarrow> reservation \<Rightarrow> bool" where
  "expired now v \<longleftrightarrow>
     mr_status v = ResReserved \<and> (case mr_lease_until v of None \<Rightarrow> False | Some t \<Rightarrow> t < now)"

definition outstanding_total :: "timestamp \<Rightarrow> uuid \<Rightarrow> ledger \<Rightarrow> int" where
  "outstanding_total now i lg =
     sum_list (map mr_reserved_total (filter (\<lambda>v. mr_run_id v = i
       \<and> mr_status v \<in> {ResReserved, ResUncertain} \<and> \<not> expired now v) (lg_reservations lg)))"

definition reservation_charge :: "reservation \<Rightarrow> int" where
  "reservation_charge v =
     (if mr_status v = ResSettled then (case mr_actual_total v of None \<Rightarrow> 0 | Some n \<Rightarrow> max 0 n)
      else max 0 (mr_reserved_total v))"

definition counted :: "timestamp \<Rightarrow> uuid \<Rightarrow> reservation \<Rightarrow> bool" where
  "counted now i v \<longleftrightarrow>
     mr_run_id v = i \<and> mr_status v \<in> {ResReserved, ResUncertain, ResSettled} \<and> \<not> expired now v"

definition model_pool_committed :: "timestamp \<Rightarrow> uuid \<Rightarrow> ledger \<Rightarrow> string \<Rightarrow> int" where
  "model_pool_committed now i lg pool =
     sum_list (map reservation_charge (filter (\<lambda>v. counted now i v
       \<and> model_token_pool_for_node (mr_node v) = pool) (lg_reservations lg)))"

definition model_pool_accounting :: "timestamp \<Rightarrow> uuid \<Rightarrow> ledger \<Rightarrow> string \<Rightarrow> reservation_status \<Rightarrow> int" where
  "model_pool_accounting now i lg pool st =
     sum_list (map reservation_charge (filter (\<lambda>v. counted now i v \<and> mr_status v = st
       \<and> model_token_pool_for_node (mr_node v) = pool) (lg_reservations lg)))"

definition question_charge :: "timestamp \<Rightarrow> uuid \<Rightarrow> ledger \<Rightarrow> string \<Rightarrow> reservation_status \<Rightarrow> int" where
  "question_charge now i lg q st =
     sum_list (map reservation_charge (filter (\<lambda>v. counted now i v \<and> mr_status v = st
       \<and> model_token_pool_for_node (mr_node v) = ''research'' \<and> mr_question_id v = q) (lg_reservations lg)))"

section \<open>The live view of the pools in the usage snapshot\<close>

definition allocation_of :: "run_row \<Rightarrow> json_object" where
  "allocation_of r = obj_of (jget_or (JObj []) ''allocation'' (rr_budget r))"

definition model_tokens :: "run_row \<Rightarrow> int result" where
  "model_tokens r =
     (case int_or_zero (jget_or (JInt 0) ''model_tokens'' (rr_usage r)) of
        Inl e \<Rightarrow> Inl e | Inr n \<Rightarrow> Inr (max (model_token_total (rr_usage r)) n))"

definition pool_view :: "timestamp \<Rightarrow> uuid \<Rightarrow> ledger \<Rightarrow> string \<times> int \<Rightarrow> string \<times> json" where
  "pool_view now i lg = (\<lambda>(pool, limit).
     (let settled = model_pool_accounting now i lg pool ResSettled;
          reserved = model_pool_accounting now i lg pool ResReserved;
          uncertain = model_pool_accounting now i lg pool ResUncertain;
          spent = settled + reserved + uncertain
      in (pool, JObj
           [(''allocated_tokens'', JInt limit), (''committed_tokens'', JInt settled),
            (''settled_tokens'', JInt settled), (''reserved_tokens'', JInt reserved),
            (''uncertain_tokens'', JInt uncertain), (''remaining_tokens'', JInt (max 0 (limit - spent))),
            (''status'', JStr (if 0 < limit \<and> limit \<le> spent then ''exhausted''
                               else if 0 < limit then ''available'' else ''disabled''))])))"

definition question_view :: "timestamp \<Rightarrow> run_row \<Rightarrow> ledger \<Rightarrow> json_object \<Rightarrow> string \<times> json \<Rightarrow> string \<times> json" where
  "question_view now r lg floors = (\<lambda>(key, raw_target).
     (let target = max 0 (safe_int raw_target);
          floor_tokens = max 0 (safe_int (jget_or (JInt 0) key floors));
          settled = question_charge now (rr_id r) lg key ResSettled;
          held = question_charge now (rr_id r) lg key ResReserved;
          uncertain = question_charge now (rr_id r) lg key ResUncertain;
          projected = settled + held + uncertain;
          risks = obj_of (jget_or (JObj []) ''risk_state_by_question'' (rr_quality r));
          p1_exception = (case jget_or (JObj []) key risks of
              JObj risk \<Rightarrow> safe_int (jget_or (JInt 3) ''priority'' risk) = 1
                           \<and> truthy (jget ''unresolved_high_risk'' risk)
            | _ \<Rightarrow> False);
          hard_limit = 3 * target div 2;
          recovery_limit = 2 * target
      in (key, JObj
           [(''floor_tokens'', JInt floor_tokens), (''target_tokens'', JInt target),
            (''hard_limit_tokens'', JInt hard_limit), (''settled_tokens'', JInt settled),
            (''reserved_tokens'', JInt held), (''uncertain_tokens'', JInt uncertain),
            (''committed_tokens'', JInt settled), (''projected_tokens'', JInt projected),
            (''borrowed_tokens'', JInt (max 0 (projected - target))),
            (''remaining_to_target_tokens'', JInt (max 0 (target - projected))),
            (''remaining_to_hard_limit_tokens'', JInt (max 0 (hard_limit - projected))),
            (''recovery_limit_tokens'', JInt recovery_limit),
            (''remaining_to_recovery_limit_tokens'', JInt (max 0 (recovery_limit - projected))),
            (''p1_high_risk_exception'', JBool p1_exception),
            (''status'', JStr
               (if (0 < recovery_limit \<and> recovery_limit \<le> projected)
                   \<or> (0 < hard_limit \<and> hard_limit \<le> projected \<and> \<not> p1_exception) then ''hard_exhausted''
                else if target < projected then ''borrowing''
                else if 0 < target \<and> target \<le> projected then ''target_exhausted''
                else ''available''))])))"

definition question_token_pool_usage :: "timestamp \<Rightarrow> run_row \<Rightarrow> ledger \<Rightarrow> json_object" where
  "question_token_pool_usage now r lg =
     (case jget_or (JObj []) ''allocation'' (rr_budget r) of
        JObj allocation \<Rightarrow>
          (case jget_or (JObj []) ''question_token_budgets'' allocation of
             JObj targets \<Rightarrow>
               map (question_view now r lg (obj_of (jget_or (JObj []) ''question_token_floors'' allocation))) targets
           | _ \<Rightarrow> [])
      | _ \<Rightarrow> [])"

definition refresh_model_pool_usage :: "timestamp \<Rightarrow> ledger \<Rightarrow> run_row \<Rightarrow> run_row" where
  "refresh_model_pool_usage now lg r =
     (case jget_or (JObj []) ''allocation'' (rr_budget r) of
        JObj allocation \<Rightarrow>
          r\<lparr>rr_usage := with_pools (rr_budget r)
             (AList.update ''question_token_pools'' (JObj (question_token_pool_usage now r lg))
               (AList.update ''model_token_pools''
                 (JObj (map (pool_view now (rr_id r) lg) (model_token_pool_limits allocation))) (rr_usage r)))\<rparr>
      | _ \<Rightarrow> r)"

definition store_run :: "run_row \<Rightarrow> database \<Rightarrow> ledger \<Rightarrow> ledger" where
  "store_run r db lg = lg\<lparr>lg_db := put_run r db\<rparr>"

definition set_usage :: "json_object \<Rightarrow> run_row \<Rightarrow> run_row" where
  "set_usage usage r = r\<lparr>rr_usage := with_pools (rr_budget r) usage\<rparr>"

section \<open>The guard before an evidence call\<close>

definition MAX_EVIDENCE_MODEL_CALL_TOKENS :: int where "MAX_EVIDENCE_MODEL_CALL_TOKENS = 12000"
definition MIN_EVIDENCE_MODEL_CALL_TOKENS :: int where "MIN_EVIDENCE_MODEL_CALL_TOKENS = 3000"
definition MAX_REPORT_WRITER_RESERVE_TOKENS :: int where "MAX_REPORT_WRITER_RESERVE_TOKENS = 15000"
definition MODEL_RESERVATION_LEASE :: int where "MODEL_RESERVATION_LEASE = seconds 900"

record evidence_budget =
  eb_allowed :: bool
  eb_max_call :: int
  eb_remaining :: int
  eb_writer_reserve :: int
  eb_outcome :: call_outcome

definition unfinished_questions :: "run_row \<Rightarrow> ledger \<Rightarrow> (string \<times> int) list" where
  "unfinished_questions r lg =
     map (\<lambda>w. (pw_question_id w, int (length (filter (\<lambda>s. sf_run_id s = rr_id r
                 \<and> sf_question_id s = pw_question_id w) (lg_searches lg)))))
       (filter (\<lambda>w. pw_run_id w = rr_id r \<and> pw_version w = rr_plan_version r
          \<and> pw_status w \<in> {''pending'', ''active'', ''blocked'', ''partial'', ''technical_retry''})
        (db_items (lg_db lg)))"

definition writer_reserve_of :: "int \<Rightarrow> int \<Rightarrow> run_row \<Rightarrow> int result" where
  "writer_reserve_of maximum pending r =
     (case (if 0 < maximum then int_or_zero (jget_or (JInt 0) ''accepted_evidence'' (rr_usage r)) else Inr 0) of
        Inl e \<Rightarrow> Inl e
      | Inr accepted \<Rightarrow>
          let estimated = (if 0 < maximum
                then estimate_writer_reserve_tokens pending (if 0 < accepted then 20 else 0) 1500 220 180 2000
                       (15 / 100) MAX_REPORT_WRITER_RESERVE_TOKENS
                else 0);
              limit = the (map_of (model_token_pool_limits (allocation_of r)) ''writer'')
          in Inr (if limit \<noteq> 0 then limit else estimated))"

definition research_available ::
    "timestamp \<Rightarrow> int \<Rightarrow> int \<Rightarrow> int \<Rightarrow> int \<Rightarrow> run_row \<Rightarrow> ledger \<Rightarrow> int" where
  "research_available now maximum remaining writer pending r lg =
     (let allocation = allocation_of r;
          overall = (if 0 < maximum
            then max 0 (remaining - writer - safe_int (jget_or (JInt 0) ''verification_tokens'' allocation)
                        - safe_int (jget_or (JInt 0) ''safety_tokens'' allocation))
            else MAX_EVIDENCE_MODEL_CALL_TOKENS * max 1 pending);
          limit = the (map_of (model_token_pool_limits allocation) ''research'')
      in if 0 < limit then min overall (max 0 (limit - model_pool_committed now (rr_id r) lg ''research''))
         else overall)"

definition maximum_evidence_call :: "run_row \<Rightarrow> int" where
  "maximum_evidence_call r = min MAX_EVIDENCE_MODEL_CALL_TOKENS (max MIN_EVIDENCE_MODEL_CALL_TOKENS
     (safe_int (jget_or (JInt MAX_EVIDENCE_MODEL_CALL_TOKENS) ''max_evidence_call_tokens'' (rr_budget r))))"

definition guarded_usage :: "int \<Rightarrow> int \<Rightarrow> int \<Rightarrow> int \<Rightarrow> int \<Rightarrow> run_row \<Rightarrow> json_object" where
  "guarded_usage used remaining outstanding writer pending r =
     (let allocation = allocation_of r in
      dict_update (rr_usage r)
        [(''model_tokens'', JInt used), (''model_tokens_remaining'', JInt remaining),
         (''model_tokens_reserved'', JInt outstanding), (''writer_token_reserve'', JInt writer),
         (''verification_token_reserve'', JInt (safe_int (jget_or (JInt 0) ''verification_tokens'' allocation))),
         (''safety_token_reserve'', JInt (safe_int (jget_or (JInt 0) ''safety_tokens'' allocation))),
         (''pending_questions'', JInt pending)])"

definition stop_research ::
    "tool_env \<Rightarrow> int \<Rightarrow> int \<Rightarrow> int \<Rightarrow> int \<Rightarrow> int \<Rightarrow> int \<Rightarrow> run_row \<times> database \<Rightarrow> (run_row \<times> database) result" where
  "stop_research env used maximum remaining writer pending future = (\<lambda>(r, db).
     if truthy (jget ''model_budget_guarded'' (rr_usage r)) then Inr (r, db)
     else
       let r' = set_usage (dict_update (rr_usage r)
             [(''model_tokens'', JInt used), (''model_budget_guarded'', JBool True),
              (''model_tokens_remaining'', JInt remaining), (''writer_token_reserve'', JInt writer)]) r;
           allocation = allocation_of r
       in append_tool_event env ''budget.updated'' [(''reason'', JStr ''model_token_pre_call_guard'')]
            (Some [(''model_tokens'', JInt used), (''max_model_tokens'', JInt maximum),
              (''remaining_tokens'', JInt remaining), (''writer_reserve_tokens'', JInt writer),
              (''verification_reserve_tokens'', JInt (safe_int (jget_or (JInt 0) ''verification_tokens'' allocation))),
              (''safety_reserve_tokens'', JInt (safe_int (jget_or (JInt 0) ''safety_tokens'' allocation))),
              (''pending_questions'', JInt pending), (''future_question_reserve_tokens'', JInt future)])
            (r', db))"

definition evidence_model_budget ::
    "tool_env \<Rightarrow> uuid \<Rightarrow> dispatch_key \<Rightarrow> string option \<Rightarrow> int option \<Rightarrow> ledger \<Rightarrow> (evidence_budget \<times> ledger) result" where
  "evidence_model_budget env i task question minimum_call lg =
     (case locked_run i task (lg_db lg) of Inl e \<Rightarrow> Inl e | Inr r \<Rightarrow>
      case int_or_zero (jget_or (JInt 0) ''max_tokens'' (rr_budget r)) of Inl e \<Rightarrow> Inl e | Inr maximum \<Rightarrow>
      case model_tokens r of Inl e \<Rightarrow> Inl e | Inr used \<Rightarrow>
      let outstanding = outstanding_total (tn_now env) i lg;
          remaining = max 0 (maximum - used - outstanding);
          eligible = unfinished_questions r lg;
          pending = int (length eligible)
      in case writer_reserve_of maximum pending r of Inl e \<Rightarrow> Inl e | Inr writer \<Rightarrow>
      let available = research_available (tn_now env) maximum remaining writer pending r lg;
          maximum_call = maximum_evidence_call r;
          minimum = (case minimum_call of None \<Rightarrow> MIN_EVIDENCE_MODEL_CALL_TOKENS | Some n \<Rightarrow> max 1 n)
      in if maximum_call < minimum
         then Inr (\<lparr>eb_allowed = False, eb_max_call = 0, eb_remaining = remaining,
                    eb_writer_reserve = writer, eb_outcome = StopRun\<rparr>, lg)
         else
           case allocate_research_call available pending 0
                  (case question of None \<Rightarrow> 0 | Some q \<Rightarrow> case map_of eligible q of None \<Rightarrow> 0 | Some n \<Rightarrow> n)
                  minimum maximum_call of Inl e \<Rightarrow> Inl e | Inr d \<Rightarrow>
           let r1 = set_usage (guarded_usage used remaining outstanding writer pending r) r
           in case (if bd_outcome d = StopRun
                    then stop_research env used maximum remaining writer pending (bd_future_reserve d) (r1, lg_db lg)
                    else Inr (r1, lg_db lg)) of
                Inl e \<Rightarrow> Inl e
              | Inr (r2, db) \<Rightarrow>
                  Inr (\<lparr>eb_allowed = (bd_outcome d = ExecuteCall), eb_max_call = bd_call_tokens d,
                        eb_remaining = remaining, eb_writer_reserve = writer, eb_outcome = bd_outcome d\<rparr>,
                       store_run r2 db lg))"

section \<open>Expected utility of an action\<close>

record action_cost =
  ac_tokens :: int
  ac_latency_ms :: int
  ac_pages :: int
  ac_requests :: int

definition expected_utility :: "int \<Rightarrow> rat \<Rightarrow> rat \<Rightarrow> rat \<Rightarrow> rat \<Rightarrow> action_cost \<Rightarrow> rat" where
  "expected_utility priority gap_risk probability delta novelty cost =
     (let weight = (if priority = 1 then 3 / 2 else if priority = 2 then 1 else 7 / 10);
          denominator = max 1 (of_int (ac_tokens cost) / 1000) + max 0 (of_int (ac_latency_ms cost) / 2000)
            + of_int (max 0 (ac_pages cost)) * (3 / 2) + of_int (max 0 (ac_requests cost))
      in py_round (weight * clamp01 gap_risk * clamp01 probability * clamp01 delta * clamp01 novelty
                   / denominator) 6)"

section \<open>What is known of a question that wants to borrow\<close>

definition QUERY_FAMILY_VALUES :: "string list" where
  "QUERY_FAMILY_VALUES = [''scope'', ''authoritative'', ''alternate'', ''contradiction'']"

definition executed_query_families :: "tool_env \<Rightarrow> json_object \<Rightarrow> string \<Rightarrow> string list" where
  "executed_query_families env usage q =
     (case jget_or (JObj []) ''executed_query_families_by_question'' usage of
        JObj by_question \<Rightarrow>
          (case jget_or (JList []) q by_question of
             JList raw \<Rightarrow> dedup (filter (\<lambda>f. f \<in> set QUERY_FAMILY_VALUES) (map (py_str (tn_str env)) raw))
           | _ \<Rightarrow> [])
      | _ \<Rightarrow> [])"

definition query_strategy_limit :: "string \<Rightarrow> nat" where
  "query_strategy_limit question = 4"

definition string_sequence :: "tool_env \<Rightarrow> json \<Rightarrow> string list" where
  "string_sequence env v =
     (case v of JList xs \<Rightarrow> filter (\<lambda>s. s \<noteq> []) (map (py_str (tn_str env)) xs) | _ \<Rightarrow> [])"

definition plan_items_of :: "run_row \<Rightarrow> ledger \<Rightarrow> plan_row list" where
  "plan_items_of r lg =
     filter (\<lambda>w. pw_run_id w = rr_id r \<and> pw_version w = rr_plan_version r) (db_items (lg_db lg))"

definition question_spend :: "uuid \<Rightarrow> string \<Rightarrow> ledger \<Rightarrow> int" where
  "question_spend i q lg =
     sum_list (map (\<lambda>v. case mr_actual_total v of Some n \<Rightarrow> n | None \<Rightarrow> mr_reserved_total v)
       (filter (\<lambda>v. mr_run_id v = i \<and> mr_question_id v = take_chars 50 q
                    \<and> mr_status v \<in> {ResReserved, ResUncertain, ResSettled}) (lg_reservations lg)))"

definition question_events :: "uuid \<Rightarrow> string \<Rightarrow> string \<Rightarrow> ledger \<Rightarrow> nat" where
  "question_events i q ty lg =
     length (filter (\<lambda>e. ae_run_id e = i \<and> ae_type e = ty \<and> jget ''question_id'' (ae_refs e) = JStr q)
       (db_events (lg_db lg)))"

definition evidence_of_question :: "uuid \<Rightarrow> string \<Rightarrow> ledger \<Rightarrow> evidence_fact list" where
  "evidence_of_question i q lg = filter (\<lambda>e. ef_run_id e = i \<and> ef_question_id e = q) (lg_evidence lg)"

definition accepted_count :: "uuid \<Rightarrow> string \<Rightarrow> ledger \<Rightarrow> int" where
  "accepted_count i q lg = int (length (filter ef_accepted (evidence_of_question i q lg)))"

definition independent_count :: "uuid \<Rightarrow> string \<Rightarrow> ledger \<Rightarrow> int" where
  "independent_count i q lg = int (length (dedup (map ef_owner (filter ef_accepted (evidence_of_question i q lg)))))"

definition gap_attempts_of :: "uuid \<Rightarrow> string \<Rightarrow> ledger \<Rightarrow> int" where
  "gap_attempts_of i q lg =
     (case map gf_attempts (filter (\<lambda>g. gf_run_id g = i \<and> gf_question_id g = q) (lg_gaps lg)) of
        [] \<Rightarrow> 0 | n # ns \<Rightarrow> fold max ns n)"

definition search_statuses :: "uuid \<Rightarrow> string \<Rightarrow> ledger \<Rightarrow> string list" where
  "search_statuses i q lg =
     map sf_status (filter (\<lambda>s. sf_run_id s = i \<and> sf_question_id s = q) (lg_searches lg))"

definition stored_coverage :: "tool_env \<Rightarrow> run_row \<Rightarrow> string \<Rightarrow> rat" where
  "stored_coverage env r q =
     (case jget_or (JList []) ''coverage_map'' (rr_quality r) of
        JList items \<Rightarrow>
          (case filter (\<lambda>v. case v of JObj o' \<Rightarrow> py_str (tn_str env) (jget ''dimension_key'' o') = q | _ \<Rightarrow> False) items of
             [] \<Rightarrow> 0 | v # _ \<Rightarrow> as_float (jget_or (JNum 0) ''coverage'' (obj_of v)))
      | _ \<Rightarrow> 0)"

definition question_risk_of ::
    "tool_env \<Rightarrow> run_row \<Rightarrow> string \<Rightarrow> plan_row option \<Rightarrow> rat \<Rightarrow> question_risk" where
  "question_risk_of env r q item coverage =
     (let raw = obj_of (jget_or (JObj []) q (obj_of (jget_or (JObj []) ''risk_state_by_question'' (rr_quality r))));
          keys = (\<lambda>k. string_sequence env (jget_or (JList []) k raw))
      in classify_question_risk
           \<lparr>qi_question_id = q, qi_priority = (case item of None \<Rightarrow> 3 | Some w \<Rightarrow> pw_priority w),
            qi_coverage = as_float (jget_or (JNum coverage) ''coverage'' raw),
            qi_requirements = (case item of None \<Rightarrow> [] | Some w \<Rightarrow> pw_requirements w),
            qi_gap_open = truthy (jget_or (JBool (coverage < 1)) ''gap_open'' raw),
            qi_open_dimensions = keys ''open_dimension_keys'', qi_unresolved_claims = keys ''unresolved_claim_ids'',
            qi_high_risk_claims = keys ''high_risk_claim_ids'', qi_high_risk_conflicts = keys ''high_risk_conflict_ids'',
            qi_deficit = safe_int (jget_or (JInt 0) ''independent_source_deficit'' raw),
            qi_blocked = (py_str (tn_str env) (jget_or (JStr []) ''lifecycle'' raw) = ''blocked'')\<rparr>)"

definition research_facts_of ::
    "tool_env \<Rightarrow> run_row \<Rightarrow> string \<Rightarrow> rat \<Rightarrow> question_risk \<Rightarrow> ledger \<Rightarrow> question_facts" where
  "research_facts_of env r q coverage risk lg =
     (let i = rr_id r; statuses = search_statuses i q lg; count = (\<lambda>ty. int (question_events i q ty lg));
          families = executed_query_families env (rr_usage r) q
      in \<lparr>qf_question_id = q, qf_search_started = int (length statuses),
          qf_search_completed = int (length (filter (\<lambda>s. s = ''succeeded'') statuses)),
          qf_search_failed = int (length (filter (\<lambda>s. s \<noteq> ''succeeded'') statuses)),
          qf_readable_sources = count ''source.readable'',
          qf_extraction_started = count ''evidence.extraction_started'',
          qf_candidate_evidence = int (length (evidence_of_question i q lg)),
          qf_accepted_evidence = accepted_count i q lg,
          qf_evaluation_completed = (0 < count ''evaluation.completed''), qf_coverage = coverage,
          qf_gap_open = qk_gap_open risk, qf_critical_gap = (qk_level risk = RiskCritical),
          qf_replan_count = 0, qf_gap_attempts = gap_attempts_of i q lg,
          qf_family_marker = (families \<noteq> []),
          qf_technical_blocked = (''succeeded'' \<notin> set statuses
            \<and> list_ex (\<lambda>ty. 0 < count ty) [''provider.degraded'', ''search.provider_degraded'',
                                              ''source.fetch_failed'', ''source.parse_failed'']),
          qf_resource_blocked = False, qf_budget_blocked = False, qf_budget_reason = None,
          qf_recovery_path = (length families < query_strategy_limit [] \<or> 0 < count ''source.readable''),
          qf_quality_met = False\<rparr>)"

text \<open>The decision together with what its events report.\<close>

record borrow_view =
  bv_decision :: borrow_decision
  bv_risk :: question_risk
  bv_coverage :: rat
  bv_utility :: rat
  bv_projected :: int

definition borrow_view_of ::
    "tool_env \<Rightarrow> run_row \<Rightarrow> string \<Rightarrow> int \<Rightarrow> int \<Rightarrow> int \<Rightarrow> ledger \<Rightarrow> borrow_view" where
  "borrow_view_of env r q requested spend limit lg =
     (let items = plan_items_of r lg;
          item = find (\<lambda>w. pw_question_id w = q) items;
          coverage = stored_coverage env r q;
          risk = question_risk_of env r q item coverage;
          streak = (case jget_or (JObj []) ''low_information_gain_streak_by_question'' (rr_quality r) of
                      JObj o' \<Rightarrow> safe_int (jget_or (JInt 0) q o') | _ \<Rightarrow> 0);
          families = executed_query_families env (rr_usage r) q;
          untried = (length families < query_strategy_limit (case item of None \<Rightarrow> [] | Some w \<Rightarrow> pw_question w));
          utility = expected_utility (case item of None \<Rightarrow> 3 | Some w \<Rightarrow> pw_priority w) (qk_score risk)
            (max (15 / 100) (7 / 10 - of_int streak * (1 / 4))) (max (1 / 10) (1 - coverage)) (7 / 10)
            \<lparr>ac_tokens = requested, ac_latency_ms = 0, ac_pages = 1, ac_requests = 0\<rparr>
      in \<lparr>bv_decision = decide_question_borrow risk
            (list_all (\<lambda>w. executed_query_families env (rr_usage r) (pw_question_id w) \<noteq> []) items)
            (Some (project_question_research_state (research_facts_of env r q coverage risk lg)))
            (spend + requested) limit utility streak untried (5 / 1000),
          bv_risk = risk, bv_coverage = coverage, bv_utility = utility, bv_projected = spend + requested\<rparr>)"

section \<open>Refusing and granting a reservation\<close>

definition mark_question_risk_blocked :: "string \<Rightarrow> string \<Rightarrow> json_object \<Rightarrow> json_object" where
  "mark_question_risk_blocked q reason quality =
     (let questions = obj_of (jget_or (JObj []) ''risk_state_by_question'' quality);
          state = obj_of (jget_or (JObj []) q questions);
          reasons = (case jget_or (JList []) ''reasons'' state of JList xs \<Rightarrow> xs | _ \<Rightarrow> []);
          marker = JStr (''budget_blocked:'' @ reason);
          state' = dict_update state
            [(''lifecycle'', JStr ''blocked''), (''borrow_eligible'', JBool False),
             (''reasons'', JList (if marker \<in> set reasons then reasons else reasons @ [marker]))];
          questions' = AList.update q (JObj state') questions;
          risk = AList.update ''questions'' (JObj questions') (obj_of (jget_or (JObj []) ''risk_state'' quality));
          summary = AList.update ''borrow_eligible_questions''
            (JInt (int (length (filter (\<lambda>(k, v). case v of JObj o' \<Rightarrow> truthy (jget ''borrow_eligible'' o') | _ \<Rightarrow> False)
                                  questions'))))
            (obj_of (jget_or (JObj []) ''summary'' risk))
      in AList.update ''risk_state'' (JObj (AList.update ''summary'' (JObj summary) risk))
           (AList.update ''risk_state_by_question'' (JObj questions') quality))"

record token_grant =
  tg_granted :: bool
  tg_reserved_total :: int
  tg_status :: string
  tg_reason :: string
  tg_attempt :: "uuid option"
  tg_coverage_before :: rat
  tg_gap_before :: "string list"
  tg_accepted_before :: int

definition token_denied :: "string \<Rightarrow> string \<Rightarrow> token_grant" where
  "token_denied status reason =
     \<lparr>tg_granted = False, tg_reserved_total = 0, tg_status = status, tg_reason = reason, tg_attempt = None,
      tg_coverage_before = 0, tg_gap_before = [], tg_accepted_before = 0\<rparr>"

definition token_granted :: "int \<Rightarrow> token_grant" where
  "token_granted amount =
     \<lparr>tg_granted = True, tg_reserved_total = amount, tg_status = ''reserved'', tg_reason = [], tg_attempt = None,
      tg_coverage_before = 0, tg_gap_before = [], tg_accepted_before = 0\<rparr>"

record token_request =
  tr_question :: string
  tr_node :: string
  tr_attempt :: uuid
  tr_estimated_input :: int
  tr_max_output :: int
  tr_lease_until :: "timestamp option"

definition requested_total :: "token_request \<Rightarrow> int" where
  "requested_total q = max 0 (tr_estimated_input q) + max 0 (tr_max_output q)"

definition protected_reserve :: "string \<Rightarrow> json_object \<Rightarrow> int" where
  "protected_reserve node allocation =
     safe_int (jget_or (JInt 0) ''verification_tokens'' allocation)
     + safe_int (jget_or (JInt 0) ''safety_tokens'' allocation)
     + (if node \<noteq> ''report_writer''
        then max (safe_int (jget_or (JInt 0) ''writer_tokens_initial'' allocation))
                 (safe_int (jget_or (JInt 0) ''writer_tokens'' allocation))
        else 0)"

definition question_limit_of :: "string \<Rightarrow> json_object \<Rightarrow> int result" where
  "question_limit_of q allocation =
     (case jget_or (JObj []) ''question_token_budgets'' allocation of
        JObj limits \<Rightarrow> int_or_zero (jget_or (JInt 0) q limits) | _ \<Rightarrow> Inr 0)"

definition deny_pool ::
    "tool_env \<Rightarrow> token_request \<Rightarrow> string \<Rightarrow> int \<Rightarrow> int \<Rightarrow> run_row \<times> database \<Rightarrow> (run_row \<times> database) result" where
  "deny_pool env q pool limit committed = (\<lambda>(r, db).
     let numbers = [(''allocated_tokens'', JInt limit), (''committed_tokens'', JInt committed),
                    (''requested_tokens'', JInt (requested_total q))];
         r' = set_usage (AList.update ''last_model_pool_denial'' (JObj ((''pool'', JStr pool) # numbers)) (rr_usage r)) r
     in append_tool_event env ''budget.pool_exhausted''
          [(''pool'', JStr pool), (''node'', JStr (take_chars 100 (tr_node q)))] (Some numbers) (r', db))"

definition deny_borrow ::
    "tool_env \<Rightarrow> token_request \<Rightarrow> int \<Rightarrow> borrow_view \<Rightarrow> run_row \<times> database \<Rightarrow> (run_row \<times> database) result" where
  "deny_borrow env q limit v = (\<lambda>(r, db).
     let d = bv_decision v;
         entry = [(''allowed'', JBool False), (''reason'', JStr (bw_reason d)), (''hard_limit'', JBool (bw_hard_limit d)),
                  (''projected_spend'', JInt (bv_projected v)), (''target_tokens'', JInt limit),
                  (''expected_utility'', JNum (bv_utility v)), (''risk_level'', JStr (level_value (qk_level (bv_risk v))))];
         decisions = AList.update (tr_question q) (JObj entry)
           (obj_of (jget_or (JObj []) ''question_borrow_decisions'' (rr_usage r)));
         usage = AList.update ''question_borrow_decisions'' (JObj decisions) (rr_usage r);
         frozen = (case jget_or (JList []) ''frozen_questions'' usage of JList xs \<Rightarrow> xs | _ \<Rightarrow> []);
         usage' = (if bw_freeze d
           then AList.update ''frozen_questions''
             (JList (if JStr (tr_question q) \<in> set frozen then frozen else frozen @ [JStr (tr_question q)])) usage
           else usage);
         r' = (set_usage usage' r)\<lparr>rr_quality :=
                mark_question_risk_blocked (tr_question q) (bw_reason d) (rr_quality r)\<rparr>
     in append_tool_event env ''budget.question_borrow_denied''
          [(''question_id'', JStr (take_chars 50 (tr_question q)))] (Some entry) (r', db))"

text \<open>The checks in the order of the code: what is left, the pool, the protected reserves, the question.\<close>

datatype admission = Denied token_grant run_row database | Admitted int "borrow_view option"

definition admit_question :: "tool_env \<Rightarrow> token_request \<Rightarrow> run_row \<Rightarrow> ledger \<Rightarrow> admission result" where
  "admit_question env q r lg =
     (case question_limit_of (tr_question q) (allocation_of r) of
        Inl e \<Rightarrow> Inl e
      | Inr limit \<Rightarrow>
          let spend = question_spend (rr_id r) (tr_question q) lg; requested = requested_total q in
          if limit \<le> 0 \<or> spend + requested \<le> limit then Inr (Admitted 0 None)
          else
            let v = borrow_view_of env r (tr_question q) requested spend limit lg in
            if bw_allowed (bv_decision v)
            then Inr (Admitted (min requested (max 0 (spend + requested - max spend limit))) (Some v))
            else (case deny_borrow env q limit v (r, lg_db lg) of
                    Inl e \<Rightarrow> Inl e
                  | Inr (r', db') \<Rightarrow> Inr (Denied
                      (token_denied (if bw_hard_limit (bv_decision v) then ''question_budget_exhausted''
                                     else ''question_budget_yielded'') (bw_reason (bv_decision v))) r' db')))"

definition admit_pool :: "tool_env \<Rightarrow> token_request \<Rightarrow> int \<Rightarrow> run_row \<Rightarrow> ledger \<Rightarrow> admission result" where
  "admit_pool env q available r lg =
     (let pool = model_token_pool_for_node (tr_node q);
          limit = the (map_of (model_token_pool_limits (allocation_of r)) pool);
          committed = model_pool_committed (tn_now env) (rr_id r) lg pool
      in if 0 < limit \<and> limit < committed + requested_total q
         then (case deny_pool env q pool limit committed (r, lg_db lg) of
                 Inl e \<Rightarrow> Inl e
               | Inr (r', db') \<Rightarrow>
                   Inr (Denied (token_denied ''pool_budget_exhausted'' (pool @ ''_token_pool'')) r' db'))
         else if available - requested_total q < protected_reserve (tr_node q) (allocation_of r)
           then Inr (Denied (token_denied ''insufficient_budget'' ''protected_token_pools'') r (lg_db lg))
         else admit_question env q r lg)"

definition admit_tokens :: "tool_env \<Rightarrow> token_request \<Rightarrow> run_row \<Rightarrow> ledger \<Rightarrow> admission result" where
  "admit_tokens env q r lg =
     (case int_or_zero (jget_or (JInt 0) ''max_tokens'' (rr_budget r)) of Inl e \<Rightarrow> Inl e | Inr maximum \<Rightarrow>
      if maximum \<le> 0 then Inr (Admitted 0 None)
      else (case model_tokens r of
          Inl e \<Rightarrow> Inl e
        | Inr used \<Rightarrow>
            let available = maximum - used - outstanding_total (tn_now env) (rr_id r) lg in
            if available < requested_total q
            then Inr (Denied (token_denied ''insufficient_budget'' ''outstanding_reservations'') r (lg_db lg))
            else admit_pool env q available r lg))"

definition borrow_note :: "run_row \<Rightarrow> token_request \<Rightarrow> borrow_view \<Rightarrow> int \<Rightarrow> string \<Rightarrow> int \<Rightarrow> recovery_note" where
  "borrow_note r q v accepted event amount =
     \<lparr>ry_event = event, ry_question_id = tr_question q, ry_plan_version = rr_plan_version r,
      ry_attempt = tr_attempt q, ry_coverage_before = bv_coverage v, ry_coverage_after = None,
      ry_gap_before = qk_open_dimensions (bv_risk v), ry_gap_after = [], ry_accepted_before = accepted,
      ry_accepted_after = 0, ry_tokens_reserved = amount, ry_reason = Some (bw_reason (bv_decision v)),
      ry_outcome = None\<rparr>"

definition open_recovery ::
    "tool_env \<Rightarrow> token_request \<Rightarrow> borrow_view \<Rightarrow> ledger \<Rightarrow> run_row \<Rightarrow> (run_row \<times> database) result" where
  "open_recovery env q v lg r =
     (let i = rr_id r; question = tr_question q;
          context = create_recovery_context env i question (rr_plan_version r) (tr_attempt q)
            (bw_reason (bv_decision v)) (bv_coverage v) (qk_open_dimensions (bv_risk v));
          stored = recovery_refs env context
            @ [(''recovery_candidate_evidence_before'', JInt (int (length (evidence_of_question i question lg)))),
               (''recovery_independent_sources_before'', JInt (independent_count i question lg))];
          r' = set_usage (dict_update (rr_usage r)
            [(''recovery_attempt_id'', JStr (tn_show env (tr_attempt q))),
             (''recovery_question_id'', JStr question), (''recovery_context'', JObj stored)]) r
      in append_recovery_event env
           (borrow_note r q v (accepted_count i question lg) ''recovery.borrow.allowed'' 0) (r', lg_db lg))"

definition new_reservation :: "tool_env \<Rightarrow> uuid \<Rightarrow> token_request \<Rightarrow> uuid \<Rightarrow> reservation" where
  "new_reservation env new_id q i =
     \<lparr>mr_id = new_id, mr_run_id = i, mr_question_id = take_chars 50 (tr_question q),
      mr_node = take_chars 100 (tr_node q), mr_attempt = tr_attempt q,
      mr_estimated_input = max 0 (tr_estimated_input q), mr_max_output = max 0 (tr_max_output q),
      mr_reserved_total = requested_total q, mr_actual_total = None, mr_status = ResReserved,
      mr_usage_estimated = False,
      mr_lease_until = Some (case tr_lease_until q of None \<Rightarrow> tn_now env + MODEL_RESERVATION_LEASE | Some t \<Rightarrow> t),
      mr_created_at = tn_now env, mr_settled_at = None\<rparr>"

definition grant_tokens ::
    "tool_env \<Rightarrow> uuid \<Rightarrow> token_request \<Rightarrow> int \<Rightarrow> borrow_view option \<Rightarrow> run_row \<Rightarrow> ledger \<Rightarrow> (token_grant \<times> ledger) result" where
  "grant_tokens env new_id q borrowed view r lg =
     (let accepted = accepted_count (rr_id r) (tr_question q) lg;
          lg' = lg\<lparr>lg_reservations := lg_reservations lg @ [new_reservation env new_id q (rr_id r)]\<rparr>
      in case (case view of None \<Rightarrow> Inr (r, lg_db lg) | Some v \<Rightarrow> open_recovery env q v lg r) of
        Inl e \<Rightarrow> Inl e
      | Inr (r0, db0) \<Rightarrow>
          (case foldM (\<lambda>s f. f s) (refresh_model_pool_usage (tn_now env) lg' r0, db0)
             ([append_tool_event env ''budget.reserved''
                 [(''question_id'', JStr (take_chars 50 (tr_question q))),
                  (''attempt_id'', JStr (tn_show env (tr_attempt q)))]
                 (Some [(''estimated_input_tokens'', JInt (max 0 (tr_estimated_input q))),
                        (''max_output_tokens'', JInt (max 0 (tr_max_output q))),
                        (''reserved_total_tokens'', JInt (requested_total q)),
                        (''borrowed_question_tokens'', JInt borrowed)])]
              @ (if 0 < borrowed
                 then [append_tool_event env ''budget.question_allocation_borrowed''
                         [(''question_id'', JStr (take_chars 50 (tr_question q)))]
                         (Some [(''borrowed_tokens'', JInt borrowed)])]
                 else [])
              @ (case view of None \<Rightarrow> []
                 | Some v \<Rightarrow> [append_recovery_event env
                     (borrow_note r q v accepted ''recovery.token_reserved'' (requested_total q))])) of
             Inl e \<Rightarrow> Inl e
           | Inr (r1, db1) \<Rightarrow>
               Inr ((case view of None \<Rightarrow> token_granted (requested_total q)
                     | Some v \<Rightarrow> (token_granted (requested_total q))
                         \<lparr>tg_attempt := Some (tr_attempt q), tg_coverage_before := bv_coverage v,
                          tg_gap_before := qk_open_dimensions (bv_risk v), tg_accepted_before := accepted\<rparr>),
                    store_run r1 db1 lg')))"

definition reserve_model_tokens ::
    "tool_env \<Rightarrow> uuid \<Rightarrow> uuid \<Rightarrow> dispatch_key \<Rightarrow> token_request \<Rightarrow> ledger \<Rightarrow> (token_grant \<times> ledger) result" where
  "reserve_model_tokens env new_id i task q lg =
     (if requested_total q \<le> 0 then Inl (ValueError ''reservation must reserve a positive token amount'')
      else case locked_run i task (lg_db lg) of Inl e \<Rightarrow> Inl e | Inr r \<Rightarrow>
        (case reservation_row i (tr_attempt q) lg of
           Some v \<Rightarrow> Inr (if mr_status v = ResReserved then token_granted (mr_reserved_total v)
                         else token_denied (reservation_status_value (mr_status v)) ''attempt_already_terminal'', lg)
         | None \<Rightarrow>
             (case admit_tokens env q r lg of
                Inl e \<Rightarrow> Inl e
              | Inr (Denied g r' db') \<Rightarrow> Inr (g, store_run r' db' lg)
              | Inr (Admitted borrowed view) \<Rightarrow> grant_tokens env new_id q borrowed view r lg)))"

section \<open>The end of a reservation\<close>

definition end_reservation ::
    "tool_env \<Rightarrow> reservation \<Rightarrow> (run_row \<Rightarrow> run_row) \<Rightarrow> string \<Rightarrow> json_object \<Rightarrow> run_row \<Rightarrow> ledger
       \<Rightarrow> (bool \<times> ledger) result" where
  "end_reservation env v before ty metrics r lg =
     (let lg' = put_reservation v lg;
          r' = refresh_model_pool_usage (tn_now env) lg' (before r)
      in case append_tool_event env ty
           [(''question_id'', JStr (mr_question_id v)), (''attempt_id'', JStr (tn_show env (mr_attempt v)))]
           (Some metrics) (r', lg_db lg) of
           Inl e \<Rightarrow> Inl e | Inr (r1, db1) \<Rightarrow> Inr (True, store_run r1 db1 lg'))"

definition count_settled :: "run_row \<Rightarrow> run_row" where
  "count_settled r = set_usage (AList.update ''settled_reservations''
     (JInt (safe_int (jget_or (JInt 0) ''settled_reservations'' (rr_usage r)) + 1)) (rr_usage r)) r"

definition settle_model_reservation ::
    "tool_env \<Rightarrow> uuid \<Rightarrow> dispatch_key \<Rightarrow> uuid \<Rightarrow> int \<Rightarrow> bool \<Rightarrow> ledger \<Rightarrow> (bool \<times> ledger) result" where
  "settle_model_reservation env i task attempt actual estimated lg =
     (case locked_run i task (lg_db lg) of Inl e \<Rightarrow> Inl e | Inr r \<Rightarrow>
      case reservation_row i attempt lg of
        None \<Rightarrow> Inr (False, lg)
      | Some v \<Rightarrow>
          if mr_status v \<in> {ResSettled, ResReleased} then Inr (False, lg)
          else end_reservation env
                 (v\<lparr>mr_status := ResSettled, mr_actual_total := Some (max 0 actual),
                    mr_usage_estimated := estimated, mr_settled_at := Some (tn_now env)\<rparr>)
                 count_settled ''budget.settled''
                 [(''reserved_total_tokens'', JInt (mr_reserved_total v)),
                  (''actual_total_tokens'', JInt (max 0 actual)), (''usage_estimated'', JBool estimated)] r lg)"

definition mark_model_reservation_uncertain ::
    "tool_env \<Rightarrow> uuid \<Rightarrow> dispatch_key \<Rightarrow> uuid \<Rightarrow> ledger \<Rightarrow> (bool \<times> ledger) result" where
  "mark_model_reservation_uncertain env i task attempt lg =
     (case locked_run i task (lg_db lg) of Inl e \<Rightarrow> Inl e | Inr r \<Rightarrow>
      case reservation_row i attempt lg of
        None \<Rightarrow> Inr (False, lg)
      | Some v \<Rightarrow>
          if mr_status v \<noteq> ResReserved then Inr (False, lg)
          else end_reservation env (v\<lparr>mr_status := ResUncertain\<rparr>) id ''budget.reservation_uncertain''
                 [(''reserved_total_tokens'', JInt (mr_reserved_total v))] r lg)"

definition release_model_reservation ::
    "tool_env \<Rightarrow> uuid \<Rightarrow> dispatch_key \<Rightarrow> uuid \<Rightarrow> ledger \<Rightarrow> (bool \<times> ledger) result" where
  "release_model_reservation env i task attempt lg =
     (case locked_run i task (lg_db lg) of Inl e \<Rightarrow> Inl e | Inr r \<Rightarrow>
      case reservation_row i attempt lg of
        None \<Rightarrow> Inr (False, lg)
      | Some v \<Rightarrow>
          if mr_status v \<noteq> ResReserved then Inr (False, lg)
          else end_reservation env (v\<lparr>mr_status := ResReleased, mr_settled_at := Some (tn_now env)\<rparr>) id
                 ''budget.reservation_released'' [(''released_tokens'', JInt (mr_reserved_total v))] r lg)"

end
