(* ===== verification/Token_Guarantees.thy ===== *)
theory Token_Guarantees
  imports Token_Ledger
begin

text \<open>
  What the reservations of \<open>Token_Ledger\<close> guarantee. One lemma says which rows each transaction
  leaves; from it follow the life of a reservation over any sequence of transactions, what a granted
  reservation fits into, and that a pool stays inside its limit while every call is settled before its
  lease ends and bills at most what it reserved. A last property shows that the lease condition is
  needed.
\<close>

section \<open>What each transaction does to the table\<close>

lemma locked_run_found: "locked_run i task db = Inr r \<Longrightarrow> find_run i db = Some r \<and> rr_id r = i"
  by (auto simp: locked_run_def owned_run_Some find_run_id split: option.splits)

lemma store_run_tables [simp]:
  "lg_reservations (store_run r db lg) = lg_reservations lg" "lg_db (store_run r db lg) = put_run r db"
  by (simp_all add: store_run_def)

lemma evidence_budget_rows:
  "evidence_model_budget env i task q m lg = Inr (b, lg') \<Longrightarrow> lg_reservations lg' = lg_reservations lg"
  unfolding evidence_model_budget_def Let_def
  by (auto split: sum.splits prod.splits if_splits)

lemma grant_tokens_rows:
  assumes "grant_tokens env new_id q borrowed view r lg = Inr (g, lg')"
  shows "tg_granted g \<and> tg_reserved_total g = requested_total q
    \<and> lg_reservations lg' = lg_reservations lg @ [new_reservation env new_id q (rr_id r)]"
  using assms unfolding grant_tokens_def Let_def token_granted_def
  by (auto split: sum.splits prod.splits option.splits)

lemma reservation_row_Some:
  "reservation_row i a lg = Some v \<Longrightarrow> v \<in> set (lg_reservations lg) \<and> mr_run_id v = i \<and> mr_attempt v = a"
  by (auto simp: reservation_row_def find_Some_iff)

lemma reservation_row_None:
  "reservation_row i a lg = None \<longleftrightarrow> (i, a) \<notin> (\<lambda>v. (mr_run_id v, mr_attempt v)) ` set (lg_reservations lg)"
  by (auto simp: reservation_row_def find_None_iff)

lemma denied_not_granted [simp]: "\<not> tg_granted (token_denied status reason)"
  by (simp add: token_denied_def)

lemma question_denied: "admit_question env q r lg = Inr (Denied d r' db') \<Longrightarrow> \<not> tg_granted d"
  unfolding admit_question_def by (auto simp: Let_def split: sum.splits if_split_asm)

lemma pool_denied: "admit_pool env q n r lg = Inr (Denied d r' db') \<Longrightarrow> \<not> tg_granted d"
  unfolding admit_pool_def using question_denied by (auto simp: Let_def split: sum.splits if_split_asm)

lemma tokens_denied: "admit_tokens env q r lg = Inr (Denied d r' db') \<Longrightarrow> \<not> tg_granted d"
  unfolding admit_tokens_def using pool_denied by (auto simp: Let_def split: sum.splits if_split_asm)

text \<open>A reservation either replays, is refused without a trace in the table, or adds its row.\<close>

lemma reserve_cases:
  assumes "reserve_model_tokens env new_id i task q lg = Inr (g, lg')"
  obtains (replay) v where "reservation_row i (tr_attempt q) lg = Some v" and "lg' = lg"
      and "tg_granted g \<longleftrightarrow> mr_status v = ResReserved"
    | (refused) "reservation_row i (tr_attempt q) lg = None" and "\<not> tg_granted g"
      and "lg_reservations lg' = lg_reservations lg"
    | (granted) r borrowed view where "locked_run i task (lg_db lg) = Inr r" and "reservation_row i (tr_attempt q) lg = None"
      and "admit_tokens env q r lg = Inr (Admitted borrowed view)" and "0 < requested_total q" and "tg_granted g"
      and "lg_reservations lg' = lg_reservations lg @ [new_reservation env new_id q i]"
proof -
  from assms obtain r where pos: "0 < requested_total q" and r: "locked_run i task (lg_db lg) = Inr r"
    by (auto simp: reserve_model_tokens_def split: if_splits sum.splits)
  show thesis
  proof (cases "reservation_row i (tr_attempt q) lg")
    case (Some v)
    then have "g = (if mr_status v = ResReserved then token_granted (mr_reserved_total v)
        else token_denied (reservation_status_value (mr_status v)) ''attempt_already_terminal'')" "lg' = lg"
      using assms pos r by (auto simp: reserve_model_tokens_def)
    then show thesis by (intro replay [OF Some]) (simp_all add: token_granted_def)
  next
    case None
    then obtain a where a: "admit_tokens env q r lg = Inr a"
      using assms pos r by (auto simp: reserve_model_tokens_def split: sum.splits)
    show thesis
    proof (cases a)
      case (Denied d r' db')
      then have "\<not> tg_granted d" using a tokens_denied by blast
      moreover have "g = d" "lg_reservations lg' = lg_reservations lg"
        using assms pos r None a Denied by (auto simp: reserve_model_tokens_def)
      ultimately show thesis using None by (intro refused) simp_all
    next
      case (Admitted borrowed view)
      then have grant: "grant_tokens env new_id q borrowed view r lg = Inr (g, lg')"
        using assms pos r None a by (simp add: reserve_model_tokens_def)
      show thesis
        by (rule granted [OF r None]) (use grant_tokens_rows [OF grant] locked_run_found [OF r] a Admitted pos in simp_all)
    qed
  qed
qed

lemma end_reservation_rows:
  "end_reservation env v f ty ms r lg = Inr (b, lg') \<Longrightarrow> lg_reservations lg' = lg_reservations (put_reservation v lg)"
  unfolding end_reservation_def Let_def by (auto split: sum.splits prod.splits)

text \<open>A transaction that ends a reservation replaces one row by its next state.\<close>

definition row_move :: "timestamp \<Rightarrow> reservation \<Rightarrow> reservation \<Rightarrow> bool" where
  "row_move now v v' \<longleftrightarrow>
     (mr_status v \<in> {ResReserved, ResUncertain} \<and> (\<exists>actual estimated. v' = v\<lparr>mr_status := ResSettled,
        mr_actual_total := Some (max 0 actual), mr_usage_estimated := estimated, mr_settled_at := Some now\<rparr>))
     \<or> (mr_status v = ResReserved \<and> v' = v\<lparr>mr_status := ResUncertain\<rparr>)
     \<or> (mr_status v = ResReserved \<and> v' = v\<lparr>mr_status := ResReleased, mr_settled_at := Some now\<rparr>)"

definition moved_rows :: "timestamp \<Rightarrow> reservation list \<Rightarrow> reservation list \<Rightarrow> bool" where
  "moved_rows now vs vs' \<longleftrightarrow> vs' = vs \<or> (\<exists>v v'. v \<in> set vs \<and> row_move now v v'
     \<and> vs' = map (\<lambda>x. if mr_run_id x = mr_run_id v \<and> mr_attempt x = mr_attempt v then v' else x) vs)"

lemma row_move_key: "row_move now v v' \<Longrightarrow> mr_run_id v' = mr_run_id v \<and> mr_attempt v' = mr_attempt v"
  by (auto simp: row_move_def)

lemma ended_rows:
  assumes "reservation_row i attempt lg = Some v" and "row_move now v v'"
    and "end_reservation env v' f ty ms r lg = Inr (b, lg')"
  shows "moved_rows now (lg_reservations lg) (lg_reservations lg')"
  using end_reservation_rows [OF assms(3)] reservation_row_Some [OF assms(1)] assms(2) row_move_key [OF assms(2)]
  by (auto simp: moved_rows_def put_reservation_def)

lemma settle_rows:
  assumes "settle_model_reservation env i task attempt actual estimated lg = Inr (b, lg')"
  shows "moved_rows (tn_now env) (lg_reservations lg) (lg_reservations lg')"
proof -
  from assms have "lg' = lg \<or> (\<exists>v r. reservation_row i attempt lg = Some v \<and> mr_status v \<notin> {ResSettled, ResReleased}
      \<and> (\<exists>f ty ms. end_reservation env (v\<lparr>mr_status := ResSettled, mr_actual_total := Some (max 0 actual),
           mr_usage_estimated := estimated, mr_settled_at := Some (tn_now env)\<rparr>) f ty ms r lg = Inr (b, lg')))"
    unfolding settle_model_reservation_def by (auto split: sum.splits option.splits if_splits)
  then show ?thesis
  proof (elim disjE exE conjE)
    fix v r f ty ms
    assume v: "reservation_row i attempt lg = Some v" "mr_status v \<notin> {ResSettled, ResReleased}"
      and ended: "end_reservation env (v\<lparr>mr_status := ResSettled, mr_actual_total := Some (max 0 actual),
           mr_usage_estimated := estimated, mr_settled_at := Some (tn_now env)\<rparr>) f ty ms r lg = Inr (b, lg')"
    have "mr_status v \<in> {ResReserved, ResUncertain}" using v(2) by (cases "mr_status v") simp_all
    then show ?thesis using ended_rows [OF v(1) _ ended, of "tn_now env"] by (auto simp: row_move_def)
  qed (simp add: moved_rows_def)
qed

lemma uncertain_rows:
  assumes "mark_model_reservation_uncertain env i task attempt lg = Inr (b, lg')"
  shows "moved_rows (tn_now env) (lg_reservations lg) (lg_reservations lg')"
proof -
  from assms have "lg' = lg \<or> (\<exists>v r f ty ms. reservation_row i attempt lg = Some v \<and> mr_status v = ResReserved
      \<and> end_reservation env (v\<lparr>mr_status := ResUncertain\<rparr>) f ty ms r lg = Inr (b, lg'))"
    unfolding mark_model_reservation_uncertain_def by (auto split: sum.splits option.splits if_splits)
  then show ?thesis using ended_rows by (fastforce simp: moved_rows_def row_move_def)
qed

lemma release_rows:
  assumes "release_model_reservation env i task attempt lg = Inr (b, lg')"
  shows "moved_rows (tn_now env) (lg_reservations lg) (lg_reservations lg')"
proof -
  from assms have "lg' = lg \<or> (\<exists>v r f ty ms. reservation_row i attempt lg = Some v \<and> mr_status v = ResReserved
      \<and> end_reservation env (v\<lparr>mr_status := ResReleased, mr_settled_at := Some (tn_now env)\<rparr>) f ty ms r lg = Inr (b, lg'))"
    unfolding release_model_reservation_def by (auto split: sum.splits option.splits if_splits)
  then show ?thesis using ended_rows by (fastforce simp: moved_rows_def row_move_def)
qed

section \<open>Sequences of transactions\<close>

text \<open>
  One step is one transaction; any other transaction of the program leaves the table alone. The names
  of nodes are short literals in the code, so cutting them to the column changes nothing.
\<close>

inductive ledger_step :: "tool_env \<Rightarrow> ledger \<Rightarrow> ledger \<Rightarrow> bool" for env where
  guard: "evidence_model_budget env i task q m lg = Inr (b, lg') \<Longrightarrow> ledger_step env lg lg'"
| reserve: "reserve_model_tokens env new_id i task q lg = Inr (g, lg')
    \<Longrightarrow> take_chars 100 (tr_node q) = tr_node q \<Longrightarrow> ledger_step env lg lg'"
| settle: "settle_model_reservation env i task attempt actual estimated lg = Inr (b, lg') \<Longrightarrow> ledger_step env lg lg'"
| uncertain: "mark_model_reservation_uncertain env i task attempt lg = Inr (b, lg') \<Longrightarrow> ledger_step env lg lg'"
| release: "release_model_reservation env i task attempt lg = Inr (b, lg') \<Longrightarrow> ledger_step env lg lg'"
| other: "lg_reservations lg' = lg_reservations lg \<Longrightarrow> ledger_step env lg lg'"

inductive_cases ledger_stepE: "ledger_step env lg lg'"

text \<open>Every step moves one row or adds an admitted one.\<close>

lemma ledger_step_rows:
  assumes "ledger_step env lg lg'"
  obtains (moved) "moved_rows (tn_now env) (lg_reservations lg) (lg_reservations lg')"
    | (added) q new_id i task r borrowed view where "locked_run i task (lg_db lg) = Inr r"
      and "reservation_row i (tr_attempt q) lg = None" and "0 < requested_total q"
      and "admit_tokens env q r lg = Inr (Admitted borrowed view)" and "take_chars 100 (tr_node q) = tr_node q"
      and "lg_reservations lg' = lg_reservations lg @ [new_reservation env new_id q i]"
  using assms
proof cases
  case (guard i task q m b)
  then show ?thesis using moved evidence_budget_rows by (simp add: moved_rows_def)
next
  case (reserve new_id i task q g)
  from reserve(1) show ?thesis
  proof (cases rule: reserve_cases)
    case (granted r borrowed view)
    then show ?thesis using added reserve(2) by metis
  qed (use moved in \<open>simp_all add: moved_rows_def\<close>)
next
  case (settle i task attempt actual estimated b)
  then show ?thesis using moved settle_rows by blast
next
  case (uncertain i task attempt b)
  then show ?thesis using moved uncertain_rows by blast
next
  case (release i task attempt b)
  then show ?thesis using moved release_rows by blast
next
  case other
  then show ?thesis using moved by (simp add: moved_rows_def)
qed

section \<open>The life of a reservation\<close>

definition reservation_key :: "reservation \<Rightarrow> uuid \<times> uuid" where
  "reservation_key v = (mr_run_id v, mr_attempt v)"

definition reservation_ok :: "reservation \<Rightarrow> bool" where
  "reservation_ok v \<longleftrightarrow> 0 < mr_reserved_total v
     \<and> (case mr_actual_total v of None \<Rightarrow> mr_status v \<noteq> ResSettled | Some n \<Rightarrow> mr_status v = ResSettled \<and> 0 \<le> n)"

definition row_follows :: "reservation \<Rightarrow> reservation \<Rightarrow> bool" where
  "row_follows v v' \<longleftrightarrow>
     reservation_key v' = reservation_key v \<and> mr_node v' = mr_node v \<and> mr_question_id v' = mr_question_id v
     \<and> mr_reserved_total v' = mr_reserved_total v
     \<and> (mr_status v \<in> {ResSettled, ResReleased} \<longrightarrow> v' = v)
     \<and> (mr_status v = ResUncertain \<longrightarrow> mr_status v' \<in> {ResUncertain, ResSettled})"

abbreviation some_ledger_step :: "ledger \<Rightarrow> ledger \<Rightarrow> bool" where
  "some_ledger_step lg lg' \<equiv> \<exists>env. ledger_step env lg lg'"

lemma row_follows_refl [simp]: "row_follows v v"
  by (simp add: row_follows_def)

lemma row_follows_trans: "row_follows u v \<Longrightarrow> row_follows v w \<Longrightarrow> row_follows u w"
  by (cases "mr_status v") (auto simp: row_follows_def)

lemma row_move_follows: "row_move now v v' \<Longrightarrow> row_follows v v'"
  by (auto simp: row_move_def row_follows_def reservation_key_def)

lemma row_move_ok: "row_move now v v' \<Longrightarrow> reservation_ok v \<Longrightarrow> reservation_ok v'"
  by (auto simp: row_move_def reservation_ok_def split: option.splits)

lemma moved_rows_map:
  assumes "moved_rows now vs vs'" and "distinct (map reservation_key vs)"
  obtains f where "vs' = map f vs" and "\<And>v. v \<in> set vs \<Longrightarrow> f v = v \<or> row_move now v (f v)"
proof -
  from assms(1) consider "vs' = vs"
    | v v' where "v \<in> set vs" "row_move now v v'"
        "vs' = map (\<lambda>x. if mr_run_id x = mr_run_id v \<and> mr_attempt x = mr_attempt v then v' else x) vs"
    by (auto simp: moved_rows_def)
  then show thesis
  proof cases
    case 1
    then show thesis using that [of id] by simp
  next
    case (2 v v')
    have "x = v" if "x \<in> set vs" "mr_run_id x = mr_run_id v" "mr_attempt x = mr_attempt v" for x
      using assms(2) that 2(1) by (auto simp: distinct_map inj_on_def reservation_key_def)
    then show thesis using 2 by (intro that [of "\<lambda>x. if mr_run_id x = mr_run_id v \<and> mr_attempt x = mr_attempt v then v' else x"]) auto
  qed
qed

definition reservations_ok :: "reservation list \<Rightarrow> bool" where
  "reservations_ok vs \<longleftrightarrow> distinct (map reservation_key vs) \<and> (\<forall>v \<in> set vs. reservation_ok v)"

lemma new_reservation_fields [simp]:
  "mr_run_id (new_reservation env n q i) = i" "mr_attempt (new_reservation env n q i) = tr_attempt q"
  "mr_reserved_total (new_reservation env n q i) = requested_total q"
  "mr_status (new_reservation env n q i) = ResReserved" "mr_actual_total (new_reservation env n q i) = None"
  "mr_question_id (new_reservation env n q i) = take_chars 50 (tr_question q)"
  "mr_node (new_reservation env n q i) = take_chars 100 (tr_node q)"
  by (simp_all add: new_reservation_def)

lemma ledger_step_ok:
  assumes "ledger_step env lg lg'" and ok: "reservations_ok (lg_reservations lg)"
  shows "reservations_ok (lg_reservations lg')
    \<and> (\<forall>v \<in> set (lg_reservations lg). \<exists>v' \<in> set (lg_reservations lg'). row_follows v v')"
  using assms(1)
proof (cases rule: ledger_step_rows)
  case moved
  then obtain f where f: "lg_reservations lg' = map f (lg_reservations lg)"
      "\<And>v. v \<in> set (lg_reservations lg) \<Longrightarrow> f v = v \<or> row_move (tn_now env) v (f v)"
    using ok by (metis moved_rows_map reservations_ok_def)
  have follows: "row_follows v (f v)" "reservation_ok v \<Longrightarrow> reservation_ok (f v)"
    if "v \<in> set (lg_reservations lg)" for v
    using f(2) [OF that] row_move_follows row_move_ok by (metis row_follows_refl)+
  then have keys: "map reservation_key (map f (lg_reservations lg)) = map reservation_key (lg_reservations lg)"
    by (simp add: row_follows_def)
  show ?thesis using ok follows unfolding reservations_ok_def f(1) keys by auto
next
  case (added q new_id i task r borrowed view)
  have "\<exists>v' \<in> set (lg_reservations lg'). row_follows v v'" if "v \<in> set (lg_reservations lg)" for v
    using that row_follows_refl [of v] unfolding added(6) by (intro bexI [of _ v]) simp_all
  then show ?thesis
    using ok added(2,3,6) by (auto simp: reservations_ok_def reservation_ok_def reservation_row_None reservation_key_def)
qed

lemma ledger_steps_ok:
  assumes "some_ledger_step\<^sup>*\<^sup>* lg lg'" and ok: "reservations_ok (lg_reservations lg)"
  shows "reservations_ok (lg_reservations lg')
    \<and> (\<forall>v \<in> set (lg_reservations lg). \<exists>v' \<in> set (lg_reservations lg'). row_follows v v')"
  using assms(1)
proof (induction rule: rtranclp_induct)
  case base
  then show ?case using ok row_follows_refl by blast
next
  case (step lg1 lg2)
  then obtain env where "ledger_step env lg1 lg2" by blast
  from ledger_step_ok [OF this] step.IH show ?case using row_follows_trans by meson
qed

text \<open>
  C29. One reservation per attempt. Whatever sequence of transactions runs, in any order and at any
  times, an attempt of a run has at most one reservation; it never disappears and keeps its node,
  question and amount, it is never refunded or billed a second time, a settled or released one never
  changes again, an uncertain one can only be settled, and exactly the settled ones carry a
  bill, which is not negative.
\<close>

theorem reservations_are_charged_once:
  assumes "some_ledger_step\<^sup>*\<^sup>* lg0 lg" and "lg_reservations lg0 = []" and "some_ledger_step\<^sup>*\<^sup>* lg lg'"
  shows "reservations_ok (lg_reservations lg)
    \<and> (\<forall>v \<in> set (lg_reservations lg). \<exists>v' \<in> set (lg_reservations lg'). row_follows v v')"
proof -
  have "reservations_ok (lg_reservations lg0)" by (simp add: assms(2) reservations_ok_def)
  then have "reservations_ok (lg_reservations lg)" using ledger_steps_ok [OF assms(1)] by blast
  then show ?thesis using ledger_steps_ok [OF assms(3)] by blast
qed

section \<open>What a granted reservation fits into\<close>

definition pool_share :: "timestamp \<Rightarrow> uuid \<Rightarrow> string \<Rightarrow> reservation \<Rightarrow> int" where
  "pool_share now i pool v =
     (if counted now i v \<and> model_token_pool_for_node (mr_node v) = pool then reservation_charge v else 0)"

lemma committed_shares: "model_pool_committed now i lg pool = sum_list (map (pool_share now i pool) (lg_reservations lg))"
  by (simp add: model_pool_committed_def pool_share_def [abs_def] sum_list_map_filter')

lemma charge_nonneg [simp]: "0 \<le> reservation_charge v"
  by (simp add: reservation_charge_def split: option.split)

lemma committed_added:
  assumes "lg_reservations lg' = lg_reservations lg @ [new_reservation env n q i]" and "take_chars 100 (tr_node q) = tr_node q"
    and "0 < requested_total q"
  shows "model_pool_committed now i lg' pool \<le> model_pool_committed now i lg pool
    + (if model_token_pool_for_node (tr_node q) = pool then requested_total q else 0)"
  using assms by (simp add: committed_shares pool_share_def reservation_charge_def)

lemma outstanding_added:
  "lg_reservations lg' = lg_reservations lg @ [new_reservation env n q i] \<Longrightarrow> 0 < requested_total q
     \<Longrightarrow> outstanding_total now i lg' \<le> outstanding_total now i lg + requested_total q"
  by (simp add: outstanding_total_def)

lemma spend_added:
  "lg_reservations lg' = lg_reservations lg @ [new_reservation env n q i]
     \<Longrightarrow> question_spend i (tr_question q) lg' = question_spend i (tr_question q) lg + requested_total q"
  by (simp add: question_spend_def)

lemma question_admitted:
  assumes "admit_question env q r lg = Inr (Admitted b view)" and "question_limit_of (tr_question q) (allocation_of r) = Inr limit"
    and "0 < limit"
  shows "question_spend (rr_id r) (tr_question q) lg + requested_total q \<le> 2 * limit"
proof (cases "question_spend (rr_id r) (tr_question q) lg + requested_total q \<le> limit")
  case False
  let ?v = "borrow_view_of env r (tr_question q) (requested_total q) (question_spend (rr_id r) (tr_question q) lg) limit lg"
  have "bw_allowed (bv_decision ?v)"
    using assms False unfolding admit_question_def by (auto simp: Let_def split: if_split_asm sum.splits)
  then show ?thesis
    using False assms(3)
    by (auto simp: borrow_view_of_def Let_def borrow_allowed_iff may_borrow_def split: if_split_asm)
qed (use assms(3) in simp)

lemma tokens_admitted:
  assumes "admit_tokens env q r lg = Inr (Admitted b view)"
    and "int_or_zero (jget_or (JInt 0) ''max_tokens'' (rr_budget r)) = Inr maximum" and "0 < maximum"
  obtains used where "model_tokens r = Inr used"
    and "used + outstanding_total (tn_now env) (rr_id r) lg + requested_total q
           + max 0 (protected_reserve (tr_node q) (allocation_of r)) \<le> maximum"
    and "\<And>limit. map_of (model_token_pool_limits (allocation_of r)) (model_token_pool_for_node (tr_node q)) = Some limit
           \<Longrightarrow> 0 < limit \<Longrightarrow> model_pool_committed (tn_now env) (rr_id r) lg (model_token_pool_for_node (tr_node q))
                 + requested_total q \<le> limit"
    and "admit_question env q r lg = Inr (Admitted b view)"
proof -
  obtain used where used: "model_tokens r = Inr used"
      and left: "requested_total q \<le> maximum - used - outstanding_total (tn_now env) (rr_id r) lg"
      and pool: "admit_pool env q (maximum - used - outstanding_total (tn_now env) (rr_id r) lg) r lg = Inr (Admitted b view)"
    using assms unfolding admit_tokens_def by (auto simp: Let_def split: sum.splits if_split_asm)
  let ?pool = "model_token_pool_for_node (tr_node q)"
  let ?limit = "the (map_of (model_token_pool_limits (allocation_of r)) ?pool)"
  have limit: "\<not> (0 < ?limit \<and> ?limit < model_pool_committed (tn_now env) (rr_id r) lg ?pool + requested_total q)"
    and reserve: "protected_reserve (tr_node q) (allocation_of r)
      \<le> maximum - used - outstanding_total (tn_now env) (rr_id r) lg - requested_total q"
    and question: "admit_question env q r lg = Inr (Admitted b view)"
    using pool unfolding admit_pool_def Let_def by (auto split: sum.splits if_split_asm)
  show thesis by (rule that [OF used]) (use limit reserve question left in auto)
qed

text \<open>
  C14. A new reservation fits. When a call gets a reservation it did not hold before, then with it the
  tokens used, those held by other calls and the reserves protected from this node are together at most
  the budget of the run; the pool of the node, counting what is settled, held and uncertain, is inside
  its limit; and the question has spent at most twice its target.
\<close>

theorem granted_reservation_fits:
  assumes "reserve_model_tokens env new_id i task q lg = Inr (g, lg')" and "tg_granted g"
    and "reservation_row i (tr_attempt q) lg = None" and "take_chars 100 (tr_node q) = tr_node q"
    and "find_run i (lg_db lg) = Some r"
    and "int_or_zero (jget_or (JInt 0) ''max_tokens'' (rr_budget r)) = Inr maximum" and "0 < maximum"
    and "question_limit_of (tr_question q) (allocation_of r) = Inr question_limit"
  shows "(\<exists>used. model_tokens r = Inr used \<and> used + outstanding_total (tn_now env) i lg'
            + max 0 (protected_reserve (tr_node q) (allocation_of r)) \<le> maximum)
    \<and> list_all (\<lambda>(pool, limit). pool = model_token_pool_for_node (tr_node q) \<and> 0 < limit
            \<longrightarrow> model_pool_committed (tn_now env) i lg' pool \<le> limit) (model_token_pool_limits (allocation_of r))
    \<and> (0 < question_limit \<longrightarrow> question_spend i (tr_question q) lg' \<le> 2 * question_limit)"
  using assms(1)
proof (cases rule: reserve_cases)
  case (granted r' borrowed view)
  have r: "r' = r" "rr_id r = i" using locked_run_found [OF granted(1)] assms(5) by auto
  obtain used where used: "model_tokens r = Inr used"
    and fits: "used + outstanding_total (tn_now env) i lg + requested_total q
           + max 0 (protected_reserve (tr_node q) (allocation_of r)) \<le> maximum"
    and pool: "\<And>limit. map_of (model_token_pool_limits (allocation_of r)) (model_token_pool_for_node (tr_node q)) = Some limit
           \<Longrightarrow> 0 < limit \<Longrightarrow> model_pool_committed (tn_now env) i lg (model_token_pool_for_node (tr_node q))
                 + requested_total q \<le> limit"
    and question: "admit_question env q r lg = Inr (Admitted borrowed view)"
    using tokens_admitted [OF granted(3) [unfolded r] assms(6,7)] r(2) by metis
  note added = granted(6)
  have "list_all (\<lambda>(pool, limit). pool = model_token_pool_for_node (tr_node q) \<and> 0 < limit
      \<longrightarrow> model_pool_committed (tn_now env) i lg' pool \<le> limit) (model_token_pool_limits (allocation_of r))"
    unfolding list_all_iff
  proof (clarify)
    fix limit
    assume entry: "(model_token_pool_for_node (tr_node q), limit) \<in> set (model_token_pool_limits (allocation_of r))"
      and limit: "0 < limit"
    have "distinct (map fst (model_token_pool_limits (allocation_of r)))"
      by (simp add: model_token_pool_limits_def)
    from pool [OF map_of_is_SomeI [OF this entry] limit]
    show "model_pool_committed (tn_now env) i lg' (model_token_pool_for_node (tr_node q)) \<le> limit"
      using committed_added [OF added assms(4) granted(4), of "tn_now env" "model_token_pool_for_node (tr_node q)"] by simp
  qed
  moreover have "question_spend i (tr_question q) lg' \<le> 2 * question_limit" if "0 < question_limit"
    using question_admitted [OF question assms(8) that] spend_added [OF added] r(2) by simp
  ultimately show ?thesis using used fits outstanding_added [OF added granted(4), of "tn_now env"] by auto
qed (use assms(2,3) in simp_all)

section \<open>A pool over time\<close>

text \<open>The calls of a step that end do so before their lease, and bill at most what they reserved.\<close>

definition ends_in_time :: "timestamp \<Rightarrow> ledger \<Rightarrow> ledger \<Rightarrow> bool" where
  "ends_in_time now lg lg' \<longleftrightarrow>
     (\<forall>v \<in> set (lg_reservations lg). \<forall>v' \<in> set (lg_reservations lg').
        reservation_key v' = reservation_key v \<and> v' \<noteq> v
        \<longrightarrow> \<not> expired now v \<and> reservation_charge v' \<le> mr_reserved_total v)"

definition pool_limit_is :: "uuid \<Rightarrow> string \<Rightarrow> int \<Rightarrow> ledger \<Rightarrow> bool" where
  "pool_limit_is i pool limit lg \<longleftrightarrow>
     (\<forall>r. find_run i (lg_db lg) = Some r \<longrightarrow>
        map_of (model_token_pool_limits (allocation_of r)) pool = Some limit
        \<and> (\<forall>n. int_or_zero (jget_or (JInt 0) ''max_tokens'' (rr_budget r)) = Inr n \<longrightarrow> 0 < n))"

inductive frugal_history :: "uuid \<Rightarrow> string \<Rightarrow> int \<Rightarrow> timestamp \<Rightarrow> ledger \<Rightarrow> bool" for i pool limit where
  empty: "lg_reservations lg = [] \<Longrightarrow> frugal_history i pool limit t lg"
| step: "frugal_history i pool limit t lg \<Longrightarrow> t \<le> tn_now env \<Longrightarrow> pool_limit_is i pool limit lg
    \<Longrightarrow> ledger_step env lg lg' \<Longrightarrow> ends_in_time (tn_now env) lg lg' \<Longrightarrow> frugal_history i pool limit (tn_now env) lg'"

lemma committed_later:
  assumes "t \<le> now"
  shows "model_pool_committed now i lg pool \<le> model_pool_committed t i lg pool"
proof -
  have "pool_share now i pool v \<le> pool_share t i pool v" for v
    using assms charge_nonneg [of v] by (auto simp: pool_share_def counted_def expired_def split: option.splits)
  then show ?thesis unfolding committed_shares by (intro sum_list_mono) simp
qed

lemma share_moves:
  assumes "row_move now v v'" and "reservation_ok v" and "\<not> expired now v" and "reservation_charge v' \<le> mr_reserved_total v"
  shows "pool_share now i pool v' \<le> pool_share now i pool v"
proof -
  have "mr_status v \<in> {ResReserved, ResUncertain}" using assms(1) by (auto simp: row_move_def)
  then have "reservation_charge v = mr_reserved_total v" "counted now i v \<longleftrightarrow> mr_run_id v = i"
    using assms(2,3) by (auto simp: reservation_charge_def reservation_ok_def counted_def)
  moreover have "mr_run_id v' = mr_run_id v" "mr_node v' = mr_node v"
    using row_move_follows [OF assms(1)] by (auto simp: row_follows_def reservation_key_def)
  ultimately show ?thesis using assms(4) charge_nonneg [of v] by (auto simp: pool_share_def counted_def)
qed

lemma pool_step:
  assumes ok: "reservations_ok (lg_reservations lg)" and limit: "pool_limit_is i pool limit lg" "0 < limit"
    and step: "ledger_step env lg lg'" and honest: "ends_in_time (tn_now env) lg lg'"
    and bound: "model_pool_committed (tn_now env) i lg pool \<le> limit"
  shows "model_pool_committed (tn_now env) i lg' pool \<le> limit"
  using step
proof (cases rule: ledger_step_rows)
  case moved
  then obtain f where f: "lg_reservations lg' = map f (lg_reservations lg)"
      "\<And>v. v \<in> set (lg_reservations lg) \<Longrightarrow> f v = v \<or> row_move (tn_now env) v (f v)"
    using ok by (metis moved_rows_map reservations_ok_def)
  have "pool_share (tn_now env) i pool (f v) \<le> pool_share (tn_now env) i pool v" if v: "v \<in> set (lg_reservations lg)" for v
  proof (cases "f v = v")
    case False
    then have m: "row_move (tn_now env) v (f v)" using f(2) v by blast
    have "\<not> expired (tn_now env) v \<and> reservation_charge (f v) \<le> mr_reserved_total v"
      using honest v False row_move_follows [OF m] unfolding ends_in_time_def f(1) row_follows_def by auto
    then show ?thesis using share_moves [OF m] ok v by (auto simp: reservations_ok_def)
  qed simp
  then have "model_pool_committed (tn_now env) i lg' pool \<le> model_pool_committed (tn_now env) i lg pool"
    unfolding committed_shares f(1) by (simp add: sum_list_mono)
  then show ?thesis using bound by simp
next
  case (added q new_id j task r borrowed view)
  show ?thesis
  proof (cases "j = i \<and> model_token_pool_for_node (tr_node q) = pool")
    case True
    have r: "find_run i (lg_db lg) = Some r" "rr_id r = i" using locked_run_found [OF added(1)] True by auto
    then have m: "map_of (model_token_pool_limits (allocation_of r)) pool = Some limit"
      using limit(1) by (simp add: pool_limit_is_def)
    obtain n where n: "int_or_zero (jget_or (JInt 0) ''max_tokens'' (rr_budget r)) = Inr n"
      using added(4) by (auto simp: admit_tokens_def split: sum.splits)
    then have "0 < n" using limit(1) r(1) by (simp add: pool_limit_is_def)
    from tokens_admitted [OF added(4) n this]
    have "model_pool_committed (tn_now env) i lg pool + requested_total q \<le> limit"
      using m limit(2) True r(2) by metis
    then show ?thesis using committed_added [OF added(6) [unfolded conjunct1 [OF True]] added(5,3), of "tn_now env" pool] True by simp
  next
    case False
    then have "model_pool_committed (tn_now env) i lg' pool = model_pool_committed (tn_now env) i lg pool"
      using added(5,6) by (auto simp: committed_shares pool_share_def counted_def)
    then show ?thesis using bound by simp
  qed
qed

text \<open>
  C4. A token pool is not overdrawn. Take any sequence of transactions on a run whose pool has a
  positive limit, with a clock that does not go back, in which calls end before the lease of their
  reservation and bill at most what they reserved. Then at the end and at any later time the settled,
  held and uncertain tokens of the pool are at most its limit.
\<close>

theorem pools_are_not_overdrawn:
  assumes "frugal_history i pool limit t lg" and "0 < limit" and "t \<le> now"
  shows "model_pool_committed now i lg pool \<le> limit"
proof -
  have "reservations_ok (lg_reservations lg) \<and> model_pool_committed t i lg pool \<le> limit"
    using assms(1)
  proof induction
    case (empty lg t)
    then show ?case using assms(2) by (simp add: reservations_ok_def committed_shares)
  next
    case (step t lg env lg')
    then have "model_pool_committed (tn_now env) i lg pool \<le> limit"
      using committed_later [of t "tn_now env" i lg pool] by linarith
    then show ?case using step pool_step [OF _ step.hyps(3) assms(2) step.hyps(4,5)] ledger_step_ok [OF step.hyps(4)] by blast
  qed
  then show ?thesis using committed_later [OF assms(3), of i lg pool] by linarith
qed

text \<open>
  Without the condition on leases the bound fails: the tokens of a reservation whose lease has run out
  are free for others, but a replay of its attempt is still told that it holds them.
\<close>

lemma expired_reservation_is_replayed:
  assumes "locked_run i task (lg_db lg) = Inr r" and "reservation_row i (tr_attempt q) lg = Some v"
    and "expired (tn_now env) v" and "0 < requested_total q"
  shows "reserve_model_tokens env new_id i task q lg = Inr (token_granted (mr_reserved_total v), lg)
    \<and> \<not> counted (tn_now env) i v"
  using assms by (auto simp: reserve_model_tokens_def counted_def expired_def)

section \<open>A concrete run\<close>

definition demo_token_run :: run_row where
  "demo_token_run =
     \<lparr>rr_id = UUID 7, rr_owner_hash = ''o'', rr_idempotency_key = ''k'', rr_original_query = ''q'',
      rr_normalized_goal = ''q'', rr_constraints = [], rr_status = RunRunning, rr_phase = PhaseResearching,
      rr_state_version = 1, rr_plan_version = 1, rr_next_seq = 4, rr_credential_status = ''ready'',
      rr_profile_id = UUID 1, rr_credential_id = UUID 2, rr_llm_config = [],
      rr_budget = [(''max_tokens'', JInt 1000), (''allocation'', JObj [(''research_tokens'', JInt 400),
        (''question_token_budgets'', JObj [(''q1'', JInt 100)])])],
      rr_usage = [], rr_quality = [], rr_termination = None, rr_lease_owner = Some ''w'', rr_lease_until = Some 900,
      rr_worker = Some (DispatchKey (UUID 7) ''start'' 1), rr_created_at = 0, rr_updated_at = 0,
      rr_started_at = Some 0, rr_finished_at = None\<rparr>"

definition demo_tokens :: ledger where
  "demo_tokens = \<lparr>lg_db = \<lparr>db_runs = [demo_token_run], db_events = [], db_outbox = [], db_items = []\<rparr>,
     lg_reservations = [], lg_searches = [], lg_evidence = [], lg_gaps = []\<rparr>"

definition demo_tool_env :: "timestamp \<Rightarrow> tool_env" where
  "demo_tool_env t = \<lparr>tn_now = t, tn_show = (\<lambda>_. ''a''), tn_read = (\<lambda>_. None), tn_str = (\<lambda>_. [])\<rparr>"

definition demo_request :: token_request where
  "demo_request = \<lparr>tr_question = ''q1'', tr_node = ''evidence'', tr_attempt = UUID 30, tr_estimated_input = 30,
     tr_max_output = 20, tr_lease_until = None\<rparr>"

definition demo_reserved :: "(token_grant \<times> ledger) result" where
  "demo_reserved = reserve_model_tokens (demo_tool_env 1) (UUID 40) (UUID 7) (DispatchKey (UUID 7) ''start'' 1)
     demo_request demo_tokens"

definition demo_settled :: "(bool \<times> ledger) result" where
  "demo_settled = (case demo_reserved of Inl e \<Rightarrow> Inl e | Inr (g, lg) \<Rightarrow>
     settle_model_reservation (demo_tool_env 2) (UUID 7) (DispatchKey (UUID 7) ''start'' 1) (UUID 30) 40 False lg)"

definition demo_lg1 :: ledger where
  "demo_lg1 = (case demo_reserved of Inl e \<Rightarrow> demo_tokens | Inr (g, lg) \<Rightarrow> lg)"

definition demo_lg2 :: ledger where
  "demo_lg2 = (case demo_settled of Inl e \<Rightarrow> demo_tokens | Inr (b, lg) \<Rightarrow> lg)"

lemma demo_reserved_facts:
  "case demo_reserved of Inl e \<Rightarrow> False | Inr (g, lg) \<Rightarrow> tg_granted g
     \<and> lg_reservations lg = [new_reservation (demo_tool_env 1) (UUID 40) demo_request (UUID 7)]
     \<and> map (\<lambda>r. (rr_id r, rr_budget r)) (db_runs (lg_db lg)) = [(UUID 7, rr_budget demo_token_run)]"
  by code_simp

lemma demo_settled_facts:
  "case demo_settled of Inl e \<Rightarrow> False | Inr (b, lg) \<Rightarrow>
     lg_reservations lg = [(new_reservation (demo_tool_env 1) (UUID 40) demo_request (UUID 7))
       \<lparr>mr_status := ResSettled, mr_actual_total := Some 40, mr_settled_at := Some 2\<rparr>]"
  by code_simp

lemma demo_budget:
  "int_or_zero (jget_or (JInt 0) ''max_tokens'' (rr_budget demo_token_run)) = Inr 1000
   \<and> question_limit_of ''q1'' (allocation_of demo_token_run) = Inr 100
   \<and> map_of (model_token_pool_limits (allocation_of demo_token_run)) ''research'' = Some 400
   \<and> take_chars 100 (tr_node demo_request) = tr_node demo_request
   \<and> model_token_pool_for_node (tr_node demo_request) = ''research''"
  by code_simp

lemma case_pair: "(case x of Inl e \<Rightarrow> False | Inr (a, b) \<Rightarrow> P a b) \<Longrightarrow> \<exists>a b. x = Inr (a, b) \<and> P a b"
  by (cases x) auto

lemma demo_reserved_ledger:
  "\<exists>g. demo_reserved = Inr (g, demo_lg1) \<and> tg_granted g
     \<and> lg_reservations demo_lg1 = [new_reservation (demo_tool_env 1) (UUID 40) demo_request (UUID 7)]
     \<and> map (\<lambda>r. (rr_id r, rr_budget r)) (db_runs (lg_db demo_lg1)) = [(UUID 7, rr_budget demo_token_run)]"
proof -
  from case_pair [OF demo_reserved_facts] obtain g lg where e: "demo_reserved = Inr (g, lg)"
      and facts: "tg_granted g" "lg_reservations lg = [new_reservation (demo_tool_env 1) (UUID 40) demo_request (UUID 7)]"
        "map (\<lambda>r. (rr_id r, rr_budget r)) (db_runs (lg_db lg)) = [(UUID 7, rr_budget demo_token_run)]"
    by (elim exE conjE) (rule that)
  have "demo_lg1 = lg" unfolding demo_lg1_def e by simp
  then show ?thesis using e facts by (intro exI [of _ g]) simp
qed

lemma demo_settled_ledger:
  "\<exists>b. settle_model_reservation (demo_tool_env 2) (UUID 7) (DispatchKey (UUID 7) ''start'' 1) (UUID 30) 40 False demo_lg1
     = Inr (b, demo_lg2)
     \<and> lg_reservations demo_lg2 = [(new_reservation (demo_tool_env 1) (UUID 40) demo_request (UUID 7))
       \<lparr>mr_status := ResSettled, mr_actual_total := Some 40, mr_settled_at := Some 2\<rparr>]"
proof -
  from case_pair [OF demo_settled_facts] obtain b lg where e: "demo_settled = Inr (b, lg)" and
    rows: "lg_reservations lg = [(new_reservation (demo_tool_env 1) (UUID 40) demo_request (UUID 7))
       \<lparr>mr_status := ResSettled, mr_actual_total := Some 40, mr_settled_at := Some 2\<rparr>]"
    by (elim exE conjE) (rule that)
  obtain g where g: "demo_reserved = Inr (g, demo_lg1)"
    using demo_reserved_ledger by (elim exE conjE) (rule that)
  have "demo_lg2 = lg" unfolding demo_lg2_def e by simp
  moreover have "settle_model_reservation (demo_tool_env 2) (UUID 7) (DispatchKey (UUID 7) ''start'' 1) (UUID 30) 40 False
      demo_lg1 = Inr (b, lg)"
    using e unfolding demo_settled_def g by simp
  ultimately show ?thesis using rows by simp
qed

lemma demo_budgets:
  "find_run (UUID 7) (lg_db demo_tokens) = Some demo_token_run"
  "find_run (UUID 7) (lg_db demo_lg1) = Some r \<Longrightarrow> rr_budget r = rr_budget demo_token_run"
proof -
  show "find_run (UUID 7) (lg_db demo_tokens) = Some demo_token_run"
    by (simp add: find_run_def demo_tokens_def demo_token_run_def)
  show "rr_budget r = rr_budget demo_token_run" if "find_run (UUID 7) (lg_db demo_lg1) = Some r"
    using that demo_reserved_ledger by (auto simp: find_run_def split: if_split_asm)
qed

lemma demo_reserved_rows:
  "lg_reservations demo_lg1 = [new_reservation (demo_tool_env 1) (UUID 40) demo_request (UUID 7)]"
  using demo_reserved_ledger by blast

lemma demo_settled_rows:
  "lg_reservations demo_lg2 = [(new_reservation (demo_tool_env 1) (UUID 40) demo_request (UUID 7))
     \<lparr>mr_status := ResSettled, mr_actual_total := Some 40, mr_settled_at := Some 2\<rparr>]"
  using demo_settled_ledger by blast

lemma demo_ledger_move1: "ledger_step (demo_tool_env 1) demo_tokens demo_lg1"
proof -
  obtain g where "demo_reserved = Inr (g, demo_lg1)"
    using demo_reserved_ledger by (elim exE conjE) (rule that)
  then show ?thesis unfolding demo_reserved_def by (rule reserve) (simp add: demo_budget)
qed

lemma demo_ledger_move2: "ledger_step (demo_tool_env 2) demo_lg1 demo_lg2"
  using demo_settled_ledger by (auto intro: settle)

theorem granted_reservation_fits_witness:
  "\<exists>g. demo_reserved = Inr (g, demo_lg1) \<and> tg_granted g
     \<and> model_pool_committed 1 (UUID 7) demo_lg1 ''research'' \<le> 400
     \<and> outstanding_total 1 (UUID 7) demo_lg1 \<le> 1000 \<and> question_spend (UUID 7) ''q1'' demo_lg1 \<le> 200"
proof -
  obtain g where g: "demo_reserved = Inr (g, demo_lg1)" "tg_granted g"
    using demo_reserved_ledger by (elim exE conjE) (rule that)
  have q: "reservation_row (UUID 7) (tr_attempt demo_request) demo_tokens = None" "tr_question demo_request = ''q1''"
    by (simp_all add: demo_tokens_def reservation_row_def demo_request_def)
  have limit: "question_limit_of (tr_question demo_request) (allocation_of demo_token_run) = Inr 100"
    using demo_budget q(2) by simp
  have used: "model_tokens demo_token_run = Inr 0 \<and> protected_reserve (tr_node demo_request) (allocation_of demo_token_run) = 0"
    by code_simp
  have pool: "(''research'', 400) \<in> set (model_token_pool_limits (allocation_of demo_token_run))"
    using demo_budget map_of_SomeD by fast
  show ?thesis
    using granted_reservation_fits [OF g(1) [unfolded demo_reserved_def] g(2) q(1) _ demo_budgets(1) _ _ limit, of 1000]
      demo_budget g used pool by (auto simp: q(2) demo_tool_env_def list_all_iff)
qed

theorem reservations_are_charged_once_witness:
  "reservations_ok (lg_reservations demo_lg1) \<and> map mr_status (lg_reservations demo_lg2) = [ResSettled]
   \<and> list_all (\<lambda>v. list_ex (row_follows v) (lg_reservations demo_lg2)) (lg_reservations demo_lg1)"
proof -
  have steps: "some_ledger_step\<^sup>*\<^sup>* demo_tokens demo_lg1" "some_ledger_step\<^sup>*\<^sup>* demo_lg1 demo_lg2"
    using demo_ledger_move1 demo_ledger_move2 by blast+
  have "lg_reservations demo_tokens = []" by (simp add: demo_tokens_def)
  from reservations_are_charged_once [OF steps(1) this steps(2)] show ?thesis
    by (simp add: demo_settled_rows list_all_iff list_ex_iff)
qed

theorem pools_are_not_overdrawn_witness:
  "model_pool_committed 5 (UUID 7) demo_lg2 ''research'' \<le> 400 \<and> length (lg_reservations demo_lg2) = 1"
proof -
  have limits: "pool_limit_is (UUID 7) ''research'' 400 lg" if "lg = demo_tokens \<or> lg = demo_lg1" for lg
    using that demo_budgets demo_budget by (auto simp: pool_limit_is_def allocation_of_def)
  have start: "frugal_history (UUID 7) ''research'' 400 1 demo_tokens"
    by (rule empty) (simp add: demo_tokens_def)
  have "ends_in_time (tn_now (demo_tool_env 1)) demo_tokens demo_lg1"
    by (simp add: ends_in_time_def demo_tokens_def)
  from frugal_history.step [OF start _ limits demo_ledger_move1 this]
  have first: "frugal_history (UUID 7) ''research'' 400 1 demo_lg1" by (simp add: demo_tool_env_def)
  have "ends_in_time (tn_now (demo_tool_env 2)) demo_lg1 demo_lg2"
    by (simp add: ends_in_time_def demo_settled_rows demo_reserved_rows expired_def new_reservation_def demo_tool_env_def demo_request_def
        MODEL_RESERVATION_LEASE_def seconds_def reservation_charge_def requested_total_def)
  from frugal_history.step [OF first _ limits demo_ledger_move2 this]
  have "frugal_history (UUID 7) ''research'' 400 2 demo_lg2" by (simp add: demo_tool_env_def)
  from pools_are_not_overdrawn [OF this, of 5] show ?thesis by (simp add: demo_settled_rows)
qed

end
