(* ===== verification/Resource_Limits.thy ===== *)
theory Resource_Limits
  imports Recovery_Execution State_Runtime Token_Ledger
begin

text \<open>
  The page, extraction and query budgets of a run: the part of
  \<open>app/infrastructure/db/research_tools.py\<close> that reserves page slots before an external read,
  settles or releases them afterwards, logs the life of a candidate page, and decides which hard limit
  stops the research.

  The lemmas reduce every operation to arithmetic on four counters: pages fetched, fetch attempts, slots
  reserved, and slots per worker. The theorems bound the counters along every history of operations, show
  that slots of a worker that is gone stay reserved, and say when a limit stops the run and how that stop
  is reported in the state.
\<close>

section \<open>Targets and candidates\<close>

text \<open>The part of \<open>ResearchTarget\<close> that the operations of this theory read.\<close>

record research_target =
  tg_plan_version :: int
  tg_question_id :: string
  tg_query :: string
  tg_tool_call :: uuid
  tg_query_family :: string
  tg_feedback :: "uuid option"
  tg_feedback_execution :: "uuid option"
  tg_query_execution :: "uuid option"

record candidate_identity =
  cd_id :: string
  cd_raw :: string
  cd_norm :: string
  cd_question :: string
  cd_query :: string
  cd_domain :: string

text \<open>A search result joined with its query, in the order the statement sorts them.\<close>

record candidate_row =
  cw_result :: uuid
  cw_url :: string
  cw_query :: uuid
  cw_run :: uuid
  cw_question :: string

definition CANDIDATE_SKIP_REASONS :: "string list" where
  "CANDIDATE_SKIP_REASONS =
     [''duplicate'', ''low_quality'', ''budget_limit'', ''domain_restricted'', ''already_processed'']"

definition CANDIDATE_DISPATCH_SKIP_REASONS :: "string list" where
  "CANDIDATE_DISPATCH_SKIP_REASONS =
     [''page_budget'', ''source_diversity'', ''relevance_rank'', ''already_selected'']"

definition CANDIDATE_EVENT_TYPES :: "(string \<times> string) list" where
  "CANDIDATE_EVENT_TYPES =
     [(''candidate_created'', ''candidate.created''), (''url_normalized'', ''candidate.normalized''),
      (''duplicate_checked'', ''candidate.duplicate_checked''), (''candidate_skipped'', ''candidate.skipped''),
      (''fetch_started'', ''candidate.fetch_started''), (''fetch_failed'', ''candidate.fetch_failed''),
      (''fetch_success'', ''candidate.fetch_success''), (''triage_rejected'', ''candidate.triage_rejected''),
      (''extraction_started'', ''candidate.extraction_started''),
      (''extraction_failed'', ''candidate.extraction_failed''), (''readable'', ''candidate.readable''),
      (''dispatch_started'', ''candidate.dispatch_started''),
      (''dispatch_selected'', ''candidate.dispatch_selected''),
      (''dispatch_skipped'', ''candidate.dispatch_skipped'')]"

definition EVIDENCE_SELECTION_SKIP_REASONS :: "string list" where
  "EVIDENCE_SELECTION_SKIP_REASONS =
     [''already_processed'', ''duplicate_source'', ''extraction_budget'', ''question_budget'', ''token_budget'',
      ''source_diversity'', ''low_evidence_value'', ''question_mismatch'', ''page_limit'']"

definition EVIDENCE_SELECTION_EVENT_TYPES :: "(string \<times> string) list" where
  "EVIDENCE_SELECTION_EVENT_TYPES =
     [(''selection_started'', ''evidence.selection_started''),
      (''selection_selected'', ''evidence.selection_selected''),
      (''selection_skipped'', ''evidence.selection_skipped'')]"

definition candidate_refs :: "candidate_identity \<Rightarrow> string \<Rightarrow> timestamp \<Rightarrow> json_object" where
  "candidate_refs c stage ts =
     [(''candidate_id'', JStr (cd_id c)), (''raw_url'', JStr (take_chars 1000 (cd_raw c))),
      (''normalized_url'', JStr (take_chars 1000 (cd_norm c))), (''question_id'', JStr (cd_question c)),
      (''query_id'', JStr (cd_query c)), (''domain'', JStr (take_chars 255 (cd_domain c))),
      (''stage'', JStr stage), (''timestamp'', JTime ts)]"

definition candidate_lifecycle_event ::
    "timestamp \<Rightarrow> candidate_identity \<Rightarrow> string \<Rightarrow> string option \<Rightarrow> string option \<Rightarrow> (string \<times> json_object) result" where
  "candidate_lifecycle_event ts c stage reason failure =
     (case map_of CANDIDATE_EVENT_TYPES stage of
        None \<Rightarrow> Inl (ValueError ''unsupported candidate lifecycle stage'')
      | Some ty \<Rightarrow>
          if stage = ''candidate_skipped'' \<and> reason \<notin> Some ` set CANDIDATE_SKIP_REASONS
            then Inl (ValueError ''unsupported candidate skip reason'')
          else if stage = ''dispatch_skipped'' \<and> reason \<notin> Some ` set CANDIDATE_DISPATCH_SKIP_REASONS
            then Inl (ValueError ''unsupported candidate dispatch skip reason'')
          else if stage = ''fetch_failed'' \<and> (failure = None \<or> failure = Some [])
            then Inl (ValueError ''fetch_failed requires failure_reason'')
          else Inr (ty, candidate_refs c stage ts
            @ (case reason of None \<Rightarrow> [] | Some s \<Rightarrow> [(''reason'', JStr s)])
            @ (case failure of None \<Rightarrow> [] | Some s \<Rightarrow> [(''failure_reason'', JStr (take_chars 100 s))])))"

definition evidence_selection_event ::
    "timestamp \<Rightarrow> candidate_identity \<Rightarrow> string \<Rightarrow> string option \<Rightarrow> string option \<Rightarrow> (string \<times> json_object) result" where
  "evidence_selection_event ts c stage reason source =
     (case map_of EVIDENCE_SELECTION_EVENT_TYPES stage of
        None \<Rightarrow> Inl (ValueError ''unsupported evidence selection stage'')
      | Some ty \<Rightarrow>
          if stage = ''selection_skipped'' \<and> reason \<notin> Some ` set EVIDENCE_SELECTION_SKIP_REASONS
            then Inl (ValueError ''unsupported evidence selection skip reason'')
          else Inr (ty, candidate_refs c stage ts
            @ (case reason of None \<Rightarrow> [] | Some s \<Rightarrow> [(''reason'', JStr s)])
            @ (case source of None \<Rightarrow> [] | Some s \<Rightarrow> [(''source_id'', JStr s)])))"

text \<open>
  \<open>normal\<close> and \<open>host\<close> stand for \<open>normalize_source_url\<close> and \<open>urlsplit(u).hostname or "unknown"\<close>.
\<close>

definition candidate_identity_for_url ::
    "tool_env \<Rightarrow> (string \<Rightarrow> string) \<Rightarrow> (string \<Rightarrow> string) \<Rightarrow> candidate_row list \<Rightarrow> uuid \<Rightarrow> research_target \<Rightarrow> string
       \<Rightarrow> candidate_identity" where
  "candidate_identity_for_url env normal host rows i t url =
     (let n = normal url; domain = take_chars 255 (host n)
      in case find (\<lambda>w. cw_run w = i \<and> cw_question w = tg_question_id t \<and> normal (cw_url w) = n) rows of
           Some w \<Rightarrow> \<lparr>cd_id = tn_show env (cw_result w), cd_raw = cw_url w, cd_norm = n,
                      cd_question = tg_question_id t, cd_query = tn_show env (cw_query w), cd_domain = domain\<rparr>
         | None \<Rightarrow> \<lparr>cd_id = tn_show env (UUID5 ''research-candidate:'' [PId i, PStr (tg_question_id t), PStr n]),
                    cd_raw = url, cd_norm = n, cd_question = tg_question_id t,
                    cd_query = tn_show env (tg_tool_call t), cd_domain = domain\<rparr>)"

definition latest_fetch_refs :: "uuid \<Rightarrow> research_target \<Rightarrow> database \<Rightarrow> json_object option" where
  "latest_fetch_refs i t db =
     find (\<lambda>refs. jget ''question_id'' refs = JStr (tg_question_id t)
         \<and> list_all (\<lambda>k. k \<in> set (map fst refs))
             [''candidate_id'', ''raw_url'', ''normalized_url'', ''query_id'', ''domain''])
       (map ae_refs (rev (sort_key ae_seq
         (filter (\<lambda>e. ae_run_id e = i \<and> ae_type e = ''candidate.fetch_success'') (db_events db)))))"

definition candidate_identity_for_latest_fetch ::
    "tool_env \<Rightarrow> uuid \<Rightarrow> research_target \<Rightarrow> database \<Rightarrow> candidate_identity option" where
  "candidate_identity_for_latest_fetch env i t db =
     map_option (\<lambda>refs. let text = (\<lambda>k. py_str (tn_str env) (jget k refs))
        in \<lparr>cd_id = text ''candidate_id'', cd_raw = text ''raw_url'', cd_norm = text ''normalized_url'',
            cd_question = tg_question_id t, cd_query = text ''query_id'', cd_domain = text ''domain''\<rparr>)
       (latest_fetch_refs i t db)"

section \<open>Events about pages\<close>

type_synonym transaction = "(run_row \<times> database) \<Rightarrow> (run_row \<times> database) result"

text \<open>The calls of one transaction after its usage snapshot is written, and the commit of its row.\<close>

definition in_turn :: "transaction list \<Rightarrow> run_row \<times> database \<Rightarrow> database result" where
  "in_turn steps s = map_sum id (\<lambda>(r, db). put_run r db) (foldM (\<lambda>s f. f s) s steps)"

definition append_candidate_event ::
    "tool_env \<Rightarrow> candidate_identity \<Rightarrow> string \<Rightarrow> string option \<Rightarrow> string option \<Rightarrow> json_object option \<Rightarrow> transaction" where
  "append_candidate_event env c stage reason failure metrics s =
     (case candidate_lifecycle_event (tn_now env) c stage reason failure of
        Inl e \<Rightarrow> Inl e | Inr (ty, refs) \<Rightarrow> append_tool_event env ty refs metrics s)"

definition optional_id :: "tool_env \<Rightarrow> uuid option \<Rightarrow> json" where
  "optional_id env v = (case v of None \<Rightarrow> JNull | Some i \<Rightarrow> JStr (tn_show env i))"

definition record_search_query_started ::
    "tool_env \<Rightarrow> uuid \<Rightarrow> dispatch_key \<Rightarrow> research_target \<Rightarrow> bool \<Rightarrow> database \<Rightarrow> database result" where
  "record_search_query_started env i task t reused db =
     (case locked_run i task db of Inl e \<Rightarrow> Inl e | Inr r \<Rightarrow>
        in_turn [append_tool_event env ''search.query.started''
          [(''question_id'', JStr (tg_question_id t)), (''query'', JStr (take_chars 1000 (tg_query t))),
           (''query_family'', JStr (tg_query_family t)), (''tool_call_id'', JStr (tn_show env (tg_tool_call t))),
           (''feedback_id'', optional_id env (tg_feedback t)),
           (''feedback_execution_id'', optional_id env (tg_feedback_execution t)),
           (''query_execution_id'', optional_id env (tg_query_execution t))]
          (Some [(''reused'', JBool reused)])] (r, db))"

definition record_extraction_started ::
    "tool_env \<Rightarrow> uuid \<Rightarrow> dispatch_key \<Rightarrow> research_target \<Rightarrow> uuid \<Rightarrow> database \<Rightarrow> database result" where
  "record_extraction_started env i task t source db =
     (case locked_run i task db of Inl e \<Rightarrow> Inl e | Inr r \<Rightarrow>
        let c = (case candidate_identity_for_latest_fetch env i t db of
              Some c \<Rightarrow> c
            | None \<Rightarrow> \<lparr>cd_id = tn_show env source, cd_raw = [], cd_norm = [], cd_question = tg_question_id t,
                       cd_query = tn_show env (tg_tool_call t), cd_domain = ''unknown''\<rparr>)
        in in_turn
          [append_candidate_event env c ''extraction_started'' None None None,
           append_tool_event env ''evidence.extraction_started''
             [(''question_id'', JStr (tg_question_id t)), (''source_id'', JStr (tn_show env source)),
              (''candidate_id'', JStr (cd_id c)), (''plan_version'', JInt (tg_plan_version t))] None] (r, db))"

definition record_evidence_selection_event ::
    "tool_env \<Rightarrow> uuid \<Rightarrow> dispatch_key \<Rightarrow> candidate_identity \<Rightarrow> string \<Rightarrow> string option \<Rightarrow> string option \<Rightarrow> database
       \<Rightarrow> database result" where
  "record_evidence_selection_event env i task c stage reason source db =
     (case locked_run i task db of Inl e \<Rightarrow> Inl e | Inr r \<Rightarrow>
      case evidence_selection_event (tn_now env) c stage reason source of Inl e \<Rightarrow> Inl e | Inr (ty, refs) \<Rightarrow>
        in_turn [append_tool_event env ty refs None] (r, db))"

definition reader_refs :: "tool_env \<Rightarrow> candidate_identity \<Rightarrow> research_target \<Rightarrow> string \<Rightarrow> uuid option \<Rightarrow> json_object \<Rightarrow> json_object" where
  "reader_refs env c t norm_url source event =
     (let refs = dict_update (filter (\<lambda>p. fst p \<notin> {''event_type'', ''metrics''}) event)
            [(''candidate_id'', JStr (cd_id c)), (''question_id'', JStr (tg_question_id t)),
             (''plan_version'', JInt (tg_plan_version t))];
          refs' = (case source of None \<Rightarrow> refs | Some i \<Rightarrow> AList.update ''source_id'' (JStr (tn_show env i)) refs)
      in case jget ''normalized_url'' refs' of
           JStr s \<Rightarrow> if s \<noteq> [] then refs' else AList.update ''normalized_url'' (JStr norm_url) refs'
         | _ \<Rightarrow> AList.update ''normalized_url'' (JStr norm_url) refs')"

definition record_reader_lifecycle ::
    "tool_env \<Rightarrow> uuid \<Rightarrow> dispatch_key \<Rightarrow> research_target \<Rightarrow> candidate_identity \<Rightarrow> string \<Rightarrow> uuid option
       \<Rightarrow> json_object list \<Rightarrow> database \<Rightarrow> database result" where
  "record_reader_lifecycle env i task t c norm_url source events db =
     (if events = [] then Inr db
      else case locked_run i task db of Inl e \<Rightarrow> Inl e | Inr r \<Rightarrow>
        in_turn (map (\<lambda>event. append_tool_event env
            (py_str (tn_str env) (jget_or (JStr ''source.reader_event'') ''event_type'' event))
            (reader_refs env c t norm_url source event)
            (case jget ''metrics'' event of JObj m \<Rightarrow> Some m | _ \<Rightarrow> None)) events) (r, db))"

section \<open>Page slots\<close>

text \<open>
  \<open>wk\<close> prints a worker's task id, the key of its share in \<open>page_slots_reserved_by_worker\<close>. The readers
  give the four counters as the operations see them.
\<close>

definition slot_owners :: "json_object \<Rightarrow> json_object" where
  "slot_owners usage = obj_of (jget_or (JObj []) ''page_slots_reserved_by_worker'' usage)"

definition slots_owned :: "string \<Rightarrow> json_object \<Rightarrow> int" where
  "slots_owned k owners = safe_int (jget_or (JInt 0) k owners)"

definition slots_reserved :: "json_object \<Rightarrow> int" where
  "slots_reserved usage = safe_int (jget_or (JInt 0) ''page_slots_reserved'' usage)"

definition pages_fetched :: "json_object \<Rightarrow> int" where
  "pages_fetched usage = safe_int (jget_or (jget_or (JInt 0) ''pages'' usage) ''pages_fetched'' usage)"

definition fetch_attempts :: "json_object \<Rightarrow> int" where
  "fetch_attempts usage =
     max 0 (safe_int (jget_or (JInt (max 0 (pages_fetched usage))) ''page_fetch_attempts'' usage))"

definition max_pages :: "json_object \<Rightarrow> int result" where
  "max_pages budget = int_or_zero (jget_or (jget_or (JInt 0) ''max_pages'' budget) ''max_pages_fetched'' budget)"

definition max_attempts :: "int \<Rightarrow> json_object \<Rightarrow> int result" where
  "max_attempts maximum budget =
     (let v = jget_or (JInt maximum) ''max_page_fetch_attempts'' budget in if truthy v then py_int v else Inr maximum)"

record page_reservation =
  pb_granted :: int
  pb_remaining :: int

definition reserve_page_slots ::
    "(dispatch_key \<Rightarrow> string) \<Rightarrow> uuid \<Rightarrow> dispatch_key \<Rightarrow> int \<Rightarrow> bool \<Rightarrow> database \<Rightarrow> (page_reservation \<times> database) result" where
  "reserve_page_slots wk i task requested fresh db =
     (case locked_run i task db of Inl e \<Rightarrow> Inl e | Inr r \<Rightarrow>
      case max_pages (rr_budget r) of Inl e \<Rightarrow> Inl e | Inr maximum \<Rightarrow>
      let usage = rr_usage r;
          reserved = max 0 (slots_reserved usage);
          remaining = max 0 (maximum - max 0 (pages_fetched usage) - reserved)
      in case max_attempts maximum (rr_budget r) of Inl e \<Rightarrow> Inl e | Inr attempt_maximum \<Rightarrow>
      let attempt_remaining = max 0 (attempt_maximum - fetch_attempts usage - reserved)
      in case int_or_zero (jget_or (JInt 0) ''max_searches'' (rr_budget r)) of Inl e \<Rightarrow> Inl e | Inr searches \<Rightarrow>
      let used = max 0 (safe_int (jget_or (JInt 0) ''searches'' usage));
          kept = (if fresh then max 0 (searches - used) else 0);
          granted = min (min (max 0 requested) (max 0 (remaining - kept))) attempt_remaining;
          owners = slot_owners usage;
          usage' = AList.update ''page_slots_reserved_by_worker''
              (JObj (AList.update (wk task) (JInt (slots_owned (wk task) owners + granted)) owners))
            (AList.update ''page_slots_reserved'' (JInt (reserved + granted)) usage)
      in Inr (\<lparr>pb_granted = granted, pb_remaining = remaining - granted\<rparr>,
              if granted = 0 then db else put_run (set_usage usage' r) db))"

text \<open>One slot is settled by a recorded page, fetched or failed: the same lines in both operations.\<close>

definition settle_slot :: "string \<Rightarrow> json_object \<Rightarrow> json_object" where
  "settle_slot k usage =
     (let owners = slot_owners usage;
          owned = slots_owned k owners;
          settled = (if owners = [] then 1 else min 1 (max 0 owned));
          left = max 0 (owned - settled);
          usage' = (if owners = [] then usage
                    else AList.update ''page_slots_reserved_by_worker''
                           (JObj (if left = 0 then dict_pop k owners else AList.update k (JInt left) owners)) usage)
      in AList.update ''page_slots_reserved'' (JInt (max 0 (slots_reserved usage' - settled))) usage')"

definition bump :: "string \<Rightarrow> int \<Rightarrow> json_object \<Rightarrow> json_object" where
  "bump k n usage = AList.update k (JInt (safe_int (jget_or (JInt 0) k usage) + n)) usage"

definition fetched_usage :: "string \<Rightarrow> bool \<Rightarrow> int \<Rightarrow> json_object \<Rightarrow> json_object" where
  "fetched_usage k reused latency usage =
     (let u1 = bump ''page_fetch_attempts'' (if reused then 0 else 1) (settle_slot k usage);
          u2 = (if reused then u1 else AList.update ''pages_fetched'' (JInt (pages_fetched u1 + 1)) u1)
      in bump ''page_fetch_latency_ms'' (max 0 latency) u2)"

definition record_page_fetched ::
    "tool_env \<Rightarrow> (dispatch_key \<Rightarrow> string) \<Rightarrow> uuid \<Rightarrow> dispatch_key \<Rightarrow> research_target \<Rightarrow> candidate_identity \<Rightarrow> string
       \<Rightarrow> bool \<Rightarrow> int \<Rightarrow> database \<Rightarrow> database result" where
  "record_page_fetched env wk i task t c url reused latency db =
     (case locked_run i task db of Inl e \<Rightarrow> Inl e | Inr r \<Rightarrow>
      let metrics = Some [(''reused'', JBool reused), (''latency_ms'', JInt (max 0 latency))]
      in in_turn
        [append_candidate_event env c ''fetch_started'' None None None,
         append_candidate_event env c ''fetch_success'' None None metrics,
         append_tool_event env (if reused then ''source.fetch_reused'' else ''source.fetched'')
           [(''question_id'', JStr (tg_question_id t)), (''url'', JStr (take_chars 1000 url)),
            (''candidate_id'', JStr (cd_id c))] metrics]
        (set_usage (fetched_usage (wk task) reused latency (rr_usage r)) r, db))"

text \<open>\<open>domain\<close> is the host of the URL, cut to 255 characters by the caller's \<open>urlsplit\<close>.\<close>

definition failed_usage :: "string \<Rightarrow> int \<Rightarrow> json_object \<Rightarrow> json_object result" where
  "failed_usage k latency usage =
     (let u = bump ''page_fetch_latency_ms'' (max 0 latency)
            (bump ''page_fetch_attempts'' 1 (settle_slot k usage))
      in case py_int (jget_or (JInt 0) ''page_read_failures'' u) of
           Inl e \<Rightarrow> Inl e | Inr n \<Rightarrow> Inr (AList.update ''page_read_failures'' (JInt (n + 1)) u))"

definition record_page_failure ::
    "tool_env \<Rightarrow> (dispatch_key \<Rightarrow> string) \<Rightarrow> uuid \<Rightarrow> dispatch_key \<Rightarrow> research_target \<Rightarrow> candidate_identity \<Rightarrow> string
       \<Rightarrow> string \<Rightarrow> string \<Rightarrow> int \<Rightarrow> database \<Rightarrow> database result" where
  "record_page_failure env wk i task t c url domain error_code latency db =
     (case locked_run i task db of Inl e \<Rightarrow> Inl e | Inr r \<Rightarrow>
      case failed_usage (wk task) latency (rr_usage r) of Inl e \<Rightarrow> Inl e | Inr usage \<Rightarrow>
      in_turn
        [append_candidate_event env c ''fetch_started'' None None None,
         append_candidate_event env c ''fetch_failed'' None (Some error_code) None,
         append_tool_event env ''source.rejected''
           [(''question_id'', JStr (tg_question_id t)), (''candidate_id'', JStr (cd_id c)),
            (''normalized_url'', JStr (cd_norm c)), (''domain'', JStr (take_chars 255 domain)),
            (''url'', JStr (take_chars 1000 url)), (''error_code'', JStr (take_chars 100 error_code))]
           (Some [(''latency_ms'', JInt (max 0 latency)), (''fetch_budget_consumed'', JBool True)])]
        (set_usage usage r, db))"

definition released_usage :: "string \<Rightarrow> int \<Rightarrow> json_object \<Rightarrow> json_object" where
  "released_usage k wanted usage =
     (let reserved = max 0 (slots_reserved usage);
          owners = slot_owners usage;
          owned = max 0 (slots_owned k owners);
          released = (if owners = [] then min wanted reserved else min wanted owned);
          left = owned - released;
          usage' = (if owners = [] then usage
                    else AList.update ''page_slots_reserved_by_worker''
                           (JObj (if left = 0 then dict_pop k owners else AList.update k (JInt left) owners)) usage)
      in AList.update ''page_slots_reserved'' (JInt (max 0 (reserved - released))) usage')"

definition release_page_slots ::
    "(dispatch_key \<Rightarrow> string) \<Rightarrow> uuid \<Rightarrow> dispatch_key \<Rightarrow> int \<Rightarrow> database \<Rightarrow> database result" where
  "release_page_slots wk i task wanted db =
     (if max 0 wanted = 0 then Inr db
      else case locked_run i task db of Inl e \<Rightarrow> Inl e
           | Inr r \<Rightarrow> Inr (put_run (set_usage (released_usage (wk task) (max 0 wanted) (rr_usage r)) r) db))"

section \<open>The deadline\<close>

definition deadline_at :: "run_row \<Rightarrow> timestamp option" where
  "deadline_at r =
     (case jget ''deadline_at'' (rr_budget r) of
        JTime t \<Rightarrow> Some t
      | _ \<Rightarrow>
        let maximum = safe_int (jget_or (JInt 0) ''max_wall_clock_seconds'' (rr_budget r));
            start = (case rr_started_at r of Some t \<Rightarrow> t | None \<Rightarrow> rr_created_at r)
        in if maximum \<le> 0 then None else Some (start + seconds maximum))"

definition deadline_remaining :: "timestamp \<Rightarrow> run_row \<Rightarrow> int" where
  "deadline_remaining now r = (case deadline_at r of None \<Rightarrow> 0 | Some t \<Rightarrow> max 0 (whole_seconds (t - now)))"

text \<open>The public reader of the deadline, in seconds as a float.\<close>

definition deadline_remaining_seconds :: "timestamp \<Rightarrow> uuid \<Rightarrow> dispatch_key \<Rightarrow> database \<Rightarrow> rat option result" where
  "deadline_remaining_seconds now i task db =
     (case locked_run i task db of Inl e \<Rightarrow> Inl e
      | Inr r \<Rightarrow> Inr (map_option (\<lambda>t. max 0 (of_int (t - now) / 1000000)) (deadline_at r)))"

section \<open>Extraction slots\<close>

definition pages_extracted :: "json_object \<Rightarrow> int" where
  "pages_extracted usage = safe_int (jget_or (jget_or (JInt 0) ''pages'' usage) ''pages_extracted'' usage)"

definition extraction_calls :: "json_object \<Rightarrow> int" where
  "extraction_calls usage = safe_int (jget_or (JInt (pages_extracted usage)) ''extraction_calls'' usage)"

definition extraction_reserved :: "json_object \<Rightarrow> int" where
  "extraction_reserved usage = safe_int (jget_or (JInt 0) ''extraction_slots_reserved'' usage)"

definition max_extracted :: "json_object \<Rightarrow> int" where
  "max_extracted budget = safe_int (jget_or (jget_or (JInt 0) ''max_pages'' budget) ''max_pages_extracted'' budget)"

definition max_extraction_calls :: "json_object \<Rightarrow> int" where
  "max_extraction_calls budget = safe_int (jget_or (JInt (max_extracted budget)) ''max_extraction_calls'' budget)"

definition reserve_extraction_slot ::
    "timestamp \<Rightarrow> uuid \<Rightarrow> dispatch_key \<Rightarrow> database \<Rightarrow> (bool \<times> database) result" where
  "reserve_extraction_slot now i task db =
     (case locked_run i task db of Inl e \<Rightarrow> Inl e | Inr r \<Rightarrow>
      let budget = rr_budget r; usage = rr_usage r;
          maximum = max_extracted budget;
          max_calls = max_extraction_calls budget;
          reserved = extraction_reserved usage
      in if 0 < safe_int (jget_or (JInt 0) ''max_wall_clock_seconds'' budget) \<and> deadline_remaining now r \<le> 0
            \<or> 0 < maximum \<and> maximum \<le> pages_extracted usage + reserved
            \<or> 0 < max_calls \<and> max_calls \<le> extraction_calls usage + reserved
         then Inr (False, db)
         else Inr (True, put_run
                (set_usage (AList.update ''extraction_slots_reserved'' (JInt (reserved + 1)) usage) r) db))"

definition release_extraction_slot :: "uuid \<Rightarrow> dispatch_key \<Rightarrow> database \<Rightarrow> database result" where
  "release_extraction_slot i task db =
     (case locked_run i task db of Inl e \<Rightarrow> Inl e
      | Inr r \<Rightarrow> Inr (put_run (set_usage (AList.update ''extraction_slots_reserved''
          (JInt (max 0 (extraction_reserved (rr_usage r) - 1))) (rr_usage r)) r) db))"

text \<open>
  A page that fails the cheap check. \<open>owner\<close> is \<open>source_owner_key(url)\<close>; \<open>count_in\<close> adds one to both
  counters of an entry of a nested table.
\<close>

definition count_in :: "string \<Rightarrow> string \<Rightarrow> json_object \<Rightarrow> json_object" where
  "count_in table k usage =
     (let entries = obj_of (jget_or (JObj []) table usage);
          entry = bump ''rejected'' 1 (bump ''triaged'' 1 (obj_of (jget_or (JObj []) k entries)))
      in AList.update table (JObj (AList.update k (JObj entry) entries)) usage)"

definition record_triage_rejection ::
    "tool_env \<Rightarrow> uuid \<Rightarrow> dispatch_key \<Rightarrow> research_target \<Rightarrow> candidate_identity \<Rightarrow> string \<Rightarrow> string \<Rightarrow> rat \<Rightarrow> string
       \<Rightarrow> string \<Rightarrow> string option \<Rightarrow> database \<Rightarrow> database result" where
  "record_triage_rejection env i task t c owner url score reason role requested db =
     (case locked_run i task db of Inl e \<Rightarrow> Inl e | Inr r \<Rightarrow>
      let usage = count_in ''owner_stats'' owner (count_in ''source_type_stats'' role
            (bump ''cheap_triage_rejections'' 1 (rr_usage r)));
          metrics = Some [(''triage_score'', JNum (py_round (max 0 (min 1 score)) 4))]
      in in_turn
        [append_tool_event env ''source.triage_rejected''
           ([(''question_id'', JStr (tg_question_id t)), (''url'', JStr (take_chars 1000 url)),
             (''candidate_id'', JStr (cd_id c))]
            @ (case requested of
                 Some u \<Rightarrow> if u \<noteq> [] \<and> u \<noteq> url then [(''requested_url'', JStr (take_chars 1000 u))] else []
               | None \<Rightarrow> [])
            @ [(''reason'', JStr (take_chars 100 reason)), (''source_role'', JStr (take_chars 50 role))]) metrics,
         append_candidate_event env c ''triage_rejected'' None None metrics,
         append_candidate_event env c ''candidate_skipped'' (Some ''low_quality'') None None]
        (set_usage usage r, db))"

section \<open>Which limit stops the research\<close>

definition has_key :: "string \<Rightarrow> json_object \<Rightarrow> bool" where
  "has_key k d \<longleftrightarrow> k \<in> set (map fst d)"

definition budget_checks :: "int \<Rightarrow> json_object \<Rightarrow> json_object \<Rightarrow> (string \<times> int \<times> int) list" where
  "budget_checks tokens budget usage =
     (let split_search = has_key ''max_logical_queries'' budget \<or> has_key ''logical_queries'' usage;
          split_page = has_key ''max_pages_fetched'' budget \<or> has_key ''pages_fetched'' usage;
          used = (\<lambda>k. safe_int (jget_or (JInt 0) k usage));
          most = (\<lambda>k. safe_int (jget_or (JInt 0) k budget));
          used_or = (\<lambda>k k'. safe_int (jget_or (jget_or (JInt 0) k' usage) k usage));
          most_or = (\<lambda>k k'. safe_int (jget_or (jget_or (JInt 0) k' budget) k budget))
      in [(''provider_request_budget_exhausted'', used ''search_provider_requests'', most ''max_provider_requests''),
          (if split_search then ''logical_query_budget_exhausted'' else ''search_budget_exhausted'',
           used_or ''logical_queries'' ''searches'', most_or ''max_logical_queries'' ''max_searches''),
          (if split_page then ''fetched_page_budget_exhausted'' else ''page_budget_exhausted'',
           used_or ''pages_fetched'' ''pages'', most_or ''max_pages_fetched'' ''max_pages''),
          (''page_fetch_attempt_budget_exhausted'', used_or ''page_fetch_attempts'' ''pages_fetched'',
           safe_int (jget_or (jget_or (jget_or (JInt 0) ''max_pages'' budget) ''max_pages_fetched'' budget)
             ''max_page_fetch_attempts'' budget)),
          (if split_page then ''extracted_page_budget_exhausted'' else ''page_budget_exhausted'',
           used_or ''pages_extracted'' ''pages'', most_or ''max_pages_extracted'' ''max_pages''),
          (''extraction_call_budget_exhausted'', used ''extraction_calls'', most ''max_extraction_calls''),
          (''verification_call_budget_exhausted'', used ''verification_calls'', most ''max_verification_calls''),
          (''action_budget_exhausted'', used ''scheduler_actions'', most ''max_scheduler_actions''),
          (''token_budget_exhausted'', tokens, most ''max_tokens''),
          (''iteration_budget_exhausted'', used ''iterations'', most ''max_iterations'')])"

definition budget_exhaustion_reason :: "timestamp \<Rightarrow> run_row \<Rightarrow> string option result" where
  "budget_exhaustion_reason now r =
     (case model_tokens r of Inl e \<Rightarrow> Inl e | Inr tokens \<Rightarrow>
      if truthy (jget ''model_budget_guarded'' (rr_usage r)) then Inr (Some ''token_budget_exhausted'')
      else Inr (case find (\<lambda>(reason, used, maximum). 0 < maximum \<and> maximum \<le> used)
                       (budget_checks tokens (rr_budget r) (rr_usage r)) of
           Some (reason, _) \<Rightarrow> Some reason
         | None \<Rightarrow> (case deadline_at r of
               Some t \<Rightarrow> if t \<le> now then Some ''deadline_exhausted'' else None
             | None \<Rightarrow> None)))"

definition replan_reserve_reached :: "run_row \<Rightarrow> bool result" where
  "replan_reserve_reached r =
     (case int_or_zero (jget_or (JInt 0) ''max_iterations'' (rr_budget r)) of Inl e \<Rightarrow> Inl e | Inr maximum \<Rightarrow>
      case int_or_zero (jget_or (JInt 0) ''iterations'' (rr_usage r)) of Inl e \<Rightarrow> Inl e | Inr used \<Rightarrow>
      let fifth = (if maximum < 0 then - ((- maximum) div 5) else maximum div 5)
      in Inr (0 < maximum \<and> maximum - used \<le> max 2 fifth))"

definition SEARCH_ACQUISITION_BUDGET_REASONS :: "string list" where
  "SEARCH_ACQUISITION_BUDGET_REASONS =
     [''search_budget_exhausted'', ''logical_query_budget_exhausted'', ''provider_request_budget_exhausted'',
      ''page_fetch_attempt_budget_exhausted'']"

definition search_acquisition_budget_exhausted :: "string option \<Rightarrow> bool" where
  "search_acquisition_budget_exhausted reason \<longleftrightarrow> reason \<in> Some ` set SEARCH_ACQUISITION_BUDGET_REASONS"

definition MAX_PROVIDER_REQUESTS_PER_QUERY :: int where "MAX_PROVIDER_REQUESTS_PER_QUERY = 3"

definition fair_provider_request_allowance :: "int \<Rightarrow> int \<Rightarrow> int \<Rightarrow> int" where
  "fair_provider_request_allowance remaining_requests unattempted cap =
     (let remaining = max 0 remaining_requests; untouched = max 0 unattempted;
          share = (if untouched \<noteq> 0 then max 1 (remaining div untouched) else remaining)
      in if remaining = 0 then 0 else min (min remaining (max 1 cap)) share)"

definition NON_CONSUMING_ITERATION_OUTCOMES :: "string list" where
  "NON_CONSUMING_ITERATION_OUTCOMES =
     [''yield_question'', ''question_budget_exhausted'', ''stop_run'', ''insufficient_question_budget'',
      ''zero_results'', ''unreadable'', ''no_evidence'', ''provider_error'', ''budget_exhausted'']"

definition research_attempt_consumes_iteration :: "string \<Rightarrow> bool \<Rightarrow> bool" where
  "research_attempt_consumes_iteration outcome technical \<longleftrightarrow>
     \<not> technical \<and> outcome \<notin> set NON_CONSUMING_ITERATION_OUTCOMES"

section \<open>Sources that failed before\<close>

definition GLOBAL_TRIAGE_FAILURE_REASONS :: "string list" where
  "GLOBAL_TRIAGE_FAILURE_REASONS = [''body_too_short'', ''login_or_navigation_page'', ''prompt_injection_detected'']"

definition NON_DETERMINISTIC_PAGE_FAILURE_SUFFIXES :: "string list" where
  "NON_DETERMINISTIC_PAGE_FAILURE_SUFFIXES =
     [''_DNS_FAILED'', ''_NETWORK_ERROR'', ''_PROVIDER_UNAVAILABLE'', ''_TIMEOUT'']"

definition FAILED_OWNER_EXCLUSION_THRESHOLD :: nat where "FAILED_OWNER_EXCLUSION_THRESHOLD = 2"

text \<open>The failure an event reports: the URLs it rules out, and whether its owner is to blame.\<close>

definition failure_of :: "tool_env \<Rightarrow> string \<times> json_object \<Rightarrow> (string \<times> string list \<times> bool) option" where
  "failure_of env = (\<lambda>(ty, refs).
     (let text = (\<lambda>k. let v = jget k refs in if truthy v then py_str (tn_str env) v else []);
          rejected = (\<lambda>url deterministic. Some (url,
            url # (case jget ''requested_url'' refs of JStr u \<Rightarrow> if blank u then [] else [u] | _ \<Rightarrow> []), deterministic))
      in case jget ''url'' refs of
           JStr url \<Rightarrow>
             if blank url then None
             else if ty = ''source.triage_rejected''
               then (if text ''reason'' \<in> set GLOBAL_TRIAGE_FAILURE_REASONS then rejected url True else None)
             else if ty = ''source.rejected''
               then rejected url (\<not> list_ex (ends_with (text ''error_code'')) NON_DETERMINISTIC_PAGE_FAILURE_SUFFIXES)
             else None
         | _ \<Rightarrow> None))"

text \<open>The excluded URLs, and the owners blamed at least twice, sorted.\<close>

definition source_failure_feedback ::
    "tool_env \<Rightarrow> (string \<Rightarrow> string) \<Rightarrow> (string \<Rightarrow> string) \<Rightarrow> (string \<times> json_object) list \<Rightarrow> string list \<times> string list" where
  "source_failure_feedback env normal owner_key events =
     (let failures = List.map_filter (failure_of env) events;
          owners = filter (\<lambda>w. w \<noteq> ''unknown'')
            (map (\<lambda>(url, _). owner_key url) (filter (\<lambda>(_, _, deterministic). deterministic) failures))
      in (dedup (map normal (concat (map (\<lambda>(_, urls, _). urls) failures))),
          sort (filter (\<lambda>w. FAILED_OWNER_EXCLUSION_THRESHOLD \<le> count_list owners w) (dedup owners))))"

text \<open>Exactly the owners with two deterministic failures are excluded, each once.\<close>

lemma excluded_owner_iff:
  "w \<in> set (snd (source_failure_feedback env normal owner_key events)) \<longleftrightarrow> w \<noteq> ''unknown''
     \<and> 2 \<le> length (filter (\<lambda>(url, _, deterministic). deterministic \<and> owner_key url = w)
              (List.map_filter (failure_of env) events))"
proof -
  define blamed where "blamed xs = filter (\<lambda>w. w \<noteq> ''unknown'')
    (map (\<lambda>(url, _). owner_key url) (filter (\<lambda>(_, _, d). d) xs))" for xs :: "(string \<times> string list \<times> bool) list"
  have counted: "count_list (blamed xs) w
      = (if w = ''unknown'' then 0 else length (filter (\<lambda>(url, _, d). d \<and> owner_key url = w) xs))" for xs
    by (induction xs) (auto simp: blamed_def)
  have "w \<in> set (blamed xs) \<and> 2 \<le> count_list (blamed xs) w \<longleftrightarrow> 2 \<le> count_list (blamed xs) w" for xs
    by (metis count_notin not_numeral_le_zero)
  then show ?thesis
    by (simp add: source_failure_feedback_def Let_def FAILED_OWNER_EXCLUSION_THRESHOLD_def blamed_def [symmetric] counted)
qed

lemma excluded_owners_distinct: "distinct (snd (source_failure_feedback env normal owner_key events))"
  by (simp add: source_failure_feedback_def Let_def)

section \<open>Allowances\<close>

text \<open>
  While every untouched question can still get one request, serving one of them by its allowance leaves
  one for each of the others.
\<close>

lemma fair_allowance_leaves_one_each:
  assumes "0 < unattempted" "unattempted \<le> remaining" "0 < cap"
  shows "1 \<le> fair_provider_request_allowance remaining unattempted cap
    \<and> unattempted - 1 \<le> remaining - fair_provider_request_allowance remaining unattempted cap"
proof -
  have q: "1 \<le> remaining div unattempted" using assms by (simp add: int_one_le_iff_zero_less pos_imp_zdiv_pos_iff)
  have "unattempted * (remaining div unattempted) \<le> remaining"
    using assms minus_mod_eq_mult_div [of remaining unattempted] pos_mod_sign [of unattempted remaining] by linarith
  moreover have "(unattempted - 1) * 1 \<le> (unattempted - 1) * (remaining div unattempted)"
    using q assms by (intro mult_left_mono) auto
  ultimately have "unattempted - 1 \<le> remaining - remaining div unattempted"
    by (simp add: algebra_simps)
  then show ?thesis using assms q by (auto simp: fair_provider_request_allowance_def Let_def min_def)
qed

text \<open>A granted extraction fits both limits, the deadline apart.\<close>

lemma granted_extraction_fits:
  assumes "reserve_extraction_slot now i task db = Inr (True, db')" and "find_run i db' = Some r"
    and "0 < max_extracted (rr_budget r)"
  shows "pages_extracted (rr_usage r) + extraction_reserved (rr_usage r) \<le> max_extracted (rr_budget r)"
proof -
  from assms(1) obtain r0 where r0: "locked_run i task db = Inr r0"
    and fits: "0 < max_extracted (rr_budget r0) \<Longrightarrow>
        pages_extracted (rr_usage r0) + extraction_reserved (rr_usage r0) < max_extracted (rr_budget r0)"
    and db': "db' = put_run (set_usage (AList.update ''extraction_slots_reserved''
        (JInt (extraction_reserved (rr_usage r0) + 1)) (rr_usage r0)) r0) db"
    by (auto simp: reserve_extraction_slot_def Let_def not_le split: sum.splits if_splits)
  have "find_run i db = Some r0" "rr_id r0 = i"
    using r0 by (auto simp: locked_run_def owned_run_Some find_run_id split: option.splits)
  then have "r = set_usage (AList.update ''extraction_slots_reserved''
        (JInt (extraction_reserved (rr_usage r0) + 1)) (rr_usage r0)) r0"
    using assms(2) by (simp add: db' find_run_put set_usage_def)
  then show ?thesis using fits assms(3)
    by (simp add: set_usage_def pages_extracted_def extraction_reserved_def usage_simps safe_int_def safe_int_or_def)
qed

end
