(* ===== verification/Page_Guarantees.thy ===== *)
theory Page_Guarantees
  imports Resource_Limits Run_Guarantees
begin

text \<open>
  What the page slots guarantee. Every operation is reduced to its effect on the counters; a history
  composes the operations of any workers with transactions that leave the counters alone.
\<close>

named_theorems page_simps \<open>the page counters of an updated usage snapshot\<close>

section \<open>Shares\<close>

definition shares :: "json_object \<Rightarrow> int" where
  "shares owners = sum_list (map (safe_int \<circ> snd) owners)"

text \<open>The table of shares has no zero entry and adds up to the reserved counter.\<close>

definition page_slots_ok :: "json_object \<Rightarrow> bool" where
  "page_slots_ok usage \<longleftrightarrow> dict_wf (slot_owners usage) \<and> list_all (\<lambda>p. 0 < safe_int (snd p)) (slot_owners usage)
     \<and> slots_reserved usage = shares (slot_owners usage)"

lemma safe_int_JInt [simp]: "safe_int (JInt n) = n"
  by (simp add: safe_int_def safe_int_or_def)

lemma owned_Nil [simp]: "slots_owned k [] = 0"
  by (simp add: slots_owned_def)

lemma owned_Cons: "slots_owned k ((k', v) # d) = (if k = k' then safe_int v else slots_owned k d)"
  by (simp add: slots_owned_def)

lemma shares_simps [simp]: "shares [] = 0" "shares ((k, v) # d) = safe_int v + shares d"
  by (simp_all add: shares_def)

lemma owned_absent: "k \<notin> fst ` set d \<Longrightarrow> slots_owned k d = 0"
  by (induction d) (auto simp: owned_Cons)

lemma shares_update: "dict_wf d \<Longrightarrow> shares (AList.update k (JInt n) d) = shares d - slots_owned k d + n"
  by (induction d) (auto simp: owned_Cons owned_absent dict_wf_def)

lemma shares_pop: "dict_wf d \<Longrightarrow> shares (dict_pop k d) = shares d - slots_owned k d"
proof (induction d)
  case (Cons p d)
  obtain k' v where p: "p = (k', v)" by (cases p)
  have "dict_pop k d = d" if "k \<notin> fst ` set d" using that by (auto simp: dict_pop_def filter_id_conv)
  with Cons p show ?case by (auto simp: owned_Cons dict_wf_def dict_pop_def)
qed (simp add: dict_pop_def)

lemma owned_update: "slots_owned j (AList.update k (JInt n) d) = (if j = k then n else slots_owned j d)"
  by (simp add: slots_owned_def usage_simps)

lemma owned_pop: "slots_owned j (dict_pop k d) = (if j = k then 0 else slots_owned j d)"
  by (simp add: slots_owned_def usage_simps)

lemma shares_nonneg: "list_all (\<lambda>p. 0 < safe_int (snd p)) d \<Longrightarrow> 0 \<le> shares d"
  by (induction d) auto

lemma owned_range:
  "list_all (\<lambda>p. 0 < safe_int (snd p)) d \<Longrightarrow> 0 \<le> slots_owned k d \<and> slots_owned k d \<le> shares d"
  using shares_nonneg by (induction d) (force simp: owned_Cons)+

lemma positive_update:
  "0 < n \<Longrightarrow> list_all (\<lambda>p. 0 < safe_int (snd p)) d \<Longrightarrow> list_all (\<lambda>p. 0 < safe_int (snd p)) (AList.update k (JInt n) d)"
  by (induction d) auto

lemma positive_pop: "list_all P d \<Longrightarrow> list_all P (dict_pop k d)"
  by (induction d) (auto simp: dict_pop_def)

lemma wf_pop: "dict_wf d \<Longrightarrow> dict_wf (dict_pop k d)"
  by (simp add: dict_wf_def dict_pop_def distinct_map_filter)

text \<open>Which keys of the usage snapshot each counter reads.\<close>

lemma counters_update [page_simps]:
  "k \<noteq> ''page_slots_reserved_by_worker'' \<Longrightarrow> slot_owners (AList.update k v u) = slot_owners u"
  "slot_owners (AList.update ''page_slots_reserved_by_worker'' (JObj d) u) = d"
  "k \<noteq> ''page_slots_reserved'' \<Longrightarrow> slots_reserved (AList.update k v u) = slots_reserved u"
  "slots_reserved (AList.update ''page_slots_reserved'' (JInt n) u) = n"
  "k \<notin> {''pages'', ''pages_fetched''} \<Longrightarrow> pages_fetched (AList.update k v u) = pages_fetched u"
  "pages_fetched (AList.update ''pages_fetched'' (JInt n) u) = n"
  by (auto simp: slot_owners_def slots_reserved_def pages_fetched_def usage_simps obj_of_def)

lemma attempts_update [page_simps]:
  "k \<notin> {''pages'', ''pages_fetched'', ''page_fetch_attempts''} \<Longrightarrow> fetch_attempts (AList.update k v u) = fetch_attempts u"
  by (auto simp: fetch_attempts_def page_simps usage_simps)

lemma counters_pools [page_simps]:
  "slot_owners (with_pools b u) = slot_owners u" "slots_reserved (with_pools b u) = slots_reserved u"
  "pages_fetched (with_pools b u) = pages_fetched u" "fetch_attempts (with_pools b u) = fetch_attempts u"
  by (simp_all add: with_pools_def page_simps)

section \<open>The effect of each operation on the counters\<close>

text \<open>Settling a slot is releasing one.\<close>

lemma settle_is_release: "settle_slot k u = released_usage k 1 u"
proof (cases "slot_owners u = []")
  case True
  then show ?thesis by (auto simp: settle_slot_def released_usage_def max_def min_def)
next
  case False
  show ?thesis
  proof (cases "1 \<le> slots_owned k (slot_owners u)")
    case True
    then have "max 0 (slots_owned k (slot_owners u)) = slots_owned k (slot_owners u)"
      "min 1 (slots_owned k (slot_owners u)) = 1"
      "max 0 (slots_owned k (slot_owners u) - 1) = slots_owned k (slot_owners u) - 1"
      "max 0 (max 0 (slots_reserved u) - 1) = max 0 (slots_reserved u - 1)" by auto
    then show ?thesis using False by (simp add: settle_slot_def released_usage_def Let_def counters_update)
  next
    case none: False
    then have "max 0 (slots_owned k (slot_owners u)) = 0" by auto
    then show ?thesis using False by (simp add: settle_slot_def released_usage_def Let_def counters_update)
  qed
qed

text \<open>\<open>back\<close> slots leave the share of \<open>k\<close>; nothing else moves.\<close>

definition gives_back :: "string \<Rightarrow> int \<Rightarrow> json_object \<Rightarrow> json_object \<Rightarrow> bool" where
  "gives_back k back u u' \<longleftrightarrow> page_slots_ok u' \<and> slots_reserved u' = slots_reserved u - back
     \<and> slots_owned k (slot_owners u') = slots_owned k (slot_owners u) - back
     \<and> (\<forall>j. j \<noteq> k \<longrightarrow> slots_owned j (slot_owners u') = slots_owned j (slot_owners u))"

lemma released_gives_back:
  assumes ok: "page_slots_ok u" and c: "0 \<le> c"
  shows "gives_back k (min c (slots_owned k (slot_owners u))) u (released_usage k c u)"
    "pages_fetched (released_usage k c u) = pages_fetched u" "fetch_attempts (released_usage k c u) = fetch_attempts u"
proof -
  let ?d = "slot_owners u"
  have wf: "dict_wf ?d" and pos: "list_all (\<lambda>p. 0 < safe_int (snd p)) ?d" and sum: "slots_reserved u = shares ?d"
    using ok by (auto simp: page_slots_ok_def)
  note range = owned_range [OF pos, of k]
  show "gives_back k (min c (slots_owned k ?d)) u (released_usage k c u)"
  proof (cases "?d = []")
    case True
    then show ?thesis using sum c
      by (simp add: released_usage_def Let_def gives_back_def page_slots_ok_def counters_update)
  next
    case False
    define b where "b = min c (slots_owned k ?d)"
    have b: "0 \<le> b" "b \<le> slots_owned k ?d" using c range by (auto simp: b_def)
    have "max 0 (slots_reserved u) = shares ?d" "max 0 (slots_owned k ?d) = slots_owned k ?d"
      "max 0 (shares ?d - b) = shares ?d - b" using sum range b by auto
    then have released: "released_usage k c u = AList.update ''page_slots_reserved'' (JInt (shares ?d - b))
        (AList.update ''page_slots_reserved_by_worker'' (JObj (if slots_owned k ?d - b = 0 then dict_pop k ?d
           else AList.update k (JInt (slots_owned k ?d - b)) ?d)) u)"
      using False by (simp add: released_usage_def Let_def flip: b_def)
    have "gives_back k b u (released_usage k c u)"
    proof (cases "slots_owned k ?d - b = 0")
      case True
      then show ?thesis using wf pos sum
        by (simp add: released gives_back_def page_slots_ok_def counters_update wf_pop positive_pop shares_pop owned_pop)
    next
      case False
      then have "0 < slots_owned k ?d - b" using b by simp
      then show ?thesis using wf pos sum False
        by (simp add: released gives_back_def page_slots_ok_def counters_update positive_update shares_update owned_update)
    qed
    then show ?thesis by (simp add: b_def)
  qed
  show "pages_fetched (released_usage k c u) = pages_fetched u" "fetch_attempts (released_usage k c u) = fetch_attempts u"
    by (simp_all add: released_usage_def Let_def page_simps)
qed

section \<open>Operations on the tables\<close>

definition quiet :: "transaction \<Rightarrow> bool" where
  "quiet f \<longleftrightarrow> (\<forall>r db r' db'. f (r, db) = Inr (r', db') \<longrightarrow>
     rr_id r' = rr_id r \<and> rr_usage r' = rr_usage r \<and> rr_budget r' = rr_budget r \<and> db_runs db' = db_runs db)"

lemma quiet_tool_event [intro]: "quiet (append_tool_event env ty refs metrics)"
  unfolding quiet_def append_tool_event_def by (auto simp: append_event_def split: sum.splits)

lemma quiet_candidate_event [intro]: "quiet (append_candidate_event env c stage reason failure metrics)"
  using quiet_tool_event unfolding quiet_def append_candidate_event_def by (force split: sum.splits)

lemma quiet_in_turn:
  assumes "in_turn fs (r, db) = Inr db'" and "list_all quiet fs" and "find_run (rr_id r) db \<noteq> None"
  shows "\<exists>r'. find_run (rr_id r) db' = Some r' \<and> rr_usage r' = rr_usage r \<and> rr_budget r' = rr_budget r"
proof -
  obtain r' d' where run: "foldM (\<lambda>s f. f s) (r, db) fs = Inr (r', d')" and db': "db' = put_run r' d'"
    using assms(1) by (auto simp: in_turn_def map_sum_def split: sum.splits)
  have "rr_id r' = rr_id r \<and> rr_usage r' = rr_usage r \<and> rr_budget r' = rr_budget r \<and> db_runs d' = db_runs db"
    using run assms(2)
  proof (induction fs arbitrary: r db)
    case (Cons f fs)
    then obtain r1 db1 where "f (r, db) = Inr (r1, db1)" "foldM (\<lambda>s f. f s) (r1, db1) fs = Inr (r', d')"
      by (auto split: sum.splits)
    with Cons.IH [of r1 db1] Cons.prems show ?case by (auto simp: quiet_def)
  qed simp
  then show ?thesis using assms(3) unfolding db' find_run_put by (auto simp: find_run_def)
qed

text \<open>A step that returns: the call it waits for returned.\<close>

lemma and_thenE:
  assumes "(case x of Inl e \<Rightarrow> Inl e | Inr y \<Rightarrow> f y) = Inr z"
  obtains y where "x = Inr y" "f y = Inr z"
  using assms by (cases x) auto

lemma locked_row: "locked_run i task db = Inr r \<Longrightarrow> find_run i db = Some r \<and> rr_id r = i"
  by (auto simp: locked_run_def owned_run_Some find_run_id split: option.splits)

text \<open>The limits of a run, and the effect of one operation of worker \<open>t\<close> on its row.\<close>

definition page_limits :: "json_object \<Rightarrow> int result \<times> int result" where
  "page_limits budget =
     (max_pages budget, case max_pages budget of Inl e \<Rightarrow> Inl e | Inr m \<Rightarrow> max_attempts m budget)"

lemma clipped:
  fixes k :: int
  assumes "0 \<le> k"
  shows "0 \<le> min (min (max 0 n) (max 0 (max 0 x - k))) (max 0 y)"
    "min (min (max 0 n) (max 0 (max 0 x - k))) (max 0 y) \<le> max 0 x"
    "min (min (max 0 n) (max 0 (max 0 x - k))) (max 0 y) \<le> max 0 y"
  using assms by (auto simp: min_le_iff_disj)

lemma reserve_effect:
  assumes "reserve_page_slots wk i t n fresh db = Inr (g, db')" and "find_run i db = Some r"
    and ok: "page_slots_ok (rr_usage r)"
  obtains r' maximum attempts where "find_run i db' = Some r'" "rr_budget r' = rr_budget r"
    "page_limits (rr_budget r) = (Inr maximum, Inr attempts)" "page_slots_ok (rr_usage r')"
    "0 \<le> pb_granted g" "slots_reserved (rr_usage r') = slots_reserved (rr_usage r) + pb_granted g"
    "\<And>j. slots_owned j (slot_owners (rr_usage r'))
       = slots_owned j (slot_owners (rr_usage r)) + (if j = wk t then pb_granted g else 0)"
    "pages_fetched (rr_usage r') = pages_fetched (rr_usage r)"
    "fetch_attempts (rr_usage r') = fetch_attempts (rr_usage r)"
    "pb_granted g \<le> max 0 (maximum - max 0 (pages_fetched (rr_usage r)) - slots_reserved (rr_usage r))"
    "pb_granted g \<le> max 0 (attempts - fetch_attempts (rr_usage r) - slots_reserved (rr_usage r))"
proof -
  let ?u = "rr_usage r" and ?d = "slot_owners (rr_usage r)"
  have wf: "dict_wf ?d" and pos: "list_all (\<lambda>p. 0 < safe_int (snd p)) ?d" and sum: "slots_reserved ?u = shares ?d"
    using ok by (auto simp: page_slots_ok_def)
  have res: "max 0 (slots_reserved ?u) = slots_reserved ?u" using shares_nonneg [OF pos] sum by simp
  obtain maximum attempts searches k where locked: "locked_run i t db = Inr r"
    and m: "max_pages (rr_budget r) = Inr maximum" "max_attempts maximum (rr_budget r) = Inr attempts"
    and g: "pb_granted g = min (min (max 0 n) (max 0 (max 0 (maximum - max 0 (pages_fetched ?u) - slots_reserved ?u) - k)))
        (max 0 (attempts - fetch_attempts ?u - slots_reserved ?u))" and k: "0 \<le> k"
    and db': "db' = (if pb_granted g = 0 then db else put_run (set_usage
        (AList.update ''page_slots_reserved_by_worker''
          (JObj (AList.update (wk t) (JInt (slots_owned (wk t) ?d + pb_granted g)) ?d))
          (AList.update ''page_slots_reserved'' (JInt (slots_reserved ?u + pb_granted g)) ?u)) r) db)"
  proof -
    obtain r0 where r0: "locked_run i t db = Inr r0"
      using assms(1) unfolding reserve_page_slots_def by (rule and_thenE)
    then have "r0 = r" using locked_row [OF r0] assms(2) by simp
    note locked = r0 [unfolded this]
    note run0 = assms(1) [unfolded reserve_page_slots_def locked Let_def res sum.case]
    obtain maximum where m1: "max_pages (rr_budget r) = Inr maximum" using run0 by (rule and_thenE)
    note run1 = run0 [unfolded m1 sum.case]
    obtain attempts where m2: "max_attempts maximum (rr_budget r) = Inr attempts" using run1 by (rule and_thenE)
    note run2 = run1 [unfolded m2 sum.case]
    obtain searches where m3: "int_or_zero (jget_or (JInt 0) ''max_searches'' (rr_budget r)) = Inr searches"
      using run2 by (rule and_thenE)
    define k where "k = (if fresh then max 0 (searches - max 0 (safe_int (jget_or (JInt 0) ''searches'' ?u))) else 0)"
    define G where "G = min (min (max 0 n) (max 0 (max 0 (maximum - max 0 (pages_fetched ?u) - slots_reserved ?u) - k)))
        (max 0 (attempts - fetch_attempts ?u - slots_reserved ?u))"
    have "pb_granted g = G \<and> db' = (if G = 0 then db else put_run (set_usage
        (AList.update ''page_slots_reserved_by_worker''
          (JObj (AList.update (wk t) (JInt (slots_owned (wk t) ?d + G)) ?d))
          (AList.update ''page_slots_reserved'' (JInt (slots_reserved ?u + G)) ?u)) r) db)"
      using run2 [unfolded m3 sum.case k_def [symmetric] G_def [symmetric]] by auto
    note row = this [THEN conjunct1] this [THEN conjunct2]
    show ?thesis
      by (rule that [OF locked m1 m2 row(1) [unfolded G_def] _ row(2) [folded row(1)]]) (simp add: k_def)
  qed
  note bounds = clipped [OF k, of n "maximum - max 0 (pages_fetched ?u) - slots_reserved ?u"
      "attempts - fetch_attempts ?u - slots_reserved ?u", folded g]
  show thesis
  proof (cases "pb_granted g = 0")
    case True
    then have "db' = db" by (simp add: db')
    then show ?thesis
      by (intro that [of r maximum attempts]) (use True assms(2) m ok bounds in \<open>simp_all add: page_limits_def\<close>)
  next
    case False
    then have owned: "0 < slots_owned (wk t) ?d + pb_granted g"
      using bounds(1) owned_range [OF pos, of "wk t"] by simp
    define u' where "u' = AList.update ''page_slots_reserved_by_worker''
          (JObj (AList.update (wk t) (JInt (slots_owned (wk t) ?d + pb_granted g)) ?d))
          (AList.update ''page_slots_reserved'' (JInt (slots_reserved ?u + pb_granted g)) ?u)"
    have u': "slot_owners u' = AList.update (wk t) (JInt (slots_owned (wk t) ?d + pb_granted g)) ?d"
      "slots_reserved u' = slots_reserved ?u + pb_granted g" "pages_fetched u' = pages_fetched ?u"
      "fetch_attempts u' = fetch_attempts ?u"
      by (simp_all add: u'_def page_simps)
    then have "page_slots_ok u'"
      using owned wf pos sum by (simp add: page_slots_ok_def positive_update shares_update)
    moreover have "find_run i db' = Some (set_usage u' r)"
      using False locked_row [OF locked] by (simp add: db' find_run_put set_usage_def flip: u'_def)
    ultimately show ?thesis
      by (intro that [of "set_usage u' r" maximum attempts])
         (use m bounds u' in \<open>simp_all add: set_usage_def page_simps page_limits_def owned_update page_slots_ok_def\<close>)
  qed
qed

text \<open>
  A change of the counters: \<open>add\<close> slots for \<open>k\<close> (negative when they go back), \<open>f\<close> more pages, at most
  \<open>a\<close> more attempts.
\<close>

definition moves :: "string \<Rightarrow> int \<Rightarrow> int \<Rightarrow> int \<Rightarrow> json_object \<Rightarrow> json_object \<Rightarrow> bool" where
  "moves k add f a u u' \<longleftrightarrow> gives_back k (- add) u u' \<and> pages_fetched u' = pages_fetched u + f
     \<and> fetch_attempts u' \<le> fetch_attempts u + a"

definition slotless :: "string \<Rightarrow> json_object \<Rightarrow> int" where
  "slotless k u = 1 - min 1 (slots_owned k (slot_owners u))"

lemma slotless_range: "page_slots_ok u \<Longrightarrow> 0 \<le> slotless k u"
  by (simp add: slotless_def)

lemma bump_counters [page_simps]:
  "k \<noteq> ''page_slots_reserved_by_worker'' \<Longrightarrow> slot_owners (bump k n u) = slot_owners u"
  "k \<noteq> ''page_slots_reserved'' \<Longrightarrow> slots_reserved (bump k n u) = slots_reserved u"
  "k \<notin> {''pages'', ''pages_fetched''} \<Longrightarrow> pages_fetched (bump k n u) = pages_fetched u"
  "k \<notin> {''pages'', ''pages_fetched'', ''page_fetch_attempts''} \<Longrightarrow> fetch_attempts (bump k n u) = fetch_attempts u"
  by (simp_all add: bump_def page_simps)

lemma attempts_bump: "0 \<le> n \<Longrightarrow> fetch_attempts (bump ''page_fetch_attempts'' n u) \<le> fetch_attempts u + n"
  by (auto simp: fetch_attempts_def bump_def jget_or_def map_of_update split: option.splits)

lemma gives_back_cong:
  "slot_owners v = slot_owners u' \<Longrightarrow> slots_reserved v = slots_reserved u' \<Longrightarrow> gives_back k b u v = gives_back k b u u'"
  by (simp add: gives_back_def page_slots_ok_def)

lemma page_slots_ok_cong:
  "slot_owners v = slot_owners u \<Longrightarrow> slots_reserved v = slots_reserved u \<Longrightarrow> page_slots_ok v = page_slots_ok u"
  by (simp add: page_slots_ok_def)

lemma settled_spends:
  assumes ok: "page_slots_ok u" and n: "0 \<le> n"
    and v: "slot_owners v = slot_owners (settle_slot k u)" "slots_reserved v = slots_reserved (settle_slot k u)"
      "pages_fetched v = pages_fetched u + f" "fetch_attempts v \<le> fetch_attempts (settle_slot k u) + n"
  shows "moves k (slotless k u - 1) f n u v"
proof -
  note gave = released_gives_back [OF ok, of 1 k, folded settle_is_release, simplified]
  have "- (slotless k u - 1) = min 1 (slots_owned k (slot_owners u))" by (simp add: slotless_def)
  then show ?thesis
    using gave v unfolding moves_def by (simp only: gives_back_cong [OF v(1,2)])
qed

lemma fetched_moves:
  assumes ok: "page_slots_ok u"
  shows "moves k (slotless k u - 1) (if reused then 0 else 1) (if reused then 0 else 1) u
    (with_pools b (fetched_usage k reused latency u))"
proof (rule settled_spends [OF ok])
  let ?s = "settle_slot k u"
  have p: "pages_fetched ?s = pages_fetched u"
    using released_gives_back(2) [OF ok, of 1 k] by (simp add: settle_is_release)
  show "slot_owners (with_pools b (fetched_usage k reused latency u)) = slot_owners ?s"
    "slots_reserved (with_pools b (fetched_usage k reused latency u)) = slots_reserved ?s"
    "pages_fetched (with_pools b (fetched_usage k reused latency u)) = pages_fetched u + (if reused then 0 else 1)"
    by (simp_all add: fetched_usage_def Let_def page_simps p)
  have "fetch_attempts (AList.update ''pages_fetched'' (JInt m) (bump ''page_fetch_attempts'' n ?s))
      = fetch_attempts (bump ''page_fetch_attempts'' n ?s)" for m n
    by (simp add: fetch_attempts_def bump_def usage_simps)
  then show "fetch_attempts (with_pools b (fetched_usage k reused latency u)) \<le> fetch_attempts ?s + (if reused then 0 else 1)"
    using attempts_bump [of 0 ?s] attempts_bump [of 1 ?s] by (simp add: fetched_usage_def Let_def page_simps)
qed simp

lemma failed_moves:
  assumes ok: "page_slots_ok u" and v: "failed_usage k latency u = Inr v"
  shows "moves k (slotless k u - 1) 0 1 u (with_pools b v)"
proof (rule settled_spends [OF ok])
  let ?s = "settle_slot k u"
  obtain n where v: "v = AList.update ''page_read_failures'' (JInt n)
      (bump ''page_fetch_latency_ms'' (max 0 latency) (bump ''page_fetch_attempts'' 1 ?s))"
    using v by (auto simp: failed_usage_def Let_def split: sum.splits)
  have p: "pages_fetched ?s = pages_fetched u"
    using released_gives_back(2) [OF ok, of 1 k] by (simp add: settle_is_release)
  show "slot_owners (with_pools b v) = slot_owners ?s" "slots_reserved (with_pools b v) = slots_reserved ?s"
    "pages_fetched (with_pools b v) = pages_fetched u + 0"
    by (simp_all add: v page_simps p)
  show "fetch_attempts (with_pools b v) \<le> fetch_attempts ?s + 1"
    using attempts_bump [of 1 ?s] by (simp add: v page_simps)
qed simp

section \<open>Histories\<close>

definition counters_kept :: "uuid \<Rightarrow> database \<Rightarrow> database \<Rightarrow> bool" where
  "counters_kept i db db' \<longleftrightarrow> (case (find_run i db, find_run i db') of
       (Some r, Some r') \<Rightarrow> page_limits (rr_budget r') = page_limits (rr_budget r)
         \<and> slot_owners (rr_usage r') = slot_owners (rr_usage r) \<and> slots_reserved (rr_usage r') = slots_reserved (rr_usage r)
         \<and> pages_fetched (rr_usage r') = pages_fetched (rr_usage r)
         \<and> fetch_attempts (rr_usage r') = fetch_attempts (rr_usage r)
     | _ \<Rightarrow> False)"

text \<open>A transaction of worker \<open>t\<close> that records \<open>c\<close> pages for which the worker holds no slot.\<close>

inductive page_step :: "(dispatch_key \<Rightarrow> string) \<Rightarrow> uuid \<Rightarrow> dispatch_key \<Rightarrow> int \<Rightarrow> database \<Rightarrow> database \<Rightarrow> bool"
  for wk i t where
  reserve: "reserve_page_slots wk i t n fresh db = Inr (g, db') \<Longrightarrow> page_step wk i t 0 db db'"
| fetched: "record_page_fetched env wk i t tg cd url reused latency db = Inr db' \<Longrightarrow> find_run i db = Some r
    \<Longrightarrow> page_step wk i t (slotless (wk t) (rr_usage r)) db db'"
| failed: "record_page_failure env wk i t tg cd url domain code latency db = Inr db' \<Longrightarrow> find_run i db = Some r
    \<Longrightarrow> page_step wk i t (slotless (wk t) (rr_usage r)) db db'"
| released: "release_page_slots wk i t n db = Inr db' \<Longrightarrow> page_step wk i t 0 db db'"
| elsewhere: "counters_kept i db db' \<Longrightarrow> page_step wk i t 0 db db'"

inductive_cases page_stepE: "page_step wk i t c db db'"

text \<open>A step either reserves what the limits leave, or spends no more than it gives back plus \<open>c\<close>.\<close>

definition within_limits :: "int \<Rightarrow> int \<Rightarrow> int \<Rightarrow> int \<Rightarrow> run_row \<Rightarrow> bool" where
  "within_limits c add f a r \<longleftrightarrow> add + f \<le> c \<and> add + a \<le> c \<or> f = 0 \<and> a = 0 \<and>
     (\<exists>m n. page_limits (rr_budget r) = (Inr m, Inr n)
        \<and> add \<le> max 0 (m - max 0 (pages_fetched (rr_usage r)) - slots_reserved (rr_usage r))
        \<and> add \<le> max 0 (n - fetch_attempts (rr_usage r) - slots_reserved (rr_usage r)))"

lemma kept_moves: "page_slots_ok u \<Longrightarrow> slot_owners v = slot_owners u \<Longrightarrow> slots_reserved v = slots_reserved u
  \<Longrightarrow> pages_fetched v = pages_fetched u \<Longrightarrow> fetch_attempts v = fetch_attempts u \<Longrightarrow> moves k 0 0 0 u v"
  by (simp add: moves_def gives_back_def page_slots_ok_def)

lemma step_movesI:
  assumes "find_run i db' = Some r'" "rr_budget r' = rr_budget r" "moves k add f a (rr_usage r) (rr_usage r')"
    "0 \<le> f" "0 \<le> a" "0 \<le> c" "add + f \<le> c" "add + a \<le> c"
  shows "\<exists>r' add f a. find_run i db' = Some r' \<and> page_limits (rr_budget r') = page_limits (rr_budget r)
    \<and> moves k add f a (rr_usage r) (rr_usage r') \<and> 0 \<le> f \<and> 0 \<le> a \<and> 0 \<le> c \<and> within_limits c add f a r"
  by (intro exI [of _ r'] exI [of _ add] exI [of _ f] exI [of _ a]) (simp add: assms within_limits_def)

lemma page_step_moves:
  assumes "page_step wk i t c db db'" and r: "find_run i db = Some r" and ok: "page_slots_ok (rr_usage r)"
  shows "\<exists>r' add f a. find_run i db' = Some r' \<and> page_limits (rr_budget r') = page_limits (rr_budget r)
    \<and> moves (wk t) add f a (rr_usage r) (rr_usage r') \<and> 0 \<le> f \<and> 0 \<le> a \<and> 0 \<le> c \<and> within_limits c add f a r"
  using assms(1)
proof (cases rule: page_step.cases)
  case (reserve n fresh g)
  obtain r' m a where "find_run i db' = Some r'" "rr_budget r' = rr_budget r"
    "page_limits (rr_budget r) = (Inr m, Inr a)"
    "moves (wk t) (pb_granted g) 0 0 (rr_usage r) (rr_usage r')"
    "pb_granted g \<le> max 0 (m - max 0 (pages_fetched (rr_usage r)) - slots_reserved (rr_usage r))"
    "pb_granted g \<le> max 0 (a - fetch_attempts (rr_usage r) - slots_reserved (rr_usage r))"
    by (rule reserve_effect [OF reserve(2) r ok], rule that, assumption, assumption, assumption)
       (simp_all add: moves_def gives_back_def)
  then show ?thesis using reserve(1) by (auto simp: within_limits_def intro!: exI [of _ r'])
next
  case (fetched env tg cd url reused latency r0)
  then have r0: "r0 = r" using r by simp
  have locked: "locked_run i t db = Inr r"
    using fetched(2) r locked_row [of i t db] by (auto simp: record_page_fetched_def split: sum.splits)
  let ?r1 = "set_usage (fetched_usage (wk t) reused latency (rr_usage r)) r"
  obtain r' where r': "find_run i db' = Some r'" "rr_usage r' = rr_usage ?r1" "rr_budget r' = rr_budget r"
    using quiet_in_turn [OF fetched(2) [unfolded record_page_fetched_def locked sum.case Let_def]] find_run_id [OF r] r
    by (auto simp: set_usage_def)
  have "moves (wk t) (slotless (wk t) (rr_usage r) - 1) (if reused then 0 else 1) (if reused then 0 else 1)
      (rr_usage r) (rr_usage r')"
    unfolding r' using fetched_moves [OF ok] by (simp add: set_usage_def)
  from step_movesI [OF r'(1,3) this] show ?thesis using fetched(1) slotless_range [OF ok] unfolding r0 by simp
next
  case (failed env tg cd url domain code latency r0)
  then have r0: "r0 = r" using r by simp
  have locked: "locked_run i t db = Inr r"
    using failed(2) r locked_row [of i t db] by (auto simp: record_page_failure_def split: sum.splits)
  note run = failed(2) [unfolded record_page_failure_def locked sum.case]
  obtain v where v: "failed_usage (wk t) latency (rr_usage r) = Inr v" using run by (rule and_thenE)
  obtain r' where r': "find_run i db' = Some r'" "rr_usage r' = rr_usage (set_usage v r)" "rr_budget r' = rr_budget r"
    using quiet_in_turn [OF run [unfolded v sum.case]] find_run_id [OF r] r by (auto simp: set_usage_def)
  have "moves (wk t) (slotless (wk t) (rr_usage r) - 1) 0 1 (rr_usage r) (rr_usage r')"
    unfolding r' using failed_moves [OF ok v] by (simp add: set_usage_def)
  from step_movesI [OF r'(1,3) this] show ?thesis using failed(1) slotless_range [OF ok] unfolding r0 by simp
next
  case (released n)
  show ?thesis
  proof (cases "max 0 n = 0")
    case True
    then have "find_run i db' = Some r" using released r by (simp add: release_page_slots_def)
    from step_movesI [OF this refl kept_moves [OF ok refl refl refl refl]] show ?thesis using released(1) by simp
  next
    case False
    then have n: "0 < n" by (simp add: max_def split: if_splits)
    have locked: "locked_run i t db = Inr r"
      using released(2) n r locked_row [of i t db] by (auto simp: release_page_slots_def split: sum.splits)
    let ?u = "released_usage (wk t) (max 0 n) (rr_usage r)"
    let ?b = "min (max 0 n) (slots_owned (wk t) (slot_owners (rr_usage r)))"
    have r': "find_run i db' = Some (set_usage ?u r)"
      using released(2) n locked locked_row [OF locked] by (auto simp: release_page_slots_def find_run_put set_usage_def)
    have "moves (wk t) (- ?b) 0 0 (rr_usage r) (rr_usage (set_usage ?u r))"
      using released_gives_back [OF ok, of "max 0 n" "wk t"]
      by (simp add: moves_def set_usage_def page_simps gives_back_cong [of "with_pools _ ?u" ?u])
    from step_movesI [OF r' _ this, of c] show ?thesis
      using released(1) owned_range ok by (simp add: page_slots_ok_def set_usage_def)
  qed
next
  case elsewhere
  then obtain r' where r': "find_run i db' = Some r'" "page_limits (rr_budget r') = page_limits (rr_budget r)"
    and u: "slot_owners (rr_usage r') = slot_owners (rr_usage r)"
      "slots_reserved (rr_usage r') = slots_reserved (rr_usage r)"
      "pages_fetched (rr_usage r') = pages_fetched (rr_usage r)"
      "fetch_attempts (rr_usage r') = fetch_attempts (rr_usage r)"
    using r by (auto simp: counters_kept_def split: option.splits)
  show ?thesis
    using r' kept_moves [OF ok u] elsewhere(1) by (intro exI [of _ r'] exI [of _ 0]) (simp add: within_limits_def)
qed

text \<open>A run that has fetched nothing, and \<open>n\<close> pages recorded since by workers without a slot.\<close>

definition untouched_pages :: "json_object \<Rightarrow> bool" where
  "untouched_pages u \<longleftrightarrow> slot_owners u = [] \<and> slots_reserved u = 0 \<and> pages_fetched u = 0 \<and> fetch_attempts u = 0"

inductive page_history :: "(dispatch_key \<Rightarrow> string) \<Rightarrow> uuid \<Rightarrow> int \<Rightarrow> database \<Rightarrow> bool"
  for wk i where
  start: "find_run i db = Some r \<Longrightarrow> untouched_pages (rr_usage r) \<Longrightarrow> page_history wk i 0 db"
| step: "page_history wk i n db \<Longrightarrow> page_step wk i t c db db' \<Longrightarrow> page_history wk i (n + c) db'"

definition in_budget :: "int \<Rightarrow> run_row \<Rightarrow> bool" where
  "in_budget n r \<longleftrightarrow> 0 \<le> n \<and> page_slots_ok (rr_usage r) \<and> 0 \<le> pages_fetched (rr_usage r)
     \<and> (\<forall>m a. page_limits (rr_budget r) = (Inr m, Inr a) \<longrightarrow>
          pages_fetched (rr_usage r) + slots_reserved (rr_usage r) \<le> max 0 m + n
          \<and> fetch_attempts (rr_usage r) + slots_reserved (rr_usage r) \<le> max 0 a + n)"

lemma reserved_nonneg: "page_slots_ok u \<Longrightarrow> 0 \<le> slots_reserved u"
  using shares_nonneg by (auto simp: page_slots_ok_def)

lemma in_budget_step:
  assumes "page_step wk i t c db db'" and r: "find_run i db = Some r" and inv: "in_budget n r"
  shows "\<exists>r'. find_run i db' = Some r' \<and> in_budget (n + c) r'"
proof -
  have ok: "page_slots_ok (rr_usage r)" and n: "0 \<le> n" and p: "0 \<le> pages_fetched (rr_usage r)"
    using inv by (auto simp: in_budget_def)
  obtain r' add f a where r': "find_run i db' = Some r'" "page_limits (rr_budget r') = page_limits (rr_budget r)"
    and m: "moves (wk t) add f a (rr_usage r) (rr_usage r')" and fa: "0 \<le> f" "0 \<le> a" "0 \<le> c"
    and lim: "within_limits c add f a r"
    using page_step_moves [OF assms(1) r ok] by blast
  have u': "page_slots_ok (rr_usage r')" "slots_reserved (rr_usage r') = slots_reserved (rr_usage r) + add"
    "pages_fetched (rr_usage r') = pages_fetched (rr_usage r) + f"
    "fetch_attempts (rr_usage r') \<le> fetch_attempts (rr_usage r) + a"
    using m by (auto simp: moves_def gives_back_def)
  have "pages_fetched (rr_usage r') + slots_reserved (rr_usage r') \<le> max 0 k + (n + c)
      \<and> fetch_attempts (rr_usage r') + slots_reserved (rr_usage r') \<le> max 0 l + (n + c)"
    if kl: "page_limits (rr_budget r) = (Inr k, Inr l)" for k l
  proof -
    have b: "pages_fetched (rr_usage r) + slots_reserved (rr_usage r) \<le> max 0 k + n"
      "fetch_attempts (rr_usage r) + slots_reserved (rr_usage r) \<le> max 0 l + n"
      using inv kl by (auto simp: in_budget_def)
    from lim consider "add + f \<le> c" "add + a \<le> c" | "f = 0" "a = 0"
        "add \<le> max 0 (k - max 0 (pages_fetched (rr_usage r)) - slots_reserved (rr_usage r))"
        "add \<le> max 0 (l - fetch_attempts (rr_usage r) - slots_reserved (rr_usage r))"
      by (auto simp: within_limits_def kl)
    then show ?thesis
    proof cases
      case 1
      then show ?thesis using u' b by linarith
    next
      case 2
      then show ?thesis using u' b fa n p reserved_nonneg [OF ok] by (auto simp: max_def split: if_splits)
    qed
  qed
  then have "in_budget (n + c) r'" using r'(2) u' n p fa by (simp add: in_budget_def)
  with r'(1) show ?thesis by blast
qed

lemma history_in_budget: "page_history wk i n db \<Longrightarrow> \<exists>r. find_run i db = Some r \<and> in_budget n r"
proof (induction rule: page_history.induct)
  case (start db r)
  then show ?case by (auto simp: in_budget_def untouched_pages_def page_slots_ok_def)
next
  case (step n db t c db')
  then show ?case using in_budget_step by blast
qed

text \<open>
  C13. Along every history of page operations of any workers, the pages fetched plus the slots still reserved
  stay within the page limit, and the fetch attempts plus the reserved slots within the attempt limit, up to
  the number of pages that were recorded by a worker holding no slot; the reserved counter is always the sum
  of the workers' shares.
\<close>

theorem page_budget_is_respected:
  assumes "page_history wk i n db" and "find_run i db = Some r"
    and "max_pages (rr_budget r) = Inr limit" and "max_attempts limit (rr_budget r) = Inr attempts"
  shows "pages_fetched (rr_usage r) + slots_reserved (rr_usage r) \<le> max 0 limit + n
    \<and> fetch_attempts (rr_usage r) + slots_reserved (rr_usage r) \<le> max 0 attempts + n
    \<and> slots_reserved (rr_usage r) = shares (slot_owners (rr_usage r))"
  using history_in_budget [OF assms(1)] assms(2-)
  by (auto simp: in_budget_def page_limits_def page_slots_ok_def)

section \<open>A worker that is gone\<close>

text \<open>What the page operations read of a run is a view that taking the run over keeps.\<close>

definition page_view :: "run_row \<Rightarrow> (int result \<times> int result) \<times> json_object \<times> int \<times> int \<times> int" where
  "page_view r = (page_limits (rr_budget r), slot_owners (rr_usage r), slots_reserved (rr_usage r),
     pages_fetched (rr_usage r), fetch_attempts (rr_usage r))"

text \<open>Taking a run over leaves the counters as the lost worker left them.\<close>

lemma takeover_keeps_counters:
  "slot_owners (acquired_usage b u n) = slot_owners u" "slots_reserved (acquired_usage b u n) = slots_reserved u"
  "pages_fetched (acquired_usage b u n) = pages_fetched u" "fetch_attempts (acquired_usage b u n) = fetch_attempts u"
  by (simp_all add: slot_owners_def slots_reserved_def pages_fetched_def fetch_attempts_def usage_simps)

interpretation page_facts: row_view page_view
  by unfold_locales (simp_all add: page_view_def takeover_keeps_counters)

lemma kept_counters: "view_kept page_view i db db' \<Longrightarrow> find_run i db \<noteq> None \<Longrightarrow> counters_kept i db db'"
  by (auto simp: view_kept_def counters_kept_def page_view_def split: option.splits)

text \<open>So do the transactions that save a plan.\<close>

lemma plan_counters:
  "page_limits (AList.update ''allocation'' v b) = page_limits b"
  "slot_owners (planned_usage b a k u) = slot_owners u" "slots_reserved (planned_usage b a k u) = slots_reserved u"
  "pages_fetched (planned_usage b a k u) = pages_fetched u" "fetch_attempts (planned_usage b a k u) = fetch_attempts u"
  "slot_owners (reset_plan_scoped_question_budget str ids u) = slot_owners u"
  "slots_reserved (reset_plan_scoped_question_budget str ids u) = slots_reserved u"
  "pages_fetched (reset_plan_scoped_question_budget str ids u) = pages_fetched u"
  "fetch_attempts (reset_plan_scoped_question_budget str ids u) = fetch_attempts u"
  by (simp_all add: page_limits_def max_pages_def max_attempts_def slot_owners_def slots_reserved_def pages_fetched_def
      fetch_attempts_def usage_simps split: sum.split)

lemma save_plan_counters:
  assumes "save_generated_plan env j task plan tokens db = Inr (b, db')"
  shows "view_kept page_view i db db'"
proof (cases "owned_run j task db")
  case None
  then show ?thesis using assms by (simp add: save_generated_plan_def)
next
  case (Some r)
  show ?thesis using assms Some owned_id [OF Some]
    by (auto simp: save_generated_plan_def with_generated_plan_def Let_def page_view_def plan_counters insert_items_plans
        intro!: page_facts.kept_save [of j _ r] split: sum.splits)
qed

lemma gap_plan_counters:
  assumes "save_gap_resolution_plan env j task gaps db = Inr (b, db')"
  shows "view_kept page_view i db db'"
proof (cases "owned_run j task db")
  case None
  then show ?thesis using assms by (simp add: save_gap_resolution_plan_def)
next
  case (Some r)
  show ?thesis using assms Some owned_id [OF Some]
    by (auto simp: save_gap_resolution_plan_def Let_def page_view_def plan_counters insert_items_plans page_simps
        intro!: page_facts.kept_save [of j _ r] split: sum.splits if_splits)
qed

lemma replan_counters:
  assumes "save_replanned_questions env j task qs db = Inr (b, db')"
  shows "view_kept page_view i db db'"
proof (cases "owned_run j task db")
  case None
  then show ?thesis using assms by (simp add: save_replanned_questions_def)
next
  case (Some r)
  show ?thesis using assms Some owned_id [OF Some]
    by (auto simp: save_replanned_questions_def Let_def page_view_def plan_counters insert_items_Inr page_simps
        fold_append_event kept_save_simps split: sum.splits if_splits)
qed

text \<open>The transactions that set the counters of a run anew: a durable deferral, a failure, the end with the report.\<close>

fun resets_slots :: "uuid \<Rightarrow> run_op \<Rightarrow> bool" where
  "resets_slots i (OpDeferModel env ob j task c d) \<longleftrightarrow> j = i"
| "resets_slots i (OpDeferSearch env ob j task c d) \<longleftrightarrow> j = i"
| "resets_slots i (OpFail env j task c d diag) \<longleftrightarrow> j = i"
| "resets_slots i (OpFinish env j task limited u q rep v ver) \<longleftrightarrow> j = i"
| "resets_slots i _ \<longleftrightarrow> False"

lemma resetting_elsewhere:
  "exec_op (OpDeferModel env ob j task c x) db = Inr (b, db') \<Longrightarrow> j \<noteq> i \<Longrightarrow> view_kept page_view i db db'"
  "exec_op (OpDeferSearch env ob j task c x) db = Inr (b, db') \<Longrightarrow> j \<noteq> i \<Longrightarrow> view_kept page_view i db db'"
  "exec_op (OpFail env j task c x diag) db = Inr (b, db') \<Longrightarrow> j \<noteq> i \<Longrightarrow> view_kept page_view i db db'"
  "exec_op (OpFinish env j task limited u q rep v ver) db = Inr (b, db') \<Longrightarrow> j \<noteq> i \<Longrightarrow> view_kept page_view i db db'"
  by (auto simp: done_with_Inr defer_other fail_other finish_other defer_retryable_model_error_def
      defer_retryable_search_error_def)

lemma run_step_counters:
  assumes "lifecycle_step db op b db'" and ids: "distinct (map rr_id (db_runs db))"
    and found: "find_run i db \<noteq> None" and "\<not> resets_slots i op"
  shows "counters_kept i db db'"
proof (rule kept_counters [OF _ found])
  have e: "exec_op op db = Inr (b, db')" and f: "fresh_op op db" using assms(1) by (auto elim: lifecycle_stepE)
  show "view_kept page_view i db db'"
  proof (cases op)
    case (OpCreate env j ob owner q bn)
    then show ?thesis using e f page_facts.exec_kept(1) [of env j ob owner q bn db b db' i] found by simp
  next
    case (OpSavePlan env j task plan tokens)
    then show ?thesis using e save_plan_counters by simp
  next
    case (OpGapPlan env j task gaps)
    then show ?thesis using e gap_plan_counters by simp
  next
    case (OpReplan env j task qs)
    then show ?thesis using e replan_counters by simp
  qed (use e ids assms(4) in \<open>auto simp del: exec_op.simps intro: page_facts.exec_kept resetting_elsewhere\<close>)
qed

text \<open>
  What happens around a worker \<open>w\<close> that is gone: a page operation of a worker with another key, or any run
  transaction of any worker that does not reset the counters.
\<close>

definition others_move :: "(dispatch_key \<Rightarrow> string) \<Rightarrow> uuid \<Rightarrow> dispatch_key \<Rightarrow> database \<Rightarrow> database \<Rightarrow> bool" where
  "others_move wk i w db db' \<longleftrightarrow> (\<exists>t c. wk t \<noteq> wk w \<and> page_step wk i t c db db')
     \<or> (\<exists>op b. lifecycle_step db op b db' \<and> distinct (map rr_id (db_runs db)) \<and> \<not> resets_slots i op)"

lemma others_keep_share:
  assumes "(others_move wk i w)\<^sup>*\<^sup>* db db'" and "find_run i db = Some r" and "page_slots_ok (rr_usage r)"
  shows "\<exists>r'. find_run i db' = Some r' \<and> page_slots_ok (rr_usage r')
    \<and> slots_owned (wk w) (slot_owners (rr_usage r')) = slots_owned (wk w) (slot_owners (rr_usage r))"
  using assms(1)
proof (induction rule: rtranclp_induct)
  case base
  then show ?case using assms by blast
next
  case (step db1 db2)
  then obtain r1 where r1: "find_run i db1 = Some r1" "page_slots_ok (rr_usage r1)"
    "slots_owned (wk w) (slot_owners (rr_usage r1)) = slots_owned (wk w) (slot_owners (rr_usage r))" by blast
  show ?case
  proof (cases "\<exists>t c. wk t \<noteq> wk w \<and> page_step wk i t c db1 db2")
    case True
    then obtain t c where t: "wk t \<noteq> wk w" "page_step wk i t c db1 db2" by blast
    from page_step_moves [OF t(2) r1(1,2)] show ?thesis
      using r1(3) t(1) by (auto simp: moves_def gives_back_def)
  next
    case False
    then have "counters_kept i db1 db2"
      using step.hyps(2) r1(1) run_step_counters by (auto simp: others_move_def)
    then show ?thesis using r1 by (auto simp: counters_kept_def page_slots_ok_def split: option.splits)
  qed
qed

text \<open>A durable deferral and a failure forget the reserved slots of all workers, and leave the shares.\<close>

definition forgets_slots :: "uuid \<Rightarrow> run_op \<Rightarrow> bool" where
  "forgets_slots i op \<longleftrightarrow> resets_slots i op \<and> (case op of OpFinish _ _ _ _ _ _ _ _ _ \<Rightarrow> False | _ \<Rightarrow> True)"

lemma deferred_counters:
  assumes "d \<in> {model_dependency, search_dependency}"
  shows "slots_reserved (deferred_usage d r attempt delay retry_at code detail) = 0"
    "slot_owners (deferred_usage d r attempt delay retry_at code detail) = slot_owners (rr_usage r)"
  using assms by (auto simp: deferred_usage_def page_simps model_dependency_def search_dependency_def
      record_search_transport_retry_def slots_reserved_def slot_owners_def usage_simps Let_def)

lemma forgotten_slots:
  assumes r: "find_run i db = Some r"
  shows "\<forall>op db'. lifecycle_step db op True db' \<and> forgets_slots i op \<longrightarrow> (\<exists>r'. find_run i db' = Some r'
    \<and> slots_reserved (rr_usage r') = 0 \<and> slot_owners (rr_usage r') = slot_owners (rr_usage r))"
proof (intro allI impI)
  fix op db'
  assume "lifecycle_step db op True db' \<and> forgets_slots i op"
  then have e: "exec_op op db = Inr (True, db')" and f: "forgets_slots i op" by (auto elim: lifecycle_stepE)
  have deferred: "\<exists>r'. find_run i db' = Some r' \<and> slots_reserved (rr_usage r') = 0
      \<and> slot_owners (rr_usage r') = slot_owners (rr_usage r)"
    if "defer_retryable d env ob i task c x db = Inr (Some delay, db')" "d \<in> {model_dependency, search_dependency}"
    for d env ob task c x delay
    using that(1) r deferred_counters [OF that(2)]
    by (auto simp: defer_retryable_def enqueue_Inr Let_def find_run_save dest!: owned_id
        split: option.splits sum.splits if_splits)
  show "\<exists>r'. find_run i db' = Some r' \<and> slots_reserved (rr_usage r') = 0
      \<and> slot_owners (rr_usage r') = slot_owners (rr_usage r)"
  proof (cases op)
    case (OpDeferModel env ob j task c x)
    then show ?thesis using e f deferred [of model_dependency]
      by (auto simp: forgets_slots_def done_with_Inr defer_retryable_model_error_def)
  next
    case (OpDeferSearch env ob j task c x)
    then show ?thesis using e f deferred [of search_dependency]
      by (auto simp: forgets_slots_def done_with_Inr defer_retryable_search_error_def)
  next
    case (OpFail env j task c x diag)
    then show ?thesis using e f r
      by (auto simp: forgets_slots_def done_with_Inr fail_execution_def Let_def find_run_save page_simps dest!: owned_id
          split: option.splits sum.splits)
  qed (use f in \<open>simp_all add: forgets_slots_def\<close>)
qed

text \<open>
  C33. The slots of a worker that lost its run stay reserved until the run is deferred, fails or ends. After any
  page operations of other workers and any run transactions but these (its lease is revoked, the run is queued
  again, another worker takes it over, plans are saved), a reservation grants at most the page limit less the
  pages fetched and less the slots that the lost worker held. A durable deferral or a failure, of any worker
  that holds the run then, forgets the reserved slots of all workers: it sets the counter to 0, but leaves the
  shares in the table.
\<close>

theorem slots_of_a_lost_worker_stay_reserved:
  assumes "(others_move wk i w)\<^sup>*\<^sup>* db db'" and "find_run i db = Some r" and "page_slots_ok (rr_usage r)"
    and "reserve_page_slots wk i t n fresh db' = Inr (g, db'')"
    and "find_run i db' = Some r'" and "max_pages (rr_budget r') = Inr limit"
  shows "pb_granted g \<le> max 0 (limit - max 0 (pages_fetched (rr_usage r'))
      - slots_owned (wk w) (slot_owners (rr_usage r)))
    \<and> (\<forall>op d. lifecycle_step db' op True d \<and> forgets_slots i op \<longrightarrow> (\<exists>r3. find_run i d = Some r3
         \<and> slots_reserved (rr_usage r3) = 0 \<and> slot_owners (rr_usage r3) = slot_owners (rr_usage r')))"
proof -
  have ok: "page_slots_ok (rr_usage r')"
    and kept: "slots_owned (wk w) (slot_owners (rr_usage r')) = slots_owned (wk w) (slot_owners (rr_usage r))"
    using others_keep_share [OF assms(1-3)] assms(5) by auto
  have "slots_owned (wk w) (slot_owners (rr_usage r')) \<le> slots_reserved (rr_usage r')"
    using ok owned_range by (auto simp: page_slots_ok_def)
  moreover obtain k where "max_pages (rr_budget r') = Inr k"
    "pb_granted g \<le> max 0 (k - max 0 (pages_fetched (rr_usage r')) - slots_reserved (rr_usage r'))"
    by (rule reserve_effect [OF assms(4,5) ok], rule that) (auto simp: page_limits_def)
  ultimately have "pb_granted g \<le> max 0 (limit - max 0 (pages_fetched (rr_usage r')) - slots_owned (wk w) (slot_owners (rr_usage r)))"
    using kept assms(6) by auto
  then show ?thesis using forgotten_slots [OF assms(5)] by blast
qed

section \<open>How a stop for lack of budget is reported\<close>

definition UNMAPPED_STOPS :: "string list" where
  "UNMAPPED_STOPS = [''page_fetch_attempt_budget_exhausted'', ''extraction_call_budget_exhausted'',
     ''verification_call_budget_exhausted'']"

lemma checked_reasons:
  "(reason, used, maximum) \<in> set (budget_checks tokens budget usage) \<Longrightarrow> reason \<in> set UNMAPPED_STOPS
     \<or> reason \<in> set BUDGET_STOPS \<and> reason \<notin> set UNMAPPED_STOPS"
  by (auto simp: budget_checks_def Let_def UNMAPPED_STOPS_def BUDGET_STOPS_def split: if_splits)

lemma mapped_stops: "s \<in> {''token_budget_exhausted'', ''deadline_exhausted''} \<Longrightarrow>
    s \<in> set BUDGET_STOPS \<and> s \<notin> set UNMAPPED_STOPS"
  by (elim insertE emptyE) (simp_all add: BUDGET_STOPS_def UNMAPPED_STOPS_def)

lemma exhaustion_reasons:
  assumes "budget_exhaustion_reason now r = Inr (Some reason)"
  shows "reason \<in> set UNMAPPED_STOPS \<or> reason \<in> set BUDGET_STOPS \<and> reason \<notin> set UNMAPPED_STOPS"
proof -
  obtain tokens where t: "model_tokens r = Inr tokens"
    using assms unfolding budget_exhaustion_reason_def by (rule and_thenE)
  show ?thesis
  proof (cases "find (\<lambda>(reason, used, maximum). 0 < maximum \<and> maximum \<le> used)
      (budget_checks tokens (rr_budget r) (rr_usage r))")
    case None
    then have "reason \<in> {''token_budget_exhausted'', ''deadline_exhausted''}"
      using assms by (auto simp: budget_exhaustion_reason_def t split: if_splits option.splits)
    then show ?thesis using mapped_stops by blast
  next
    case (Some check)
    obtain s used maximum where c: "check = (s, used, maximum)" by (cases check)
    then have "(s, used, maximum) \<in> set (budget_checks tokens (rr_budget r) (rr_usage r))"
      using Some by (auto simp: find_Some_iff) (metis nth_mem)
    note checked = checked_reasons [OF this]
    show ?thesis
    proof (cases "truthy (jget ''model_budget_guarded'' (rr_usage r))")
      case True
      then have "reason = ''token_budget_exhausted''" using assms by (simp add: budget_exhaustion_reason_def t)
      then show ?thesis using mapped_stops by blast
    next
      case False
      then have "reason = s" using assms by (simp add: budget_exhaustion_reason_def t Some c)
      then show ?thesis using checked by simp
    qed
  qed
qed

text \<open>No limit's reason is one of the reasons that the projection treats apart.\<close>

lemma stops_apart:
  "list_all (\<lambda>s. s \<notin> {MODEL_RETRY_PENDING, SEARCH_RETRY_PENDING, ''quality_met'', ''completed'',
     ''completed_with_limitations''}) BUDGET_STOPS"
  "list_all (\<lambda>s. s \<notin> {MODEL_RETRY_PENDING, SEARCH_RETRY_PENDING, ''quality_met'', ''completed'',
     ''completed_with_limitations'', ''stagnation'', ''sources_exhausted'', ''user_cancelled'', ''credentials_required''}
     \<and> s \<notin> set BUDGET_STOPS) UNMAPPED_STOPS"
  by (simp_all add: BUDGET_STOPS_def UNMAPPED_STOPS_def MODEL_RETRY_PENDING_def SEARCH_RETRY_PENDING_def)

text \<open>
  C5. Whenever a hard limit stops the research, the state snapshot reports the stop as an exhausted budget,
  except for three limits: fetch attempts, extraction calls and verification calls are missing from the
  projection's list, so a run that stops at one of them is reported as ended by a fatal error.
\<close>

theorem budget_stop_is_reported:
  assumes "budget_exhaustion_reason now r = Inr (Some reason)"
  shows "state_stop_reason (Some reason)
    = Some (if reason \<in> set UNMAPPED_STOPS then SRFatalError else SRBudgetExhausted)"
  using exhaustion_reasons [OF assms] stops_apart by (auto simp: state_stop_reason_def list_all_iff)

section \<open>Concrete histories\<close>

definition demo_page_run :: "json_object \<Rightarrow> json_object \<Rightarrow> string \<Rightarrow> run_row" where
  "demo_page_run budget usage kind =
     \<lparr>rr_id = UUID 7, rr_owner_hash = ''o'', rr_idempotency_key = ''k'', rr_original_query = ''q'',
      rr_normalized_goal = ''q'', rr_constraints = [], rr_status = RunRunning, rr_phase = PhaseResearching,
      rr_state_version = 1, rr_plan_version = 1, rr_next_seq = 4, rr_credential_status = ''ready'',
      rr_profile_id = UUID 1, rr_credential_id = UUID 2, rr_llm_config = [],
      rr_budget = budget, rr_usage = usage, rr_quality = [], rr_termination = None, rr_lease_owner = Some ''w'',
      rr_lease_until = Some 900, rr_worker = Some (DispatchKey (UUID 7) kind 1), rr_created_at = 0, rr_updated_at = 0,
      rr_started_at = Some 0, rr_finished_at = None\<rparr>"

definition demo_pages :: "string \<Rightarrow> json_object \<Rightarrow> database" where
  "demo_pages kind usage =
     \<lparr>db_runs = [demo_page_run [(''max_pages'', JInt 5)] usage kind], db_events = [], db_outbox = [], db_items = []\<rparr>"

definition demo_wk :: "dispatch_key \<Rightarrow> string" where
  "demo_wk k = key_kind k"

definition demo_held :: database where
  "demo_held = (case reserve_page_slots demo_wk (UUID 7) (DispatchKey (UUID 7) ''start'' 1) 3 False (demo_pages ''start'' [])
     of Inl _ \<Rightarrow> demo_pages [] [] | Inr (_, db) \<Rightarrow> db)"

definition demo_candidate :: candidate_identity where
  "demo_candidate = \<lparr>cd_id = ''c'', cd_raw = ''u'', cd_norm = ''u'', cd_question = ''q1'', cd_query = ''y'', cd_domain = ''d''\<rparr>"

definition demo_target :: research_target where
  "demo_target = \<lparr>tg_plan_version = 1, tg_question_id = ''q1'', tg_query = ''y'', tg_tool_call = UUID 3,
     tg_query_family = ''scope'', tg_feedback = None, tg_feedback_execution = None, tg_query_execution = None\<rparr>"

definition demo_page_env :: tool_env where
  "demo_page_env = \<lparr>tn_now = 1, tn_show = (\<lambda>_. ''a''), tn_read = (\<lambda>_. None), tn_str = (\<lambda>_. [])\<rparr>"

definition demo_read :: database where
  "demo_read = (case record_page_fetched demo_page_env demo_wk (UUID 7) (DispatchKey (UUID 7) ''start'' 1) demo_target
      demo_candidate ''u'' False 5 demo_held of Inl _ \<Rightarrow> demo_held | Inr db \<Rightarrow> db)"

lemma demo_held_facts:
  "case reserve_page_slots demo_wk (UUID 7) (DispatchKey (UUID 7) ''start'' 1) 3 False (demo_pages ''start'' []) of
     Inl _ \<Rightarrow> False
   | Inr (g, db) \<Rightarrow> pb_granted g = 3 \<and> map (\<lambda>r. (rr_id r, rr_budget r, rr_status r, rr_worker r)) (db_runs db)
        = [(UUID 7, [(''max_pages'', JInt 5)], RunRunning, Some (DispatchKey (UUID 7) ''start'' 1))]
      \<and> map (\<lambda>r. (slot_owners (rr_usage r), slots_reserved (rr_usage r), pages_fetched (rr_usage r))) (db_runs db)
        = [([(''start'', JInt 3)], 3, 0)]"
  by code_simp

lemma demo_read_facts:
  "case record_page_fetched demo_page_env demo_wk (UUID 7) (DispatchKey (UUID 7) ''start'' 1) demo_target
      demo_candidate ''u'' False 5 demo_held of
     Inl _ \<Rightarrow> False
   | Inr db \<Rightarrow> map (\<lambda>r. (slots_reserved (rr_usage r), pages_fetched (rr_usage r))) (db_runs db) = [(2, 1)]
       \<and> map (\<lambda>r. (rr_id r, rr_budget r)) (db_runs db) = [(UUID 7, [(''max_pages'', JInt 5)])]"
  by code_simp

text \<open>The message of a retry takes the run over from the worker of \<open>start\<close>, which still holds three slots.\<close>

definition demo_lost :: database where
  "demo_lost = demo_pages ''start'' [(''page_slots_reserved'', JInt 3),
     (''page_slots_reserved_by_worker'', JObj [(''start'', JInt 3)])]"

definition demo_takes_over :: run_op where
  "demo_takes_over = OpAcquire (demo_clock 1000) (UUID 7) (DispatchKey (UUID 7) ''resume'' 1) 900"

definition demo_taken :: database where
  "demo_taken = (case exec_op demo_takes_over demo_lost of Inl e \<Rightarrow> demo_lost | Inr (b, db) \<Rightarrow> db)"

lemma demo_taken_facts:
  "case exec_op demo_takes_over demo_lost of Inl _ \<Rightarrow> False
   | Inr (b, db) \<Rightarrow> b \<and> map (\<lambda>r. (rr_id r, rr_budget r)) (db_runs db) = [(UUID 7, [(''max_pages'', JInt 5)])]
       \<and> (case reserve_page_slots demo_wk (UUID 7) (DispatchKey (UUID 7) ''resume'' 1) 4 False db of
            Inl _ \<Rightarrow> False | Inr (g, _) \<Rightarrow> pb_granted g = 2)"
  by code_simp

lemma single_row: "map f (db_runs db) = [y] \<Longrightarrow> \<exists>r. db_runs db = [r] \<and> f r = y"
  by (cases "db_runs db") auto

lemma demo_held_row:
  "\<exists>g r. reserve_page_slots demo_wk (UUID 7) (DispatchKey (UUID 7) ''start'' 1) 3 False (demo_pages ''start'' []) = Inr (g, demo_held)
     \<and> find_run (UUID 7) demo_held = Some r \<and> rr_budget r = [(''max_pages'', JInt 5)]
     \<and> slot_owners (rr_usage r) = [(''start'', JInt 3)] \<and> slots_reserved (rr_usage r) = 3
     \<and> pages_fetched (rr_usage r) = 0 \<and> page_slots_ok (rr_usage r)"
proof -
  obtain g db where e: "reserve_page_slots demo_wk (UUID 7) (DispatchKey (UUID 7) ''start'' 1) 3 False
      (demo_pages ''start'' []) = Inr (g, db)"
    and rows: "map (\<lambda>r. (rr_id r, rr_budget r, rr_status r, rr_worker r)) (db_runs db)
        = [(UUID 7, [(''max_pages'', JInt 5)], RunRunning, Some (DispatchKey (UUID 7) ''start'' 1))]"
    and usage: "map (\<lambda>r. (slot_owners (rr_usage r), slots_reserved (rr_usage r), pages_fetched (rr_usage r))) (db_runs db)
        = [([(''start'', JInt 3)], 3, 0)]"
    using demo_held_facts by (auto split: sum.splits)
  have "demo_held = db" unfolding demo_held_def e by simp
  then show ?thesis using e single_row [OF rows] usage
    by (auto simp: find_run_def page_slots_ok_def dict_wf_def)
qed

lemma demo_read_row:
  "\<exists>r. record_page_fetched demo_page_env demo_wk (UUID 7) (DispatchKey (UUID 7) ''start'' 1) demo_target demo_candidate ''u''
       False 5 demo_held = Inr demo_read
     \<and> find_run (UUID 7) demo_read = Some r \<and> rr_budget r = [(''max_pages'', JInt 5)]
     \<and> slots_reserved (rr_usage r) = 2 \<and> pages_fetched (rr_usage r) = 1"
proof -
  obtain db where e: "record_page_fetched demo_page_env demo_wk (UUID 7) (DispatchKey (UUID 7) ''start'' 1) demo_target
      demo_candidate ''u'' False 5 demo_held = Inr db"
    and usage: "map (\<lambda>r. (slots_reserved (rr_usage r), pages_fetched (rr_usage r))) (db_runs db) = [(2, 1)]"
    and rows: "map (\<lambda>r. (rr_id r, rr_budget r)) (db_runs db) = [(UUID 7, [(''max_pages'', JInt 5)])]"
    using demo_read_facts by (auto split: sum.splits)
  have "demo_read = db" unfolding demo_read_def e by simp
  then show ?thesis using e single_row [OF rows] usage by (auto simp: find_run_def)
qed

lemma demo_pages_history: "page_history demo_wk (UUID 7) 0 demo_read"
proof -
  obtain g r where held: "reserve_page_slots demo_wk (UUID 7) (DispatchKey (UUID 7) ''start'' 1) 3 False
      (demo_pages ''start'' []) = Inr (g, demo_held)" "find_run (UUID 7) demo_held = Some r"
      "slot_owners (rr_usage r) = [(''start'', JInt 3)]"
    using demo_held_row by blast
  have start: "page_history demo_wk (UUID 7) 0 (demo_pages ''start'' [])"
  proof (rule page_history.start)
    show "find_run (UUID 7) (demo_pages ''start'' []) = Some (demo_page_run [(''max_pages'', JInt 5)] [] ''start'')"
      by (simp add: demo_pages_def demo_page_run_def find_run_def)
    show "untouched_pages (rr_usage (demo_page_run [(''max_pages'', JInt 5)] [] ''start''))"
      by (simp add: demo_page_run_def untouched_pages_def slot_owners_def slots_reserved_def pages_fetched_def
          fetch_attempts_def obj_of_def)
  qed
  have "page_history demo_wk (UUID 7) (0 + 0) demo_held"
    by (rule page_history.step [OF start page_step.reserve [OF held(1)]])
  moreover have "slotless (demo_wk (DispatchKey (UUID 7) ''start'' 1)) (rr_usage r) = 0"
    by (simp add: slotless_def held demo_wk_def owned_Cons)
  ultimately show ?thesis
    using page_history.step [of demo_wk "UUID 7" 0 demo_held _ _ demo_read] page_step.fetched [OF _ held(2)] demo_read_row
    by (metis add_0)
qed

theorem page_budget_is_respected_witness:
  "\<exists>r. find_run (UUID 7) demo_read = Some r \<and> pages_fetched (rr_usage r) = 1
     \<and> pages_fetched (rr_usage r) + slots_reserved (rr_usage r) \<le> 5
     \<and> slots_reserved (rr_usage r) = shares (slot_owners (rr_usage r))"
proof -
  obtain r where r: "find_run (UUID 7) demo_read = Some r" "rr_budget r = [(''max_pages'', JInt 5)]"
    "pages_fetched (rr_usage r) = 1" using demo_read_row by blast
  then have limits: "max_pages (rr_budget r) = Inr 5" "max_attempts 5 (rr_budget r) = Inr 5"
    by (simp_all add: max_pages_def max_attempts_def int_or_zero_def truthy_def py_int_def)
  from page_budget_is_respected [OF demo_pages_history r(1) limits] r show ?thesis by auto
qed

theorem slots_of_a_lost_worker_stay_reserved_witness:
  "\<exists>g db r. reserve_page_slots demo_wk (UUID 7) (DispatchKey (UUID 7) ''resume'' 1) 4 False demo_taken = Inr (g, db)
     \<and> find_run (UUID 7) demo_taken = Some r \<and> pb_granted g = 2
     \<and> pb_granted g \<le> max 0 (5 - max 0 (pages_fetched (rr_usage r)) - 3)"
proof -
  obtain b db0 where run: "exec_op demo_takes_over demo_lost = Inr (b, db0)"
    using demo_taken_facts by (cases "exec_op demo_takes_over demo_lost") auto
  then have taken: "exec_op demo_takes_over demo_lost = Inr (True, demo_taken)"
    and rows: "map (\<lambda>r. (rr_id r, rr_budget r)) (db_runs demo_taken) = [(UUID 7, [(''max_pages'', JInt 5)])]"
    and granted: "case reserve_page_slots demo_wk (UUID 7) (DispatchKey (UUID 7) ''resume'' 1) 4 False demo_taken of
      Inl _ \<Rightarrow> False | Inr (g, _) \<Rightarrow> pb_granted g = 2"
    using demo_taken_facts unfolding demo_taken_def by simp_all
  obtain g db where g: "reserve_page_slots demo_wk (UUID 7) (DispatchKey (UUID 7) ''resume'' 1) 4 False demo_taken = Inr (g, db)"
    "pb_granted g = 2" using granted by (auto split: sum.splits)
  let ?u = "[(''page_slots_reserved'', JInt 3), (''page_slots_reserved_by_worker'', JObj [(''start'', JInt 3)])]"
  let ?r = "demo_page_run [(''max_pages'', JInt 5)] ?u ''start''"
  have before: "find_run (UUID 7) demo_lost = Some ?r"
    by (simp add: demo_lost_def demo_pages_def demo_page_run_def find_run_def)
  have "lifecycle_step demo_lost demo_takes_over True demo_taken"
    using taken by (intro lifecycle_step.committed) (simp_all add: demo_takes_over_def)
  then have "others_move demo_wk (UUID 7) (DispatchKey (UUID 7) ''start'' 1) demo_lost demo_taken"
    unfolding others_move_def by (intro disjI2 exI conjI) (auto simp: demo_lost_def demo_pages_def demo_takes_over_def)
  note moved = r_into_rtranclp [of "others_move _ _ _", OF this]
  have ok: "page_slots_ok (rr_usage ?r)"
    by (simp add: demo_page_run_def page_slots_ok_def slot_owners_def slots_reserved_def obj_of_def dict_wf_def)
  obtain r where r: "find_run (UUID 7) demo_taken = Some r" "rr_budget r = [(''max_pages'', JInt 5)]"
    using single_row [OF rows] by (auto simp: find_run_def)
  have limit: "max_pages (rr_budget r) = Inr 5"
    by (simp add: r max_pages_def int_or_zero_def truthy_def py_int_def)
  have share: "slots_owned (demo_wk (DispatchKey (UUID 7) ''start'' 1)) (slot_owners (rr_usage ?r)) = 3"
    by (simp add: demo_page_run_def slot_owners_def obj_of_def demo_wk_def owned_Cons)
  from slots_of_a_lost_worker_stay_reserved [OF moved before ok g(1) r(1) limit] g r(1) share show ?thesis by auto
qed

theorem budget_stop_is_reported_witness:
  "budget_exhaustion_reason 5 (demo_page_run [(''max_extraction_calls'', JInt 2)] [(''extraction_calls'', JInt 2)] ''start'')
     = Inr (Some ''extraction_call_budget_exhausted'')
   \<and> state_stop_reason (Some ''extraction_call_budget_exhausted'') = Some SRFatalError"
proof -
  have stop: "budget_exhaustion_reason 5 (demo_page_run [(''max_extraction_calls'', JInt 2)] [(''extraction_calls'', JInt 2)]
      ''start'') = Inr (Some ''extraction_call_budget_exhausted'')"
    by code_simp
  from budget_stop_is_reported [OF stop] stop show ?thesis by (simp add: UNMAPPED_STOPS_def)
qed

end
