(* ===== verification/Evidence_Analysis.thy ===== *)
theory Evidence_Analysis
  imports Research_Pipeline
begin

text \<open>
  Why collected evidence does not close a requirement: \<open>app/domain/evidence_failure_classification.py\<close>,
  \<open>research_need_refinement.py\<close>, \<open>claim_verification_analyzer.py\<close> and \<open>evidence_quality_analyzer.py\<close>,
  whose result is attached to a closure feedback. The lemmas say when each reason is given; the theorems
  compare the analysis with the closure rules of \<open>Gap_Closure\<close>.
\<close>

section \<open>Reasons and item facts\<close>

datatype failure_reason =
    NoPrimarySource | NoIndependentValidation | ClaimNotSupported | InsufficientDetail | NoQuantitativeSupport
  | NoMethodDescription | SourceQualityLow | OutdatedSource | FailureDimensionMismatch | FailureUnknown

datatype missing_evidence_type =
    MissPrimarySource | MissIndependentValidation | MissVerificationSupport | MissSupportingEvidence
  | MissEvidenceDetail | MissQuantitativeData | MissMethodDescription | MissHighQualitySource
  | MissUpToDateSource | MissDimensionAlignedEvidence | MissUnknown

fun failure_reason_value :: "failure_reason \<Rightarrow> string" where
  "failure_reason_value NoPrimarySource = ''no_primary_source''"
| "failure_reason_value NoIndependentValidation = ''no_independent_validation''"
| "failure_reason_value ClaimNotSupported = ''claim_not_supported''"
| "failure_reason_value InsufficientDetail = ''insufficient_detail''"
| "failure_reason_value NoQuantitativeSupport = ''no_quantitative_support''"
| "failure_reason_value NoMethodDescription = ''no_method_description''"
| "failure_reason_value SourceQualityLow = ''source_quality_low''"
| "failure_reason_value OutdatedSource = ''outdated_source''"
| "failure_reason_value FailureDimensionMismatch = ''dimension_mismatch''"
| "failure_reason_value FailureUnknown = ''unknown''"

fun missing_type_value :: "missing_evidence_type \<Rightarrow> string" where
  "missing_type_value MissPrimarySource = ''primary_source''"
| "missing_type_value MissIndependentValidation = ''independent_validation''"
| "missing_type_value MissVerificationSupport = ''verification_support''"
| "missing_type_value MissSupportingEvidence = ''supporting_evidence''"
| "missing_type_value MissEvidenceDetail = ''evidence_detail''"
| "missing_type_value MissQuantitativeData = ''quantitative_data''"
| "missing_type_value MissMethodDescription = ''method_description''"
| "missing_type_value MissHighQualitySource = ''high_quality_source''"
| "missing_type_value MissUpToDateSource = ''up_to_date_source''"
| "missing_type_value MissDimensionAlignedEvidence = ''dimension_aligned_evidence''"
| "missing_type_value MissUnknown = ''unknown''"

fun missing_type_for_reason :: "failure_reason \<Rightarrow> missing_evidence_type" where
  "missing_type_for_reason NoPrimarySource = MissPrimarySource"
| "missing_type_for_reason NoIndependentValidation = MissIndependentValidation"
| "missing_type_for_reason ClaimNotSupported = MissVerificationSupport"
| "missing_type_for_reason InsufficientDetail = MissEvidenceDetail"
| "missing_type_for_reason NoQuantitativeSupport = MissQuantitativeData"
| "missing_type_for_reason NoMethodDescription = MissMethodDescription"
| "missing_type_for_reason SourceQualityLow = MissHighQualitySource"
| "missing_type_for_reason OutdatedSource = MissUpToDateSource"
| "missing_type_for_reason FailureDimensionMismatch = MissDimensionAlignedEvidence"
| "missing_type_for_reason FailureUnknown = MissUnknown"

definition MIN_SOURCE_RELIABILITY :: rat where "MIN_SOURCE_RELIABILITY = 4 / 10"
definition MIN_EVIDENCE_CONFIDENCE :: rat where "MIN_EVIDENCE_CONFIDENCE = 4 / 10"
definition MIN_EVIDENCE_RELEVANCE :: rat where "MIN_EVIDENCE_RELEVANCE = 4 / 10"
definition OUTDATED_SOURCE_DAYS :: rat where "OUTDATED_SOURCE_DAYS = 3650"

record item_facts =
  if_evidence_id :: uuid
  if_alignment :: alignment_status
  if_accepted :: bool
  if_source_type :: "string option"
  if_reliability :: "rat option"
  if_relevance :: "rat option"
  if_confidence :: "rat option"
  if_primary :: "bool option"
  if_quantitative :: "bool option"
  if_method :: "bool option"
  if_age_days :: "rat option"

record failure_classification =
  fc_gap_id :: uuid
  fc_claim_id :: "uuid option"
  fc_reasons :: "failure_reason list"
  fc_primary :: failure_reason

section \<open>Classification\<close>

text \<open>The values observed for one field, and the two questions asked about them.\<close>

definition observed :: "('a \<Rightarrow> 'b option) \<Rightarrow> 'a list \<Rightarrow> 'b list" where
  "observed f xs = List.map_filter f xs"

definition none_holds :: "bool list \<Rightarrow> bool" where
  "none_holds flags \<longleftrightarrow> flags \<noteq> [] \<and> \<not> list_ex id flags"

definition all_below :: "rat \<Rightarrow> rat list \<Rightarrow> bool" where
  "all_below bound values \<longleftrightarrow> values \<noteq> [] \<and> list_all (\<lambda>v. v < bound) values"

definition accepted_or_all :: "item_facts list \<Rightarrow> item_facts list" where
  "accepted_or_all items = (let accepted = filter if_accepted items in if accepted = [] then items else accepted)"

definition failure_rules :: "gap_requirement \<Rightarrow> item_facts list \<Rightarrow> (failure_reason \<times> bool) list" where
  "failure_rules r items =
     (let accepted = accepted_or_all items; ages = observed if_age_days accepted in
      [(FailureDimensionMismatch, items \<noteq> [] \<and> list_all (\<lambda>x. if_alignment x = NotAligned) items),
       (ClaimNotSupported, (gr_type r = ClaimVerification \<or> gr_verification_status r = Required)
          \<and> gr_verification_status r \<noteq> Verified),
       (NoIndependentValidation, gr_current_sources r < gr_required_sources r),
       (NoPrimarySource, items = [] \<and> gr_current_evidence r = 0),
       (NoPrimarySource, none_holds (observed if_primary accepted)),
       (SourceQualityLow, all_below MIN_SOURCE_RELIABILITY (observed if_reliability accepted)),
       (InsufficientDetail, all_below MIN_EVIDENCE_CONFIDENCE (observed if_confidence accepted)
          \<or> all_below MIN_EVIDENCE_RELEVANCE (observed if_relevance accepted)),
       (NoQuantitativeSupport, none_holds (observed if_quantitative accepted)),
       (NoMethodDescription, none_holds (observed if_method accepted)),
       (OutdatedSource, ages \<noteq> [] \<and> list_all (\<lambda>v. OUTDATED_SOURCE_DAYS < v) ages)])"

definition failure_reasons :: "gap_requirement \<Rightarrow> item_facts list \<Rightarrow> failure_reason list" where
  "failure_reasons r items =
     (let fired = map fst (filter snd (failure_rules r items)) in if fired = [] then [FailureUnknown] else fired)"

definition classify_evidence_failure ::
    "gap_requirement \<Rightarrow> item_facts list \<Rightarrow> uuid option \<Rightarrow> failure_classification" where
  "classify_evidence_failure r items claim =
     \<lparr>fc_gap_id = gr_gap_id r, fc_claim_id = claim, fc_reasons = failure_reasons r items,
      fc_primary = hd (failure_reasons r items)\<rparr>"

definition is_closed_requirement :: "gap_requirement \<Rightarrow> bool" where
  "is_closed_requirement r \<longleftrightarrow> gr_closure_status r = GClosed"

section \<open>The direction a reason recommends\<close>

datatype refined_need_type =
    PrimaryReference | IndependentValidation | RefinedClaimVerification | QuantitativeEvidence | MethodEvidence
  | DetailedEvidence | HighQualitySource | CurrentSource | DimensionTargetedEvidence | RefinedUnknown

fun refined_need_value :: "refined_need_type \<Rightarrow> string" where
  "refined_need_value PrimaryReference = ''primary_reference''"
| "refined_need_value IndependentValidation = ''independent_validation''"
| "refined_need_value RefinedClaimVerification = ''claim_verification''"
| "refined_need_value QuantitativeEvidence = ''quantitative_evidence''"
| "refined_need_value MethodEvidence = ''method_evidence''"
| "refined_need_value DetailedEvidence = ''detailed_evidence''"
| "refined_need_value HighQualitySource = ''high_quality_source''"
| "refined_need_value CurrentSource = ''current_source''"
| "refined_need_value DimensionTargetedEvidence = ''dimension_targeted_evidence''"
| "refined_need_value RefinedUnknown = ''unknown''"

record need_refinement =
  nr_refined :: refined_need_type
  nr_persisted :: research_need_type
  nr_hints :: "string list"

fun refine_research_need :: "failure_reason \<Rightarrow> need_refinement" where
  "refine_research_need NoPrimarySource = \<lparr>nr_refined = PrimaryReference, nr_persisted = NeedAdditionalSource,
     nr_hints = [''official documentation'', ''primary publication'', ''original data'']\<rparr>"
| "refine_research_need NoIndependentValidation = \<lparr>nr_refined = IndependentValidation,
     nr_persisted = NeedIndependentSource,
     nr_hints = [''official documentation'', ''research paper'', ''third party analysis'']\<rparr>"
| "refine_research_need ClaimNotSupported = \<lparr>nr_refined = RefinedClaimVerification,
     nr_persisted = NeedClaimVerification, nr_hints = [''benchmark'', ''evaluation'', ''paper'', ''experiment'']\<rparr>"
| "refine_research_need InsufficientDetail = \<lparr>nr_refined = DetailedEvidence, nr_persisted = NeedEvidenceQuality,
     nr_hints = [''full text'', ''detailed analysis'', ''case study'']\<rparr>"
| "refine_research_need NoQuantitativeSupport = \<lparr>nr_refined = QuantitativeEvidence, nr_persisted = NeedMissingData,
     nr_hints = [''performance'', ''accuracy'', ''benchmark'', ''measurement'']\<rparr>"
| "refine_research_need NoMethodDescription = \<lparr>nr_refined = MethodEvidence, nr_persisted = NeedMissingData,
     nr_hints = [''method'', ''experimental setup'', ''procedure'']\<rparr>"
| "refine_research_need SourceQualityLow = \<lparr>nr_refined = HighQualitySource, nr_persisted = NeedEvidenceQuality,
     nr_hints = [''peer-reviewed'', ''authoritative source'', ''official report'']\<rparr>"
| "refine_research_need OutdatedSource = \<lparr>nr_refined = CurrentSource, nr_persisted = NeedEvidenceQuality,
     nr_hints = [''latest'', ''recent'', ''updated'']\<rparr>"
| "refine_research_need FailureDimensionMismatch = \<lparr>nr_refined = DimensionTargetedEvidence,
     nr_persisted = NeedDimensionCoverage, nr_hints = [''topic specific study'', ''dimension relevant report'']\<rparr>"
| "refine_research_need FailureUnknown = \<lparr>nr_refined = RefinedUnknown, nr_persisted = NeedUnknown, nr_hints = []\<rparr>"

section \<open>How far evidence supports a claim\<close>

datatype claim_support_level = DirectSupport | RelevantOnly | SingleSource | Unsupported | SupportUnknown

fun support_level_value :: "claim_support_level \<Rightarrow> string" where
  "support_level_value DirectSupport = ''direct_support''"
| "support_level_value RelevantOnly = ''relevant_only''"
| "support_level_value SingleSource = ''single_source''"
| "support_level_value Unsupported = ''unsupported''"
| "support_level_value SupportUnknown = ''unknown''"

record claim_verification =
  cv_claim_id :: "uuid option"
  cv_status :: verification_status
  cv_level :: claim_support_level
  cv_missing :: missing_evidence_type

definition independent_headroom :: "gap_requirement \<Rightarrow> bool" where
  "independent_headroom r \<longleftrightarrow> max 2 (gr_required_sources r) \<le> gr_current_sources r"

definition support_of :: "gap_requirement \<Rightarrow> item_facts list \<Rightarrow> claim_support_level \<times> missing_evidence_type" where
  "support_of r items =
     (let verified = (gr_verification_status r = Verified);
          aligned = list_ex (\<lambda>x. if_alignment x = Aligned) items;
          partial = list_ex (\<lambda>x. if_alignment x = PartiallyAligned) items;
          direct = (if independent_headroom r then (DirectSupport, MissUnknown)
                    else (SingleSource, MissIndependentValidation))
      in if items = [] then
           (if gr_current_evidence r = 0 then (Unsupported, MissSupportingEvidence)
            else if verified then direct else (RelevantOnly, MissVerificationSupport))
         else if aligned \<and> verified then direct
         else if aligned \<or> partial then (RelevantOnly, MissVerificationSupport)
         else if 0 < gr_current_evidence r then (SupportUnknown, MissDimensionAlignedEvidence)
         else (Unsupported, MissSupportingEvidence))"

definition analyze_claim :: "gap_requirement \<Rightarrow> item_facts list \<Rightarrow> uuid option \<Rightarrow> claim_verification" where
  "analyze_claim r items claim =
     \<lparr>cv_claim_id = claim, cv_status = gr_verification_status r, cv_level = fst (support_of r items),
      cv_missing = snd (support_of r items)\<rparr>"

section \<open>The quality of the evidence of a requirement\<close>

datatype quality_status = QualitySufficient | QualityDegraded | QualityInsufficient | QualityUnknown

fun quality_status_value :: "quality_status \<Rightarrow> string" where
  "quality_status_value QualitySufficient = ''sufficient''"
| "quality_status_value QualityDegraded = ''degraded''"
| "quality_status_value QualityInsufficient = ''insufficient''"
| "quality_status_value QualityUnknown = ''unknown''"

record quality_assessment =
  qa_gap_id :: uuid
  qa_claim_id :: "uuid option"
  qa_status :: quality_status
  qa_reasons :: "failure_reason list"
  qa_missing :: missing_evidence_type
  qa_need :: research_need_type
  qa_hints :: "string list"

definition quality_status_of ::
    "gap_requirement \<Rightarrow> item_facts list \<Rightarrow> failure_classification \<Rightarrow> quality_status" where
  "quality_status_of r items verdict =
     (if gr_closure_status r = GClosed then QualitySufficient
      else if items = [] \<and> gr_current_evidence r = 0 then QualityInsufficient
      else if items \<noteq> [] \<and> \<not> list_ex (\<lambda>x. if_alignment x \<in> {Aligned, PartiallyAligned}) items then QualityInsufficient
      else if fc_reasons verdict = [FailureUnknown] then QualityUnknown
      else QualityDegraded)"

definition assess_quality ::
    "gap_requirement \<Rightarrow> item_facts list \<Rightarrow> uuid option \<Rightarrow> failure_classification option \<Rightarrow> quality_assessment" where
  "assess_quality r items claim given =
     (let verdict = (case given of Some v \<Rightarrow> v | None \<Rightarrow> classify_evidence_failure r items claim);
          refinement = refine_research_need (fc_primary verdict)
      in \<lparr>qa_gap_id = gr_gap_id r, qa_claim_id = claim, qa_status = quality_status_of r items verdict,
          qa_reasons = fc_reasons verdict, qa_missing = missing_type_for_reason (fc_primary verdict),
          qa_need = nr_persisted refinement, qa_hints = nr_hints refinement\<rparr>)"

definition facts_from_alignment :: "alignment \<Rightarrow> item_facts" where
  "facts_from_alignment a =
     \<lparr>if_evidence_id = al_evidence_id a, if_alignment = al_status a, if_accepted = False, if_source_type = None,
      if_reliability = None, if_relevance = None, if_confidence = None, if_primary = None,
      if_quantitative = None, if_method = None, if_age_days = None\<rparr>"

definition feedback_analysis_metadata :: "quality_assessment \<Rightarrow> claim_verification \<Rightarrow> (string \<times> json) list" where
  "feedback_analysis_metadata q v =
     (let primary = (case qa_reasons q of [] \<Rightarrow> FailureUnknown | f # _ \<Rightarrow> f);
          refinement = refine_research_need primary
      in [(''quality_status'', JStr (quality_status_value (qa_status q))),
          (''failure_reasons'', JList (map (JStr \<circ> failure_reason_value) (qa_reasons q))),
          (''primary_failure_reason'', JStr (failure_reason_value primary)),
          (''missing_evidence_type'', JStr (missing_type_value (qa_missing q))),
          (''support_level'', JStr (support_level_value (cv_level v))),
          (''missing_support_type'', JStr (missing_type_value (cv_missing v))),
          (''recommended_need_type'', JStr (need_value (qa_need q))),
          (''refined_need_type'', JStr (refined_need_value (nr_refined refinement))),
          (''query_hints'', JList (map JStr (nr_hints refinement)))])"

definition gap_items :: "gap_requirement \<Rightarrow> alignment list \<Rightarrow> item_facts list" where
  "gap_items r alignments = map facts_from_alignment (filter (\<lambda>a. al_gap_id a = gr_gap_id r) alignments)"

definition build_feedback_analysis :: "gap_requirement \<Rightarrow> alignment list \<Rightarrow> uuid option \<Rightarrow> (string \<times> json) list" where
  "build_feedback_analysis r alignments claim =
     feedback_analysis_metadata (assess_quality r (gap_items r alignments) claim None)
       (analyze_claim r (gap_items r alignments) claim)"

section \<open>What the reasons mean\<close>

lemma rule_iff: "f \<noteq> FailureUnknown \<Longrightarrow> f \<in> set (failure_reasons r items) \<longleftrightarrow> (f, True) \<in> set (failure_rules r items)"
  by (force simp: failure_reasons_def Let_def filter_empty_conv)

text \<open>
  No reason is given twice, the first is the primary one, and \<open>FailureUnknown\<close> stands alone.
\<close>

lemma no_items [simp]: "accepted_or_all [] = []" "observed f [] = []" "\<not> none_holds []" "\<not> all_below b []"
  by (simp_all add: accepted_or_all_def observed_def none_holds_def all_below_def)

lemma primary_source_once:
  "length (filter (\<lambda>p. fst p = NoPrimarySource \<and> snd p) (failure_rules r items)) \<le> 1"
  by (cases "items = []") (simp_all add: failure_rules_def Let_def)

lemma failure_reasons_distinct: "distinct (failure_reasons r items)"
proof -
  have "distinct (map fst (filter snd (failure_rules r items)))"
    by (cases "items = []") (simp_all add: failure_rules_def Let_def)
  then show ?thesis by (auto simp: failure_reasons_def Let_def)
qed

lemma unknown_alone: "FailureUnknown \<in> set (failure_reasons r items) \<longleftrightarrow> failure_reasons r items = [FailureUnknown]"
proof -
  define fired where "fired = map fst (filter snd (failure_rules r items))"
  have "FailureUnknown \<notin> set fired" by (auto simp: fired_def failure_rules_def Let_def)
  then show ?thesis by (auto simp: failure_reasons_def Let_def simp flip: fired_def)
qed

text \<open>An alignment says nothing of quality, so only the first four rules can fire on alignments.\<close>

lemma gap_items_unobserved:
  assumes "items = gap_items r alignments"
  shows "observed if_primary (accepted_or_all items) = []" "observed if_reliability (accepted_or_all items) = []"
    "observed if_confidence (accepted_or_all items) = []" "observed if_relevance (accepted_or_all items) = []"
    "observed if_quantitative (accepted_or_all items) = []" "observed if_method (accepted_or_all items) = []"
    "observed if_age_days (accepted_or_all items) = []"
proof -
  have "observed if_primary xs = [] \<and> observed if_reliability xs = [] \<and> observed if_confidence xs = []
    \<and> observed if_relevance xs = [] \<and> observed if_quantitative xs = [] \<and> observed if_method xs = []
    \<and> observed if_age_days xs = []" if "set xs \<subseteq> range facts_from_alignment" for xs
    using that by (induction xs) (auto simp: observed_def facts_from_alignment_def)
  moreover have "set (accepted_or_all items) \<subseteq> range facts_from_alignment"
    by (auto simp: accepted_or_all_def Let_def gap_items_def assms)
  ultimately show "observed if_primary (accepted_or_all items) = []" "observed if_reliability (accepted_or_all items) = []"
    "observed if_confidence (accepted_or_all items) = []" "observed if_relevance (accepted_or_all items) = []"
    "observed if_quantitative (accepted_or_all items) = []" "observed if_method (accepted_or_all items) = []"
    "observed if_age_days (accepted_or_all items) = []" by simp_all
qed

lemma alignment_rules:
  "failure_rules r (gap_items r alignments) =
     [(FailureDimensionMismatch, gap_items r alignments \<noteq> []
         \<and> list_all (\<lambda>x. if_alignment x = NotAligned) (gap_items r alignments)),
      (ClaimNotSupported, (gr_type r = ClaimVerification \<or> gr_verification_status r = Required)
         \<and> gr_verification_status r \<noteq> Verified),
      (NoIndependentValidation, gr_current_sources r < gr_required_sources r),
      (NoPrimarySource, gap_items r alignments = [] \<and> gr_current_evidence r = 0),
      (NoPrimarySource, False), (SourceQualityLow, False), (InsufficientDetail, False),
      (NoQuantitativeSupport, False), (NoMethodDescription, False), (OutdatedSource, False)]"
  by (simp add: failure_rules_def Let_def gap_items_unobserved)

section \<open>The analysis and the closure rules\<close>

lemma requirement_snapshot_fields:
  "requirement_snapshot r = Inr s \<Longrightarrow> cs_coverage s = gr_current_coverage r \<and> cs_evidence_count s = gr_current_evidence r
     \<and> cs_independent_sources s = gr_current_sources r \<and> cs_verification_status s = gr_verification_status r"
  by (auto simp: requirement_snapshot_def mk_snapshot_def split: if_splits)

lemma hints_empty: "nr_hints (refine_research_need f) = [] \<longleftrightarrow> f = FailureUnknown"
  by (cases f) simp_all

lemma list_all_gap_items:
  "list_all (\<lambda>x. if_alignment x = NotAligned) (gap_items r alignments)
     \<longleftrightarrow> (\<forall>a \<in> set alignments. al_gap_id a = gr_gap_id r \<longrightarrow> al_status a = NotAligned)"
  by (auto simp: gap_items_def list_all_iff facts_from_alignment_def)

text \<open>
  C20. A source-counting requirement that is not satisfied has, whatever the alignments, missing independent
  validation among the reasons of the analysis. For the other two types the analysis has a blind spot: an
  unsatisfied requirement gets no reason and no query hint at all exactly when the sources suffice, no
  verification is pending, and either one of the gap's alignments is not a plain mismatch, or the gap has no
  alignments but counts some evidence. A missing coverage or a missing number of evidence items is then
  explained as unknown.
\<close>

theorem analysis_blind_spot:
  assumes "requirement_snapshot r = Inr s" and "\<not> requirement_is_satisfied r s"
  shows "if gr_type r \<in> {IndependentSource, ClaimVerification}
      then NoIndependentValidation \<in> set (failure_reasons r (gap_items r alignments))
      else (qa_reasons (assess_quality r (gap_items r alignments) claim None) = [FailureUnknown]
          \<longleftrightarrow> qa_hints (assess_quality r (gap_items r alignments) claim None) = [])
        \<and> (qa_hints (assess_quality r (gap_items r alignments) claim None) = []
          \<longleftrightarrow> gr_required_sources r \<le> gr_current_sources r \<and> gr_verification_status r \<noteq> Required
              \<and> (if \<exists>a \<in> set alignments. al_gap_id a = gr_gap_id r
                 then \<exists>a \<in> set alignments. al_gap_id a = gr_gap_id r \<and> al_status a \<noteq> NotAligned
                 else gr_current_evidence r \<noteq> 0))"
proof -
  note s = requirement_snapshot_fields [OF assms(1)]
  let ?fired = "map fst (filter snd (failure_rules r (gap_items r alignments)))"
  have named: "FailureUnknown \<notin> set ?fired" by (auto simp: alignment_rules)
  then have "hd (failure_reasons r (gap_items r alignments)) = FailureUnknown \<longleftrightarrow> ?fired = []"
    by (cases ?fired) (auto simp: failure_reasons_def Let_def)
  then have hints: "qa_hints (assess_quality r (gap_items r alignments) claim None) = [] \<longleftrightarrow> ?fired = []"
    by (simp add: assess_quality_def classify_evidence_failure_def hints_empty Let_def)
  have reasons: "qa_reasons (assess_quality r (gap_items r alignments) claim None) = [FailureUnknown] \<longleftrightarrow> ?fired = []"
  proof -
    have "failure_reasons r (gap_items r alignments) = [FailureUnknown]" if "?fired = []"
      using that by (simp add: failure_reasons_def Let_def)
    moreover have "?fired = []" if "failure_reasons r (gap_items r alignments) = [FailureUnknown]"
    proof (rule ccontr)
      assume some: "?fired \<noteq> []"
      then have "failure_reasons r (gap_items r alignments) = ?fired" unfolding failure_reasons_def Let_def by (rule if_not_P)
      then show False using that named by (metis list.set_intros(1))
    qed
    ultimately have "failure_reasons r (gap_items r alignments) = [FailureUnknown] \<longleftrightarrow> ?fired = []" by (rule iffI [rotated])
    then show ?thesis by (simp only: assess_quality_def classify_evidence_failure_def Let_def option.case
        quality_assessment.select_convs failure_classification.select_convs)
  qed
  have none: "gap_items r alignments = [] \<longleftrightarrow> \<not> (\<exists>a \<in> set alignments. al_gap_id a = gr_gap_id r)"
    by (auto simp: gap_items_def filter_empty_conv)
  show ?thesis
  proof (cases "gr_type r \<in> {IndependentSource, ClaimVerification}")
    case True
    then have "gr_current_sources r < gr_required_sources r"
      using assms(2) s by (auto simp: requirement_is_satisfied_def)
    then show ?thesis using True by (simp add: rule_iff alignment_rules)
  next
    case False
    then have "?fired = [] \<longleftrightarrow> gr_required_sources r \<le> gr_current_sources r \<and> gr_verification_status r \<noteq> Required
        \<and> (if gap_items r alignments = [] then gr_current_evidence r \<noteq> 0
           else \<not> list_all (\<lambda>x. if_alignment x = NotAligned) (gap_items r alignments))"
      by (auto simp: alignment_rules not_less)
    then show ?thesis using False hints reasons unfolding none list_all_gap_items by auto
  qed
qed

definition demo_analysed :: gap_requirement where
  "demo_analysed = \<lparr>gr_gap_id = UUID 1, gr_run_id = UUID 2, gr_question_id = ''q1'', gr_dimension_key = ''d'',
     gr_type = DimensionCoverage, gr_criterion = ''c'', gr_required_evidence = 3, gr_required_sources = 1,
     gr_current_evidence = 1, gr_current_sources = 1, gr_verification_status = NotEvaluated, gr_closure_status = GPartial,
     gr_created_at = 0, gr_updated_at = 0, gr_state_version = 1, gr_current_coverage = 1 / 2, gr_required_coverage = None, gr_transition_reason = [], gr_plan_version = 1,
     gr_migration_source = []\<rparr>"

text \<open>An evidence item that covers its dimension partially.\<close>

definition demo_partial :: alignment where
  "demo_partial = \<lparr>al_alignment_id = UUID 5, al_evidence_id = UUID 6, al_gap_id = UUID 1, al_question_id = ''q1'',
     al_dimension_key = ''d'', al_type = DimensionCoverage, al_satisfies = False, al_status = PartiallyAligned,
     al_rejection_reason = Some RequirementNotSatisfied, al_created_at = 0, al_state_version = 1,
     al_extraction_id = None, al_reader_execution_id = None, al_request_id = None\<rparr>"

theorem analysis_blind_spot_witness:
  "(\<exists>s. requirement_snapshot demo_analysed = Inr s \<and> \<not> requirement_is_satisfied demo_analysed s)
   \<and> qa_hints (assess_quality demo_analysed (gap_items demo_analysed [demo_partial]) None None) = []"
proof -
  obtain s where s: "requirement_snapshot demo_analysed = Inr s"
    by (simp add: requirement_snapshot_def mk_snapshot_def demo_analysed_def)
  then have "cs_coverage s = 1 / 2" using requirement_snapshot_fields [OF s] by (simp add: demo_analysed_def)
  then have unsatisfied: "\<not> requirement_is_satisfied demo_analysed s"
    by (simp add: requirement_is_satisfied_def demo_analysed_def)
  from analysis_blind_spot [OF s unsatisfied, of "[demo_partial]" None] s unsatisfied show ?thesis
    by (simp add: demo_analysed_def demo_partial_def)
qed

end
