(* ===== verification/Evidence_Text.thy ===== *)
theory Evidence_Text
  imports Unicode_Text
begin

text \<open>
  Finding a quote in a source: the text part of \<open>app/domain/evidence_graph.py\<close>. A source may render the
  quote with other white space; \<open>locate_quote\<close> maps a position in the normalised text back to the
  original. The theorems say that it finds a quote whenever the normalised source contains it, that the
  span it returns reads as the quote, and that an evidence chunk contains that span.

  Here text is a list of code points, because offsets count characters.
\<close>

section \<open>White space\<close>

definition uspace :: "nat \<Rightarrow> bool" where
  "uspace c \<longleftrightarrow> c \<in> {9, 10, 11, 12, 13, 28, 29, 30, 31, 32, 0x85, 0xA0, 0x1680, 0x2028, 0x2029, 0x202F, 0x205F, 0x3000}
     \<or> 0x2000 \<le> c \<and> c \<le> 0x200A"

definition ustrip :: "nat list \<Rightarrow> nat list" where
  "ustrip s = rev (dropWhile uspace (rev (dropWhile uspace s)))"

text \<open>\<open>re.sub(r"\s+", " ", s)\<close>: the flag tells that the previous character was white space.\<close>

fun squeeze :: "bool \<Rightarrow> nat list \<Rightarrow> nat list" where
  "squeeze p [] = []"
| "squeeze p (c # cs) = (if uspace c then (if p then [] else [32]) @ squeeze True cs else c # squeeze False cs)"

definition normalize_graph_text :: "nat list \<Rightarrow> nat list" where
  "normalize_graph_text s = ustrip (squeeze False s)"

text \<open>\<open>haystack.find(needle)\<close>.\<close>

fun find_at :: "nat list \<Rightarrow> nat list \<Rightarrow> nat option" where
  "find_at needle [] = (if needle = [] then Some 0 else None)"
| "find_at needle (c # cs) =
     (if take (length needle) (c # cs) = needle then Some 0 else map_option Suc (find_at needle cs))"

section \<open>Locating a quote\<close>

text \<open>The loop keeps the normalised characters with their positions in the source.\<close>

fun nwp_loop :: "nat \<Rightarrow> bool \<Rightarrow> (nat \<times> nat) list \<Rightarrow> nat list \<Rightarrow> (nat \<times> nat) list" where
  "nwp_loop i w acc [] = acc"
| "nwp_loop i w acc (c # cs) =
     (if uspace c then nwp_loop (Suc i) True (if acc \<noteq> [] \<and> \<not> w then acc @ [(32, i)] else acc) cs
      else nwp_loop (Suc i) False (acc @ [(c, i)]) cs)"

definition normalize_with_positions :: "nat list \<Rightarrow> nat list \<times> nat list" where
  "normalize_with_positions s =
     (let ps = nwp_loop 0 False [] s;
          ps' = (if ps \<noteq> [] \<and> fst (last ps) = 32 then butlast ps else ps)
      in (map fst ps', map snd ps'))"

definition locate_quote :: "nat list \<Rightarrow> nat list \<Rightarrow> (nat \<times> nat) option" where
  "locate_quote source quote =
     (case find_at quote source of
        Some k \<Rightarrow> Some (k, k + length quote)
      | None \<Rightarrow>
        let (normal, positions) = normalize_with_positions source;
            wanted = normalize_graph_text quote
        in case find_at wanted normal of
             None \<Rightarrow> None
           | Some k \<Rightarrow>
             if wanted = [] then None
             else let e = k + length wanted - 1
                  in if length positions \<le> e then None else Some (positions ! k, positions ! e + 1))"

record evidence_chunk =
  ck_start :: nat
  ck_end :: nat
  ck_text :: "nat list"
  ck_tokens :: nat
  ck_hash :: string

text \<open>\<open>hash\<close> is the SHA-256 of the offsets and the text.\<close>

definition build_evidence_chunk ::
    "(nat \<Rightarrow> nat \<Rightarrow> nat list \<Rightarrow> string) \<Rightarrow> nat list \<Rightarrow> nat list \<Rightarrow> nat \<Rightarrow> evidence_chunk option" where
  "build_evidence_chunk hash source quote context_chars =
     map_option (\<lambda>(qs, qe).
        let a = qs - context_chars; b = min (length source) (qe + context_chars);
            text = take (b - a) (drop a source)
        in \<lparr>ck_start = a, ck_end = b, ck_text = text, ck_tokens = max 1 (length text div 4), ck_hash = hash a b text\<rparr>)
       (locate_quote source quote)"

definition derive_claim_status :: "bool \<Rightarrow> bool \<Rightarrow> int \<Rightarrow> string" where
  "derive_claim_status accepted refuting sources =
     (if refuting then ''disputed'' else if \<not> accepted then ''rejected''
      else if 2 \<le> sources then ''supported'' else ''partial'')"

section \<open>Searching\<close>

lemma find_at_Some: "find_at q s = Some k \<Longrightarrow> k + length q \<le> length s \<and> take (length q) (drop k s) = q"
proof (induction q s arbitrary: k rule: find_at.induct)
  case (2 needle c cs)
  show ?case
  proof (cases "take (length needle) (c # cs) = needle")
    case True
    then have "length needle \<le> length (c # cs)" by (metis length_take min.cobounded1)
    then show ?thesis using 2 True by simp
  next
    case False
    then show ?thesis using 2 by auto
  qed
qed (auto split: if_splits)

lemma find_at_None_iff: "find_at q s = None \<longleftrightarrow> \<not> sublist q s"
proof (induction q s rule: find_at.induct)
  case (2 needle c cs)
  have "take (length needle) (c # cs) = needle \<longleftrightarrow> prefix needle (c # cs)"
    by (metis append_eq_conv_conj prefix_def append_take_drop_id)
  with 2 show ?case by (auto simp: sublist_Cons_right)
qed auto

section \<open>The loop as a structural recursion\<close>

fun positioned :: "nat \<Rightarrow> bool \<Rightarrow> nat list \<Rightarrow> (nat \<times> nat) list" where
  "positioned i p [] = []"
| "positioned i p (c # cs) =
     (if uspace c then (if p then [] else [(32, i)]) @ positioned (Suc i) True cs
      else (c, i) # positioned (Suc i) False cs)"

lemma nwp_loop_positioned: "nwp_loop i w acc s = acc @ positioned i (w \<or> acc = []) s"
  by (induction i w acc s rule: nwp_loop.induct) auto

lemma fst_positioned: "map fst (positioned i p s) = squeeze p s"
  by (induction i p s rule: positioned.induct) auto

lemma uspace_blank [simp]: "uspace 32"
  by (simp add: uspace_def)

text \<open>A split of the positioned text is a split of the text.\<close>

lemma positioned_split:
  "positioned i p s = xs @ (c, k) # ys \<Longrightarrow> \<exists>a d b. s = a @ d # b \<and> k = i + length a \<and> uspace c = uspace d
     \<and> (\<not> uspace c \<longrightarrow> c = d) \<and> xs = positioned i p a \<and> ys = positioned (Suc k) (uspace d) b"
proof (induction i p s arbitrary: xs rule: positioned.induct)
  case (2 i p e s)
  show ?case
  proof (cases "uspace e \<and> p")
    case True
    then obtain a d b where "s = a @ d # b" "k = Suc i + length a" "uspace c = uspace d" "\<not> uspace c \<longrightarrow> c = d"
      "xs = positioned (Suc i) True a" "ys = positioned (Suc k) (uspace d) b"
      using "2.IH"(1) [of xs] "2.prems" by auto
    then show ?thesis using True by (intro exI [of _ "e # a"] exI [of _ d] exI [of _ b]) simp
  next
    case False
    show ?thesis
    proof (cases xs)
      case Nil
      then show ?thesis using "2.prems" False
        by (intro exI [of _ "[]"] exI [of _ e] exI [of _ s]) (auto split: if_splits)
    next
      case (Cons x xs')
      then have "positioned (Suc i) (uspace e) s = xs' @ (c, k) # ys"
        and x: "positioned i p (e # z) = x # positioned (Suc i) (uspace e) z" for z
        using "2.prems" False by (auto split: if_splits)
      then obtain a d b where "s = a @ d # b" "k = Suc i + length a" "uspace c = uspace d" "\<not> uspace c \<longrightarrow> c = d"
        "xs' = positioned (Suc i) (uspace e) a" "ys = positioned (Suc k) (uspace d) b"
        using "2.IH" by (cases "uspace e") (simp; blast)+
      then show ?thesis using Cons x [of a] by (intro exI [of _ "e # a"] exI [of _ d] exI [of _ b]) (simp del: positioned.simps)
    qed
  qed
qed simp

section \<open>Normal texts\<close>

definition tidy :: "nat list \<Rightarrow> bool" where
  "tidy w \<longleftrightarrow> w \<noteq> [] \<and> \<not> uspace (hd w) \<and> \<not> uspace (last w)"

lemma tidy_ustrip: "ustrip s \<noteq> [] \<Longrightarrow> tidy (ustrip s)"
proof -
  have first: "\<not> uspace (hd (dropWhile uspace z))" if "dropWhile uspace z \<noteq> []" for z
    using that by (rule hd_dropWhile)
  define z where "z = dropWhile uspace s"
  assume "ustrip s \<noteq> []"
  then have d: "dropWhile uspace (rev z) \<noteq> []" by (simp add: ustrip_def z_def)
  then have "z \<noteq> []" by auto
  obtain t where t: "rev z = t @ dropWhile uspace (rev z)" by (metis takeWhile_dropWhile_id)
  then have "z = rev (dropWhile uspace (rev z)) @ rev t" by (metis rev_append rev_rev_ident)
  then have "hd z = hd (rev (dropWhile uspace (rev z)))" using d by (metis hd_append2 rev_is_Nil_conv)
  then show ?thesis using d first [of s] first [of "rev z"] \<open>z \<noteq> []\<close>
    by (simp add: tidy_def ustrip_def last_rev flip: z_def)
qed

lemma ustrip_tidy: "tidy w \<Longrightarrow> ustrip w = w"
proof -
  assume w: "tidy w"
  then obtain c z where "w = c # z" "\<not> uspace c" by (cases w) (auto simp: tidy_def)
  then have "dropWhile uspace w = w" by simp
  moreover obtain d y where "rev w = d # y" "\<not> uspace d"
    using w by (cases "rev w") (auto simp: tidy_def hd_rev [symmetric])
  then have "dropWhile uspace (rev w) = rev w" by simp
  ultimately show ?thesis by (simp add: ustrip_def)
qed

lemma squeeze_append: "squeeze p (x @ y) = squeeze p x @ squeeze (if x = [] then p else uspace (last x)) y"
  by (induction p x rule: squeeze.induct) auto

lemma squeeze_True: "squeeze True s = dropWhile uspace (squeeze False s)"
proof (induction s)
  case (Cons c s)
  have "dropWhile uspace (squeeze True s) = squeeze True s" by (simp add: Cons dropWhile_idem)
  then show ?case by simp
qed simp

lemma ustrip_squeeze: "ustrip (squeeze p s) = normalize_graph_text s"
  by (cases p) (simp_all add: normalize_graph_text_def squeeze_True ustrip_def dropWhile_idem)

lemma squeeze_space: "c \<in> set (squeeze p s) \<Longrightarrow> uspace c \<Longrightarrow> c = 32"
  by (induction p s rule: squeeze.induct) (auto split: if_splits)

text \<open>At most one trailing blank is left, as the code strips exactly one.\<close>

lemma squeeze_snoc: "squeeze p s = z @ [c] \<Longrightarrow> uspace c \<Longrightarrow> z \<noteq> [] \<Longrightarrow> \<not> uspace (last z)"
proof (induction p s arbitrary: z rule: squeeze.induct)
  case (2 p e s)
  have head: "\<not> uspace (hd y)" if "squeeze True s = y" "y \<noteq> []" for y
    using that hd_dropWhile [of uspace "squeeze False s"] by (simp add: squeeze_True)
  show ?case
  proof (cases "uspace e \<and> p")
    case True
    then show ?thesis using 2 by auto
  next
    case False
    then obtain b where e: "squeeze p (e # s) = b # squeeze (uspace e) s" "uspace b = uspace e"
      by (cases "uspace e") auto
    then obtain z' where z': "z = b # z'" "squeeze (uspace e) s = z' @ [c]"
      using "2.prems" by (cases z) auto
    show ?thesis
    proof (cases "z' = []")
      case True
      then show ?thesis using z' e(2) head [of "[c]"] "2.prems"(2) by (cases "uspace e") auto
    next
      case nonempty: False
      then have "\<not> uspace (last z')" using z' "2.IH" "2.prems"(2) False by (cases "uspace e") auto
      then show ?thesis using z'(1) nonempty by simp
    qed
  qed
qed simp

lemma positions_of_normal:
  "normalize_with_positions s = (normal, positions) \<Longrightarrow> normal = normalize_graph_text s
     \<and> (\<exists>ys. positioned 0 True s = zip normal positions @ ys) \<and> length positions = length normal"
proof -
  define ps where "ps = positioned 0 True s"
  assume "normalize_with_positions s = (normal, positions)"
  then have np: "normal = map fst (if ps \<noteq> [] \<and> fst (last ps) = 32 then butlast ps else ps)"
    "positions = map snd (if ps \<noteq> [] \<and> fst (last ps) = 32 then butlast ps else ps)"
    by (auto simp: normalize_with_positions_def Let_def nwp_loop_positioned ps_def)
  have z: "map fst ps = squeeze True s" by (simp add: ps_def fst_positioned)
  have first: "dropWhile uspace (squeeze True s) = squeeze True s" by (simp add: squeeze_True dropWhile_idem)
  have normal: "normalize_graph_text s = rev (dropWhile uspace (rev (squeeze True s)))"
    using ustrip_squeeze [of True s] by (simp add: ustrip_def first)
  have "normal = normalize_graph_text s"
  proof (cases "ps = []")
    case False
    then obtain qs c k where ps: "ps = qs @ [(c, k)]" by (metis rev_exhaust surj_pair)
    then have sq: "squeeze True s = map fst qs @ [c]" using z by simp
    show ?thesis
    proof (cases "uspace c")
      case True
      then have "c = 32" using squeeze_space [of c True s] sq by simp
      moreover have "dropWhile uspace (rev (map fst qs)) = rev (map fst qs)"
        using squeeze_snoc [OF sq True] by (cases "map fst qs" rule: rev_cases) auto
      ultimately show ?thesis using True by (simp add: np normal sq ps)
    next
      case False
      then have "c \<noteq> 32" by auto
      then show ?thesis using False by (simp add: np normal sq ps)
    qed
  qed (use z np normal in simp)
  moreover have "\<exists>ys. ps = zip normal positions @ ys"
    by (cases ps rule: rev_cases) (auto simp: np zip_map_fst_snd)
  moreover have "length positions = length normal" unfolding np by simp
  ultimately show ?thesis by (simp add: ps_def)
qed

section \<open>The span that is found\<close>

lemma fst_zip_positions: "length ys = length xs \<Longrightarrow> map fst (zip xs ys) = xs" "length ys = length xs \<Longrightarrow> map snd (zip xs ys) = ys"
  by (auto simp: map_fst_zip map_snd_zip)

text \<open>A tidy piece of the positioned text comes from the characters between its ends.\<close>

lemma piece_region:
  assumes "positioned i p s = xs @ m @ ys" and w: "tidy (map fst m)"
  shows "\<exists>a r b. s = a @ r @ b \<and> snd (hd m) = i + length a \<and> snd (last m) + 1 = i + length a + length r
    \<and> normalize_graph_text r = map fst m"
proof -
  have "m \<noteq> []" using w by (auto simp: tidy_def)
  then obtain c k m' where m: "m = (c, k) # m'" by (cases m) auto
  have c: "\<not> uspace c" using w m by (simp add: tidy_def)
  obtain a d b where s: "s = a @ d # b" "k = i + length a" "c = d" "m' @ ys = positioned (Suc k) False b"
    using positioned_split [of i p s xs c k "m' @ ys"] assms(1) m c by auto
  have normal: "normalize_graph_text r = map fst m" if "squeeze False r = map fst m" for r
    using that ustrip_tidy [OF w] by (simp add: normalize_graph_text_def)
  show ?thesis
  proof (cases m' rule: rev_cases)
    case Nil
    then have "normalize_graph_text [c] = map fst m" using c m by (intro normal) simp
    then show ?thesis using s m Nil by (intro exI [of _ a] exI [of _ "[c]"] exI [of _ b]) simp
  next
    case (snoc n e)
    obtain f l where e: "e = (f, l)" by (cases e)
    have f: "\<not> uspace f" using w m snoc e by (simp add: tidy_def)
    obtain a' d' b' where b: "b = a' @ d' # b'" "l = Suc k + length a'" "f = d'" "n = positioned (Suc k) False a'"
      using positioned_split [of "Suc k" False b n f l ys] s(4) snoc e f by auto
    have "squeeze False (c # a' @ [f]) = map fst m"
      using c f b(4) by (simp add: m snoc e fst_positioned squeeze_append)
    from normal [OF this] show ?thesis using s b m snoc e
      by (intro exI [of _ a] exI [of _ "c # a' @ [f]"] exI [of _ b']) simp
  qed
qed

lemma located_span:
  assumes "locate_quote source quote = Some (x, y)"
  shows "x \<le> y \<and> y \<le> length source
    \<and> normalize_graph_text (take (y - x) (drop x source)) = normalize_graph_text quote"
proof (cases "find_at quote source")
  case (Some k)
  then show ?thesis using assms find_at_Some [OF Some] by (auto simp: locate_quote_def)
next
  case None
  let ?w = "normalize_graph_text quote"
  obtain normal positions where np: "normalize_with_positions source = (normal, positions)" by fastforce
  obtain k where k: "find_at ?w normal = Some k" "?w \<noteq> []" "k + length ?w - 1 < length positions"
      and xy: "x = positions ! k" "y = positions ! (k + length ?w - 1) + 1"
    using assms None np by (auto simp: locate_quote_def Let_def split: option.splits if_splits)
  obtain ys where ps: "positioned 0 True source = zip normal positions @ ys" and len: "length positions = length normal"
    using positions_of_normal [OF np] by blast
  define m where "m = take (length ?w) (drop k (zip normal positions))"
  have fit: "k + length ?w \<le> length normal" "take (length ?w) (drop k normal) = ?w"
    using find_at_Some [OF k(1)] by auto
  then have w: "map fst m = ?w" and snd: "map snd m = take (length ?w) (drop k positions)"
    using fst_zip_positions [OF len] by (simp_all add: m_def take_map [symmetric] drop_map [symmetric])
  have tidy: "tidy (map fst m)" using k(2) tidy_ustrip w by (simp add: normalize_graph_text_def)
  have split: "positioned 0 True source = take k (zip normal positions) @ m @ (drop (length ?w) (drop k (zip normal positions)) @ ys)"
    unfolding ps m_def by (metis append.assoc append_take_drop_id)
  obtain a r b where r: "source = a @ r @ b" "snd (hd m) = length a" "snd (last m) + 1 = length a + length r"
      "normalize_graph_text r = ?w"
    using piece_region [OF split tidy] w by auto
  have "m \<noteq> []" using w k(2) by auto
  then have "snd (hd m) = hd (map snd m)" "snd (last m) = last (map snd m)" by (simp_all add: hd_map last_map)
  moreover have "hd (map snd m) = positions ! k" "last (map snd m) = positions ! (k + length ?w - 1)"
    unfolding snd using fit k(2) len by (cases "?w"; simp add: hd_conv_nth last_conv_nth)+
  ultimately show ?thesis using r xy by simp
qed

section \<open>When a quote is found\<close>

lemma sublist_ustrip: "sublist (ustrip z) z"
proof -
  have drop: "sublist (dropWhile uspace x) x" for x
    by (simp add: suffix_dropWhile suffix_imp_sublist)
  have "sublist (rev (dropWhile uspace (rev x))) x" for x
    using drop [of "rev x"] by (metis rev_rev_ident sublist_rev)
  then show ?thesis unfolding ustrip_def using drop sublist_order.order_trans by blast
qed

lemma sublist_dropWhile: "sublist w z \<Longrightarrow> w \<noteq> [] \<Longrightarrow> \<not> P (hd w) \<Longrightarrow> sublist w (dropWhile P z)"
proof (induction z)
  case (Cons c z)
  show ?case
  proof (cases "P c")
    case True
    have "\<not> prefix w (c # z)" using Cons.prems True by (cases w) auto
    then show ?thesis using Cons True by (simp add: sublist_Cons_right)
  qed (use Cons in simp)
qed simp

lemma sublist_into_ustrip: "sublist w z \<Longrightarrow> tidy w \<Longrightarrow> sublist w (ustrip z)"
proof -
  assume w: "sublist w z" "tidy w"
  then have "sublist w (dropWhile uspace z)" by (intro sublist_dropWhile) (auto simp: tidy_def)
  then have "sublist (rev w) (rev (dropWhile uspace z))" by (simp add: sublist_rev)
  then have "sublist (rev w) (dropWhile uspace (rev (dropWhile uspace z)))"
    using w(2) by (intro sublist_dropWhile) (auto simp: tidy_def hd_rev)
  then show ?thesis unfolding ustrip_def by (metis rev_rev_ident sublist_rev)
qed

lemma sublist_normalize:
  assumes "normalize_graph_text r \<noteq> []"
  shows "sublist (normalize_graph_text r) (normalize_graph_text (x @ r @ y))"
proof -
  have "sublist (normalize_graph_text r) (squeeze p r)" for p
    using sublist_ustrip [of "squeeze p r"] by (simp add: ustrip_squeeze)
  then have "sublist (normalize_graph_text r) (squeeze False (x @ r @ y))"
    unfolding squeeze_append by (meson sublist_appendI sublist_order.order_trans sublist_append)
  then show ?thesis
    using sublist_into_ustrip [of "normalize_graph_text r" "squeeze False (x @ r @ y)"] assms tidy_ustrip
    by (simp add: normalize_graph_text_def)
qed

lemma located_iff:
  assumes "normalize_graph_text quote \<noteq> []"
  shows "locate_quote source quote \<noteq> None \<longleftrightarrow> sublist (normalize_graph_text quote) (normalize_graph_text source)"
proof
  assume "locate_quote source quote \<noteq> None"
  then obtain x y where "locate_quote source quote = Some (x, y)" by (cases "locate_quote source quote") auto
  note span = located_span [OF this]
  have "source = take x source @ take (y - x) (drop x source) @ drop (y - x) (drop x source)"
    by (metis append_take_drop_id)
  then show "sublist (normalize_graph_text quote) (normalize_graph_text source)"
    using sublist_normalize [of "take (y - x) (drop x source)"] assms span by metis
next
  assume sub: "sublist (normalize_graph_text quote) (normalize_graph_text source)"
  obtain normal positions where np: "normalize_with_positions source = (normal, positions)" by fastforce
  have normal: "normal = normalize_graph_text source" "length positions = length normal"
    using positions_of_normal [OF np] by auto
  obtain k where k: "find_at (normalize_graph_text quote) normal = Some k"
    using sub normal(1) find_at_None_iff [of "normalize_graph_text quote" normal] by auto
  have "k + length (normalize_graph_text quote) - 1 < length positions"
    using find_at_Some [OF k] normal(2) assms by (cases "normalize_graph_text quote") auto
  then show "locate_quote source quote \<noteq> None"
    using np k assms by (auto simp: locate_quote_def Let_def split: option.splits)
qed

text \<open>
  C26. A quote that is not blank is found exactly when the source contains it up to white space, and then the
  chunk built around it is a slice of the source at the recorded offsets, no longer than the span plus the
  context on both sides, that contains a span which reads as the quote up to white space.
\<close>

theorem evidence_chunk_keeps_quote:
  assumes "normalize_graph_text quote \<noteq> []"
  shows "case build_evidence_chunk hash source quote context_chars of
      None \<Rightarrow> \<not> sublist (normalize_graph_text quote) (normalize_graph_text source)
    | Some c \<Rightarrow> sublist (normalize_graph_text quote) (normalize_graph_text source)
        \<and> ck_text c = take (ck_end c - ck_start c) (drop (ck_start c) source)
        \<and> (\<exists>x y. ck_start c \<le> x \<and> x \<le> y \<and> y \<le> ck_end c \<and> ck_end c \<le> length source
            \<and> length (ck_text c) \<le> y - x + 2 * context_chars
            \<and> normalize_graph_text (take (y - x) (drop x source)) = normalize_graph_text quote)"
proof (cases "locate_quote source quote")
  case None
  then show ?thesis using located_iff [OF assms, of source] by (simp add: build_evidence_chunk_def)
next
  case (Some span)
  obtain x y where xy: "span = (x, y)" by (cases span)
  have "sublist (normalize_graph_text quote) (normalize_graph_text source)"
    using located_iff [OF assms, of source] Some by simp
  moreover have "min (length source) (y + context_chars) - (x - context_chars) \<le> y - x + 2 * context_chars"
    using located_span [OF Some [unfolded xy], THEN conjunct1] by linarith
  ultimately show ?thesis using located_span [OF Some [unfolded xy]] Some xy
    by (simp add: build_evidence_chunk_def Let_def) (intro exI [of _ x] conjI exI [of _ y], simp_all)
qed

theorem evidence_chunk_keeps_quote_witness:
  "\<exists>c. build_evidence_chunk (\<lambda>_ _ _. []) [120, 97, 10, 98, 99] [97, 32, 98] 1 = Some c \<and> ck_start c = 0 \<and> ck_end c = 5
     \<and> (\<exists>x y. x \<le> y \<and> normalize_graph_text (take (y - x) (drop x [120, 97, 10, 98, 99])) = [97, 32, 98])"
proof -
  have chunk: "build_evidence_chunk (\<lambda>_ _ _. []) [120, 97, 10, 98, 99] [97, 32, 98] 1
      = Some \<lparr>ck_start = 0, ck_end = 5, ck_text = [120, 97, 10, 98, 99], ck_tokens = 1, ck_hash = []\<rparr>"
    and quote: "normalize_graph_text [97, 32, 98] = [97, 32, 98]"
    by (simp_all add: build_evidence_chunk_def locate_quote_def normalize_with_positions_def normalize_graph_text_def
        ustrip_def uspace_def)
  then have "normalize_graph_text [97, 32, 98] \<noteq> []" by simp
  from evidence_chunk_keeps_quote [OF this, where hash = "\<lambda>_ _ _. []" and source = "[120, 97, 10, 98, 99]" and context_chars = 1] chunk quote show ?thesis
    by auto
qed

end
