(* ===== verification/Claim_Contracts.thy ===== *)
theory Claim_Contracts
  imports Unicode_Text
begin

text \<open>
  Claim records: \<open>app/domain/claim_architecture.py\<close>. A claim, its links to evidence, and the comparison of
  two claims by their structure alone. The lemmas show that the comparison is symmetric and that it reports
  a contradiction only between claims of one subject, predicate and scope; the links keep their provenance.
\<close>

section \<open>Records\<close>

datatype claim_type = Factual | Quantitative | Comparative | Causal | Descriptive | ClaimTypeUnknown

datatype evidence_relation = Supports | Contradicts | Mentions | Insufficient

datatype claim_relation_type = SameClaim | RelatedClaim | ContradictingClaim | UnknownRelation

datatype claim_verification_state =
    ClaimUnsupported | ClaimSupported | ClaimVerified | ClaimConflicted | ClaimStateUnknown

datatype claim_diagnostic_code =
    NormalizationFailed | MissingSubject | MissingValue | QualifierAmbiguous | SourceIdentityUnknown
  | EvidenceLinkMissing | VerificationNotComputable | RelationUnknown

record claim_provenance =
  vp_evidence_id :: "uuid option"
  vp_source_id :: "uuid option"
  vp_owner :: "string option"
  vp_quote :: "string option"
  vp_method :: string

record canonical_claim =
  cc_id :: uuid
  cc_run_id :: uuid
  cc_question_id :: string
  cc_dimension_key :: string
  cc_normalized :: string
  cc_original :: string
  cc_type :: claim_type
  cc_subject :: "string option"
  cc_predicate :: "string option"
  cc_value :: "string option"
  cc_qualifiers :: "(string \<times> json) list"
  cc_polarity :: "bool option"
  cc_provenance :: "claim_provenance list"
  cc_created_at :: timestamp

text \<open>A field constraint: \<open>min_length\<close> and \<open>max_length\<close> count characters.\<close>

definition text_within :: "nat \<Rightarrow> nat \<Rightarrow> string \<Rightarrow> bool" where
  "text_within low high s \<longleftrightarrow> low \<le> text_len s \<and> text_len s \<le> high"

definition optional_within :: "nat \<Rightarrow> nat \<Rightarrow> string option \<Rightarrow> bool" where
  "optional_within low high v = (case v of None \<Rightarrow> True | Some s \<Rightarrow> text_within low high s)"

definition mk_provenance :: "claim_provenance \<Rightarrow> claim_provenance result" where
  "mk_provenance v =
     (if optional_within 1 255 (vp_owner v) \<and> text_within 1 100 (vp_method v) then Inr v
      else Inl (ValueError ''ClaimProvenance''))"

definition mk_claim :: "canonical_claim \<Rightarrow> canonical_claim result" where
  "mk_claim c =
     (if \<not> (text_within 1 50 (cc_question_id c) \<and> text_within 1 100 (cc_dimension_key c)
            \<and> text_within 1 4000 (cc_normalized c) \<and> text_within 1 4000 (cc_original c)
            \<and> optional_within 0 1000 (cc_subject c) \<and> optional_within 0 1000 (cc_predicate c)
            \<and> optional_within 0 2000 (cc_value c))
        then Inl (ValueError ''CanonicalClaim'')
      else if blank (cc_original c) \<or> blank (cc_normalized c)
        then Inl (ValueError ''claim text must not be blank'')
      else Inr c)"

text \<open>\<open>re.sub(r"\s+", " ", s).strip()\<close>.\<close>

definition lexical_text :: "string \<Rightarrow> string" where
  "lexical_text s = join_sp (split_ws s)"

definition claim_from_text :: "string \<Rightarrow> canonical_claim \<Rightarrow> canonical_claim result" where
  "claim_from_text text c = mk_claim (c\<lparr>cc_original := text, cc_normalized := lexical_text text\<rparr>)"

record claim_evidence_link =
  kl_claim_id :: uuid
  kl_evidence_id :: uuid
  kl_relation :: evidence_relation
  kl_confidence :: "rat option"
  kl_source_id :: uuid
  kl_owner :: "string option"
  kl_quote :: "string option"
  kl_created_by :: string

definition unit_interval :: "rat option \<Rightarrow> bool" where
  "unit_interval v = (case v of None \<Rightarrow> True | Some q \<Rightarrow> 0 \<le> q \<and> q \<le> 1)"

definition mk_claim_link :: "claim_evidence_link \<Rightarrow> claim_evidence_link result" where
  "mk_claim_link l =
     (if unit_interval (kl_confidence l) \<and> optional_within 1 255 (kl_owner l) \<and> text_within 1 100 (kl_created_by l)
      then Inr l else Inl (ValueError ''ClaimEvidenceLink''))"

definition validate_scope ::
    "claim_evidence_link \<Rightarrow> canonical_claim \<Rightarrow> uuid \<Rightarrow> string \<Rightarrow> string \<Rightarrow> uuid \<Rightarrow> string option \<Rightarrow> unit result" where
  "validate_scope l c run question dimension source owner =
     (if kl_claim_id l \<noteq> cc_id c then Inl (ValueError ''claim/evidence link references a different Claim'')
      else if run \<noteq> cc_run_id c \<or> question \<noteq> cc_question_id c
        then Inl (ValueError ''claim/evidence link crosses run or question scope'')
      else if dimension \<noteq> cc_dimension_key c
        then Inl (ValueError ''claim/evidence link crosses dimension scope'')
      else if kl_source_id l \<noteq> source
        then Inl (ValueError ''claim/evidence link source differs from evidence source'')
      else if kl_owner l \<noteq> owner
        then Inl (ValueError ''source_owner_key must be propagated unchanged from Source'')
      else Inr ())"

record claim_relation =
  kr_left :: uuid
  kr_right :: uuid
  kr_relation :: claim_relation_type
  kr_confidence :: "rat option"
  kr_reason :: "string option"

definition mk_claim_relation :: "claim_relation \<Rightarrow> claim_relation result" where
  "mk_claim_relation k =
     (if \<not> unit_interval (kr_confidence k) then Inl (ValueError ''ClaimRelation'')
      else if kr_left k = kr_right k
        then Inl (ValueError ''a Claim relation must connect distinct claim records'')
      else Inr k)"

record claim_verification_result =
  vr_claim_id :: uuid
  vr_state :: claim_verification_state
  vr_reason :: "string option"
  vr_supporting :: "uuid list"
  vr_contradicting :: "uuid list"
  vr_owners :: "string list"

section \<open>Values with scale and unit\<close>

definition value_digit :: "char \<Rightarrow> bool" where
  "value_digit c \<longleftrightarrow> 48 \<le> (of_char c :: nat) \<and> (of_char c :: nat) \<le> 57"

definition is_unit_char :: "char \<Rightarrow> bool" where
  "is_unit_char c \<longleftrightarrow> (let n = of_char c :: nat in 65 \<le> n \<and> n \<le> 90 \<or> 97 \<le> n \<and> n \<le> 122 \<or> n = 37 \<or> n = 36)"

definition SCALES :: "(string \<times> rat) list" where
  "SCALES = [(''billion'', 1000000000), (''bn'', 1000000000), (''b'', 1000000000), (''million'', 1000000),
     (''mn'', 1000000), (''m'', 1000000), (''thousand'', 1000), (''k'', 1000)]"

text \<open>
  The number of the pattern: sign, digits and commas, and a fraction if a digit follows the point. The
  rest of the pattern cannot continue a number, so taking the longest one loses no match.
\<close>

definition split_number :: "string \<Rightarrow> (string \<times> string) option" where
  "split_number s =
     (let (sign, s1) = (if s \<noteq> [] \<and> hd s \<in> {CHR ''+'', CHR ''-''} then ([hd s], tl s) else ([], s));
          body = takeWhile (\<lambda>c. value_digit c \<or> c = CHR '','') s1;
          s2 = drop (length body) s1;
          frac = (if s2 \<noteq> [] \<and> hd s2 = CHR ''.'' then takeWhile value_digit (tl s2) else []);
          s3 = (if frac = [] then s2 else drop (Suc (length frac)) s2)
      in if body = [] then None
         else Some (sign @ body @ (if frac = [] then [] else CHR ''.'' # frac), s3))"

text \<open>What may follow: an optional unit between white space; \<open>unit_text\<close> is the unit.\<close>

definition unit_text :: "string \<Rightarrow> string option" where
  "unit_text s =
     (let s1 = lstrip s; u = takeWhile is_unit_char s1 in if blank (drop (length u) s1) then Some u else None)"

fun scaled_unit :: "(string \<times> rat) list \<Rightarrow> string \<Rightarrow> (rat \<times> string) option" where
  "scaled_unit [] s = map_option (Pair 1) (unit_text s)"
| "scaled_unit ((w, f) # scales) s =
     (case (if starts_with (casefold s) w then unit_text (drop (length w) s) else None) of
        Some u \<Rightarrow> Some (f, u) | None \<Rightarrow> scaled_unit scales s)"

text \<open>\<open>Decimal(text)\<close> of such a number without its commas; no digits is an invalid operation.\<close>

definition decimal_of :: "string \<Rightarrow> rat option" where
  "decimal_of s =
     (let t = filter (\<lambda>c. c \<noteq> CHR '','') s;
          negative = (t \<noteq> [] \<and> hd t = CHR ''-'');
          u = (if t \<noteq> [] \<and> hd t \<in> {CHR ''+'', CHR ''-''} then tl t else t)
      in map_option (\<lambda>q. if negative then - q else q) (parse_decimal u))"

text \<open>\<open>other\<close> prints the qualifier values that are neither text nor integers.\<close>

definition canonical_value :: "(json \<Rightarrow> string) \<Rightarrow> string option \<Rightarrow> json \<Rightarrow> (rat \<times> string) option" where
  "canonical_value other value qualifier_unit =
     (case value of None \<Rightarrow> None | Some v \<Rightarrow>
      case split_number (lstrip v) of None \<Rightarrow> None | Some (number, rest) \<Rightarrow>
      case scaled_unit SCALES (lstrip rest) of None \<Rightarrow> None | Some (factor, u) \<Rightarrow>
      case decimal_of number of None \<Rightarrow> None | Some amount \<Rightarrow>
        let unit = casefold (if u \<noteq> [] then u
              else if truthy qualifier_unit then py_str other qualifier_unit else [])
        in Some (amount * factor, if unit \<in> {''$'', ''us$''} then ''usd'' else unit))"

section \<open>Comparing two claims\<close>

definition exact_proposition_key :: "canonical_claim \<Rightarrow> string" where
  "exact_proposition_key c = casefold (lexical_text (cc_normalized c))"

text \<open>Python compares booleans, integers and floats by value.\<close>

definition as_number :: "json \<Rightarrow> rat option" where
  "as_number v = (case v of JBool b \<Rightarrow> Some (if b then 1 else 0) | JInt n \<Rightarrow> Some (of_int n) | JNum q \<Rightarrow> Some q | _ \<Rightarrow> None)"

definition py_equal :: "json \<Rightarrow> json \<Rightarrow> bool" where
  "py_equal a b = (case (as_number a, as_number b) of (Some x, Some y) \<Rightarrow> x = y | _ \<Rightarrow> a = b)"

definition present :: "string option \<Rightarrow> bool" where
  "present v \<longleftrightarrow> v \<noteq> None \<and> v \<noteq> Some []"

definition same_qualifiers :: "canonical_claim \<Rightarrow> canonical_claim \<Rightarrow> bool" where
  "same_qualifiers a b \<longleftrightarrow> list_all (\<lambda>k. py_equal (jget k (cc_qualifiers a)) (jget k (cc_qualifiers b)))
     (map fst (cc_qualifiers a) @ map fst (cc_qualifiers b))"

definition compare_values :: "(json \<Rightarrow> string) \<Rightarrow> canonical_claim \<Rightarrow> canonical_claim \<Rightarrow> claim_relation_type" where
  "compare_values other a b =
     (case (canonical_value other (cc_value a) (jget ''unit'' (cc_qualifiers a)),
            canonical_value other (cc_value b) (jget ''unit'' (cc_qualifiers b))) of
        (Some x, Some y) \<Rightarrow> if x = y then SameClaim else ContradictingClaim
      | _ \<Rightarrow> if present (cc_value a) \<and> present (cc_value b)
               \<and> casefold (strip (the (cc_value a))) = casefold (strip (the (cc_value b)))
             then SameClaim else UnknownRelation)"

definition deterministic_relation_candidate ::
    "(json \<Rightarrow> string) \<Rightarrow> canonical_claim \<Rightarrow> canonical_claim \<Rightarrow> claim_relation_type" where
  "deterministic_relation_candidate other a b =
     (if exact_proposition_key a = exact_proposition_key b then SameClaim
      else if \<not> present (cc_subject a) \<or> \<not> present (cc_subject b) \<or> \<not> present (cc_predicate a) \<or> \<not> present (cc_predicate b)
        then UnknownRelation
      else if casefold (the (cc_subject a)) \<noteq> casefold (the (cc_subject b)) then UnknownRelation
      else if casefold (the (cc_predicate a)) \<noteq> casefold (the (cc_predicate b)) then UnknownRelation
      else if \<not> same_qualifiers a b then RelatedClaim
      else if cc_polarity a \<noteq> None \<and> cc_polarity b \<noteq> None \<and> cc_polarity a \<noteq> cc_polarity b then ContradictingClaim
      else compare_values other a b)"

section \<open>The comparison\<close>

lemma py_equal_sym: "py_equal a b = py_equal b a"
  by (auto simp: py_equal_def split: option.splits)

lemma py_equal_refl [simp]: "py_equal a a"
  by (simp add: py_equal_def split: option.splits)

lemma same_qualifiers_sym: "same_qualifiers a b = same_qualifiers b a"
  by (auto simp: same_qualifiers_def list_all_iff py_equal_sym)

lemma compare_values_sym: "compare_values other a b = compare_values other b a"
  unfolding compare_values_def by (auto split: option.splits)

text \<open>Every verdict needs its structure; in particular two claims without subject never contradict each other.\<close>

lemma contradiction_scope:
  "deterministic_relation_candidate other a b = ContradictingClaim \<Longrightarrow>
     present (cc_subject a) \<and> present (cc_predicate a)
     \<and> casefold (the (cc_subject a)) = casefold (the (cc_subject b))
     \<and> casefold (the (cc_predicate a)) = casefold (the (cc_predicate b)) \<and> same_qualifiers a b"
  by (auto simp: deterministic_relation_candidate_def split: if_splits)

lemma relation_reflexive: "deterministic_relation_candidate other c c = SameClaim"
  by (simp add: deterministic_relation_candidate_def)

text \<open>
  The comparison does not depend on the order of the claims, and it reports a contradiction only between
  claims with the same subject, predicate and qualifiers that differ in polarity or in a comparable value.
\<close>

theorem claim_comparison_is_symmetric_and_scoped:
  "deterministic_relation_candidate other a b = deterministic_relation_candidate other b a
   \<and> (deterministic_relation_candidate other a b = ContradictingClaim \<longrightarrow>
        same_qualifiers a b \<and> casefold (the (cc_subject a)) = casefold (the (cc_subject b))
        \<and> casefold (the (cc_predicate a)) = casefold (the (cc_predicate b))
        \<and> (cc_polarity a \<noteq> cc_polarity b \<or>
            canonical_value other (cc_value a) (jget ''unit'' (cc_qualifiers a))
              \<noteq> canonical_value other (cc_value b) (jget ''unit'' (cc_qualifiers b))))"
proof
  show "deterministic_relation_candidate other a b = deterministic_relation_candidate other b a"
    unfolding deterministic_relation_candidate_def
    using same_qualifiers_sym [of a b] compare_values_sym [of other a b] by auto
next
  show "deterministic_relation_candidate other a b = ContradictingClaim \<longrightarrow>
        same_qualifiers a b \<and> casefold (the (cc_subject a)) = casefold (the (cc_subject b))
        \<and> casefold (the (cc_predicate a)) = casefold (the (cc_predicate b))
        \<and> (cc_polarity a \<noteq> cc_polarity b \<or>
            canonical_value other (cc_value a) (jget ''unit'' (cc_qualifiers a))
              \<noteq> canonical_value other (cc_value b) (jget ''unit'' (cc_qualifiers b)))"
  proof
    assume con: "deterministic_relation_candidate other a b = ContradictingClaim"
    note scope = contradiction_scope [OF con]
    have "cc_polarity a \<noteq> cc_polarity b \<or> compare_values other a b = ContradictingClaim"
      using con by (auto simp: deterministic_relation_candidate_def split: if_splits)
    then show "same_qualifiers a b \<and> casefold (the (cc_subject a)) = casefold (the (cc_subject b))
        \<and> casefold (the (cc_predicate a)) = casefold (the (cc_predicate b))
        \<and> (cc_polarity a \<noteq> cc_polarity b \<or>
            canonical_value other (cc_value a) (jget ''unit'' (cc_qualifiers a))
              \<noteq> canonical_value other (cc_value b) (jget ''unit'' (cc_qualifiers b)))"
      using scope by (auto simp: compare_values_def split: option.splits if_splits)
  qed
qed

text \<open>A bare letter after the number is read as a scale before it is read as a unit.\<close>

lemma letter_is_scale:
  "canonical_value other (Some ''5 m'') JNull = Some (5000000, [])"
  "canonical_value other (Some ''5 kg'') JNull = Some (5000, ''g'')"
  "canonical_value other (Some ''1,250.5 USD'') JNull = Some (2501 / 2, ''usd'')"
  by code_simp+

text \<open>A link that passes the check carries the scope of its claim and the provenance of its evidence.\<close>

lemma validated_link:
  "validate_scope l c run q d source owner = Inr () \<longleftrightarrow> kl_claim_id l = cc_id c \<and> run = cc_run_id c
     \<and> q = cc_question_id c \<and> d = cc_dimension_key c \<and> kl_source_id l = source \<and> kl_owner l = owner"
  by (auto simp: validate_scope_def)

text \<open>Building a claim from text keeps its words, and no claim has a blank text.\<close>

lemma claim_from_text_words:
  "claim_from_text text c = Inr d \<Longrightarrow> cc_original d = text \<and> split_ws (cc_normalized d) = split_ws text \<and> \<not> blank text"
  using split_ws_words [of "text"]
  by (auto simp: claim_from_text_def mk_claim_def lexical_text_def split_join_words split: if_splits)

end
