(* ===== verification/Research_Graph.thy ===== *)
theory Research_Graph
  imports State_Runtime Run_Machine "HOL-Library.List_Lexorder" "HOL-Library.Char_ord"
begin

text \<open>
  The orchestration of one execution: \<open>app/services/research_graph.py\<close>. The nodes for planning, research,
  replanning and writing run one after the other over the tables of \<open>State_Runtime\<close>; each of them ends with
  a synchronisation of the state snapshot. The planner, the research loop, the report writer and the memory
  are arguments, and so is what other transactions do between two calls. The engine that runs the nodes is a
  library and an argument too; what is assumed of it is that it follows the edges, stores what the nodes
  return, and may raise an error of its own at any point.
\<close>

section \<open>Calls\<close>

text \<open>What a node can raise: an error of a repository, one of the errors the worker tells apart, or another.\<close>

datatype graph_error =
    Raised py_error
  | RuntimeErr string
  | GatewayError (ge_retryable: bool) (ge_code: string) (ge_detail: "string option")
  | ToolError bool string
  | CredentialUnavailable
  | DecryptionError string
  | ManifestError string
  | RecursionLimit

datatype graph_node = PlannerNode | ResearchNode | ReplanNode | WriterNode

text \<open>\<open>gs_state\<close> is the state whose JSON dump the graph carries.\<close>

record graph_state =
  gs_run_id :: uuid
  gs_state :: research_state
  gs_outcome :: string
  gs_continue :: bool
  gs_iteration :: int
  gs_replan :: bool

record iteration_result =
  ir_outcome :: string
  ir_continue :: bool
  ir_decision :: string

text \<open>
  The tables, the number of calls made so far, the states the checkpointer holds, and the seconds slept.
\<close>

record world =
  wd_rt :: runtime
  wd_calls :: nat
  wd_checkpoints :: "(graph_node \<times> graph_state) list"
  wd_slept :: rat

type_synonym 'a act = "world \<Rightarrow> (graph_error + 'a) \<times> world"

type_synonym 'a service = "runtime \<Rightarrow> (graph_error + 'a) \<times> runtime"

text \<open>
  The environment of an execution: the clock, identifiers and services of the \<open>n\<close>-th call, and the effect
  \<open>gx_others n\<close> of the other transactions that commit before it.
\<close>

record graph_env =
  gx_run :: "nat \<Rightarrow> run_env"
  gx_state :: "nat \<Rightarrow> state_env"
  gx_patch_id :: "nat \<Rightarrow> uuid"
  gx_uuid_of :: "json \<Rightarrow> uuid option"
  gx_others :: "nat \<Rightarrow> runtime \<Rightarrow> runtime"
  gx_memories :: bool
  gx_retrieve :: "nat \<Rightarrow> json list service"
  gx_capture :: "nat \<Rightarrow> research_state \<Rightarrow> string \<Rightarrow> unit service"
  gx_plan :: "nat \<Rightarrow> json list \<Rightarrow> (research_plan \<times> token_usage) service"
  gx_research :: "nat \<Rightarrow> iteration_result service"
  gx_write :: "nat \<Rightarrow> string service"

definition call :: "graph_env \<Rightarrow> (nat \<Rightarrow> 'a service) \<Rightarrow> 'a act" where
  "call g f w =
     (let n = wd_calls w; (x, rt) = f n (gx_others g n (wd_rt w))
      in (x, w\<lparr>wd_rt := rt, wd_calls := Suc n\<rparr>))"

definition pure_act :: "'a \<Rightarrow> 'a act" where
  "pure_act x w = (Inr x, w)"

definition raise_act :: "graph_error \<Rightarrow> 'a act" where
  "raise_act e w = (Inl e, w)"

definition and_act :: "'a act \<Rightarrow> ('a \<Rightarrow> 'b act) \<Rightarrow> 'b act" where
  "and_act m f w = (case m w of (Inl e, w1) \<Rightarrow> (Inl e, w1) | (Inr x, w1) \<Rightarrow> f x w1)"

text \<open>A transaction of a repository: what raises leaves the tables as they were.\<close>

definition transaction_of :: "(runtime \<Rightarrow> ('a \<times> runtime) result) \<Rightarrow> 'a service" where
  "transaction_of f rt = (case f rt of Inl e \<Rightarrow> (Inl (Raised e), rt) | Inr (x, rt') \<Rightarrow> (Inr x, rt'))"

definition on_db :: "(database \<Rightarrow> ('a \<times> database) result) \<Rightarrow> 'a service" where
  "on_db f rt = (case f (rt_db rt) of Inl e \<Rightarrow> (Inl (Raised e), rt) | Inr (x, db) \<Rightarrow> (Inr x, rt\<lparr>rt_db := db\<rparr>))"

definition reading :: "(database \<Rightarrow> 'a result) \<Rightarrow> 'a service" where
  "reading f rt = (case f (rt_db rt) of Inl e \<Rightarrow> (Inl (Raised e), rt) | Inr x \<Rightarrow> (Inr x, rt))"

section \<open>The planner\<close>

definition PLANNER_RETRY_DELAYS_SECONDS :: "rat list" where "PLANNER_RETRY_DELAYS_SECONDS = [3, 10]"

definition planner_retry :: "nat \<Rightarrow> string \<Rightarrow> string option \<Rightarrow> rat \<Rightarrow> model_retry" where
  "planner_retry attempt code detail delay =
     \<lparr>mr_role = ''planner'', mr_failed_attempt = int attempt,
      mr_max_attempts = int (length PLANNER_RETRY_DELAYS_SECONDS + 1), mr_error_code = code,
      mr_detail_code = detail, mr_delay_seconds = delay\<rparr>"

definition sleep :: "rat \<Rightarrow> unit act" where
  "sleep d w = (Inr (), w\<lparr>wd_slept := wd_slept w + d\<rparr>)"

text \<open>The attempts from number \<open>k\<close> on, with the delays that are left.\<close>

fun plan_attempts ::
    "graph_env \<Rightarrow> uuid \<Rightarrow> dispatch_key \<Rightarrow> json list \<Rightarrow> nat \<Rightarrow> rat list \<Rightarrow> (research_plan \<times> token_usage) act" where
  "plan_attempts g i t leads k delays w =
     (case call g (\<lambda>n. gx_plan g n leads) w of
        (Inl (GatewayError retryable code detail), w1) \<Rightarrow>
          (case delays of
             [] \<Rightarrow> (Inl (GatewayError retryable code detail), w1)
           | d # ds \<Rightarrow>
             if \<not> retryable then (Inl (GatewayError retryable code detail), w1)
             else and_act (call g (\<lambda>n. on_db (\<lambda>db. Inr (record_model_retry (gx_run g n) i t
                    (planner_retry k code detail d) db))))
                  (\<lambda>recorded. if \<not> recorded
                     then raise_act (RuntimeErr ''planner lost the worker lease while scheduling retry'')
                     else and_act (sleep d) (\<lambda>_. plan_attempts g i t leads (Suc k) ds)) w1)
      | (Inl e, w1) \<Rightarrow> (Inl e, w1)
      | (Inr x, w1) \<Rightarrow> (Inr x, w1))"

declare plan_attempts.simps [simp del]

definition generate_plan_with_retry ::
    "graph_env \<Rightarrow> uuid \<Rightarrow> dispatch_key \<Rightarrow> json list \<Rightarrow> (research_plan \<times> token_usage) act" where
  "generate_plan_with_retry g i t leads = plan_attempts g i t leads 1 PLANNER_RETRY_DELAYS_SECONDS"

text \<open>
  The audited plan a run may name instead of asking the model. A version that is no number, an identifier
  that is none and a stored plan that does not validate count as no template.
\<close>

definition bad_template :: "py_error \<Rightarrow> bool" where
  "bad_template e = (case e of ValueError _ \<Rightarrow> True | TypeError _ \<Rightarrow> True | _ \<Rightarrow> False)"

definition template_plan :: "graph_env \<Rightarrow> json_object \<Rightarrow> research_plan option act" where
  "template_plan g budget =
     (let raw = jget ''plan_template_run_id'' budget
      in if \<not> truthy raw then pure_act None
         else case py_int (jget_or (JInt 1) ''plan_template_plan_version'' budget) of
                Inl _ \<Rightarrow> pure_act None
              | Inr version \<Rightarrow>
                (case gx_uuid_of g raw of
                   None \<Rightarrow> pure_act None
                 | Some t \<Rightarrow> call g (\<lambda>n. reading (\<lambda>db.
                     case get_plan_for_execution (gx_run g n) t (Some version) db of
                       Inl e \<Rightarrow> if bad_template e then Inr None else Inl e
                     | Inr p \<Rightarrow> Inr p))))"

definition memory_leads :: "graph_env \<Rightarrow> json list act" where
  "memory_leads g = (if gx_memories g then call g (gx_retrieve g) else pure_act [])"

definition unmetered :: token_usage where
  "unmetered = \<lparr>tu_input = 0, tu_output = 0, tu_total = 0, tu_accuracy = ''unavailable''\<rparr>"

definition new_plan :: "graph_env \<Rightarrow> uuid \<Rightarrow> dispatch_key \<Rightarrow> unit act" where
  "new_plan g i t =
     and_act (call g (\<lambda>n. reading (\<lambda>db. Inr (get_budget_snapshot_for_execution i db)))) (\<lambda>budget.
     and_act (template_plan g budget) (\<lambda>template.
     and_act (case template of
         Some p \<Rightarrow> pure_act (p, unmetered)
       | None \<Rightarrow> and_act (memory_leads g) (generate_plan_with_retry g i t)) (\<lambda>(plan, usage).
     and_act (call g (\<lambda>n. on_db (save_generated_plan (gx_run g n) i t plan usage))) (\<lambda>saved.
     if saved then pure_act ()
     else raise_act (RuntimeErr ''planner lost the worker lease before persisting the plan'')))))"

section \<open>The nodes\<close>

definition synchronized_call :: "graph_env \<Rightarrow> uuid \<Rightarrow> string \<Rightarrow> dispatch_key option \<Rightarrow> research_state act" where
  "synchronized_call g i node task =
     call g (\<lambda>n. transaction_of (synchronize (gx_state g n) (gx_patch_id g n) i node task))"

definition captured :: "graph_env \<Rightarrow> research_state \<Rightarrow> string \<Rightarrow> unit act" where
  "captured g s node = (if gx_memories g then call g (\<lambda>n. gx_capture g n s node) else pure_act ())"

definition current_plan :: "graph_env \<Rightarrow> uuid \<Rightarrow> research_plan option act" where
  "current_plan g i = call g (\<lambda>n. reading (get_plan_for_execution (gx_run g n) i None))"

definition planner_node :: "graph_env \<Rightarrow> uuid \<Rightarrow> dispatch_key \<Rightarrow> graph_state act" where
  "planner_node g i t =
     and_act (current_plan g i) (\<lambda>plan.
     and_act (if plan = None then new_plan g i t else pure_act ()) (\<lambda>_.
     and_act (synchronized_call g i ''planner'' (Some t)) (\<lambda>s.
     and_act (captured g s ''planner'') (\<lambda>_.
     pure_act \<lparr>gs_run_id = i, gs_state = s, gs_outcome = ''planned'', gs_continue = True, gs_iteration = 0,
       gs_replan = False\<rparr>))))"

definition research_node :: "graph_env \<Rightarrow> uuid \<Rightarrow> dispatch_key \<Rightarrow> graph_state \<Rightarrow> graph_state act" where
  "research_node g i t gs =
     and_act (call g (gx_research g)) (\<lambda>result.
     and_act (synchronized_call g i ''research_iteration'' (Some t)) (\<lambda>s.
     and_act (captured g s ''research_iteration'') (\<lambda>_.
     pure_act \<lparr>gs_run_id = i, gs_state = s, gs_outcome = ir_outcome result, gs_continue = ir_continue result,
       gs_iteration = gs_iteration gs + 1, gs_replan = (ir_decision result = ''replan'')\<rparr>)))"

definition coverage_gaps :: "coverage_dimension list \<Rightarrow> (string \<times> string list) list" where
  "coverage_gaps dims =
     map (\<lambda>d. (cd_dimension_key d, cd_missing_reasons d))
       (filter (\<lambda>d. cd_coverage d < 1)
         (sort_key (\<lambda>d. (cd_priority d, cd_coverage d, cd_dimension_key d)) dims))"

definition replan_node :: "graph_env \<Rightarrow> uuid \<Rightarrow> dispatch_key \<Rightarrow> graph_state \<Rightarrow> graph_state act" where
  "replan_node g i t gs =
     and_act (current_plan g i) (\<lambda>plan.
     if plan = None then raise_act (RuntimeErr ''REPLAN requires a persisted plan'')
     else and_act (synchronized_call g i ''replan'' (Some t)) (\<lambda>s.
     let gaps = coverage_gaps (st_coverage_map s)
     in if gaps = [] then raise_act (RuntimeErr ''REPLAN was selected without an actionable coverage gap'')
     else and_act (call g (\<lambda>n. on_db (save_gap_resolution_plan (gx_run g n) i t gaps))) (\<lambda>saved.
     if \<not> saved then raise_act (RuntimeErr ''REPLAN lost the worker lease or produced no gap task'')
     else and_act (synchronized_call g i ''replan'' (Some t)) (\<lambda>s2.
     pure_act \<lparr>gs_run_id = i, gs_state = s2, gs_outcome = ''replanned:gaps='' @ show_nat (min 3 (length gaps)),
       gs_continue = True, gs_iteration = gs_iteration gs, gs_replan = False\<rparr>))))"

definition writer_node :: "graph_env \<Rightarrow> uuid \<Rightarrow> graph_state \<Rightarrow> graph_state act" where
  "writer_node g i gs =
     and_act (call g (gx_write g)) (\<lambda>outcome.
     and_act (synchronized_call g i ''report_writer'' None) (\<lambda>s.
     and_act (captured g s ''report_writer'') (\<lambda>_.
     pure_act \<lparr>gs_run_id = i, gs_state = s, gs_outcome = outcome, gs_continue = False,
       gs_iteration = gs_iteration gs, gs_replan = False\<rparr>)))"

section \<open>The graph\<close>

definition route_after_research :: "graph_state \<Rightarrow> graph_node" where
  "route_after_research gs =
     (if gs_replan gs then ReplanNode else if gs_continue gs then ResearchNode else WriterNode)"

fun next_node :: "graph_node \<Rightarrow> graph_state \<Rightarrow> graph_node option" where
  "next_node PlannerNode gs = Some ResearchNode"
| "next_node ResearchNode gs = Some (route_after_research gs)"
| "next_node ReplanNode gs = Some ResearchNode"
| "next_node WriterNode gs = None"

fun run_node :: "graph_env \<Rightarrow> uuid \<Rightarrow> dispatch_key \<Rightarrow> graph_node \<Rightarrow> graph_state \<Rightarrow> graph_state act" where
  "run_node g i t PlannerNode gs = planner_node g i t"
| "run_node g i t ResearchNode gs = research_node g i t gs"
| "run_node g i t ReplanNode gs = replan_node g i t gs"
| "run_node g i t WriterNode gs = writer_node g i gs"

definition checkpoint :: "graph_node \<Rightarrow> graph_state \<Rightarrow> unit act" where
  "checkpoint node gs w = (Inr (), w\<lparr>wd_checkpoints := wd_checkpoints w @ [(node, gs)]\<rparr>)"

text \<open>
  The engine is given the nodes, the edges, the first node and its input. It returns the state of the last
  node, or raises.
\<close>

type_synonym engine =
  "(graph_node \<Rightarrow> graph_state \<Rightarrow> graph_state act) \<Rightarrow> (graph_node \<Rightarrow> graph_state \<Rightarrow> graph_node option)
     \<Rightarrow> graph_node \<Rightarrow> graph_state \<Rightarrow> graph_state act"

definition execute_graph :: "engine \<Rightarrow> graph_env \<Rightarrow> uuid \<Rightarrow> dispatch_key \<Rightarrow> string act" where
  "execute_graph engine g i t =
     and_act (call g (\<lambda>n. transaction_of (ensure_initialized (gx_state g n) i))) (\<lambda>initial.
     and_act (engine (run_node g i t) next_node PlannerNode
       \<lparr>gs_run_id = i, gs_state = initial, gs_outcome = ''initialized'', gs_continue = True, gs_iteration = 0,
        gs_replan = False\<rparr>) (\<lambda>final. pure_act (gs_outcome final)))"

text \<open>
  What an engine may do: run one node after the other along the edges and store each state a node returns;
  pass on what a node raises; return the state of a node that no edge leaves; and stop with an error of its
  own, its limit of node executions or a failure of its storage, before a node, before a returned state is
  stored, or after the last one.
\<close>

inductive engine_path ::
    "(graph_node \<Rightarrow> graph_state \<Rightarrow> graph_state act) \<Rightarrow> (graph_node \<Rightarrow> graph_state \<Rightarrow> graph_node option)
       \<Rightarrow> graph_node \<Rightarrow> graph_state \<Rightarrow> world \<Rightarrow> graph_error + graph_state \<Rightarrow> world \<Rightarrow> bool"
  for nodes edges where
  stops: "engine_path nodes edges node gs w (Inl e) w"
| raises: "nodes node gs w = (Inl e, w1) \<Longrightarrow> engine_path nodes edges node gs w (Inl e) w1"
| unsaved: "nodes node gs w = (Inr gs', w1) \<Longrightarrow> engine_path nodes edges node gs w (Inl e) w1"
| stops_late: "nodes node gs w = (Inr gs', w1) \<Longrightarrow> edges node gs' = None
    \<Longrightarrow> engine_path nodes edges node gs w (Inl e) (snd (checkpoint node gs' w1))"
| ends: "nodes node gs w = (Inr gs', w1) \<Longrightarrow> edges node gs' = None
    \<Longrightarrow> engine_path nodes edges node gs w (Inr gs') (snd (checkpoint node gs' w1))"
| goes_on: "nodes node gs w = (Inr gs', w1) \<Longrightarrow> edges node gs' = Some following
    \<Longrightarrow> engine_path nodes edges following gs' (snd (checkpoint node gs' w1)) x w'
    \<Longrightarrow> engine_path nodes edges node gs w x w'"

definition engine_follows :: "engine \<Rightarrow> bool" where
  "engine_follows engine \<longleftrightarrow> (\<forall>nodes edges node gs w x w'.
     engine nodes edges node gs w = (x, w') \<longrightarrow> engine_path nodes edges node gs w x w')"

section \<open>Relations kept by calls\<close>

text \<open>
  A reflexive and transitive relation between the worlds before and after an action is kept by every
  combination of actions that keep it, whether they return or raise.
\<close>

definition along :: "(world \<Rightarrow> world \<Rightarrow> bool) \<Rightarrow> 'a act \<Rightarrow> bool" where
  "along R m \<longleftrightarrow> (\<forall>w. R w (snd (m w)))"

named_theorems along_rules \<open>actions that keep a relation\<close>

locale act_relation =
  fixes R :: "world \<Rightarrow> world \<Rightarrow> bool"
  assumes refl: "R w w" and trans: "R u v \<Longrightarrow> R v w \<Longrightarrow> R u w"
begin

lemma along_pure: "along R (pure_act x)"
  by (simp add: along_def pure_act_def refl)

lemma along_raise: "along R (raise_act e)"
  by (simp add: along_def raise_act_def refl)

lemma along_and:
  assumes "along R m" and "\<And>x. along R (f x)"
  shows "along R (and_act m f)"
proof (unfold along_def, intro allI)
  fix w
  have "R w (snd (m w))" and "R (snd (m w)) (snd (f x (snd (m w))))" for x
    using assms by (simp_all add: along_def)
  then show "R w (snd (and_act m f w))"
    by (auto simp: and_act_def split: prod.splits sum.splits) (blast intro: trans)
qed

lemma along_Inr: "along R m \<Longrightarrow> m w = (x, w') \<Longrightarrow> R w w'"
  unfolding along_def by (metis snd_conv)

lemmas rules = along_pure along_raise along_and

text \<open>The retried planner call, the template and the memory keep what their calls keep.\<close>

lemma along_attempts:
  assumes plan: "along R (call g (\<lambda>n. gx_plan g n leads))"
    and retry: "\<And>m. along R (call g (\<lambda>n. on_db (\<lambda>db. Inr (record_model_retry (gx_run g n) i t m db))))"
    and slept: "\<And>d. along R (sleep d)"
  shows "along R (plan_attempts g i t leads k delays)"
proof (induction delays arbitrary: k)
  case Nil
  show ?case
  proof (unfold along_def, intro allI)
    fix w
    have "R w (snd (call g (\<lambda>n. gx_plan g n leads) w))" using plan by (simp add: along_def)
    then show "R w (snd (plan_attempts g i t leads k [] w))"
      by (auto simp: plan_attempts.simps split: prod.splits sum.splits graph_error.splits)
  qed
next
  case (Cons d ds)
  let ?retry = "\<lambda>code detail. and_act (call g (\<lambda>n. on_db (\<lambda>db. Inr (record_model_retry (gx_run g n) i t
        (planner_retry k code detail d) db))))
      (\<lambda>recorded. if \<not> recorded then raise_act (RuntimeErr ''planner lost the worker lease while scheduling retry'')
         else and_act (sleep d) (\<lambda>_. plan_attempts g i t leads (Suc k) ds))"
  have again: "along R (?retry code detail)" for code detail
    by (intro along_and retry) (auto intro: along_and slept Cons.IH along_raise)
  show ?case
  proof (unfold along_def, intro allI)
    fix w
    have first: "R w (snd (call g (\<lambda>n. gx_plan g n leads) w))" using plan by (simp add: along_def)
    have later: "R v (snd (?retry code detail v))" for code detail v using again by (simp add: along_def)
    show "R w (snd (plan_attempts g i t leads k (d # ds) w))"
      using first trans [OF first later]
      by (auto simp: plan_attempts.simps split: prod.splits sum.splits graph_error.splits)
  qed
qed

end

section \<open>The tables during an execution\<close>

definition keeps_history :: "(research_state \<Rightarrow> string) \<Rightarrow> 'a service \<Rightarrow> bool" where
  "keeps_history h f \<longleftrightarrow> (\<forall>rt. (runtime_step h)\<^sup>*\<^sup>* rt (snd (f rt)))"

text \<open>
  What is assumed of the services and of other transactions: snapshots and patches are written by the state
  repository alone.
\<close>

definition graph_env_ok :: "(research_state \<Rightarrow> string) \<Rightarrow> graph_env \<Rightarrow> bool" where
  "graph_env_ok h g \<longleftrightarrow> (\<forall>n. se_hash (gx_state g n) = h \<and> (\<forall>rt. (runtime_step h)\<^sup>*\<^sup>* rt (gx_others g n rt))
     \<and> keeps_history h (gx_retrieve g n) \<and> (\<forall>s node. keeps_history h (gx_capture g n s node))
     \<and> (\<forall>leads. keeps_history h (gx_plan g n leads)) \<and> keeps_history h (gx_research g n)
     \<and> keeps_history h (gx_write g n))"

definition commits :: "(research_state \<Rightarrow> string) \<Rightarrow> world \<Rightarrow> world \<Rightarrow> bool" where
  "commits h w w' \<longleftrightarrow> (runtime_step h)\<^sup>*\<^sup>* (wd_rt w) (wd_rt w') \<and> wd_checkpoints w' = wd_checkpoints w"

interpretation history: act_relation "commits h" for h
  by unfold_locales (auto simp: commits_def)

lemma keeps_business:
  "(\<And>rt. rt_snapshots (snd (f rt)) = rt_snapshots rt \<and> rt_patches (snd (f rt)) = rt_patches rt) \<Longrightarrow> keeps_history h f"
  by (auto simp: keeps_history_def intro: runtime_step.business)

lemma keeps_on_db [along_rules]: "keeps_history h (on_db f)"
  by (rule keeps_business) (auto simp: on_db_def split: sum.splits prod.splits)

lemma keeps_reading [along_rules]: "keeps_history h (reading f)"
  by (rule keeps_business) (auto simp: reading_def split: sum.splits)

lemma keeps_synchronize: "se_hash env = h \<Longrightarrow> keeps_history h (transaction_of (synchronize env p i node task))"
  by (auto simp: keeps_history_def transaction_of_def intro: runtime_step.synchronized split: sum.splits prod.splits)

lemma keeps_initialize: "se_hash env = h \<Longrightarrow> keeps_history h (transaction_of (ensure_initialized env i))"
  by (auto simp: keeps_history_def transaction_of_def intro: runtime_step.initialised split: sum.splits prod.splits)

lemma call_commits [along_rules]:
  assumes "graph_env_ok h g" and "\<And>n. keeps_history h (f n)"
  shows "along (commits h) (call g f)"
  using assms
  by (auto simp: along_def commits_def call_def keeps_history_def graph_env_ok_def Let_def split: prod.splits)
    (metis rtranclp_trans snd_conv)

lemma sleep_commits [along_rules]: "along (commits h) (sleep d)"
  by (simp add: along_def commits_def sleep_def)

lemmas env_services = graph_env_ok_def

lemma service_commits:
  assumes env: "graph_env_ok h g"
  shows "along (commits h) (call g (gx_retrieve g))" "along (commits h) (call g (\<lambda>n. gx_capture g n s node))"
    "along (commits h) (call g (\<lambda>n. gx_plan g n leads))" "along (commits h) (call g (gx_research g))"
    "along (commits h) (call g (gx_write g))" "along (commits h) (synchronized_call g i node task)"
    "along (commits h) (call g (\<lambda>n. transaction_of (ensure_initialized (gx_state g n) i)))"
    "along (commits h) (captured g s node)" "along (commits h) (current_plan g i)"
    "along (commits h) (call g (\<lambda>n. on_db (f n)))" "along (commits h) (call g (\<lambda>n. reading (r n)))"
  using env
  by (auto simp: synchronized_call_def captured_def current_plan_def graph_env_ok_def
      intro!: call_commits keeps_synchronize keeps_initialize keeps_on_db keeps_reading history.along_pure)

text \<open>Every node only commits what its calls commit, and leaves the checkpoints to the engine.\<close>

lemma template_commits: "graph_env_ok h g \<Longrightarrow> along (commits h) (template_plan g budget)"
  by (auto simp: template_plan_def Let_def service_commits intro!: history.along_pure split: sum.splits option.splits)

lemma new_plan_commits: "graph_env_ok h g \<Longrightarrow> along (commits h) (new_plan g i t)"
  unfolding new_plan_def memory_leads_def generate_plan_with_retry_def
  by (auto intro!: history.rules history.along_attempts sleep_commits template_commits service_commits
      split: option.splits prod.splits)

lemma node_commits: "graph_env_ok h g \<Longrightarrow> along (commits h) (run_node g i t node gs)"
  by (cases node)
    (auto simp: planner_node_def research_node_def replan_node_def writer_node_def Let_def
      intro!: history.rules service_commits new_plan_commits)

section \<open>What a node returns\<close>

lemma and_act_Inr:
  "and_act m f w = (Inr y, w') \<longleftrightarrow> (\<exists>x w1. m w = (Inr x, w1) \<and> f x w1 = (Inr y, w'))"
  by (auto simp: and_act_def split: prod.splits sum.splits)

lemma and_act_returns:
  assumes "and_act m f w = (Inr y, w')" and "along R m" and "act_relation R"
  shows "\<exists>x w1. R w w1 \<and> f x w1 = (Inr y, w')"
  using assms act_relation.along_Inr unfolding and_act_Inr by metis

fun node_name :: "graph_node \<Rightarrow> string" where
  "node_name PlannerNode = ''planner''"
| "node_name ResearchNode = ''research_iteration''"
| "node_name ReplanNode = ''replan''"
| "node_name WriterNode = ''report_writer''"

definition node_task :: "graph_node \<Rightarrow> dispatch_key \<Rightarrow> dispatch_key option" where
  "node_task node t = (if node = WriterNode then None else Some t)"

text \<open>\<open>s\<close> is the state that a synchronisation stored between the two worlds.\<close>

definition stored_between ::
    "(research_state \<Rightarrow> string) \<Rightarrow> uuid \<Rightarrow> string \<Rightarrow> dispatch_key option \<Rightarrow> world \<Rightarrow> research_state \<Rightarrow> world \<Rightarrow> bool" where
  "stored_between h i name task w s w' \<longleftrightarrow>
     (\<exists>env pid rt1 rt2. se_hash env = h \<and> (runtime_step h)\<^sup>*\<^sup>* (wd_rt w) rt1
        \<and> synchronize env pid i name task rt1 = Inr (s, rt2) \<and> (runtime_step h)\<^sup>*\<^sup>* rt2 (wd_rt w')
        \<and> wd_checkpoints w' = wd_checkpoints w)"

lemma synchronized_stored:
  assumes env: "graph_env_ok h g" and "synchronized_call g i name task w = (Inr s, w')"
  shows "stored_between h i name task w s w'"
proof -
  let ?n = "wd_calls w"
  have "synchronize (gx_state g ?n) (gx_patch_id g ?n) i name task (gx_others g ?n (wd_rt w)) = Inr (s, wd_rt w')"
    and "wd_checkpoints w' = wd_checkpoints w"
    using assms(2)
    by (auto simp: synchronized_call_def call_def transaction_of_def Let_def split: sum.splits prod.splits)
  with env show ?thesis unfolding stored_between_def graph_env_ok_def by blast
qed

lemma stored_before: "commits h w w1 \<Longrightarrow> stored_between h i name task w1 s w' \<Longrightarrow> stored_between h i name task w s w'"
  unfolding stored_between_def commits_def by (metis rtranclp_trans)

lemma stored_after: "stored_between h i name task w s w1 \<Longrightarrow> commits h w1 w' \<Longrightarrow> stored_between h i name task w s w'"
  unfolding stored_between_def commits_def by (metis rtranclp_trans)

text \<open>The end of a node: it stores a state, shows it to the memory and returns it.\<close>

lemma tail_returns:
  assumes env: "graph_env_ok h g"
    and run: "and_act (synchronized_call g i name task)
      (\<lambda>s. and_act (captured g s name) (\<lambda>_. pure_act (mk s))) w = (Inr gs, w')"
  shows "\<exists>s. gs = mk s \<and> stored_between h i name task w s w'"
proof -
  obtain s w1 where s: "synchronized_call g i name task w = (Inr s, w1)"
    and rest: "and_act (captured g s name) (\<lambda>_. pure_act (mk s)) w1 = (Inr gs, w')"
    using run unfolding and_act_Inr by blast
  then have gs: "gs = mk s" by (auto simp: and_act_Inr pure_act_def)
  have "along (commits h) (and_act (captured g s name) (\<lambda>_. pure_act (mk s)))"
    by (intro history.rules service_commits env)
  from history.along_Inr [OF this rest] have "commits h w1 w'" .
  with synchronized_stored [OF env s] gs show ?thesis using stored_after by blast
qed

definition iteration_after :: "graph_node \<Rightarrow> int \<Rightarrow> int" where
  "iteration_after node n = (case node of PlannerNode \<Rightarrow> 0 | ResearchNode \<Rightarrow> n + 1 | _ \<Rightarrow> n)"

lemma node_returns:
  assumes env: "graph_env_ok h g" and run: "run_node g i t node gs w = (Inr gs', w')"
  shows "stored_between h i (node_name node) (node_task node t) w (gs_state gs') w'
    \<and> gs_run_id gs' = i \<and> gs_iteration gs' = iteration_after node (gs_iteration gs)"
proof (cases node)
  case PlannerNode
  note parts = run [unfolded PlannerNode, simplified, unfolded planner_node_def]
  obtain p :: "research_plan option" and w1 where 1: "commits h w w1"
      "and_act (if p = None then new_plan g i t else pure_act ())
        (\<lambda>_. and_act (synchronized_call g i ''planner'' (Some t))
        (\<lambda>s. and_act (captured g s ''planner'') (\<lambda>_. pure_act \<lparr>gs_run_id = i, gs_state = s, gs_outcome = ''planned'',
          gs_continue = True, gs_iteration = 0, gs_replan = False\<rparr>))) w1 = (Inr gs', w')"
    using and_act_returns [OF parts service_commits(9) [OF env] history.act_relation_axioms] by blast
  have "along (commits h) (if p = None then new_plan g i t else pure_act ())"
    by (auto intro: new_plan_commits env history.along_pure)
  then obtain w2 where 2: "commits h w1 w2"
      "and_act (synchronized_call g i ''planner'' (Some t))
        (\<lambda>s. and_act (captured g s ''planner'') (\<lambda>_. pure_act \<lparr>gs_run_id = i, gs_state = s, gs_outcome = ''planned'',
          gs_continue = True, gs_iteration = 0, gs_replan = False\<rparr>)) w2 = (Inr gs', w')"
    using and_act_returns [OF 1(2) _ history.act_relation_axioms] by blast
  from tail_returns [OF env 2(2)] stored_before [OF 2(1)] stored_before [OF 1(1)] show ?thesis
    by (auto simp: PlannerNode node_task_def iteration_after_def)
next
  case ResearchNode
  obtain r :: iteration_result and w1 where 1: "commits h w w1"
      "and_act (synchronized_call g i ''research_iteration'' (Some t))
        (\<lambda>s. and_act (captured g s ''research_iteration'') (\<lambda>_. pure_act \<lparr>gs_run_id = i, gs_state = s,
          gs_outcome = ir_outcome r, gs_continue = ir_continue r, gs_iteration = gs_iteration gs + 1,
          gs_replan = (ir_decision r = ''replan'')\<rparr>)) w1 = (Inr gs', w')"
    using and_act_returns [OF run [unfolded ResearchNode, simplified, unfolded research_node_def]
        service_commits(4) [OF env] history.act_relation_axioms] by blast
  from tail_returns [OF env 1(2)] stored_before [OF 1(1)] show ?thesis
    by (auto simp: ResearchNode node_task_def iteration_after_def)
next
  case ReplanNode
  note parts = run [unfolded ReplanNode, simplified, unfolded replan_node_def]
  from parts obtain p w1 s w2 saved w3 s2 where steps: "current_plan g i w = (Inr p, w1)"
      "synchronized_call g i ''replan'' (Some t) w1 = (Inr s, w2)"
      "call g (\<lambda>n. on_db (save_gap_resolution_plan (gx_run g n) i t (coverage_gaps (st_coverage_map s)))) w2 = (Inr saved, w3)"
      "synchronized_call g i ''replan'' (Some t) w3 = (Inr s2, w')"
      and gs': "gs_state gs' = s2" "gs_run_id gs' = i" "gs_iteration gs' = gs_iteration gs"
    by (auto simp: and_act_Inr Let_def raise_act_def pure_act_def split: if_splits)
  have "commits h w w3"
    using history.along_Inr [OF service_commits(9) [OF env] steps(1)]
      history.along_Inr [OF service_commits(6) [OF env] steps(2)]
      history.along_Inr [OF service_commits(10) [OF env] steps(3)]
    by (metis history.trans)
  from stored_before [OF this synchronized_stored [OF env steps(4)]] gs' show ?thesis
    by (simp add: ReplanNode node_task_def iteration_after_def)
next
  case WriterNode
  obtain out w1 where 1: "commits h w w1"
      "and_act (synchronized_call g i ''report_writer'' None)
        (\<lambda>s. and_act (captured g s ''report_writer'') (\<lambda>_. pure_act \<lparr>gs_run_id = i, gs_state = s,
          gs_outcome = out, gs_continue = False, gs_iteration = gs_iteration gs, gs_replan = False\<rparr>)) w1 = (Inr gs', w')"
    using and_act_returns [OF run [unfolded WriterNode, simplified, unfolded writer_node_def]
        service_commits(5) [OF env] history.act_relation_axioms] by blast
  from tail_returns [OF env 1(2)] stored_before [OF 1(1)] show ?thesis
    by (auto simp: WriterNode node_task_def iteration_after_def)
qed

section \<open>Every checkpoint is a stored state\<close>

lemma history_grows:
  assumes "(runtime_step h)\<^sup>*\<^sup>* rt rt'"
  shows "\<exists>ps. rt_patches rt' = rt_patches rt @ ps"
  using assms
proof (induction rule: rtranclp_induct)
  case (step rt1 rt2)
  from step.hyps(2) have "\<exists>ps. rt_patches rt2 = rt_patches rt1 @ ps"
  proof cases
    case (synchronized env pid j node task s)
    obtain sn r patch where "store_state env node j patch s sn r rt1 = Inr rt2"
      using synchronize_cases [OF synchronized(2)] by metis
    from store_state_tables(2) [OF this] show ?thesis by blast
  qed (auto simp: ensure_initialized_def Let_def split: option.splits sum.splits prod.splits)
  with step.IH show ?case by auto
qed simp

lemma history_ok: "(runtime_step h)\<^sup>*\<^sup>* rt rt' \<Longrightarrow> runtime_ok h rt \<Longrightarrow> runtime_ok h rt'"
  by (induction rule: rtranclp_induct) (auto intro: runtime_step_ok)

lemma history_snapshot:
  assumes "(runtime_step h)\<^sup>*\<^sup>* rt rt'" and ok: "runtime_ok h rt" and sn: "find_snapshot i rt = Some sn"
  shows "\<exists>sn'. find_snapshot i rt' = Some sn' \<and> sn_version sn \<le> sn_version sn'"
  using assms(1)
proof (induction rule: rtranclp_induct)
  case base
  show ?case using sn by simp
next
  case (step rt1 rt2)
  then obtain sn1 where sn1: "find_snapshot i rt1 = Some sn1" "sn_version sn \<le> sn_version sn1" by blast
  from runtime_step_extends [OF step.hyps(2) history_ok [OF step.hyps(1) ok] sn1(1)] sn1(2)
  show ?case by (auto simp: extends_def)
qed

definition in_log :: "(research_state \<Rightarrow> string) \<Rightarrow> uuid \<Rightarrow> string \<Rightarrow> research_state \<Rightarrow> runtime \<Rightarrow> bool" where
  "in_log h i name s rt \<longleftrightarrow> (\<exists>p \<in> set (rt_patches rt). pt_run_id p = i \<and> pt_node p = name
     \<and> pt_result p = st_version s \<and> pt_hash p = h s)"

lemma synchronized_snapshot:
  assumes sync: "synchronize env pid i name task rt = Inr (s, rt')" and h: "se_hash env = h" and ok: "runtime_ok h rt"
  shows "state_inv s \<and> st_next_action s = None \<and> in_log h i name s rt'
    \<and> (\<exists>sn'. find_snapshot i rt' = Some sn' \<and> sn_version sn' = st_version s)
    \<and> (\<forall>sn. find_snapshot i rt = Some sn \<longrightarrow> sn_version sn < st_version s)"
proof -
  obtain sn r patch where sn: "find_snapshot i rt = Some sn" "st_version (sn_state sn) = sn_version sn"
    and p: "project_patch env pid i (sn_state sn) r rt = Inr patch" and s: "apply_patch (sn_state sn) patch = Inr s"
    and st: "store_state env name i patch s sn r rt = Inr rt'"
    using synchronize_cases [OF sync] by metis
  note mem = find_snapshot_mem [OF sn(1)] and tabs = store_state_tables [OF st]
  let ?sn = "sn\<lparr>sn_version := st_version s, sn_state := s, sn_hash := se_hash env s, sn_updated_at := se_now env\<rparr>"
  have s': "s = patched (sn_state sn) patch" "state_inv s" using s unfolding apply_patch_Inr by blast+
  then have version: "st_version s = sn_version sn + 1" using sn(2) by (simp add: patched_def)
  have "st_next_action s = None"
    using project_patch_fields [OF p] ok mem by (simp add: s'(1) patched_def runtime_ok_def snapshot_ok_def)
  moreover have "find_snapshot i rt' = Some ?sn"
    using find_snapshot_put [OF sn(1), of ?sn i] mem by (simp add: find_snapshot_def tabs(1))
  ultimately show ?thesis using s'(2) sn(1) version by (auto simp: in_log_def tabs(2) h)
qed

lemma in_log_later: "in_log h i name s rt \<Longrightarrow> (runtime_step h)\<^sup>*\<^sup>* rt rt' \<Longrightarrow> in_log h i name s rt'"
  using history_grows [of h rt rt'] by (auto simp: in_log_def)

lemma stored_facts:
  assumes st: "stored_between h i name task w s w'" and ok: "runtime_ok h (wd_rt w)"
  shows "runtime_ok h (wd_rt w') \<and> state_inv s \<and> st_next_action s = None \<and> in_log h i name s (wd_rt w')
    \<and> (\<exists>sn'. find_snapshot i (wd_rt w') = Some sn' \<and> st_version s \<le> sn_version sn')
    \<and> (\<forall>sn. find_snapshot i (wd_rt w) = Some sn \<longrightarrow> sn_version sn < st_version s)"
proof -
  from st obtain env pid rt1 rt2 where h: "se_hash env = h" and r1: "(runtime_step h)\<^sup>*\<^sup>* (wd_rt w) rt1"
    and sync: "synchronize env pid i name task rt1 = Inr (s, rt2)" and r2: "(runtime_step h)\<^sup>*\<^sup>* rt2 (wd_rt w')"
    unfolding stored_between_def by blast
  have ok1: "runtime_ok h rt1" and ok2: "runtime_ok h rt2"
    using history_ok [OF r1 ok] synchronize_ok [OF sync h] by blast+
  note facts = synchronized_snapshot [OF sync h ok1]
  obtain sn2 where "find_snapshot i rt2 = Some sn2" "sn_version sn2 = st_version s" using facts by blast
  with history_snapshot [OF r2 ok2] have "\<exists>sn'. find_snapshot i (wd_rt w') = Some sn' \<and> st_version s \<le> sn_version sn'"
    by metis
  moreover have "sn_version sn < st_version s" if "find_snapshot i (wd_rt w) = Some sn" for sn
    using history_snapshot [OF r1 ok that] facts by fastforce
  ultimately show ?thesis using facts in_log_later [OF _ r2] history_ok [OF r2 ok2] by blast
qed

text \<open>The checkpoints of one execution of the run \<open>i\<close>, and what each further one adds.\<close>

definition checkpoint_ok :: "(research_state \<Rightarrow> string) \<Rightarrow> uuid \<Rightarrow> runtime \<Rightarrow> graph_node \<times> graph_state \<Rightarrow> bool" where
  "checkpoint_ok h i rt c \<longleftrightarrow> gs_run_id (snd c) = i \<and> state_inv (gs_state (snd c))
     \<and> st_next_action (gs_state (snd c)) = None \<and> in_log h i (node_name (fst c)) (gs_state (snd c)) rt"

definition version_at :: "graph_node \<times> graph_state \<Rightarrow> int" where
  "version_at c = st_version (gs_state (snd c))"

definition checkpoints_ok :: "(research_state \<Rightarrow> string) \<Rightarrow> uuid \<Rightarrow> world \<Rightarrow> bool" where
  "checkpoints_ok h i w \<longleftrightarrow> runtime_ok h (wd_rt w) \<and> (\<forall>c \<in> set (wd_checkpoints w). checkpoint_ok h i (wd_rt w) c)
     \<and> sorted_wrt (<) (map version_at (wd_checkpoints w))
     \<and> (\<forall>c \<in> set (wd_checkpoints w). \<exists>sn. find_snapshot i (wd_rt w) = Some sn \<and> version_at c \<le> sn_version sn)"

lemma checkpoints_later:
  assumes "commits h w w'" and "checkpoints_ok h i w"
  shows "checkpoints_ok h i w'"
proof -
  have r: "(runtime_step h)\<^sup>*\<^sup>* (wd_rt w) (wd_rt w')" and cps: "wd_checkpoints w' = wd_checkpoints w"
    using assms(1) by (simp_all add: commits_def)
  have ok: "runtime_ok h (wd_rt w)" using assms(2) by (simp add: checkpoints_ok_def)
  have "\<exists>sn. find_snapshot i (wd_rt w') = Some sn \<and> version_at c \<le> sn_version sn" if "c \<in> set (wd_checkpoints w)" for c
    using assms(2) that history_snapshot [OF r ok] unfolding checkpoints_ok_def by (metis order_trans)
  then show ?thesis
    using assms(2) history_ok [OF r ok] in_log_later [OF _ r] unfolding checkpoints_ok_def checkpoint_ok_def cps by blast
qed

lemma checkpoint_added:
  assumes env: "graph_env_ok h g" and run: "run_node g i t node gs w = (Inr gs', w1)" and ok: "checkpoints_ok h i w"
  shows "checkpoints_ok h i (w1\<lparr>wd_checkpoints := wd_checkpoints w1 @ [(node, gs')]\<rparr>)"
proof -
  note node = node_returns [OF env run]
  have facts: "runtime_ok h (wd_rt w1) \<and> state_inv (gs_state gs') \<and> st_next_action (gs_state gs') = None
      \<and> in_log h i (node_name node) (gs_state gs') (wd_rt w1)
      \<and> (\<exists>sn'. find_snapshot i (wd_rt w1) = Some sn' \<and> st_version (gs_state gs') \<le> sn_version sn')
      \<and> (\<forall>sn. find_snapshot i (wd_rt w) = Some sn \<longrightarrow> sn_version sn < st_version (gs_state gs'))"
    using stored_facts node ok unfolding checkpoints_ok_def by blast
  have com: "commits h w w1" by (rule history.along_Inr [OF node_commits [OF env] run])
  have later: "checkpoints_ok h i w1" by (rule checkpoints_later [OF com ok])
  have "version_at c < version_at (node, gs')" if "c \<in> set (wd_checkpoints w1)" for c
    using ok facts that com unfolding checkpoints_ok_def commits_def version_at_def by fastforce
  then show ?thesis
    using later facts node by (auto simp: checkpoints_ok_def checkpoint_ok_def sorted_wrt_append version_at_def)
qed

lemma path_checkpoints:
  assumes env: "graph_env_ok h g" and "engine_path (run_node g i t) next_node node gs w x w'"
  shows "checkpoints_ok h i w \<Longrightarrow> checkpoints_ok h i w'"
  using assms(2)
proof (induction rule: engine_path.induct)
  case (raises node gs w e w1)
  show ?case by (rule checkpoints_later [OF history.along_Inr [OF node_commits [OF env] raises(1)] raises(2)])
next
  case (unsaved node gs w gs' w1 e)
  show ?case by (rule checkpoints_later [OF history.along_Inr [OF node_commits [OF env] unsaved(1)] unsaved(2)])
qed (auto simp: checkpoint_def dest: checkpoint_added [OF env])

text \<open>
  C22. Every state the graph hands on is a stored one. However planner, research loop, writer, memory and
  other transactions behave, as long as only the state repository writes snapshots and patches, each
  checkpoint of an execution, whether it returns or raises, holds a valid research state of the run with
  no pending action, which is the result of a patch that this node wrote to the log under the hash of the
  state; and the versions of the checkpoints grow from node to node.
\<close>

theorem checkpoints_are_stored_states:
  assumes "graph_env_ok h g" and "(runtime_step h)\<^sup>*\<^sup>* empty_runtime (wd_rt w)" and "wd_checkpoints w = []"
    and "engine_follows engine" and "execute_graph engine g i t w = (out, w')"
  shows "(\<forall>(node, gs) \<in> set (wd_checkpoints w'). gs_run_id gs = i \<and> state_inv (gs_state gs)
      \<and> st_next_action (gs_state gs) = None
      \<and> (\<exists>p \<in> set (rt_patches (wd_rt w')). pt_run_id p = i \<and> pt_node p = node_name node
          \<and> pt_result p = st_version (gs_state gs) \<and> pt_hash p = h (gs_state gs)))
    \<and> sorted_wrt (<) (map (\<lambda>(node, gs). st_version (gs_state gs)) (wd_checkpoints w'))"
proof -
  have "runtime_ok h (wd_rt w)"
    by (rule history_ok [OF assms(2)]) (simp add: runtime_ok_def empty_runtime_def)
  then have start: "checkpoints_ok h i w" using assms(3) by (simp add: checkpoints_ok_def)
  obtain x w1 where init: "call g (\<lambda>n. transaction_of (ensure_initialized (gx_state g n) i)) w = (x, w1)"
    by (cases "call g (\<lambda>n. transaction_of (ensure_initialized (gx_state g n) i)) w")
  have ok1: "checkpoints_ok h i w1"
    by (rule checkpoints_later [OF history.along_Inr [OF service_commits(7) [OF assms(1)] init] start])
  have "checkpoints_ok h i w'"
  proof (cases x)
    case (Inl e)
    then show ?thesis using assms(5) init ok1 by (simp add: execute_graph_def and_act_def)
  next
    case (Inr s)
    let ?gs = "\<lparr>gs_run_id = i, gs_state = s, gs_outcome = ''initialized'', gs_continue = True, gs_iteration = 0,
        gs_replan = False\<rparr>"
    obtain y where "engine (run_node g i t) next_node PlannerNode ?gs w1 = (y, w')"
      using assms(5) init Inr by (auto simp: execute_graph_def and_act_def pure_act_def split: prod.splits sum.splits)
    with assms(4) have "engine_path (run_node g i t) next_node PlannerNode ?gs w1 y w'" by (simp add: engine_follows_def)
    from path_checkpoints [OF assms(1) this ok1] show ?thesis .
  qed
  then show ?thesis
    by (auto simp: checkpoints_ok_def checkpoint_ok_def in_log_def version_at_def split_beta cong: map_cong)
qed

section \<open>The order of the nodes\<close>

text \<open>The flags and the outcome a research node hands on are those of a result the research loop returned to it.\<close>

definition decided :: "graph_env \<Rightarrow> graph_state \<Rightarrow> bool" where
  "decided g gs \<longleftrightarrow> (\<exists>n rt r rt'. gx_research g n rt = (Inr r, rt') \<and> gs_outcome gs = ir_outcome r
     \<and> gs_continue gs = ir_continue r \<and> gs_replan gs = (ir_decision r = ''replan''))"

lemma research_decides:
  assumes "research_node g i t gs w = (Inr gs', w')"
  shows "decided g gs'"
proof -
  obtain r :: iteration_result and w1 s w2 where "call g (gx_research g) w = (Inr r, w1)"
      and gs': "gs' = \<lparr>gs_run_id = i, gs_state = s, gs_outcome = ir_outcome r, gs_continue = ir_continue r,
       gs_iteration = gs_iteration gs + 1, gs_replan = (ir_decision r = ''replan'')\<rparr>"
    using assms by (auto simp: research_node_def and_act_Inr pure_act_def)
  then have "gx_research g (wd_calls w) (gx_others g (wd_calls w) (wd_rt w)) = (Inr r, wd_rt w1)"
    by (auto simp: call_def Let_def split: prod.splits)
  then show ?thesis using gs' unfolding decided_def by fastforce
qed

fun walk :: "graph_node \<Rightarrow> graph_state \<Rightarrow> (graph_node \<times> graph_state) list \<Rightarrow> bool" where
  "walk node gs [] \<longleftrightarrow> True"
| "walk node gs ((n, gs') # tr) \<longleftrightarrow> n = node \<and> gs_iteration gs' = iteration_after node (gs_iteration gs)
     \<and> (case next_node node gs' of None \<Rightarrow> tr = [] | Some following \<Rightarrow> walk following gs' tr)"

lemma node_facts:
  assumes "graph_env_ok h g" and "run_node g i t node gs w = (x, w1)"
  shows "wd_checkpoints w1 = wd_checkpoints w"
    "x = Inr gs' \<Longrightarrow> gs_iteration gs' = iteration_after node (gs_iteration gs)"
    "x = Inr gs' \<Longrightarrow> node = ResearchNode \<Longrightarrow> decided g gs'"
  using assms history.along_Inr [OF node_commits [OF assms(1)] assms(2)]
  by (auto simp: commits_def dest: node_returns research_decides)

lemma path_walk:
  assumes env: "graph_env_ok h g" and "engine_path (run_node g i t) next_node node gs w x w'"
  shows "\<exists>tr. wd_checkpoints w' = wd_checkpoints w @ tr \<and> walk node gs tr
    \<and> (\<forall>(n, gs) \<in> set tr. n = ResearchNode \<longrightarrow> decided g gs)
    \<and> (case x of Inl e \<Rightarrow> True | Inr final \<Rightarrow> tr \<noteq> [] \<and> last tr = (WriterNode, final))"
  using assms(2)
proof (induction rule: engine_path.induct)
  case (stops node gs w e)
  then show ?case by (intro exI [of _ "[]"]) simp
next
  case (raises node gs w e w1)
  then show ?case using node_facts(1) [OF env] by (intro exI [of _ "[]"]) auto
next
  case (unsaved node gs w gs' w1 e)
  then show ?case using node_facts(1) [OF env] by (intro exI [of _ "[]"]) auto
next
  case (stops_late node gs w gs' w1 e)
  then show ?case using node_facts [OF env stops_late(1)] by (intro exI [of _ "[(node, gs')]"]) (auto simp: checkpoint_def)
next
  case (ends node gs w gs' w1)
  then have "node = WriterNode" by (cases node) auto
  then show ?case using ends node_facts [OF env ends(1)] by (intro exI [of _ "[(node, gs')]"]) (auto simp: checkpoint_def)
next
  case (goes_on node gs w gs' w1 following x w')
  then obtain tr where tr: "wd_checkpoints w' = wd_checkpoints w @ (node, gs') # tr" "walk following gs' tr"
      "\<forall>(n, gs) \<in> set tr. n = ResearchNode \<longrightarrow> decided g gs"
      "case x of Inl e \<Rightarrow> True | Inr final \<Rightarrow> tr \<noteq> [] \<and> last tr = (WriterNode, final)"
    using node_facts(1) [OF env goes_on(1)] by (auto simp: checkpoint_def)
  then show ?case using goes_on(2) node_facts(2,3) [OF env goes_on(1)]
    by (intro exI [of _ "(node, gs') # tr"]) (auto split: sum.splits)
qed

lemma execute_returns:
  assumes env: "graph_env_ok h g" and engine: "engine_follows engine" and run: "execute_graph engine g i t w = (Inr outcome, w')"
  shows "\<exists>final. wd_checkpoints w' \<noteq> [] \<and> last (wd_checkpoints w') = (WriterNode, final) \<and> outcome = gs_outcome final"
proof -
  obtain gs w1 final where "engine (run_node g i t) next_node PlannerNode gs w1 = (Inr final, w')" "outcome = gs_outcome final"
    using run by (auto simp: execute_graph_def and_act_Inr pure_act_def)
  with path_walk [OF env, of i t PlannerNode gs w1 "Inr final" w'] engine show ?thesis
    by (auto simp: engine_follows_def)
qed

lemma walk_planner: "walk node gs tr \<Longrightarrow> node \<noteq> PlannerNode \<Longrightarrow> PlannerNode \<notin> fst ` set tr"
proof (induction node gs tr rule: walk.induct)
  case (2 node gs n gs' tr)
  show ?case
  proof (cases "next_node node gs'")
    case None
    then show ?thesis using 2 by auto
  next
    case (Some following)
    then have "following \<noteq> PlannerNode" using 2(3) by (cases node) (auto simp: route_after_research_def split: if_splits)
    then show ?thesis using 2 Some by auto
  qed
qed simp

lemma walk_next:
  "walk node gs tr \<Longrightarrow> Suc k < length tr \<Longrightarrow> next_node (fst (tr ! k)) (snd (tr ! k)) = Some (fst (tr ! Suc k))"
proof (induction node gs tr arbitrary: k rule: walk.induct)
  case (2 node gs n gs' tr)
  then show ?case by (cases k; cases tr) (auto split: option.splits)
qed simp

definition research_count :: "(graph_node \<times> graph_state) list \<Rightarrow> nat" where
  "research_count tr = length (filter (\<lambda>(n, _). n = ResearchNode) tr)"

lemma walk_iteration:
  "walk node gs tr \<Longrightarrow> node \<noteq> PlannerNode \<or> gs_iteration gs = 0 \<Longrightarrow> k < length tr
     \<Longrightarrow> gs_iteration (snd (tr ! k)) = gs_iteration gs + int (research_count (take (Suc k) tr))"
proof (induction node gs tr arbitrary: k rule: walk.induct)
  case (2 node gs n gs' tr)
  have head: "gs_iteration gs' = gs_iteration gs + (if node = ResearchNode then 1 else 0)"
    using 2(2,3) by (cases node) (auto simp: iteration_after_def)
  show ?case
  proof (cases k)
    case 0
    then show ?thesis using 2(2) head by (auto simp: research_count_def)
  next
    case (Suc k')
    then obtain following where f: "next_node node gs' = Some following" "walk following gs' tr"
      using 2(2,4) by (auto split: option.splits)
    then have "following \<noteq> PlannerNode" by (cases node) (auto simp: route_after_research_def split: if_splits)
    with 2(1) [OF f(1) f(2), of k'] 2(2,4) head Suc show ?thesis by (auto simp: research_count_def)
  qed
qed simp

lemma walk_planner_first:
  assumes "walk PlannerNode gs tr" and "k < length tr"
  shows "fst (tr ! k) = PlannerNode \<longleftrightarrow> k = 0"
proof (cases tr)
  case (Cons c rest)
  then have "fst c = PlannerNode" "PlannerNode \<notin> fst ` set rest"
    using assms(1) walk_planner [of ResearchNode "snd c" rest] by (cases c; auto)+
  then show ?thesis using assms(2) Cons by (cases k) (auto, metis image_eqI nth_mem)
qed (use assms in simp)

lemma walk_order:
  assumes "walk node gs tr" and "Suc k < length tr"
  shows "fst (tr ! k) \<noteq> WriterNode
    \<and> (fst (tr ! k) = PlannerNode \<or> fst (tr ! k) = ReplanNode \<longrightarrow> fst (tr ! Suc k) = ResearchNode)"
  using walk_next [OF assms] by (cases "fst (tr ! k)") auto

lemma walk_decides:
  assumes "walk node gs tr" and "\<forall>(n, gs) \<in> set tr. n = ResearchNode \<longrightarrow> decided g gs"
    and "k < length tr" and "fst (tr ! k) = ResearchNode"
  shows "\<exists>n rt r rt'. gx_research g n rt = (Inr r, rt') \<and> gs_outcome (snd (tr ! k)) = ir_outcome r
    \<and> (Suc k < length tr \<longrightarrow> fst (tr ! Suc k) =
        (if ir_decision r = ''replan'' then ReplanNode else if ir_continue r then ResearchNode else WriterNode))"
proof -
  have "decided g (snd (tr ! k))" using assms(2-4) nth_mem [OF assms(3)] by (auto simp: split_beta)
  then obtain n rt r rt' where r: "gx_research g n rt = (Inr r, rt')" "gs_outcome (snd (tr ! k)) = ir_outcome r"
      "gs_continue (snd (tr ! k)) = ir_continue r" "gs_replan (snd (tr ! k)) = (ir_decision r = ''replan'')"
    unfolding decided_def by blast
  have "fst (tr ! Suc k) = (if ir_decision r = ''replan'' then ReplanNode else if ir_continue r then ResearchNode else WriterNode)"
    if "Suc k < length tr"
    using walk_next [OF assms(1) that] assms(4) r(3,4) by (auto simp: route_after_research_def split: if_splits)
  with r(1,2) show ?thesis by blast
qed

text \<open>
  C18. An execution does what its iterations decide. Whatever the services do, and for every engine that
  follows the edges, the checkpoints are those of one planner, then of research iterations and replans. Each
  research checkpoint carries the outcome of a result that the research loop returned, and the node after it
  is the replan if the result decided so, else research if it wants to go on, else the writer; after the
  planner and after a replan comes research, and after the writer nothing; the counter of iterations is the
  number of research checkpoints. An execution that returns ends with the writer's checkpoint and its outcome.
\<close>

theorem execution_follows_the_decisions:
  assumes "graph_env_ok h g" and "wd_checkpoints w = []" and "engine_follows engine"
    and "execute_graph engine g i t w = (out, w')"
  shows "(let tr = wd_checkpoints w' in
      (\<forall>k < length tr. (fst (tr ! k) = PlannerNode \<longleftrightarrow> k = 0)
        \<and> gs_iteration (snd (tr ! k)) = int (research_count (take (Suc k) tr))
        \<and> (fst (tr ! k) = ResearchNode \<longrightarrow> (\<exists>n rt r rt'. gx_research g n rt = (Inr r, rt')
            \<and> gs_outcome (snd (tr ! k)) = ir_outcome r
            \<and> (Suc k < length tr \<longrightarrow> fst (tr ! Suc k) =
                (if ir_decision r = ''replan'' then ReplanNode else if ir_continue r then ResearchNode else WriterNode)))))
    \<and> (\<forall>k. Suc k < length tr \<longrightarrow> fst (tr ! k) \<noteq> WriterNode
        \<and> (fst (tr ! k) = PlannerNode \<or> fst (tr ! k) = ReplanNode \<longrightarrow> fst (tr ! Suc k) = ResearchNode))
    \<and> (case out of Inl e \<Rightarrow> True
        | Inr outcome \<Rightarrow> \<exists>final. tr \<noteq> [] \<and> last tr = (WriterNode, final) \<and> outcome = gs_outcome final))"
proof -
  obtain x w1 where init: "call g (\<lambda>n. transaction_of (ensure_initialized (gx_state g n) i)) w = (x, w1)"
    by (cases "call g (\<lambda>n. transaction_of (ensure_initialized (gx_state g n) i)) w")
  have w1: "wd_checkpoints w1 = []"
    using history.along_Inr [OF service_commits(7) [OF assms(1)] init] assms(2) by (simp add: commits_def)
  show ?thesis
  proof (cases x)
    case (Inl e)
    then show ?thesis using assms(4) init w1 by (auto simp: execute_graph_def and_act_def)
  next
    case (Inr s)
    let ?gs = "\<lparr>gs_run_id = i, gs_state = s, gs_outcome = ''initialized'', gs_continue = True, gs_iteration = 0,
        gs_replan = False\<rparr>"
    obtain y where graph: "engine (run_node g i t) next_node PlannerNode ?gs w1 = (y, w')"
      and out: "out = map_sum id gs_outcome y"
      using assms(4) init Inr by (auto simp: execute_graph_def and_act_def pure_act_def split: prod.splits sum.splits)
    from graph assms(3) have "engine_path (run_node g i t) next_node PlannerNode ?gs w1 y w'" by (simp add: engine_follows_def)
    from path_walk [OF assms(1) this] w1 have tr: "walk PlannerNode ?gs (wd_checkpoints w')"
        and dec: "\<forall>(n, gs) \<in> set (wd_checkpoints w'). n = ResearchNode \<longrightarrow> decided g gs"
        and last: "case y of Inl e \<Rightarrow> True
          | Inr final \<Rightarrow> wd_checkpoints w' \<noteq> [] \<and> last (wd_checkpoints w') = (WriterNode, final)"
      by auto
    show ?thesis
      using walk_planner_first [OF tr] walk_iteration [OF tr] walk_decides [OF tr dec] walk_order [OF tr] last out
      by (cases y) (simp_all add: Let_def)
  qed
qed

text \<open>A run with a stored plan, whose second research iteration is content.\<close>

definition demo_ready :: world where
  "demo_ready =
     \<lparr>wd_rt = (demo_runtime [])\<lparr>rt_db := \<lparr>db_runs = [(demo_row [])\<lparr>rr_constraints :=
          [(''plan_goal'', JStr (rn_goal demo_plan)), (''plan_scope_summary'', JStr (rn_scope demo_plan)),
           (''plan_completion_criteria'', JList (map JStr (rn_criteria demo_plan)))]\<rparr>], db_events = [],
        db_outbox = [], db_items = plan_rows (UUID 7) 1 (\<lambda>_. ''pending'') (rn_questions demo_plan)\<rparr>\<rparr>,
      wd_calls = 0, wd_checkpoints = [], wd_slept = 0\<rparr>"

text \<open>Its services: the model answers from the sixth call on, research goes on before the fourth.\<close>

definition demo_graph_env :: graph_env where
  "demo_graph_env =
     \<lparr>gx_run = (\<lambda>n. \<lparr>en_now = int n, en_show = (\<lambda>_. ''id''), en_str = (\<lambda>_. [])\<rparr>),
      gx_state = (\<lambda>_. demo_env), gx_patch_id = (\<lambda>n. UUID (50 + n)), gx_uuid_of = (\<lambda>_. None),
      gx_others = (\<lambda>_ rt. rt), gx_memories = False, gx_retrieve = (\<lambda>_ rt. (Inr [], rt)),
      gx_capture = (\<lambda>_ _ _ rt. (Inr (), rt)),
      gx_plan = (\<lambda>n _ rt. (if n < 6 then Inl (GatewayError True ''MODEL_TIMEOUT'' None) else Inr (demo_plan, unmetered), rt)),
      gx_research = (\<lambda>n rt. (Inr \<lparr>ir_outcome = ''searched'', ir_continue = n < 4, ir_decision = ''continue''\<rparr>, rt)),
      gx_write = (\<lambda>_ rt. (Inr ''completed'', rt))\<rparr>"

text \<open>An engine that allows \<open>limit\<close> node executions.\<close>

fun bounded_engine :: "nat \<Rightarrow> engine" where
  "bounded_engine 0 nodes edges node gs w = (Inl RecursionLimit, w)"
| "bounded_engine (Suc limit) nodes edges node gs w =
     (case nodes node gs w of
        (Inl e, w1) \<Rightarrow> (Inl e, w1)
      | (Inr gs', w1) \<Rightarrow>
        let w2 = snd (checkpoint node gs' w1)
        in case edges node gs' of None \<Rightarrow> (Inr gs', w2)
           | Some following \<Rightarrow> bounded_engine limit nodes edges following gs' w2)"

lemma bounded_engine_follows: "engine_follows (bounded_engine limit)"
proof -
  have "bounded_engine limit nodes edges node gs w = (x, w') \<Longrightarrow> engine_path nodes edges node gs w x w'"
    for nodes edges node gs w x w'
  proof (induction limit arbitrary: node gs w)
    case 0
    then show ?case by (auto intro: engine_path.stops)
  next
    case (Suc limit)
    then show ?case
      by (auto simp: Let_def intro: engine_path.raises engine_path.ends engine_path.goes_on
          split: prod.splits sum.splits option.splits)
  qed
  then show ?thesis by (simp add: engine_follows_def)
qed

definition demo_graph_run :: "(graph_error + string) \<times> world" where
  "demo_graph_run = execute_graph (bounded_engine 25) demo_graph_env (UUID 7) (DispatchKey (UUID 7) ''start'' 1) demo_ready"

lemma demo_graph_run_facts:
  "(case demo_graph_run of (out, w) \<Rightarrow>
     (out, map (\<lambda>(node, gs). (node, st_version (gs_state gs), gs_iteration gs)) (wd_checkpoints w)))
   = (Inr ''completed'', [(PlannerNode, 1, 0), (ResearchNode, 2, 1), (ResearchNode, 3, 2), (WriterNode, 4, 2)])"
  by code_simp

lemma demo_graph_ok: "graph_env_ok (se_hash demo_env) demo_graph_env"
  by (simp add: graph_env_ok_def keeps_history_def demo_graph_env_def)

lemma demo_ready_reachable: "(runtime_step h)\<^sup>*\<^sup>* empty_runtime (wd_rt demo_ready)" "wd_checkpoints demo_ready = []"
  by (rule r_into_rtranclp, rule business) (simp_all add: demo_ready_def demo_runtime_def)

theorem checkpoints_are_stored_states_witness:
  "case demo_graph_run of (out, w) \<Rightarrow> map fst (wd_checkpoints w) = [PlannerNode, ResearchNode, ResearchNode, WriterNode]
     \<and> (\<forall>(node, gs) \<in> set (wd_checkpoints w). state_inv (gs_state gs)
         \<and> (\<exists>p \<in> set (rt_patches (wd_rt w)). pt_node p = node_name node \<and> pt_result p = st_version (gs_state gs)))"
proof -
  obtain out w where run: "demo_graph_run = (out, w)" by (cases demo_graph_run)
  have "map fst (wd_checkpoints w) = [PlannerNode, ResearchNode, ResearchNode, WriterNode]"
    using arg_cong [OF demo_graph_run_facts, of "\<lambda>x. map fst (snd x)"] by (simp add: run comp_def split_beta)
  moreover have "\<forall>c \<in> set (wd_checkpoints w). state_inv (gs_state (snd c))
      \<and> (\<exists>p \<in> set (rt_patches (wd_rt w)). pt_node p = node_name (fst c) \<and> pt_result p = st_version (gs_state (snd c)))"
    using checkpoints_are_stored_states [OF demo_graph_ok demo_ready_reachable bounded_engine_follows run [unfolded demo_graph_run_def]]
    unfolding split_beta by blast
  ultimately show ?thesis by (simp add: run split_beta)
qed

theorem execution_follows_the_decisions_witness:
  "case demo_graph_run of (out, w) \<Rightarrow> out = Inr ''completed''
     \<and> (\<exists>final. last (wd_checkpoints w) = (WriterNode, final) \<and> gs_outcome final = ''completed'')
     \<and> gs_iteration (snd (wd_checkpoints w ! 2)) = int (research_count (take 3 (wd_checkpoints w)))"
proof -
  obtain out w where run: "demo_graph_run = (out, w)" by (cases demo_graph_run)
  have out: "out = Inr ''completed''" "length (wd_checkpoints w) = 4"
    using arg_cong [OF demo_graph_run_facts, of fst] arg_cong [OF demo_graph_run_facts, of "\<lambda>x. length (snd x)"]
    by (simp_all add: run)
  then have "2 < length (wd_checkpoints w)" "Suc 2 = 3" by simp_all
  with execution_follows_the_decisions [OF demo_graph_ok demo_ready_reachable(2) bounded_engine_follows
      run [unfolded demo_graph_run_def]] out
  show ?thesis unfolding run Let_def by fastforce
qed

section \<open>A worker that lost the run\<close>

definition run_lost :: "uuid \<Rightarrow> dispatch_key \<Rightarrow> runtime \<Rightarrow> bool" where
  "run_lost i t rt \<longleftrightarrow> (\<forall>r. find_run i (rt_db rt) = Some r \<longrightarrow> rr_worker r \<noteq> Some t)"

definition stays_lost :: "uuid \<Rightarrow> dispatch_key \<Rightarrow> world \<Rightarrow> world \<Rightarrow> bool" where
  "stays_lost i t w w' \<longleftrightarrow> (run_lost i t (wd_rt w) \<longrightarrow> run_lost i t (wd_rt w')) \<and> wd_checkpoints w' = wd_checkpoints w"

interpretation losing: act_relation "stays_lost i t" for i t
  by unfold_locales (auto simp: stays_lost_def)

text \<open>Neither the planner nor the memory nor other transactions hand the run back to the worker.\<close>

definition leaves_lost :: "uuid \<Rightarrow> dispatch_key \<Rightarrow> 'a service \<Rightarrow> bool" where
  "leaves_lost i t f \<longleftrightarrow> (\<forall>rt. run_lost i t rt \<longrightarrow> run_lost i t (snd (f rt)))"

definition env_keeps_lost :: "uuid \<Rightarrow> dispatch_key \<Rightarrow> graph_env \<Rightarrow> bool" where
  "env_keeps_lost i t g \<longleftrightarrow> (\<forall>n. (\<forall>rt. run_lost i t rt \<longrightarrow> run_lost i t (gx_others g n rt))
     \<and> leaves_lost i t (gx_retrieve g n) \<and> (\<forall>leads. leaves_lost i t (gx_plan g n leads)))"

lemma lost_not_owned: "run_lost i t rt \<Longrightarrow> owned_run i t (rt_db rt) = None"
  by (auto simp: run_lost_def owned_run_def split: option.splits)

lemma call_loses:
  assumes "env_keeps_lost i t g" and "\<And>n. leaves_lost i t (f n)"
  shows "along (stays_lost i t) (call g f)"
  using assms by (auto simp: along_def stays_lost_def call_def Let_def env_keeps_lost_def leaves_lost_def split: prod.splits)
    (metis snd_conv)

lemma reading_loses: "leaves_lost i t (reading f)"
  by (auto simp: leaves_lost_def reading_def split: sum.splits)

lemma refused_loses:
  "(\<And>rt. run_lost i t rt \<Longrightarrow> on_db f rt = (Inr x, rt)) \<Longrightarrow> leaves_lost i t (on_db f)"
  by (simp add: leaves_lost_def)

lemma planning_refused:
  assumes "run_lost i t rt"
  shows "on_db (save_generated_plan env i t plan usage) rt = (Inr False, rt)"
    and "on_db (\<lambda>db. Inr (record_model_retry env i t m db)) rt = (Inr False, rt)"
  using lost_not_owned [OF assms] by (simp_all add: on_db_def save_generated_plan_def record_model_retry_def)

lemma new_plan_loses:
  assumes env: "env_keeps_lost i t g"
  shows "along (stays_lost i t) (new_plan g i t)"
proof -
  have services: "leaves_lost i t (gx_retrieve g n)" "leaves_lost i t (gx_plan g n leads)" for n leads
    using env by (simp_all add: env_keeps_lost_def)
  have refused: "leaves_lost i t (on_db (save_generated_plan e i t p u))"
      "leaves_lost i t (on_db (\<lambda>db. Inr (record_model_retry e i t m db)))" for e p u m
    by (auto simp: leaves_lost_def planning_refused)
  have slept: "along (stays_lost i t) (sleep d)" for d by (simp add: along_def stays_lost_def sleep_def)
  show ?thesis
    unfolding new_plan_def memory_leads_def generate_plan_with_retry_def template_plan_def Let_def
    by (auto intro!: losing.rules losing.along_attempts slept call_loses env services refused reading_loses
        split: option.splits prod.splits sum.splits)
qed

lemma lost_not_synchronized:
  assumes env: "env_keeps_lost i t g" and lost: "run_lost i t (wd_rt w)"
  shows "\<exists>e w'. synchronized_call g i name (Some t) w = (Inl e, w') \<and> wd_checkpoints w' = wd_checkpoints w"
proof -
  let ?n = "wd_calls w"
  have "run_lost i t (gx_others g ?n (wd_rt w))" using env lost by (simp add: env_keeps_lost_def)
  then have "\<exists>e. synchronize (gx_state g ?n) (gx_patch_id g ?n) i name (Some t) (gx_others g ?n (wd_rt w)) = Inl e"
    by (auto simp: synchronize_def run_lost_def split: option.splits)
  then show ?thesis by (auto simp: synchronized_call_def call_def transaction_of_def Let_def)
qed

lemma lost_planner_fails:
  assumes env: "env_keeps_lost i t g" and lost: "run_lost i t (wd_rt w)"
  shows "\<exists>e w'. planner_node g i t w = (Inl e, w') \<and> wd_checkpoints w' = wd_checkpoints w"
proof -
  let ?plan = "and_act (current_plan g i) (\<lambda>plan. if plan = None then new_plan g i t else pure_act ())"
  have "along (stays_lost i t) ?plan"
    unfolding current_plan_def by (auto intro!: losing.rules new_plan_loses call_loses env reading_loses)
  then have step: "stays_lost i t w (snd (?plan w))" by (simp add: along_def)
  have node: "planner_node g i t w = and_act ?plan (\<lambda>_. and_act (synchronized_call g i ''planner'' (Some t))
      (\<lambda>s. and_act (captured g s ''planner'') (\<lambda>_. pure_act \<lparr>gs_run_id = i, gs_state = s, gs_outcome = ''planned'',
        gs_continue = True, gs_iteration = 0, gs_replan = False\<rparr>))) w"
    by (auto simp: planner_node_def and_act_def split: prod.splits sum.splits)
  show ?thesis
  proof (cases "?plan w")
    case (Pair x w1)
    with step lost have "run_lost i t (wd_rt w1)" "wd_checkpoints w1 = wd_checkpoints w"
      by (simp_all add: stays_lost_def)
    with lost_not_synchronized [OF env this(1), of "''planner''"] Pair node show ?thesis
      by (cases x) (auto simp: and_act_def)
  qed
qed

lemma initialize_loses: "leaves_lost i t (transaction_of (ensure_initialized env i))"
  by (auto simp: leaves_lost_def transaction_of_def ensure_initialized_def run_lost_def split_beta
      find_run_save Let_def split: option.splits sum.splits if_splits)

text \<open>The other services do not matter to a call that does not use them.\<close>

lemma call_other_services [simp]: "call (g\<lparr>gx_research := r, gx_write := v\<rparr>) f = call g f"
  by (simp add: call_def fun_eq_iff)

lemma planner_other_services: "planner_node (g\<lparr>gx_research := r, gx_write := v\<rparr>) i t = planner_node g i t"
proof -
  have attempts: "plan_attempts (g\<lparr>gx_research := r, gx_write := v\<rparr>) i t leads k delays w = plan_attempts g i t leads k delays w"
    for leads k delays w
    by (induction delays arbitrary: k w)
      (auto simp: plan_attempts.simps and_act_def raise_act_def split: prod.splits sum.splits graph_error.splits)
  then have "plan_attempts (g\<lparr>gx_research := r, gx_write := v\<rparr>) i t leads k delays = plan_attempts g i t leads k delays"
    for leads k delays by (simp add: fun_eq_iff)
  then have "generate_plan_with_retry (g\<lparr>gx_research := r, gx_write := v\<rparr>) i t = generate_plan_with_retry g i t"
    by (simp add: generate_plan_with_retry_def fun_eq_iff)
  then show ?thesis
    by (simp add: planner_node_def current_plan_def new_plan_def template_plan_def memory_leads_def
        synchronized_call_def captured_def cong: if_cong option.case_cong sum.case_cong)
qed

text \<open>
  A worker that lost the run gets nowhere. If the run is not this worker's when the execution starts, and
  nobody hands it back, the execution raises without a checkpoint, because the first node does; and that node
  does the same whatever the research loop and the report writer would do.
\<close>

theorem lost_worker_neither_researches_nor_writes:
  assumes env: "env_keeps_lost i t g" and lost: "run_lost i t (wd_rt w)" and engine: "engine_follows engine"
  shows "\<exists>e w'. execute_graph engine g i t w = (Inl e, w') \<and> wd_checkpoints w' = wd_checkpoints w"
    "planner_node (g\<lparr>gx_research := r, gx_write := v\<rparr>) i t = planner_node g i t"
proof -
  let ?init = "call g (\<lambda>n. transaction_of (ensure_initialized (gx_state g n) i))"
  have "along (stays_lost i t) ?init" by (intro call_loses env initialize_loses)
  then have step: "stays_lost i t w (snd (?init w))" by (simp add: along_def)
  show "\<exists>e w'. execute_graph engine g i t w = (Inl e, w') \<and> wd_checkpoints w' = wd_checkpoints w"
  proof (cases "?init w")
    case (Pair x w1)
    with step lost have w1: "run_lost i t (wd_rt w1)" "wd_checkpoints w1 = wd_checkpoints w"
      by (simp_all add: stays_lost_def)
    obtain e w2 where planner: "planner_node g i t w1 = (Inl e, w2)" "wd_checkpoints w2 = wd_checkpoints w1"
      using lost_planner_fails [OF env w1(1)] by blast
    show ?thesis
    proof (cases x)
      case (Inl e)
      then show ?thesis using Pair w1 by (simp add: execute_graph_def and_act_def)
    next
      case (Inr s)
      let ?gs = "\<lparr>gs_run_id = i, gs_state = s, gs_outcome = ''initialized'', gs_continue = True, gs_iteration = 0,
          gs_replan = False\<rparr>"
      obtain y w' where y: "engine (run_node g i t) next_node PlannerNode ?gs w1 = (y, w')" by fastforce
      then have "engine_path (run_node g i t) next_node PlannerNode ?gs w1 y w'" using engine by (simp add: engine_follows_def)
      then have "\<exists>e. y = Inl e \<and> wd_checkpoints w' = wd_checkpoints w1"
        by cases (use planner in auto)
      then show ?thesis using y Pair Inr w1 by (auto simp: execute_graph_def and_act_def)
    qed
  qed
qed (rule planner_other_services)

text \<open>Asking the planner takes at most three attempts and waits at most 3 and 10 seconds between them.\<close>

lemma call_counts: "call g f w = (x, w1) \<Longrightarrow> wd_calls w1 = Suc (wd_calls w) \<and> wd_slept w1 = wd_slept w"
  by (auto simp: call_def Let_def split: prod.splits)

lemma attempts_are_bounded:
  assumes "plan_attempts g i t leads k delays w = (out, w')"
  shows "wd_calls w' \<le> wd_calls w + 2 * length delays + 1
    \<and> (\<exists>m \<le> length delays. wd_slept w' = wd_slept w + sum_list (take m delays))"
  using assms
proof (induction delays arbitrary: k w)
  case Nil
  obtain x w1 where c: "call g (\<lambda>n. gx_plan g n leads) w = (x, w1)" by (cases "call g (\<lambda>n. gx_plan g n leads) w")
  have "w' = w1" using Nil c by (auto simp: plan_attempts.simps split: sum.splits graph_error.splits)
  then show ?case using call_counts [OF c] by simp
next
  case (Cons d ds)
  obtain x w1 where c: "call g (\<lambda>n. gx_plan g n leads) w = (x, w1)" by (cases "call g (\<lambda>n. gx_plan g n leads) w")
  let ?retry = "\<lambda>code detail. call g (\<lambda>n. on_db (\<lambda>db. Inr (record_model_retry (gx_run g n) i t
      (planner_retry k code detail d) db))) w1"
  have "w' = w1 \<or> (\<exists>code detail y w2. ?retry code detail = (y, w2)
      \<and> (w' = w2 \<or> plan_attempts g i t leads (Suc k) ds (w2\<lparr>wd_slept := wd_slept w2 + d\<rparr>) = (out, w')))"
    using Cons.prems c
    by (auto simp: plan_attempts.simps [of g i t leads k] and_act_def raise_act_def sleep_def
        split: sum.splits graph_error.splits if_splits prod.splits)
  then consider "w' = w1" | code detail y where "?retry code detail = (y, w')"
    | code detail y w2 where "?retry code detail = (y, w2)"
        "plan_attempts g i t leads (Suc k) ds (w2\<lparr>wd_slept := wd_slept w2 + d\<rparr>) = (out, w')"
    by blast
  then show ?case
  proof cases
    case 1
    then show ?thesis using call_counts [OF c] by (intro conjI exI [of _ 0]) auto
  next
    case 2
    then show ?thesis using call_counts [OF c] call_counts [OF 2] by (intro conjI exI [of _ 0]) auto
  next
    case 3
    note later = Cons.IH [OF 3(2)]
    then obtain m where "m \<le> length ds" "wd_slept w' = wd_slept w2 + d + sum_list (take m ds)" by auto
    then show ?thesis using later call_counts [OF c] call_counts [OF 3(1)]
      by (intro conjI exI [of _ "Suc m"]) auto
  qed
qed

lemma planner_retries_are_bounded:
  assumes "generate_plan_with_retry g i t leads w = (out, w')"
  shows "wd_calls w' \<le> wd_calls w + 5 \<and> wd_slept w' - wd_slept w \<in> {0, 3, 13}"
proof -
  obtain m where m: "m \<le> 2" "wd_slept w' = wd_slept w + sum_list (take m [3, 10])" "wd_calls w' \<le> wd_calls w + 5"
    using attempts_are_bounded [OF assms [unfolded generate_plan_with_retry_def]]
    by (auto simp: PLANNER_RETRY_DELAYS_SECONDS_def numeral_2_eq_2)
  then have "m = 0 \<or> m = 1 \<or> m = 2" by auto
  then show ?thesis using m by auto
qed

end
