(* ===== verification/Worker_Execution.thy ===== *)
theory Worker_Execution
  imports Research_Graph
begin

text \<open>
  What a worker does with one message, and how messages reach it: \<open>app/worker/tasks.py\<close> and
  \<open>app/worker/dispatcher.py\<close>. An execution acquires the run, runs the graph of \<open>Research_Graph\<close> and turns
  every error into a lost lease, a durable retry or a failure of the run. Clients, ciphers and the closing of
  connections are left out; the lease heartbeat is one of the other transactions of the environment.
\<close>

section \<open>Errors and their codes\<close>











section \<open>Handling an error\<close>









section \<open>One execution\<close>



section \<open>The dispatcher\<close>

text \<open>
  One round of the loop: \<open>send\<close> hands a message to the broker and reports the class of the error it met.
  The clock and the rows locked by another dispatcher are arguments.
\<close>

record outbox_env =
  dx_now :: "nat \<Rightarrow> timestamp"
  dx_locked :: "uuid list"
  dx_send :: "uuid \<Rightarrow> dispatch_key \<Rightarrow> string option"

fun deliver_all :: "outbox_env \<Rightarrow> nat \<Rightarrow> (uuid \<times> uuid \<times> dispatch_key) list \<Rightarrow> database \<Rightarrow> database result" where
  "deliver_all x n [] db = Inr db"
| "deliver_all x n ((ob, run, key) # batch) db =
     (case (case dx_send x run key of
              Some code \<Rightarrow> mark_retry (dx_now x n) ob code db
            | None \<Rightarrow> mark_published (dx_now x n) ob db) of
        Inl e \<Rightarrow> Inl e
      | Inr db' \<Rightarrow> deliver_all x (Suc n) batch db')"

definition DISPATCH_BATCH :: nat where "DISPATCH_BATCH = 20"

definition STALE_CLAIM_SECONDS :: int where "STALE_CLAIM_SECONDS = 30"

text \<open>The round returns how many milliseconds the loop sleeps next.\<close>

definition dispatch_round :: "outbox_env \<Rightarrow> database \<Rightarrow> (int \<times> database) result" where
  "dispatch_round x db =
     (let (batch, db1) = claim_batch (dx_now x 0) (dx_locked x) DISPATCH_BATCH STALE_CLAIM_SECONDS db
      in case deliver_all x 1 batch db1 of
           Inl e \<Rightarrow> Inl e
         | Inr db2 \<Rightarrow> Inr (if batch \<noteq> [] then 250 else 1000, db2))"

section \<open>An execution gives up the run\<close>







text \<open>A call that returns, and the service it ran.\<close>

lemma call_on_db:
  assumes "call g (\<lambda>n. on_db (f n)) w = (Inr x, w1)"
  shows "\<exists>db db'. f (wd_calls w) db = Inr (x, db') \<and> rt_db (wd_rt w1) = db'"
  using assms by (auto simp: call_def on_db_def Let_def split: sum.splits prod.splits)

lemma call_on_db_Inl:
  assumes "call g (\<lambda>n. on_db (f n)) w = (Inl e, w1)"
  shows "\<exists>pe. e = Raised pe"
  using assms by (auto simp: call_def on_db_def Let_def split: sum.splits prod.splits)

























section \<open>What a dispatch round does to the outbox\<close>

text \<open>The row of a claimed message after the broker was asked.\<close>

definition dispatched :: "outbox_env \<Rightarrow> outbox_row \<Rightarrow> outbox_row \<Rightarrow> bool" where
  "dispatched x a b \<longleftrightarrow> (\<exists>m. case dx_send x (ob_run_id a) (ob_key a) of
       None \<Rightarrow> b = a\<lparr>ob_status := OutPublished, ob_published_at := Some (dx_now x m), ob_error := None\<rparr>
     | Some code \<Rightarrow> b = a\<lparr>ob_status := OutRetry,
         ob_next_attempt := dx_now x m + seconds (min (2 ^ (ob_attempts a - 1)) 60),
         ob_error := Some (take_chars 1000 code)\<rparr>)"

definition batch_of :: "outbox_row list \<Rightarrow> (uuid \<times> uuid \<times> dispatch_key) list" where
  "batch_of rows = map (\<lambda>a. (ob_id a, ob_run_id a, ob_key a)) rows"

lemma deliver_spec:
  assumes "distinct (map ob_id rows)" and "set rows \<subseteq> set (db_outbox db)" and "distinct (map ob_id (db_outbox db))"
  shows "\<exists>db'. deliver_all x n (batch_of rows) db = Inr db'
    \<and> list_all2 (\<lambda>a b. if a \<in> set rows then dispatched x a b else b = a) (db_outbox db) (db_outbox db')"
  using assms
proof (induction rows arbitrary: n db)
  case Nil
  then show ?case by (simp add: batch_of_def list.rel_refl)
next
  case (Cons a rows)
  define f :: "outbox_row \<Rightarrow> outbox_row" where "f = (\<lambda>b. case dx_send x (ob_run_id a) (ob_key a) of
      None \<Rightarrow> b\<lparr>ob_status := OutPublished, ob_published_at := Some (dx_now x n), ob_error := None\<rparr>
    | Some code \<Rightarrow> b\<lparr>ob_status := OutRetry, ob_next_attempt := dx_now x n + seconds (min (2 ^ (ob_attempts b - 1)) 60),
        ob_error := Some (take_chars 1000 code)\<rparr>)"
  let ?db = "db\<lparr>db_outbox := map (\<lambda>b. if ob_id b = ob_id a then f b else b) (db_outbox db)\<rparr>"
  have f_id: "ob_id (f b) = ob_id b" for b by (simp add: f_def split: option.split)
  have f_a: "dispatched x a (f a)" by (auto simp: dispatched_def f_def split: option.split)
  have same: "b = a" if "b \<in> set (db_outbox db)" "ob_id b = ob_id a" for b
    using that Cons.prems(2,3) by (auto simp: distinct_map inj_on_def)
  have mem: "ob_id a \<in> set (map ob_id (db_outbox db))" using Cons.prems(2) by auto
  have step: "deliver_all x n (batch_of (a # rows)) db = deliver_all x (Suc n) (batch_of rows) ?db"
    using mem by (cases "dx_send x (ob_run_id a) (ob_key a)")
      (simp_all add: f_def batch_of_def mark_published_def mark_retry_def update_outbox_def del: set_map cong: if_cong)
  have "map ob_id (db_outbox ?db) = map ob_id (db_outbox db)" by (simp add: f_id)
  then have ids: "distinct (map ob_id (db_outbox ?db))" using Cons.prems(3) by metis
  have kept: "set rows \<subseteq> set (db_outbox ?db)"
    using Cons.prems(1,2) by (force simp: image_iff)
  have "distinct (map ob_id rows)" using Cons.prems(1) by simp
  from Cons.IH [OF this kept ids, of "Suc n"] obtain db' where db': "deliver_all x (Suc n) (batch_of rows) ?db = Inr db'"
      and rel: "list_all2 (\<lambda>c b. if c \<in> set rows then dispatched x c b else b = c) (db_outbox ?db) (db_outbox db')"
    by blast
  have "f a \<notin> set rows"
  proof
    assume "f a \<in> set rows"
    then have "ob_id (f a) \<in> ob_id ` set rows" by simp
    then show False using Cons.prems(1) by (simp add: f_id)
  qed
  then have point: "if z \<in> set (a # rows) then dispatched x z y else y = z"
    if "z \<in> set (db_outbox db)" and "let c = (if ob_id z = ob_id a then f z else z)
      in if c \<in> set rows then dispatched x c y else y = c" for z y
    using that f_a same [OF that(1)] by (cases "ob_id z = ob_id a") (auto simp: Let_def split: if_splits)
  have rel1: "list_all2 (\<lambda>z y. let c = (if ob_id z = ob_id a then f z else z)
      in if c \<in> set rows then dispatched x c y else y = c) (db_outbox db) (db_outbox db')"
    using rel by (simp add: list.rel_map(1) Let_def)
  have "list_all2 (\<lambda>c b. if c \<in> set (a # rows) then dispatched x c b else b = c) (db_outbox db) (db_outbox db')"
    by (rule list.rel_mono_strong [OF rel1 point])
  then show ?case using step db' by auto
qed

text \<open>
  A round of the dispatcher never fails on an outbox with distinct identifiers. It claims messages, at most
  one batch of them, counting the attempt; a claimed message the broker took is published, one it refused
  waits for its next attempt, after a delay that doubles with every attempt up to a minute; and every other
  message stays as it was.
\<close>

definition claimed_row :: "timestamp \<Rightarrow> outbox_row \<Rightarrow> outbox_row" where
  "claimed_row now a = a\<lparr>ob_status := OutPublishing, ob_claimed_at := Some now, ob_attempts := ob_attempts a + 1\<rparr>"

theorem dispatch_round_settles_every_claim:
  assumes "distinct (map ob_id (db_outbox db))"
  shows "\<exists>ms db'. dispatch_round x db = Inr (ms, db')
    \<and> list_all2 (\<lambda>a b. if ob_id a \<in> fst ` set (fst (claim_batch (dx_now x 0) (dx_locked x) DISPATCH_BATCH STALE_CLAIM_SECONDS db))
        then claimable (dx_now x 0) STALE_CLAIM_SECONDS a \<and> ob_id a \<notin> set (dx_locked x)
          \<and> dispatched x (claimed_row (dx_now x 0) a) b
        else b = a) (db_outbox db) (db_outbox db')"
proof -
  let ?now = "dx_now x 0"
  define rows where "rows = take DISPATCH_BATCH (filter (\<lambda>a. ob_id a \<notin> set (dx_locked x))
      (sort_key ob_created_at (filter (claimable ?now STALE_CLAIM_SECONDS) (db_outbox db))))"
  define db1 where "db1 = db\<lparr>db_outbox := map (\<lambda>a. if ob_id a \<in> set (map ob_id rows) then claimed_row ?now a else a) (db_outbox db)\<rparr>"
  have claim: "claim_batch ?now (dx_locked x) DISPATCH_BATCH STALE_CLAIM_SECONDS db = (batch_of rows, db1)"
    by (simp add: claim_batch_def Let_def rows_def db1_def batch_of_def claimed_row_def)
  have rows: "a \<in> set (db_outbox db) \<and> claimable ?now STALE_CLAIM_SECONDS a \<and> ob_id a \<notin> set (dx_locked x)" if "a \<in> set rows" for a
    using that by (auto simp: rows_def dest!: in_set_takeD)
  have same: "b = a" if "b \<in> set (db_outbox db)" "a \<in> set (db_outbox db)" "ob_id b = ob_id a" for a b
    using that assms by (auto simp: distinct_map inj_on_def)
  have "distinct (map ob_id (sort_key ob_created_at (filter (claimable ?now STALE_CLAIM_SECONDS) (db_outbox db))))"
    using assms by (simp add: distinct_map inj_on_def)
  then have distinct: "distinct (map ob_id rows)"
    unfolding rows_def take_map [symmetric] by (intro distinct_take distinct_map_filter)
  have batch: "batch_of rows = batch_of (map (claimed_row ?now) rows)"
    by (simp add: batch_of_def claimed_row_def comp_def)
  have ids1: "map ob_id (db_outbox db1) = map ob_id (db_outbox db)" by (simp add: db1_def claimed_row_def)
  have sub: "set (map (claimed_row ?now) rows) \<subseteq> set (db_outbox db1)"
    using rows by (force simp: db1_def image_iff)
  have dist: "distinct (map ob_id (map (claimed_row ?now) rows))"
    using distinct by (simp add: claimed_row_def comp_def)
  have "distinct (map ob_id (db_outbox db1))" using assms ids1 by simp
  from deliver_spec [OF dist sub this, of x 1] obtain db' where db': "deliver_all x 1 (batch_of rows) db1 = Inr db'"
      and rel: "list_all2 (\<lambda>a b. if a \<in> set (map (claimed_row ?now) rows) then dispatched x a b else b = a) (db_outbox db1) (db_outbox db')"
    unfolding batch [symmetric] by blast
  have id: "ob_id (claimed_row ?now a) = ob_id a" for a by (simp add: claimed_row_def)
  have claimed: "claimed_row ?now a \<in> claimed_row ?now ` set rows \<and> a \<in> set rows"
    if "a \<in> set (db_outbox db)" "ob_id a \<in> ob_id ` set rows" for a
    using that rows same by blast
  have unclaimed: "a \<notin> claimed_row ?now ` set rows" if "ob_id a \<notin> ob_id ` set rows" for a
    using that id by force
  have outbox1: "db_outbox db1 = map (\<lambda>a. if ob_id a \<in> ob_id ` set rows then claimed_row ?now a else a) (db_outbox db)"
    by (simp add: db1_def)
  let ?post = "\<lambda>a b. if ob_id a \<in> ob_id ` set rows
      then claimable ?now STALE_CLAIM_SECONDS a \<and> ob_id a \<notin> set (dx_locked x) \<and> dispatched x (claimed_row ?now a) b
      else b = a"
  have rel1: "list_all2 (\<lambda>a b. let c = (if ob_id a \<in> ob_id ` set rows then claimed_row ?now a else a)
      in if c \<in> claimed_row ?now ` set rows then dispatched x c b else b = c) (db_outbox db) (db_outbox db')"
    using rel unfolding outbox1 by (simp only: list.rel_map(1) Let_def set_map)
  have point: "?post a b" if "a \<in> set (db_outbox db)"
    and "let c = (if ob_id a \<in> ob_id ` set rows then claimed_row ?now a else a)
      in if c \<in> claimed_row ?now ` set rows then dispatched x c b else b = c" for a b
    using that claimed [OF that(1)] unclaimed [of a] rows [of a]
    by (cases "ob_id a \<in> ob_id ` set rows") (simp_all add: Let_def)
  have "list_all2 ?post (db_outbox db) (db_outbox db')"
    by (rule list.rel_mono_strong [OF rel1 point])
  moreover have "fst ` set (batch_of rows) = ob_id ` set rows" by (auto simp: batch_of_def image_iff)
  ultimately show ?thesis using db' unfolding dispatch_round_def claim by simp
qed

end
