(* ===== verification/Evidence_Pipeline.thy ===== *)
theory Evidence_Pipeline
  imports Query_Execution Unicode_Text
begin

text \<open>
  From a query to classified evidence: \<open>app/domain/query_executor.py\<close>, \<open>search_result_alignment.py\<close>,
  \<open>evidence_routing.py\<close>, \<open>reader_request.py\<close>, \<open>reader_executor.py\<close>, \<open>evidence_extraction_request.py\<close>,
  \<open>evidence_extractor.py\<close>, \<open>evidence_alignment_request.py\<close> and \<open>evidence_alignment_executor.py\<close>, one section
  per stage. The providers, readers and extractors are adapters given as arguments; what they raise is
  turned into a result by the stage that calls them. The lemmas follow the identity of a gap through all
  stages and say which stage produces what for every outcome of its adapter.
\<close>

section \<open>Adapters\<close>

text \<open>An exception of an adapter: its message and the name of its class.\<close>

record adapter_error =
  ax_message :: string
  ax_class :: string

type_synonym 'a adapter_reply = "adapter_error + 'a"

definition boundary_reason :: "adapter_error \<Rightarrow> string" where
  "boundary_reason e =
     (let message = casefold (ax_message e)
      in if contains message ''timeout'' \<or> contains message ''timed out'' then ''timeout'' else casefold (ax_class e))"

fun normalize_items_from :: "string list \<Rightarrow> string list \<Rightarrow> string list" where
  "normalize_items_from seen [] = []"
| "normalize_items_from seen (x # xs) =
     (let v = strip x in if v \<noteq> [] \<and> v \<notin> set seen then v # normalize_items_from (v # seen) xs
      else normalize_items_from seen xs)"

definition normalize_items :: "string list \<Rightarrow> string list" where
  "normalize_items = normalize_items_from []"

section \<open>Executing a query\<close>

datatype query_status = QuerySuccess | QueryFailed | QueryEmpty | QueryBlocked

datatype query_event_type = QueryStarted | QueryCompleted | QueryFailure

record search_result_set =
  sr_provider :: string
  sr_sources :: "string list"

record query_event =
  qe_type :: query_event_type
  qe_run_id :: uuid
  qe_question_id :: string
  qe_gap_id :: uuid
  qe_candidate_id :: uuid
  qe_execution_id :: uuid
  qe_query_text :: string
  qe_timestamp :: timestamp
  qe_error :: "string option"

record query_result =
  qx_execution_id :: uuid
  qx_request_id :: uuid
  qx_status :: query_status
  qx_provider :: string
  qx_query_text :: string
  qx_count :: nat
  qx_sources :: "string list"
  qx_error :: "string option"
  qx_events :: "query_event list"

record search_adapter =
  sa_name :: string
  sa_search :: "string \<Rightarrow> string list \<Rightarrow> search_result_set adapter_reply"

definition query_event_of ::
    "query_event_type \<Rightarrow> execution_request \<Rightarrow> uuid \<Rightarrow> timestamp \<Rightarrow> string option \<Rightarrow> query_event" where
  "query_event_of ty q x now error =
     \<lparr>qe_type = ty, qe_run_id = er_run_id q, qe_question_id = er_question_id q, qe_gap_id = er_gap_id q,
      qe_candidate_id = er_candidate_id q, qe_execution_id = x, qe_query_text = er_query_text q,
      qe_timestamp = now, qe_error = error\<rparr>"

fun eligibility_reason :: "eligibility \<Rightarrow> string" where
  "eligibility_reason ExecBlocked = ''execution_blocked''"
| "eligibility_reason ExecRejected = ''execution_rejected''"
| "eligibility_reason ExecUnknown = ''execution_eligibility_unknown''"
| "eligibility_reason ExecReady = []"

definition query_result_of ::
    "execution_request \<Rightarrow> uuid \<Rightarrow> query_status \<Rightarrow> string \<Rightarrow> string list \<Rightarrow> string option \<Rightarrow> query_event list \<Rightarrow> query_result" where
  "query_result_of q x status provider sources error events =
     \<lparr>qx_execution_id = x, qx_request_id = er_execution_id q, qx_status = status, qx_provider = provider,
      qx_query_text = er_query_text q, qx_count = length sources, qx_sources = sources, qx_error = error,
      qx_events = events\<rparr>"

definition run_query ::
    "uuid \<Rightarrow> timestamp \<Rightarrow> search_adapter \<Rightarrow> eligibility \<Rightarrow> execution_request \<Rightarrow> query_result" where
  "run_query x now a e q =
     (let started = query_event_of QueryStarted q x now None;
          failure = (\<lambda>reason. query_event_of QueryFailure q x now (Some reason))
      in if e \<noteq> ExecReady then
           query_result_of q x QueryBlocked (sa_name a) [] (Some (eligibility_reason e)) [failure (eligibility_reason e)]
         else case sa_search a (er_query_text q) (er_source_constraints q) of
             Inl err \<Rightarrow> query_result_of q x QueryFailed (sa_name a) [] (Some (boundary_reason err))
               [started, failure (boundary_reason err)]
           | Inr rs \<Rightarrow>
             let sources = normalize_items (sr_sources rs)
             in if sources = [] then query_result_of q x QueryEmpty (sr_provider rs) [] (Some ''empty_result'')
                  [started, failure ''empty_result'']
                else query_result_of q x QuerySuccess (sr_provider rs) sources None
                  [started, query_event_of QueryCompleted q x now None])"

section \<open>Relating search results to a gap\<close>

datatype search_alignment_status = SearchAligned | SearchPartial | SearchNotAligned | SearchUnknown

record search_alignment =
  sl_alignment_id :: uuid
  sl_execution_id :: uuid
  sl_candidate_id :: uuid
  sl_gap_id :: uuid
  sl_question_id :: string
  sl_source_id :: string
  sl_status :: search_alignment_status
  sl_reason :: string

definition mk_search_alignment :: "search_alignment \<Rightarrow> search_alignment result" where
  "mk_search_alignment l =
     (if blank (sl_source_id l) then Inl (ValueError ''aligned search source must not be empty'')
      else if blank (sl_reason l) then Inl (ValueError ''search alignment reason must not be empty'')
      else Inr l)"

definition mentions :: "string \<Rightarrow> string list \<Rightarrow> bool" where
  "mentions s terms \<longleftrightarrow> list_ex (contains s) terms"

definition evaluate_source :: "string \<Rightarrow> string \<Rightarrow> requirement_type \<Rightarrow> search_alignment_status \<times> string" where
  "evaluate_source query_text source ty =
     (let query = casefold query_text; source_text = casefold source
      in case ty of
        IndependentSource \<Rightarrow>
          let topic = mentions query [''market'', ''report'', ''cagr'', ''statistics'', ''independent''];
              suitable = mentions source_text [''industry'', ''report'', ''government'', ''.gov'', ''statistics'',
                ''research'', ''institution'', ''official''];
              weak = mentions source_text [''blog'', ''forum'', ''aggregator'', ''vendor'', ''marketing'']
          in if \<not> topic then (SearchNotAligned, ''query topic does not target the independent-source requirement'')
             else if weak \<and> \<not> suitable
               then (SearchPartial, ''source may be relevant but is not an independent high-quality source'')
             else if suitable
               then (SearchAligned, ''query topic and source characteristics match the independent-source requirement'')
             else (SearchPartial, ''query topic matches but source suitability is unknown'')
      | ClaimVerification \<Rightarrow>
          let topic = mentions query [''claim'', ''verify'', ''verification'', ''official'', ''statement'', ''documentation''];
              suitable = mentions source_text [''official'', ''.gov'', ''technical'', ''documentation'', ''research'']
          in if \<not> topic then (SearchNotAligned, ''query topic does not target Claim verification'')
             else if suitable
               then (SearchAligned, ''query topic and official or technical source match Claim verification'')
             else (SearchPartial, ''query targets Claim verification but source suitability is unknown'')
      | _ \<Rightarrow> (SearchUnknown, ''no search-result alignment rule exists for this Requirement type''))"

text \<open>All events of a result name one candidate, so a result has a first event when its run is compared.\<close>

definition candidate_of_result :: "query_result \<Rightarrow> uuid result" where
  "candidate_of_result x =
     (case dedup (map qe_candidate_id (qx_events x)) of
        [c] \<Rightarrow> Inr c
      | _ \<Rightarrow> Inl (ValueError ''execution result must identify exactly one query candidate''))"

definition search_alignment_of :: "query_result \<Rightarrow> gap_requirement \<Rightarrow> uuid \<Rightarrow> string \<Rightarrow> search_alignment" where
  "search_alignment_of x r c source =
     (let (status, reason) = evaluate_source (qx_query_text x) source (gr_type r)
      in \<lparr>sl_alignment_id = UUID5 ''search-result-alignment:'' [PId (qx_execution_id x), PStr source],
          sl_execution_id = qx_execution_id x, sl_candidate_id = c, sl_gap_id = gr_gap_id r,
          sl_question_id = gr_question_id r, sl_source_id = source, sl_status = status, sl_reason = reason\<rparr>)"

definition generate_search_alignments :: "query_result \<Rightarrow> gap_requirement \<Rightarrow> search_alignment list result" where
  "generate_search_alignments x r =
     (if qx_status x \<noteq> QuerySuccess then Inr []
      else case candidate_of_result x of
          Inl e \<Rightarrow> Inl e
        | Inr c \<Rightarrow>
          let first = hd (qx_events x)
          in if qe_run_id first \<noteq> gr_run_id r then Inl (ValueError ''execution and requirement runs do not match'')
             else if qe_question_id first \<noteq> gr_question_id r
               then Inl (ValueError ''execution and requirement questions do not match'')
             else if qe_gap_id first \<noteq> gr_gap_id r
               then Inl (ValueError ''execution and requirement gaps do not match'')
             else traverse (\<lambda>source. mk_search_alignment (search_alignment_of x r c source)) (qx_sources x))"

section \<open>Routing a source to the reader\<close>

datatype routing_status = RouteIt | SkipIt | DeferIt | RouteUnknown

fun routing_value :: "routing_status \<Rightarrow> string" where
  "routing_value RouteIt = ''route''"
| "routing_value SkipIt = ''skip''"
| "routing_value DeferIt = ''defer''"
| "routing_value RouteUnknown = ''unknown''"

record routing_decision =
  rd_routing_id :: uuid
  rd_alignment_id :: uuid
  rd_source_id :: string
  rd_gap_id :: uuid
  rd_question_id :: string
  rd_decision :: routing_status
  rd_reason :: string

definition mk_routing :: "routing_decision \<Rightarrow> routing_decision result" where
  "mk_routing d =
     (if blank (rd_source_id d) then Inl (ValueError ''routing source must not be empty'')
      else if blank (rd_reason d) then Inl (ValueError ''routing reason must not be empty'')
      else Inr d)"

definition routing_of :: "search_alignment \<Rightarrow> routing_status \<Rightarrow> string \<Rightarrow> routing_decision result" where
  "routing_of l d reason = mk_routing
     \<lparr>rd_routing_id = UUID5 ''evidence-routing:'' [PId (sl_alignment_id l), PStr (routing_value d)],
      rd_alignment_id = sl_alignment_id l, rd_source_id = sl_source_id l, rd_gap_id = sl_gap_id l,
      rd_question_id = sl_question_id l, rd_decision = d, rd_reason = reason\<rparr>"

definition route :: "rat option \<Rightarrow> search_alignment \<Rightarrow> routing_decision result" where
  "route potential l =
     (if (case potential of None \<Rightarrow> False | Some p \<Rightarrow> \<not> (0 \<le> p \<and> p \<le> 1))
        then Inl (ValueError ''evidence potential must be between 0 and 1'')
      else case sl_status l of
          SearchAligned \<Rightarrow> routing_of l RouteIt ''aligned search result is eligible for Reader''
        | SearchNotAligned \<Rightarrow> routing_of l SkipIt ''search result does not match the target Gap''
        | SearchPartial \<Rightarrow>
            if (case potential of None \<Rightarrow> False | Some p \<Rightarrow> 8 / 10 \<le> p)
              then routing_of l RouteIt ''partial alignment has high Evidence potential''
            else routing_of l DeferIt ''partial alignment requires more source-quality information''
        | SearchUnknown \<Rightarrow> routing_of l RouteUnknown ''alignment status is insufficient for routing'')"

definition route_many :: "(uuid \<Rightarrow> rat option) \<Rightarrow> search_alignment list \<Rightarrow> routing_decision list result" where
  "route_many potentials = traverse (\<lambda>l. route (potentials (sl_execution_id l)) l)"

section \<open>Requests to the reader\<close>

datatype reader_dispatch = ReaderReady | ReaderDispatched | ReaderHeld | ReaderSkipped

record dispatch_event =
  de_type :: reader_dispatch
  de_run_id :: uuid
  de_question_id :: string
  de_gap_id :: uuid
  de_routing_id :: uuid
  de_alignment_id :: uuid
  de_source_id :: string
  de_reason :: string

record reader_request =
  rq_routing_id :: uuid
  rq_alignment_id :: uuid
  rq_source_id :: string
  rq_run_id :: uuid
  rq_question_id :: string
  rq_gap_id :: uuid
  rq_dimension_key :: string
  rq_requirement_type :: requirement_type
  rq_reason :: string
  rq_state :: reader_dispatch
  rq_events :: "dispatch_event list"
  rq_query_execution_id :: "uuid option"

definition mk_reader_request :: "reader_request \<Rightarrow> reader_request result" where
  "mk_reader_request q =
     (if blank (rq_source_id q) then Inl (ValueError ''Reader request source must not be empty'')
      else if blank (rq_reason q) then Inl (ValueError ''Reader request reason must not be empty'')
      else Inr q)"

fun dispatch_state :: "routing_status \<Rightarrow> reader_dispatch" where
  "dispatch_state RouteIt = ReaderReady"
| "dispatch_state SkipIt = ReaderSkipped"
| "dispatch_state DeferIt = ReaderHeld"
| "dispatch_state RouteUnknown = ReaderHeld"

text \<open>The types of the dispatch events are those of the states a request is created in.\<close>

definition create_reader_request :: "routing_decision \<Rightarrow> gap_requirement \<Rightarrow> reader_request list result" where
  "create_reader_request d r =
     (if gr_closure_status r = GClosed then Inr []
      else if rd_gap_id d \<noteq> gr_gap_id r
        then Inl (ValueError ''routing decision and requirement gaps do not match'')
      else if rd_question_id d \<noteq> gr_question_id r
        then Inl (ValueError ''routing decision and requirement questions do not match'')
      else let state = dispatch_state (rd_decision d);
               event = \<lparr>de_type = state, de_run_id = gr_run_id r, de_question_id = gr_question_id r,
                 de_gap_id = gr_gap_id r, de_routing_id = rd_routing_id d, de_alignment_id = rd_alignment_id d,
                 de_source_id = rd_source_id d, de_reason = rd_reason d\<rparr>
           in map_sum id (\<lambda>q. [q]) (mk_reader_request
             \<lparr>rq_routing_id = rd_routing_id d, rq_alignment_id = rd_alignment_id d, rq_source_id = rd_source_id d,
              rq_run_id = gr_run_id r, rq_question_id = gr_question_id r, rq_gap_id = gr_gap_id r,
              rq_dimension_key = gr_dimension_key r, rq_requirement_type = gr_type r, rq_reason = rd_reason d,
              rq_state = state, rq_events = [event], rq_query_execution_id = None\<rparr>))"

section \<open>Reading\<close>

datatype reader_status = ReadSuccess | ReadFailed | ReadEmpty | ReadBlocked

datatype parse_status = ParseSuccess | ParseFailed | ParseUnknown

datatype reader_quality = QualityNotEvaluated

datatype reader_event_type = ReadStarted | ReadCompleted | ReadFailure

record reader_output =
  ro_content :: string
  ro_parse :: parse_status

record reader_event =
  re_type :: reader_event_type
  re_run_id :: uuid
  re_question_id :: string
  re_gap_id :: uuid
  re_source_id :: string
  re_routing_id :: uuid
  re_alignment_id :: uuid
  re_execution_id :: uuid
  re_reason :: string
  re_timestamp :: timestamp
  re_query_execution_id :: "uuid option"

record reader_result =
  rx_execution_id :: uuid
  rx_routing_id :: uuid
  rx_alignment_id :: uuid
  rx_source_id :: string
  rx_run_id :: uuid
  rx_question_id :: string
  rx_gap_id :: uuid
  rx_dimension_key :: string
  rx_status :: reader_status
  rx_available :: bool
  rx_length :: nat
  rx_parse :: parse_status
  rx_quality :: reader_quality
  rx_failure :: "string option"
  rx_query_execution_id :: "uuid option"
  rx_events :: "reader_event list"

definition reader_event_of ::
    "reader_event_type \<Rightarrow> reader_request \<Rightarrow> uuid \<Rightarrow> timestamp \<Rightarrow> string \<Rightarrow> reader_event" where
  "reader_event_of ty q x now reason =
     \<lparr>re_type = ty, re_run_id = rq_run_id q, re_question_id = rq_question_id q, re_gap_id = rq_gap_id q,
      re_source_id = rq_source_id q, re_routing_id = rq_routing_id q, re_alignment_id = rq_alignment_id q,
      re_execution_id = x, re_reason = reason, re_timestamp = now,
      re_query_execution_id = rq_query_execution_id q\<rparr>"

definition reader_result_of ::
    "reader_request \<Rightarrow> uuid \<Rightarrow> reader_status \<Rightarrow> string \<Rightarrow> parse_status \<Rightarrow> string option \<Rightarrow> reader_event list \<Rightarrow> reader_result" where
  "reader_result_of q x status content parse failure events =
     \<lparr>rx_execution_id = x, rx_routing_id = rq_routing_id q, rx_alignment_id = rq_alignment_id q,
      rx_source_id = rq_source_id q, rx_run_id = rq_run_id q, rx_question_id = rq_question_id q,
      rx_gap_id = rq_gap_id q, rx_dimension_key = rq_dimension_key q, rx_status = status,
      rx_available = (content \<noteq> []), rx_length = text_len content, rx_parse = parse,
      rx_quality = QualityNotEvaluated, rx_failure = failure,
      rx_query_execution_id = rq_query_execution_id q, rx_events = events\<rparr>"

definition run_reader ::
    "uuid \<Rightarrow> timestamp \<Rightarrow> (string \<Rightarrow> reader_output adapter_reply) \<Rightarrow> reader_request \<Rightarrow> reader_result" where
  "run_reader x now read q =
     (let event = (\<lambda>ty reason. reader_event_of ty q x now reason);
          started = event ReadStarted (rq_reason q)
      in if rq_state q \<noteq> ReaderReady then
           reader_result_of q x ReadBlocked [] ParseUnknown (Some ''reader_request_not_ready'')
             [event ReadFailure ''reader_request_not_ready'']
         else case read (rq_source_id q) of
             Inl err \<Rightarrow> reader_result_of q x ReadFailed [] ParseUnknown (Some (boundary_reason err))
               [started, event ReadFailure (boundary_reason err)]
           | Inr out \<Rightarrow>
             let content = strip (ro_content out)
             in if ro_parse out = ParseFailed then
                  reader_result_of q x ReadFailed content ParseFailed (Some ''parse_error'')
                    [started, event ReadFailure ''parse_error'']
                else if content = [] then
                  reader_result_of q x ReadEmpty content (ro_parse out) (Some ''empty_content'')
                    [started, event ReadCompleted ''empty_content'']
                else reader_result_of q x ReadSuccess content (ro_parse out) None
                    [started, event ReadCompleted ''reader_success''])"

section \<open>Requests for extraction\<close>

record extraction_request =
  eq_request_id :: uuid
  eq_reader_execution_id :: uuid
  eq_routing_id :: uuid
  eq_alignment_id :: uuid
  eq_source_id :: string
  eq_run_id :: uuid
  eq_question_id :: string
  eq_gap_id :: uuid
  eq_dimension_key :: string
  eq_requirement_type :: string
  eq_content :: string
  eq_reason :: string
  eq_reader_status :: reader_status

definition mk_extraction_request :: "extraction_request \<Rightarrow> extraction_request result" where
  "mk_extraction_request q =
     (if blank (eq_source_id q) then Inl (ValueError ''extraction source must not be empty'')
      else if blank (eq_reason q) then Inl (ValueError ''extraction reason must not be empty'')
      else Inr q)"

definition create_extraction_request ::
    "uuid \<Rightarrow> string \<Rightarrow> string \<Rightarrow> string \<Rightarrow> reader_result \<Rightarrow> extraction_request result" where
  "create_extraction_request i ty content reason x = mk_extraction_request
     \<lparr>eq_request_id = i, eq_reader_execution_id = rx_execution_id x, eq_routing_id = rx_routing_id x,
      eq_alignment_id = rx_alignment_id x, eq_source_id = rx_source_id x, eq_run_id = rx_run_id x,
      eq_question_id = rx_question_id x, eq_gap_id = rx_gap_id x, eq_dimension_key = rx_dimension_key x,
      eq_requirement_type = ty, eq_content = content, eq_reason = reason, eq_reader_status = rx_status x\<rparr>"

section \<open>Extracting candidate evidence\<close>

datatype extraction_status = ExtractSuccess | ExtractFailed | ExtractEmpty | ExtractBlocked

datatype extraction_event_type = ExtractStarted | ExtractCompleted | ExtractFailure

record extractor_output =
  xo_claims :: "string list"
  xo_evidence :: "string list"

record extraction_event =
  xe_type :: extraction_event_type
  xe_run_id :: uuid
  xe_question_id :: string
  xe_gap_id :: uuid
  xe_source_id :: string
  xe_reader_execution_id :: uuid
  xe_extraction_id :: uuid
  xe_reason :: string
  xe_timestamp :: timestamp

record extraction_result =
  xr_extraction_id :: uuid
  xr_reader_execution_id :: uuid
  xr_source_id :: string
  xr_question_id :: string
  xr_gap_id :: uuid
  xr_dimension_key :: string
  xr_status :: extraction_status
  xr_count :: nat
  xr_claims :: "string list"
  xr_evidence :: "string list"
  xr_failure :: "string option"
  xr_routing_id :: uuid
  xr_alignment_id :: uuid
  xr_events :: "extraction_event list"

definition extraction_event_of ::
    "extraction_event_type \<Rightarrow> extraction_request \<Rightarrow> uuid \<Rightarrow> timestamp \<Rightarrow> string \<Rightarrow> extraction_event" where
  "extraction_event_of ty q x now reason =
     \<lparr>xe_type = ty, xe_run_id = eq_run_id q, xe_question_id = eq_question_id q, xe_gap_id = eq_gap_id q,
      xe_source_id = eq_source_id q, xe_reader_execution_id = eq_reader_execution_id q, xe_extraction_id = x,
      xe_reason = reason, xe_timestamp = now\<rparr>"

definition extraction_result_of ::
    "extraction_request \<Rightarrow> uuid \<Rightarrow> extraction_status \<Rightarrow> string list \<Rightarrow> string list \<Rightarrow> string option
       \<Rightarrow> extraction_event list \<Rightarrow> extraction_result" where
  "extraction_result_of q x status claims evidence failure events =
     \<lparr>xr_extraction_id = x, xr_reader_execution_id = eq_reader_execution_id q, xr_source_id = eq_source_id q,
      xr_question_id = eq_question_id q, xr_gap_id = eq_gap_id q, xr_dimension_key = eq_dimension_key q,
      xr_status = status, xr_count = length evidence, xr_claims = claims, xr_evidence = evidence,
      xr_failure = failure, xr_routing_id = eq_routing_id q, xr_alignment_id = eq_alignment_id q, xr_events = events\<rparr>"

definition extract_content ::
    "uuid \<Rightarrow> timestamp \<Rightarrow> (string \<Rightarrow> extractor_output adapter_reply) \<Rightarrow> extraction_request \<Rightarrow> extraction_result" where
  "extract_content x now extract q =
     (let event = (\<lambda>ty reason. extraction_event_of ty q x now reason);
          started = event ExtractStarted (eq_reason q)
      in if blank (eq_content q) then
           extraction_result_of q x ExtractEmpty [] [] (Some ''empty_content_reference'')
             [started, event ExtractCompleted ''empty_content_reference'']
         else case extract (eq_content q) of
             Inl err \<Rightarrow> extraction_result_of q x ExtractFailed [] [] (Some (boundary_reason err))
               [started, event ExtractFailure (boundary_reason err)]
           | Inr out \<Rightarrow>
             let claims = normalize_items (xo_claims out); evidence = normalize_items (xo_evidence out)
             in if evidence = [] then
                  extraction_result_of q x ExtractEmpty claims evidence (Some ''no_candidate_evidence'')
                    [started, event ExtractCompleted ''no_candidate_evidence'']
                else extraction_result_of q x ExtractSuccess claims evidence None
                    [started, event ExtractCompleted ''candidate_evidence_extracted''])"

definition run_extractor ::
    "uuid \<Rightarrow> timestamp \<Rightarrow> (string \<Rightarrow> extractor_output adapter_reply) \<Rightarrow> reader_result \<Rightarrow> extraction_request
       \<Rightarrow> extraction_result result" where
  "run_extractor x now extract reading q =
     (if eq_reader_execution_id q \<noteq> rx_execution_id reading
        then Inl (ValueError ''extraction request and Reader result do not match'')
      else if eq_source_id q \<noteq> rx_source_id reading
        then Inl (ValueError ''extraction request and Reader source do not match'')
      else if rx_status reading \<noteq> ReadSuccess then
        Inr (extraction_result_of q x ExtractBlocked [] [] (Some ''reader_result_not_success'')
          [extraction_event_of ExtractFailure q x now ''reader_result_not_success''])
      else Inr (extract_content x now extract q))"

section \<open>Classifying the evidence against the gap\<close>

record alignment_request =
  aq_request_id :: uuid
  aq_extraction_id :: uuid
  aq_reader_execution_id :: uuid
  aq_source_id :: string
  aq_evidence_id :: uuid
  aq_run_id :: uuid
  aq_question_id :: string
  aq_gap_id :: uuid
  aq_dimension_key :: string
  aq_requirement_type :: requirement_type
  aq_claim_id :: "string option"
  aq_evidence :: string

definition mk_alignment_request :: "alignment_request \<Rightarrow> alignment_request result" where
  "mk_alignment_request q =
     (if blank (aq_source_id q) \<or> blank (aq_evidence q)
        then Inl (ValueError ''alignment request source and evidence must not be empty'') else Inr q)"

definition alignment_request_of ::
    "extraction_result \<Rightarrow> gap_requirement \<Rightarrow> nat \<Rightarrow> string \<Rightarrow> alignment_request" where
  "alignment_request_of x r k evidence =
     \<lparr>aq_request_id = UUID5 ''evidence-alignment-request:'' [PId (xr_extraction_id x), PInt (int k)],
      aq_extraction_id = xr_extraction_id x, aq_reader_execution_id = xr_reader_execution_id x,
      aq_source_id = xr_source_id x,
      aq_evidence_id = UUID5 ''candidate-evidence:'' [PId (xr_extraction_id x), PInt (int k)],
      aq_run_id = (case xr_events x of [] \<Rightarrow> gr_run_id r | e # _ \<Rightarrow> xe_run_id e),
      aq_question_id = gr_question_id r, aq_gap_id = gr_gap_id r, aq_dimension_key = gr_dimension_key r,
      aq_requirement_type = gr_type r,
      aq_claim_id = (if k < length (xr_claims x) then Some (xr_claims x ! k) else None),
      aq_evidence = evidence\<rparr>"

definition create_alignment_requests :: "extraction_result \<Rightarrow> gap_requirement \<Rightarrow> alignment_request list result" where
  "create_alignment_requests x r =
     (if gr_closure_status r = GClosed then Inr []
      else if xr_status x \<noteq> ExtractSuccess then Inr []
      else if xr_gap_id x \<noteq> gr_gap_id r then Inl (ValueError ''extraction and requirement gaps do not match'')
      else if xr_question_id x \<noteq> gr_question_id r
        then Inl (ValueError ''extraction and requirement questions do not match'')
      else if xr_dimension_key x \<noteq> gr_dimension_key r
        then Inl (ValueError ''extraction and requirement dimensions do not match'')
      else traverse (\<lambda>(k, evidence). mk_alignment_request (alignment_request_of x r k evidence))
             (enumerate 0 (xr_evidence x)))"

datatype alignment_event_type = AlignStarted | AlignCompleted | AlignFailed

record alignment_event =
  av_type :: alignment_event_type
  av_run_id :: uuid
  av_question_id :: string
  av_gap_id :: uuid
  av_evidence_id :: uuid
  av_extraction_id :: uuid
  av_alignment_id :: uuid
  av_reason :: string
  av_timestamp :: timestamp

record alignment_execution =
  ax_alignment :: "alignment option"
  ax_events :: "alignment_event list"

text \<open>The facts the caller observed about one piece of evidence; empty text of a dimension counts as absent.\<close>

record alignment_inputs =
  ai_dimension :: "string option"
  ai_quality_passed :: bool
  ai_sources :: "int option"
  ai_claim_verified :: bool

fun alignment_status_value :: "alignment_status \<Rightarrow> string" where
  "alignment_status_value Aligned = ''aligned''"
| "alignment_status_value PartiallyAligned = ''partial''"
| "alignment_status_value NotAligned = ''not_aligned''"
| "alignment_status_value AlignmentUnknown = ''unknown''"

definition alignment_event_of ::
    "alignment_event_type \<Rightarrow> alignment_request \<Rightarrow> uuid \<Rightarrow> timestamp \<Rightarrow> string \<Rightarrow> alignment_event" where
  "alignment_event_of ty q x now reason =
     \<lparr>av_type = ty, av_run_id = aq_run_id q, av_question_id = aq_question_id q, av_gap_id = aq_gap_id q,
      av_evidence_id = aq_evidence_id q, av_extraction_id = aq_extraction_id q, av_alignment_id = x,
      av_reason = reason, av_timestamp = now\<rparr>"

definition run_alignment ::
    "uuid \<Rightarrow> timestamp \<Rightarrow> alignment_inputs \<Rightarrow> gap_requirement \<Rightarrow> alignment_request \<Rightarrow> alignment_execution result" where
  "run_alignment x now obs r q =
     (if gr_closure_status r = GClosed then Inr \<lparr>ax_alignment = None, ax_events = []\<rparr>
      else if aq_gap_id q \<noteq> gr_gap_id r
        then Inl (ValueError ''alignment request and requirement gaps do not match'')
      else if aq_question_id q \<noteq> gr_question_id r
        then Inl (ValueError ''alignment request and requirement questions do not match'')
      else if aq_dimension_key q \<noteq> gr_dimension_key r
        then Inl (ValueError ''alignment request and requirement dimensions do not match'')
      else let dimension = (case ai_dimension obs of Some d \<Rightarrow> if d = [] then aq_dimension_key q else d
                            | None \<Rightarrow> aq_dimension_key q);
               sources = (case ai_sources obs of Some n \<Rightarrow> n | None \<Rightarrow> gr_current_sources r)
           in case evaluate_alignment x now r (aq_evidence_id q) (Some dimension) (ai_quality_passed obs) sources
                     (ai_claim_verified obs) (Some (gr_state_version r)) of
                Inl e \<Rightarrow> Inl e
              | Inr a \<Rightarrow>
                let a' = a\<lparr>al_extraction_id := Some (aq_extraction_id q),
                      al_reader_execution_id := Some (aq_reader_execution_id q),
                      al_request_id := Some (aq_request_id q)\<rparr>
                in map_sum id (\<lambda>v. \<lparr>ax_alignment = Some v,
                     ax_events = [alignment_event_of AlignStarted q x now ''alignment_started'',
                       alignment_event_of AlignCompleted q x now (alignment_status_value (al_status v))]\<rparr>)
                   (validate_alignment a'))"

section \<open>What the stages keep\<close>

lemma normalize_items_from_spec:
  "set (normalize_items_from seen xs) = {v \<in> strip ` set xs. v \<noteq> [] \<and> v \<notin> set seen}
   \<and> distinct (normalize_items_from seen xs)"
proof (induction xs arbitrary: seen)
  case (Cons x xs)
  from Cons.IH [of seen] Cons.IH [of "strip x # seen"] show ?case by (auto simp: Let_def)
qed simp

lemma normalize_items_spec:
  "set (normalize_items xs) = strip ` set xs - {[]}" "distinct (normalize_items xs)"
  using normalize_items_from_spec [of "[]" xs] by (auto simp: normalize_items_def)

lemma normalize_items_id:
  "distinct (map strip xs) \<Longrightarrow> [] \<notin> set (map strip xs) \<Longrightarrow> normalize_items xs = map strip xs"
proof -
  have "distinct (map strip xs) \<Longrightarrow> [] \<notin> set (map strip xs) \<Longrightarrow> set seen \<inter> strip ` set xs = {}
      \<Longrightarrow> normalize_items_from seen xs = map strip xs" for seen
    by (induction xs arbitrary: seen) (auto simp: Let_def)
  then show "distinct (map strip xs) \<Longrightarrow> [] \<notin> set (map strip xs) \<Longrightarrow> normalize_items xs = map strip xs"
    by (simp add: normalize_items_def)
qed

text \<open>A stripped text is blank only if it is empty.\<close>

lemma dropWhile_twice: "dropWhile P (dropWhile P xs) = dropWhile P xs"
  by (induction xs) auto

lemma lstrip_back: "lstrip (rev (lstrip (rev (lstrip s)))) = rev (lstrip (rev (lstrip s)))"
proof (cases "rev (lstrip (rev (lstrip s)))")
  case (Cons c cs)
  have "lstrip (rev (lstrip s)) = rev cs @ [c]" using arg_cong [OF Cons, of rev] by simp
  moreover have "suffix (lstrip (rev (lstrip s))) (rev (lstrip s))" by (simp add: lstrip_def suffix_dropWhile)
  ultimately have "suffix (rev cs @ [c]) (rev (lstrip s))" by simp
  then have "prefix (c # cs) (lstrip s)" by (metis rev_append rev_rev_ident rev_singleton_conv suffix_to_prefix append_Cons append_Nil)
  then obtain zs where "lstrip s = c # zs" by (auto simp: prefix_def)
  then have "\<not> is_space c" by (metis lstrip_def dropWhile_eq_Cons_conv)
  then show ?thesis using Cons by (simp add: lstrip_def)
next
  case Nil
  show ?thesis by (simp only: Nil) (simp add: lstrip_def)
qed

lemma strip_twice [simp]: "strip (strip s) = strip s"
  by (simp add: strip_def lstrip_back) (simp add: lstrip_def dropWhile_twice)

lemma normalized_not_blank: "v \<in> set (normalize_items xs) \<Longrightarrow> \<not> blank v"
  by (auto simp: normalize_items_spec(1) blank_def)

text \<open>Every stage accepts what the stage before it produces for an open gap.\<close>

definition for_gap :: "execution_request \<Rightarrow> gap_requirement \<Rightarrow> bool" where
  "for_gap q r \<longleftrightarrow> er_run_id q = gr_run_id r \<and> er_question_id q = gr_question_id r \<and> er_gap_id q = gr_gap_id r"

lemma evaluate_source_reason: "\<not> blank (snd (evaluate_source query source ty))"
  by (auto simp: evaluate_source_def Let_def blank_iff is_space_def split: requirement_type.splits)

lemma query_result_cases:
  "qx_status (run_query x now a e q) = QuerySuccess \<Longrightarrow>
     qx_events (run_query x now a e q) = [query_event_of QueryStarted q x now None, query_event_of QueryCompleted q x now None]
     \<and> (\<exists>rs. sa_search a (er_query_text q) (er_source_constraints q) = Inr rs
          \<and> qx_sources (run_query x now a e q) = normalize_items (sr_sources rs))"
  by (auto simp: run_query_def query_result_of_def Let_def split: if_splits sum.splits)

lemma query_result_fields:
  "qx_execution_id (run_query x now a e q) = x" "qx_query_text (run_query x now a e q) = er_query_text q"
  "\<forall>v \<in> set (qx_events (run_query x now a e q)). qe_gap_id v = er_gap_id q \<and> qe_run_id v = er_run_id q
      \<and> qe_question_id v = er_question_id q \<and> qe_execution_id v = x"
  "qx_sources (run_query x now a e q) \<noteq> [] \<longleftrightarrow> qx_status (run_query x now a e q) = QuerySuccess"
  by (auto simp: run_query_def query_result_of_def query_event_of_def Let_def split: if_splits sum.splits)

lemma search_alignment_fields:
  "sl_alignment_id (search_alignment_of x r c s) = UUID5 ''search-result-alignment:'' [PId (qx_execution_id x), PStr s]"
  "sl_execution_id (search_alignment_of x r c s) = qx_execution_id x"
  "sl_gap_id (search_alignment_of x r c s) = gr_gap_id r" "sl_question_id (search_alignment_of x r c s) = gr_question_id r"
  "sl_source_id (search_alignment_of x r c s) = s"
  "sl_status (search_alignment_of x r c s) = fst (evaluate_source (qx_query_text x) s (gr_type r))"
  "sl_reason (search_alignment_of x r c s) = snd (evaluate_source (qx_query_text x) s (gr_type r))"
  by (simp_all add: search_alignment_of_def split_beta)

lemma generated_alignments:
  assumes "for_gap q r" and "x = run_query i now a e q"
  shows "generate_search_alignments x r = Inr (map (search_alignment_of x r (er_candidate_id q)) (qx_sources x))"
proof (cases "qx_status x = QuerySuccess")
  case True
  have events: "qx_events x = [query_event_of QueryStarted q i now None, query_event_of QueryCompleted q i now None]"
    using query_result_cases [OF True [unfolded assms(2)]] assms(2) by simp
  have sources: "\<exists>ys. qx_sources x = normalize_items ys"
    using query_result_cases [OF True [unfolded assms(2)]] assms(2) by blast
  have "candidate_of_result x = Inr (er_candidate_id q)" by (simp add: candidate_of_result_def events query_event_of_def)
  moreover have "mk_search_alignment (search_alignment_of x r (er_candidate_id q) s)
      = Inr (search_alignment_of x r (er_candidate_id q) s)" if "s \<in> set (qx_sources x)" for s
  proof -
    have "\<not> blank s" using normalized_not_blank that sources by metis
    then show ?thesis using evaluate_source_reason by (simp add: mk_search_alignment_def search_alignment_fields)
  qed
  then have "traverse (\<lambda>s. mk_search_alignment (search_alignment_of x r (er_candidate_id q) s)) (qx_sources x)
      = Inr (map (search_alignment_of x r (er_candidate_id q)) (qx_sources x))"
    by (rule traverse_total)
  ultimately show ?thesis using True assms(1)
    by (simp add: generate_search_alignments_def events query_event_of_def for_gap_def)
next
  case False
  then have "qx_sources x = []" using query_result_fields(4) assms(2) by blast
  then show ?thesis using False by (simp add: generate_search_alignments_def)
qed

lemma routing_fields:
  assumes "route p l = Inr d"
  shows "rd_alignment_id d = sl_alignment_id l" "rd_source_id d = sl_source_id l" "rd_gap_id d = sl_gap_id l"
    "rd_question_id d = sl_question_id l"
    "rd_decision d = RouteIt \<longleftrightarrow> sl_status l = SearchAligned \<or>
       sl_status l = SearchPartial \<and> (\<exists>v. p = Some v \<and> 8 / 10 \<le> v)"
    "rd_decision d = SkipIt \<longleftrightarrow> sl_status l = SearchNotAligned"
  using assms by (auto simp: route_def routing_of_def mk_routing_def split: if_splits option.splits search_alignment_status.splits)

lemma route_total:
  assumes "\<not> blank (sl_source_id l)" and "\<And>v. p = Some v \<Longrightarrow> 0 \<le> v \<and> v \<le> 1"
  shows "\<exists>d. route p l = Inr d \<and> \<not> blank (rd_source_id d) \<and> \<not> blank (rd_reason d)"
  using assms by (auto simp: route_def routing_of_def mk_routing_def blank_iff is_space_def
      split: option.splits search_alignment_status.splits)

text \<open>A request to the reader is ready exactly when its source was routed; a closed gap gets none.\<close>

lemma reader_request_fields:
  assumes "create_reader_request d r = Inr [q]"
  shows "rq_run_id q = gr_run_id r" "rq_question_id q = gr_question_id r" "rq_gap_id q = gr_gap_id r"
    "rq_dimension_key q = gr_dimension_key r" "rq_source_id q = rd_source_id d" "rq_alignment_id q = rd_alignment_id d"
    "rq_routing_id q = rd_routing_id d" "rq_state q = dispatch_state (rd_decision d)" "rq_query_execution_id q = None"
  using assms by (auto simp: create_reader_request_def mk_reader_request_def Let_def split: if_splits)

lemma create_reader_request_outcomes:
  "gr_closure_status r = GClosed \<Longrightarrow> create_reader_request d r = Inr []"
  "gr_closure_status r \<noteq> GClosed \<Longrightarrow> rd_gap_id d = gr_gap_id r \<Longrightarrow> rd_question_id d = gr_question_id r \<Longrightarrow>
     \<not> blank (rd_source_id d) \<Longrightarrow> \<not> blank (rd_reason d) \<Longrightarrow> \<exists>q. create_reader_request d r = Inr [q]"
  by (auto simp: create_reader_request_def mk_reader_request_def Let_def)

lemma dispatch_ready [simp]: "dispatch_state s = ReaderReady \<longleftrightarrow> s = RouteIt"
  by (cases s) auto

lemma reader_result_fields:
  "rx_execution_id (run_reader x now read q) = x" "rx_run_id (run_reader x now read q) = rq_run_id q"
  "rx_question_id (run_reader x now read q) = rq_question_id q" "rx_gap_id (run_reader x now read q) = rq_gap_id q"
  "rx_dimension_key (run_reader x now read q) = rq_dimension_key q"
  "rx_source_id (run_reader x now read q) = rq_source_id q"
  "rx_routing_id (run_reader x now read q) = rq_routing_id q"
  "rx_alignment_id (run_reader x now read q) = rq_alignment_id q"
  "rx_query_execution_id (run_reader x now read q) = rq_query_execution_id q"
  by (auto simp: run_reader_def reader_result_of_def Let_def split: sum.split)

text \<open>The reader succeeds exactly when it was asked for a routed source and its page parsed to a text.\<close>

lemma reader_success_iff:
  "rx_status (run_reader x now read q) = ReadSuccess \<longleftrightarrow>
     rq_state q = ReaderReady \<and>
     (\<exists>out. read (rq_source_id q) = Inr out \<and> ro_parse out \<noteq> ParseFailed \<and> \<not> blank (ro_content out))"
  by (auto simp: run_reader_def reader_result_of_def Let_def blank_def split: sum.splits if_splits)

lemma extraction_request_fields:
  assumes "create_extraction_request i ty content reason x = Inr q"
  shows "eq_reader_execution_id q = rx_execution_id x" "eq_source_id q = rx_source_id x" "eq_run_id q = rx_run_id x"
    "eq_question_id q = rx_question_id x" "eq_gap_id q = rx_gap_id x" "eq_dimension_key q = rx_dimension_key x"
    "eq_content q = content" "eq_alignment_id q = rx_alignment_id x" "eq_routing_id q = rx_routing_id x"
    "eq_requirement_type q = ty" "eq_reason q = reason"
  using assms by (auto simp: create_extraction_request_def mk_extraction_request_def split: if_splits)

lemma extraction_result_fields:
  assumes "run_extractor x now extract reading q = Inr y"
  shows "xr_extraction_id y = x" "xr_reader_execution_id y = eq_reader_execution_id q" "xr_source_id y = eq_source_id q"
    "xr_question_id y = eq_question_id q" "xr_gap_id y = eq_gap_id q" "xr_dimension_key y = eq_dimension_key q"
    "xr_routing_id y = eq_routing_id q" "xr_alignment_id y = eq_alignment_id q"
    "xr_events y \<noteq> []" "\<forall>v \<in> set (xr_events y). xe_run_id v = eq_run_id q \<and> xe_gap_id v = eq_gap_id q"
  using assms by (auto simp: run_extractor_def extract_content_def extraction_result_of_def extraction_event_of_def Let_def
      split: if_splits sum.splits)

text \<open>
  The extractor succeeds exactly when the reader did, the caller passes a text, and the adapter finds a
  piece of evidence that is not blank; what it returns is distinct and not blank.
\<close>

lemma extraction_success_iff:
  assumes "run_extractor x now extract reading q = Inr y"
  shows "xr_status y = ExtractSuccess \<longleftrightarrow> rx_status reading = ReadSuccess \<and> \<not> blank (eq_content q) \<and>
     (\<exists>out. extract (eq_content q) = Inr out \<and> normalize_items (xo_evidence out) \<noteq> [])"
  using assms by (auto simp: run_extractor_def extract_content_def extraction_result_of_def Let_def
      split: if_splits sum.splits)

lemma extraction_success_items:
  assumes "run_extractor x now extract reading q = Inr y" and "extract (eq_content q) = Inr out"
    and "xr_status y = ExtractSuccess"
  shows "xr_claims y = normalize_items (xo_claims out)" "xr_evidence y = normalize_items (xo_evidence out)"
  using assms by (auto simp: run_extractor_def extract_content_def extraction_result_of_def Let_def split: if_splits sum.splits)

lemma extraction_items_normal:
  assumes "run_extractor x now extract reading q = Inr y"
  shows "distinct (xr_evidence y)" "\<forall>v \<in> set (xr_evidence y). \<not> blank v" "xr_count y = length (xr_evidence y)"
proof -
  obtain ys where ys: "xr_evidence y = normalize_items ys" and n: "xr_count y = length (xr_evidence y)"
    using assms that [of "[]"] by (auto simp: run_extractor_def extract_content_def extraction_result_of_def Let_def
        normalize_items_def split: if_splits sum.splits)
  show "distinct (xr_evidence y)" using ys normalize_items_spec(2) by simp
  show "\<forall>v \<in> set (xr_evidence y). \<not> blank v" using ys normalized_not_blank by metis
  show "xr_count y = length (xr_evidence y)" by (rule n)
qed

lemma traverse_Inr_in: "traverse f xs = Inr ys \<Longrightarrow> y \<in> set ys \<Longrightarrow> \<exists>x \<in> set xs. f x = Inr y"
  by (induction xs arbitrary: ys) (auto split: sum.splits)

lemma enumerate_elem: "p \<in> set (enumerate 0 xs) \<Longrightarrow> fst p < length xs \<and> snd p = xs ! fst p"
  by (simp add: in_set_enumerate_eq)

lemma generated_alignment_requests:
  assumes "gr_closure_status r \<noteq> GClosed" and "xr_gap_id x = gr_gap_id r" and "xr_question_id x = gr_question_id r"
    and "xr_dimension_key x = gr_dimension_key r" and "xr_status x = ExtractSuccess"
    and "\<not> blank (xr_source_id x)" and "\<forall>v \<in> set (xr_evidence x). \<not> blank v"
  shows "create_alignment_requests x r
    = Inr (map (\<lambda>(k, evidence). alignment_request_of x r k evidence) (enumerate 0 (xr_evidence x)))"
proof -
  have "traverse (\<lambda>(k, evidence). mk_alignment_request (alignment_request_of x r k evidence)) (enumerate 0 (xr_evidence x))
      = Inr (map (\<lambda>(k, evidence). alignment_request_of x r k evidence) (enumerate 0 (xr_evidence x)))"
  proof (rule traverse_total)
    fix p assume "p \<in> set (enumerate 0 (xr_evidence x))"
    then have "snd p \<in> set (xr_evidence x)" using enumerate_elem nth_mem by metis
    then show "(\<lambda>(k, evidence). mk_alignment_request (alignment_request_of x r k evidence)) p
        = Inr ((\<lambda>(k, evidence). alignment_request_of x r k evidence) p)"
      using assms(6,7) by (auto simp: mk_alignment_request_def alignment_request_of_def split: prod.split)
  qed
  then show ?thesis using assms by (simp add: create_alignment_requests_def)
qed

section \<open>The stages together\<close>

text \<open>The claim a request names is the one at its own position among the claims kept by the extractor.\<close>

lemma created_alignment_request:
  assumes "create_alignment_requests y r = Inr aqs" and "aq \<in> set aqs"
  shows "\<exists>k < length (xr_evidence y). aq = alignment_request_of y r k (xr_evidence y ! k)"
proof -
  from assms obtain p where p: "p \<in> set (enumerate 0 (xr_evidence y))"
      and aq: "(case p of (k, e) \<Rightarrow> mk_alignment_request (alignment_request_of y r k e)) = Inr aq"
    unfolding create_alignment_requests_def
    by (auto split: if_splits dest!: traverse_Inr_in)
  have "aq = alignment_request_of y r (fst p) (snd p)"
    using aq by (simp add: mk_alignment_request_def split: prod.splits if_splits)
  then show ?thesis using enumerate_elem [OF p] by auto
qed

theorem evidence_is_traceable:
  assumes "for_gap q r" and "generate_search_alignments (run_query i now a e q) r = Inr ls" and "l \<in> set ls"
    and "route p l = Inr d" and "create_reader_request d r = Inr [rq]"
    and "create_extraction_request j ty content reason (run_reader x now' read rq) = Inr eq"
    and "run_extractor z now'' finder (run_reader x now' read rq) eq = Inr y"
    and "create_alignment_requests y r = Inr aqs" and "aq \<in> set aqs"
  shows "aq_run_id aq = er_run_id q" "aq_question_id aq = er_question_id q" "aq_gap_id aq = er_gap_id q"
    "aq_dimension_key aq = gr_dimension_key r" "aq_requirement_type aq = gr_type r"
    "aq_source_id aq = sl_source_id l" "sl_source_id l \<in> set (qx_sources (run_query i now a e q))"
    "sl_execution_id l = i" "sl_candidate_id l = er_candidate_id q"
    "aq_reader_execution_id aq = x" "aq_extraction_id aq = z" "aq_evidence aq \<in> set (xr_evidence y)"
    "xr_alignment_id y = sl_alignment_id l" "xr_routing_id y = rd_routing_id d"
    "rx_query_execution_id (run_reader x now' read rq) = None"
proof -
  let ?w = "run_query i now a e q"
  note f = reader_request_fields [OF assms(5)] extraction_request_fields [OF assms(6)]
    extraction_result_fields [OF assms(7)] routing_fields [OF assms(4)] reader_result_fields
  obtain s where s: "s \<in> set (qx_sources ?w)" and l: "l = search_alignment_of ?w r (er_candidate_id q) s"
    using assms(2,3) generated_alignments [OF assms(1) refl, of i now a e] by auto
  obtain k where k: "k < length (xr_evidence y)" and aq: "aq = alignment_request_of y r k (xr_evidence y ! k)"
    using created_alignment_request [OF assms(8,9)] by auto
  have run: "(case xr_events y of [] \<Rightarrow> gr_run_id r | v # _ \<Rightarrow> xe_run_id v) = gr_run_id r"
    using f by (cases "xr_events y") auto
  show "aq_run_id aq = er_run_id q" "aq_question_id aq = er_question_id q" "aq_gap_id aq = er_gap_id q"
    "aq_dimension_key aq = gr_dimension_key r" "aq_requirement_type aq = gr_type r"
    using assms(1) run by (simp_all add: aq alignment_request_of_def for_gap_def)
  show "aq_source_id aq = sl_source_id l" "aq_reader_execution_id aq = x" "aq_extraction_id aq = z"
    "aq_evidence aq \<in> set (xr_evidence y)" "xr_alignment_id y = sl_alignment_id l"
    "xr_routing_id y = rd_routing_id d" "rx_query_execution_id (run_reader x now' read rq) = None"
    using k f by (simp_all add: aq alignment_request_of_def)
  show "sl_source_id l \<in> set (qx_sources ?w)" "sl_execution_id l = i" "sl_candidate_id l = er_candidate_id q"
    using s by (simp_all add: l search_alignment_fields query_result_fields, simp add: search_alignment_of_def split_beta)
qed

text \<open>
  An aligned source whose page parses to a text, and whose text the extractor finds evidence in, leads to
  one request per distinct piece of evidence: no stage between the search and the classification refuses it.
\<close>

theorem aligned_source_yields_requests:
  assumes "for_gap q r" and "gr_closure_status r \<noteq> GClosed" and "x0 = run_query i now a e q"
    and "generate_search_alignments x0 r = Inr ls" and "l \<in> set ls" and "sl_status l = SearchAligned"
    and "\<And>v. p = Some v \<Longrightarrow> 0 \<le> v \<and> v \<le> 1"
    and "read (sl_source_id l) = Inr out" and "ro_parse out \<noteq> ParseFailed" and "\<not> blank (ro_content out)"
    and "\<not> blank reason" and "\<not> blank content" and "finder content = Inr found"
    and "normalize_items (xo_evidence found) \<noteq> []"
  shows "\<exists>d rq eq y. route p l = Inr d \<and> create_reader_request d r = Inr [rq]
     \<and> create_extraction_request j ty content reason (run_reader x now' read rq) = Inr eq
     \<and> run_extractor z now'' finder (run_reader x now' read rq) eq = Inr y
     \<and> create_alignment_requests y r = Inr (map (\<lambda>(k, v). alignment_request_of y r k v)
          (enumerate 0 (normalize_items (xo_evidence found))))"
proof -
  obtain s where s: "s \<in> set (qx_sources x0)" and l: "l = search_alignment_of x0 r (er_candidate_id q) s"
    using assms(4,5) generated_alignments [OF assms(1,3)] by auto
  have "qx_status x0 = QuerySuccess" using s query_result_fields(4) assms(3) by force
  then have "\<exists>ys. qx_sources x0 = normalize_items ys" using query_result_cases assms(3) by blast
  then have src: "\<not> blank (sl_source_id l)" using s normalized_not_blank by (auto simp: l search_alignment_fields)
  obtain d where d: "route p l = Inr d" and nb: "\<not> blank (rd_source_id d)" "\<not> blank (rd_reason d)"
    using route_total [OF src, of p] assms(7) by blast
  note rf = routing_fields [OF d]
  obtain rq where rq: "create_reader_request d r = Inr [rq]"
    using create_reader_request_outcomes(2) [OF assms(2) _ _ nb] rf l by (auto simp: search_alignment_fields)
  note qf = reader_request_fields [OF rq]
  let ?x = "run_reader x now' read rq"
  have ok: "rx_status ?x = ReadSuccess"
    using reader_success_iff [of x now' read rq] qf rf assms(6,8,9,10) by auto
  obtain eq where eq: "create_extraction_request j ty content reason ?x = Inr eq"
    using assms(11) src qf rf by (simp add: create_extraction_request_def mk_extraction_request_def reader_result_fields)
  note ef = extraction_request_fields [OF eq]
  obtain y where y: "run_extractor z now'' finder ?x eq = Inr y" using ef ok by (simp add: run_extractor_def)
  note yf = extraction_result_fields [OF y]
  have st: "xr_status y = ExtractSuccess"
    using extraction_success_iff [OF y] ok ef assms(12,13,14) by auto
  have ev: "xr_evidence y = normalize_items (xo_evidence found)"
    using extraction_success_items(2) [OF y _ st] ef assms(13) by simp
  have "create_alignment_requests y r
      = Inr (map (\<lambda>(k, v). alignment_request_of y r k v) (enumerate 0 (xr_evidence y)))"
    by (rule generated_alignment_requests [OF assms(2)])
      (use yf ef qf rf src st extraction_items_normal(2) [OF y] in \<open>simp_all add: reader_result_fields\<close>)
  then show ?thesis using d rq eq y ev by auto
qed

text \<open>A closed gap asks for nothing: no reading, no classification and no record of one.\<close>

theorem closed_gap_asks_nothing:
  assumes "gr_closure_status r = GClosed"
  shows "create_reader_request d r = Inr []" "create_alignment_requests y r = Inr []"
    "run_alignment x now obs r aq = Inr \<lparr>ax_alignment = None, ax_events = []\<rparr>"
  using assms by (simp_all add: create_reader_request_def create_alignment_requests_def run_alignment_def)

lemma validate_alignment_id: "validate_alignment v = Inr v' \<Longrightarrow> v' = v"
  by (auto simp: validate_alignment_def split: if_splits)

lemma map_sum_Inr_iff: "map_sum id f s = Inr z \<longleftrightarrow> (\<exists>v. s = Inr v \<and> z = f v)"
  by (cases s) auto

text \<open>A classification names the request, the extraction and the execution of the reader it rests on.\<close>

theorem classification_names_its_origin:
  assumes "run_alignment x now obs r q = Inr \<lparr>ax_alignment = Some v, ax_events = es\<rparr>"
  shows "al_alignment_id v = x" "al_gap_id v = aq_gap_id q" "al_question_id v = aq_question_id q"
    "al_dimension_key v = aq_dimension_key q" "al_evidence_id v = aq_evidence_id q"
    "al_request_id v = Some (aq_request_id q)" "al_extraction_id v = Some (aq_extraction_id q)"
    "al_reader_execution_id v = Some (aq_reader_execution_id q)"
    "map av_type es = [AlignStarted, AlignCompleted]"
    "map av_reason es = [''alignment_started'', alignment_status_value (al_status v)]"
  using assms by (auto simp: run_alignment_def evaluate_alignment_def alignment_event_of_def Let_def split_beta map_sum_Inr_iff
      split: if_splits sum.splits dest!: validate_alignment_id)

section \<open>Claims and their evidence\<close>

text \<open>
  The extractor drops blank and repeated items of the two lists separately, and the requests pair them by
  position. If neither list has such an item, every piece of evidence keeps the claim the adapter gave it.
\<close>

definition clean_items :: "string list \<Rightarrow> bool" where
  "clean_items xs \<longleftrightarrow> distinct (map strip xs) \<and> [] \<notin> set (map strip xs)"

theorem clean_claims_keep_their_evidence:
  assumes "run_extractor x now finder reading q = Inr y" and "finder (eq_content q) = Inr out"
    and "xr_status y = ExtractSuccess" and "clean_items (xo_claims out)" and "clean_items (xo_evidence out)"
    and "k < length (xo_evidence out)" and "k < length (xo_claims out)"
  shows "aq_evidence (alignment_request_of y r k (xr_evidence y ! k)) = strip (xo_evidence out ! k)"
    "aq_claim_id (alignment_request_of y r k (xr_evidence y ! k)) = Some (strip (xo_claims out ! k))"
  using assms(4-7) extraction_success_items [OF assms(1-3)]
  by (simp_all add: clean_items_def normalize_items_id alignment_request_of_def)

text \<open>
  With a repeated claim the positions shift: the second piece of evidence for the first claim is asked
  about under the second claim, and the last one under none.
\<close>

lemma repeated_claim_shifts_pairs:
  assumes "xr_claims y = normalize_items [''price'', ''price'', ''share'']"
    and "xr_evidence y = normalize_items [''a quote'', ''a second quote'', ''a third quote'']"
  shows "map (\<lambda>(k, v). (aq_evidence (alignment_request_of y r k v), aq_claim_id (alignment_request_of y r k v)))
      (enumerate 0 (xr_evidence y))
    = [(''a quote'', Some ''price''), (''a second quote'', Some ''share''), (''a third quote'', None)]"
proof -
  have "normalize_items [''price'', ''price'', ''share''] = [''price'', ''share'']"
    "normalize_items [''a quote'', ''a second quote'', ''a third quote''] = [''a quote'', ''a second quote'', ''a third quote'']"
    by code_simp+
  then show ?thesis using assms by (simp add: alignment_request_of_def)
qed

section \<open>From a gap to its evidence\<close>

text \<open>
  C24. An aligned source of an open gap leads to its evidence: if the reader returns a page that parses to a
  text and the extractor finds evidence in the text handed to it, then no stage refuses what the stage before
  it produced. There is one request per distinct piece of evidence that is not blank, in order, and every
  request names the run, the question and the gap of the query it comes from, the dimension and the kind of
  the requirement, the source, and the executions of the reader and of the extractor.
\<close>

theorem aligned_evidence_reaches_its_gap:
  assumes "for_gap q r" and "gr_closure_status r \<noteq> GClosed"
    and "generate_search_alignments (run_query i now a e q) r = Inr ls" and "l \<in> set ls" and "sl_status l = SearchAligned"
    and "\<And>v. p = Some v \<Longrightarrow> 0 \<le> v \<and> v \<le> 1"
    and "read (sl_source_id l) = Inr out" and "ro_parse out \<noteq> ParseFailed" and "\<not> blank (ro_content out)"
    and "\<not> blank reason" and "\<not> blank content" and "finder content = Inr found"
    and "normalize_items (xo_evidence found) \<noteq> []"
  shows "\<exists>d rq eq y aqs. route p l = Inr d \<and> create_reader_request d r = Inr [rq]
     \<and> create_extraction_request j ty content reason (run_reader x now' read rq) = Inr eq
     \<and> run_extractor z now'' finder (run_reader x now' read rq) eq = Inr y
     \<and> create_alignment_requests y r = Inr aqs
     \<and> map aq_evidence aqs = normalize_items (xo_evidence found) \<and> distinct (map aq_evidence aqs)
     \<and> (\<forall>aq \<in> set aqs. aq_run_id aq = er_run_id q \<and> aq_question_id aq = er_question_id q
          \<and> aq_gap_id aq = er_gap_id q \<and> aq_dimension_key aq = gr_dimension_key r
          \<and> aq_requirement_type aq = gr_type r \<and> aq_source_id aq = sl_source_id l
          \<and> sl_execution_id l = i \<and> aq_reader_execution_id aq = x \<and> aq_extraction_id aq = z)"
proof -
  obtain d rq eq y where d: "route p l = Inr d" and rq: "create_reader_request d r = Inr [rq]"
      and eq: "create_extraction_request j ty content reason (run_reader x now' read rq) = Inr eq"
      and y: "run_extractor z now'' finder (run_reader x now' read rq) eq = Inr y"
      and aqs: "create_alignment_requests y r = Inr (map (\<lambda>(k, v). alignment_request_of y r k v)
          (enumerate 0 (normalize_items (xo_evidence found))))"
    using aligned_source_yields_requests [of q r _ i now a e ls l p read out reason content finder found,
      OF assms(1,2) refl assms(3-13)] by blast
  note t = evidence_is_traceable [OF assms(1,3,4) d rq eq y aqs]
  let ?aqs = "map (\<lambda>(k, v). alignment_request_of y r k v) (enumerate 0 (normalize_items (xo_evidence found)))"
  have "map aq_evidence (map (\<lambda>(k, v). alignment_request_of y r k v) (enumerate 0 vs)) = vs" for vs
    by (rule nth_equalityI) (auto simp: nth_enumerate_eq alignment_request_of_def)
  then have ev: "map aq_evidence ?aqs = normalize_items (xo_evidence found)" by blast
  have dist: "distinct (map aq_evidence ?aqs)" by (simp only: ev normalize_items_spec(2))
  have all: "\<forall>aq \<in> set ?aqs. aq_run_id aq = er_run_id q \<and> aq_question_id aq = er_question_id q
      \<and> aq_gap_id aq = er_gap_id q \<and> aq_dimension_key aq = gr_dimension_key r
      \<and> aq_requirement_type aq = gr_type r \<and> aq_source_id aq = sl_source_id l
      \<and> sl_execution_id l = i \<and> aq_reader_execution_id aq = x \<and> aq_extraction_id aq = z"
    by (intro ballI conjI) (rule t(1-6) t(8,10,11), assumption)+
  show ?thesis
    by (rule exI [of _ d], rule exI [of _ rq], rule exI [of _ eq], rule exI [of _ y], rule exI [of _ ?aqs], intro conjI)
      (rule d rq eq y aqs ev dist all)+
qed

definition demo_gap_query :: execution_request where
  "demo_gap_query =
     \<lparr>er_execution_id = UUID 21, er_run_id = UUID 2, er_question_id = ''q1'', er_gap_id = UUID 1,
      er_dimension_key = ''market'', er_candidate_id = UUID 13, er_ranking_score = 1 / 2,
      er_query_text = ''market report'', er_source_constraints = [], er_requirement_type = IndependentSource,
      er_execution_reason = ''ok'', er_feedback_id = None, er_feedback_execution_id = None, er_trigger_reason = None\<rparr>"

definition demo_search :: search_adapter where
  "demo_search = \<lparr>sa_name = ''search'',
     sa_search = (\<lambda>_ _. Inr \<lparr>sr_provider = ''search'', sr_sources = ['' stats.gov '', ''stats.gov'']\<rparr>)\<rparr>"

definition demo_reading :: "string \<Rightarrow> reader_output adapter_reply" where
  "demo_reading s = (if s = ''stats.gov'' then Inr \<lparr>ro_content = ''a page'', ro_parse = ParseSuccess\<rparr>
     else Inl \<lparr>ax_message = ''timeout'', ax_class = ''ReadError''\<rparr>)"

definition demo_extraction :: "string \<Rightarrow> extractor_output adapter_reply" where
  "demo_extraction s = Inr \<lparr>xo_claims = [''the market grows''], xo_evidence = [s, '' '', s]\<rparr>"

definition demo_gap_alignment :: search_alignment where
  "demo_gap_alignment = search_alignment_of (run_query (UUID 30) 0 demo_search ExecReady demo_gap_query)
     (demo_requirement IndependentSource GOpen) (UUID 13) ''stats.gov''"

lemma demo_gap_run:
  "generate_search_alignments (run_query (UUID 30) 0 demo_search ExecReady demo_gap_query)
     (demo_requirement IndependentSource GOpen) = Inr [demo_gap_alignment]"
  "for_gap demo_gap_query (demo_requirement IndependentSource GOpen)"
  "sl_status demo_gap_alignment = SearchAligned" "sl_source_id demo_gap_alignment = ''stats.gov''"
  "normalize_items [''a page'', '' '', ''a page''] = [''a page'']"
  by code_simp+

theorem aligned_evidence_reaches_its_gap_witness:
  "\<exists>d rq eq y aqs. route None demo_gap_alignment = Inr d
     \<and> create_reader_request d (demo_requirement IndependentSource GOpen) = Inr [rq]
     \<and> create_extraction_request (UUID 32) ''independent_source'' ''a page'' ''read'' (run_reader (UUID 31) 1 demo_reading rq) = Inr eq
     \<and> run_extractor (UUID 33) 2 demo_extraction (run_reader (UUID 31) 1 demo_reading rq) eq = Inr y
     \<and> create_alignment_requests y (demo_requirement IndependentSource GOpen) = Inr aqs
     \<and> map aq_evidence aqs = [''a page'']"
proof -
  have blank: "\<not> blank ''a page''" "\<not> blank ''read''" by code_simp+
  have open_gap: "gr_closure_status (demo_requirement IndependentSource GOpen) \<noteq> GClosed" by (simp add: demo_requirement_def)
  show ?thesis
    using aligned_evidence_reaches_its_gap [where p = None
        and read = demo_reading and finder = demo_extraction and content = "''a page''" and reason = "''read''"
        and found = "\<lparr>xo_claims = [''the market grows''], xo_evidence = [''a page'', '' '', ''a page'']\<rparr>"
        and out = "\<lparr>ro_content = ''a page'', ro_parse = ParseSuccess\<rparr>"
        and j = "UUID 32" and ty = "''independent_source''" and x = "UUID 31" and now' = 1 and z = "UUID 33" and now'' = 2,
        OF demo_gap_run(2) _ demo_gap_run(1) _ demo_gap_run(3)]
      blank demo_gap_run(4,5) open_gap
    by (simp add: demo_reading_def demo_extraction_def) (elim exE conjE, intro exI conjI, assumption+)
qed

end
