(* ===== verification/Spec2Isabelle.thy ===== *)
theory Spec2Isabelle
  imports Prelude Research_State Provider_Health Provider_Routing Gap_Closure Closure_Feedback Research_Context
    Research_Pipeline Query_Execution Feedback_Dispatch Unicode_Text Research_Budget Planning
    Run_Lifecycle Run_Machine Run_Effects Run_Guarantees State_Runtime
    Recovery_Execution Token_Ledger Token_Guarantees Resource_Limits Page_Guarantees
    Evidence_Analysis Evidence_Text Claim_Contracts Research_Graph Worker_Execution
    Evidence_Pipeline
begin

text \<open>
  A model of the decision core of a deep-research agent (\<open>apps/api/app\<close>) with its correctness
  theorems.

  \<^bold>\<open>The program.\<close> A run answers one research question. Runs are rows of a database; a
  dispatcher hands them to workers, which execute a loop: plan questions, search the web through a
  pool of providers, read pages, extract evidence, evaluate which gaps of the plan are closed, and
  write a report. A gap that stays open produces a feedback; the feedback becomes a need, an action,
  a query intent, a query plan, ranked candidates and finally one extra query execution. The state
  that the graph sees is a small snapshot changed only by versioned patches.

  \<^bold>\<open>Theories and the code they model\<close> (paths relative to \<open>apps/api/app\<close>).

  \<^item> \<open>Prelude\<close>: exceptions as values, insertion-ordered dictionaries, text, JSON, rounding.
  \<^item> \<open>Research_State\<close>: \<open>domain/state.py\<close>, \<open>agent/reducers/state_reducer.py\<close>. The snapshot, its
    validators and the patch reducer; accepted patches keep the declared invariant, a version is
    consumed once, the merges refine updates of finite maps.
  \<^item> \<open>Provider_Health\<close>: \<open>domain/provider_failure_classification.py\<close>, \<open>domain/provider_health.py\<close>,
    \<open>infrastructure/db/run_providers.py\<close>. Failure taxonomy and the circuit breaker of each provider,
    as a fold over success, failure, expiry and recording steps.
  \<^item> \<open>Provider_Routing\<close>: \<open>domain/provider_registry.py\<close>, \<open>domain/provider_router.py\<close>,
    \<open>domain/provider_executor.py\<close>, \<open>domain/provider_adapter.py\<close>. Which provider serves a request, and
    the execution of the chosen one.
  \<^item> \<open>Gap_Closure\<close>: \<open>domain/gap_closure.py\<close>, \<open>domain/closure_evaluator.py\<close>,
    \<open>domain/closure_evaluation_context.py\<close>, \<open>domain/evidence_alignment.py\<close>, \<open>domain/gap_projection.py\<close>.
    Requirements, their evaluation against evidence, the transition record, and the projection of
    the plan's dimensions to requirements.
  \<^item> \<open>Closure_Feedback\<close>: \<open>domain/closure_feedback.py\<close>, \<open>domain/closure_feedback_completeness.py\<close>,
    \<open>domain/closure_feedback_completeness_pass.py\<close>, \<open>domain/run_closure_feedback_finalizer.py\<close>.
  \<^item> \<open>Research_Context\<close>: \<open>domain/research_context.py\<close>, \<open>domain/research_context_resolver.py\<close>.
  \<^item> \<open>Research_Pipeline\<close>: \<open>domain/research_need.py\<close>, \<open>research_action.py\<close>, \<open>research_query_intent.py\<close>,
    \<open>research_query_plan.py\<close>, \<open>query_plan_validation.py\<close>, \<open>query_candidate.py\<close>,
    \<open>query_candidate_validation.py\<close>, one section per stage, each with a lemma saying what the stage
    returns on what the previous one produces.
  \<^item> \<open>Query_Execution\<close>: \<open>domain/query_candidate_ranking.py\<close>, \<open>feedback_execution.py\<close>,
    \<open>query_execution.py\<close>, \<open>feedback_query_executor_adapter.py\<close>.
  \<^item> \<open>Feedback_Dispatch\<close>: \<open>domain/closure_feedback_dispatcher.py\<close> and the methods of
    \<open>infrastructure/db/research_tools.py\<close> that dispatch, backfill, finalise and claim feedback. The run
    is the slice of the run row these methods read and write and its event log; \<open>run_step\<close> is the
    relation of one such method call, and invariants are proved once in the locale
    \<open>run_invariant\<close> and interpreted for the execution limit, the growth of the log and the claims.

  \<^item> \<open>Unicode_Text\<close>: UTF-8 text as code points, where the code counts or cuts characters.
  \<^item> \<open>Research_Budget\<close>: \<open>domain/question_research_state.py\<close>, \<open>domain/research_budget.py\<close>. Question
    budgets, risk states, the borrowing gate and the resource pools of a usage snapshot.
  \<^item> \<open>Planning\<close>: \<open>domain/planning.py\<close>. Plans and drafts, fitting to a budget, search hints,
    follow-up questions; the numbering loop is a \<open>function\<close> with a measure.
  \<^item> \<open>Run_Lifecycle\<close>: \<open>domain/research_runs.py\<close>, \<open>infrastructure/db/run_models.py\<close>,
    \<open>research_runs.py\<close>, \<open>outbox.py\<close>, and the transactions of \<open>reports.py\<close> that end a run. The tables are
    a record; each method is a function from the database to a reply and the database it commits.
  \<^item> \<open>Run_Machine\<close>, \<open>Run_Effects\<close>: all these transactions as one step relation, and the
    \<open>effect\<close> that every one of them has on the rows, the event log, the outbox and the plans.
  \<^item> \<open>Run_Guarantees\<close>: by induction over sequences of transactions, the invariant of the tables,
    the fencing of workers that lost a run (locale \<open>worker_call\<close>, interpreted for every method a
    worker calls), the bound on durable retries, and the replan that blocks the later ones. What most
    transactions keep of a row is proved once in the locale \<open>row_view\<close>, interpreted for the plan version
    and, in \<open>Page_Guarantees\<close>, for the page counters.

  \<^item> \<open>State_Runtime\<close>: \<open>infrastructure/db/state_runtime.py\<close>, \<open>state_models.py\<close>. The projection of a run
    to the snapshot of \<open>Research_State\<close>: snapshots and patch log agree after any sequence of calls, and
    exactly when a synchronisation is refused.

  \<^item> \<open>Recovery_Execution\<close>: \<open>domain/recovery_execution.py\<close> and the event writer of
    \<open>infrastructure/db/research_tools.py\<close>, which attaches the context of an active recovery.
  \<^item> \<open>Token_Ledger\<close>, \<open>Token_Guarantees\<close>: the model token budget of \<open>research_tools.py\<close> over
    \<open>model_budget_models.py\<close>: the guard before a call, reservations and their end, the live pool views.
    Over any sequence of these transactions a reservation is charged once; a granted one fits run,
    pool and question; a pool is not overdrawn while calls end before their lease.
  \<^item> \<open>Resource_Limits\<close>, \<open>Page_Guarantees\<close>: the page and extraction slots of \<open>research_tools.py\<close>, the
    events of a candidate page, the hard limits and the deadline. Every page operation is arithmetic on
    four counters; histories of any workers stay within the limits, slots of a lost worker stay reserved
    until the run is deferred or fails, and each budget stop is related to the stop reason the state reports.

  \<^item> \<open>Evidence_Analysis\<close>: \<open>domain/evidence_failure_classification.py\<close>, \<open>research_need_refinement.py\<close>,
    \<open>claim_verification_analyzer.py\<close>, \<open>evidence_quality_analyzer.py\<close>. Why a requirement is not closed,
    what to look for, and exactly which unsatisfied requirements get no explanation.
  \<^item> \<open>Evidence_Text\<close>: the text part of \<open>domain/evidence_graph.py\<close>. Quotes are found up to white space and
    cut out of the source with their surroundings, with exact offsets.
  \<^item> \<open>Claim_Contracts\<close>: \<open>domain/claim_architecture.py\<close>. Claims, links and the structural comparison of
    two claims, which is symmetric and confines contradictions to claims of one scope.

  \<^item> \<open>Evidence_Pipeline\<close>: \<open>domain/query_executor.py\<close>, \<open>search_result_alignment.py\<close>,
    \<open>evidence_routing.py\<close>, \<open>reader_request.py\<close>, \<open>reader_executor.py\<close>, \<open>evidence_extraction_request.py\<close>,
    \<open>evidence_extractor.py\<close>, \<open>evidence_alignment_request.py\<close>, \<open>evidence_alignment_executor.py\<close>. The stages from a
    query to classified evidence; each accepts what the one before it makes for an open gap, and the
    evidence can be traced back to the query.

  \<^item> \<open>Research_Graph\<close>: \<open>services/research_graph.py\<close>. The nodes and their order as actions over the tables of
    \<open>State_Runtime\<close>, with arbitrary services and arbitrary transactions between two calls (locale
    \<open>act_relation\<close>, interpreted for the history of the tables and for a worker that lost the run). The
    engine that runs the nodes is a library the code calls: it is an argument, and \<open>engine_follows\<close> states what
    is assumed of it.
  \<^item> \<open>Worker_Execution\<close>: \<open>worker/tasks.py\<close>, \<open>worker/dispatcher.py\<close>. One execution with all error handlers, and one
    round of the dispatcher: an execution that fails gives up the run, every claimed message is settled.

  \<^bold>\<open>Conventions.\<close> A dataclass is a record with prefixed field names, an enumeration a datatype.
  An exception is the \<open>Inl\<close> of a result; a transaction that raises leaves the stored state as it
  was, so it has no successor. Clock readings, \<open>uuid4()\<close> and \<open>uuid7()\<close> values and the printed form of
  identifiers are arguments. A \<open>uuid5\<close> is the constructor \<open>UUID5\<close> applied to its name's literal prefix
  and parts, which makes it injective where SHA-1 is assumed collision free. Floats are rationals and
  \<open>round\<close> is round-half-even on the exact value, so results can differ from the machine's in the last
  printed digit at ties. The fifth root of the ranking is the best value on the grid of four
  decimals. Text is a list of bytes (UTF-8), case operations act on ASCII, and length limits count
  bytes. Chinese prose that only informs a reader is dropped or kept as a gloss. Database rows read by
  a method are its arguments, or part of the modelled state where it writes them.

  \<^bold>\<open>Bounds.\<close> Every definition is total: structural recursion, \<open>foldM\<close> over the list the code
  iterates, or \<open>function\<close> with a termination proof (the numbering loop and the pattern matcher of
  \<open>Planning\<close>). No fuel occurs in the model; the only bounded recursion over a number is the engine on
  which the witnesses of \<open>Research_Graph\<close> and \<open>Worker_Execution\<close> run.

  \<^bold>\<open>Not modelled.\<close> Search, reading and model calls (network clients and their parsers), the
  object-relational schema, HTTP routes, the command line, the frontend, secrets and sessions, the
  analysis and benchmark scripts. Of \<open>research_tools.py\<close> the methods that
  store search results, evidence and traces are left out, and of \<open>domain\<close> the recovery traces, the adaptive
  scheduler and the graph of evidence nodes.
\<close>

end
